(* ===== verification/Contracts.thy ===== *)
theory Contracts
  imports Prelude
begin

text \<open>
  The generated contract bindings (\<open>src/contracts/events/events_gen.go\<close>,
  \<open>src/contracts/deploymentservice/types_gen.go\<close>, \<open>src/contracts/artifact/manifest_gen.go\<close>): the error registry, the stage vocabulary, the
  deployment status enum, the deployment record, the event structs and the artifact manifest.

  \<open>ErrorCode\<close> and \<open>FailedStage\<close> are closed enums (the worker writes only the listed constants);
  \<open>DeploymentStatus\<close> is read from a service, so a value outside the enum is kept as
  \<open>DeploymentStatusUnknown\<close>. \<open>RenderMode\<close> and \<open>Environment\<close> stay strings, as in the structs.
\<close>

section \<open>events\<close>

datatype error_code =
    ErrorCodeValidationFailed
  | ErrorCodePageNotFound
  | ErrorCodeVersionNotFound
  | ErrorCodeVersionSlugMismatch
  | ErrorCodePageNotPublished
  | ErrorCodeInvalidSlug
  | ErrorCodeAssetPermissionDenied
  | ErrorCodeUnresolvedAssetRef
  | ErrorCodeUnsupportedDynamicImageOptimizer
  | ErrorCodePathTraversalDetected
  | ErrorCodeRenderOrigin401
  | ErrorCodeRenderOrigin403
  | ErrorCodeRenderOrigin404
  | ErrorCodeRenderOrigin5xx
  | ErrorCodeRenderOriginTimeout
  | ErrorCodeStorageTimeout
  | ErrorCodeStorage5xx
  | ErrorCodeArtifactUploadTimeout
  | ErrorCodeDeploymentServiceTimeout
  | ErrorCodeQueueTemporaryFailure
  | ErrorCodeStatusConflict
  | ErrorCodeConfigMissing
  | ErrorCodeDeploymentService401
  | ErrorCodeDeploymentService403
  | ErrorCodeAssetService401
  | ErrorCodeAssetService403

fun error_code_string :: "error_code \<Rightarrow> string" where
  "error_code_string ErrorCodeValidationFailed = ''VALIDATION_FAILED''"
| "error_code_string ErrorCodePageNotFound = ''PAGE_NOT_FOUND''"
| "error_code_string ErrorCodeVersionNotFound = ''VERSION_NOT_FOUND''"
| "error_code_string ErrorCodeVersionSlugMismatch = ''VERSION_SLUG_MISMATCH''"
| "error_code_string ErrorCodePageNotPublished = ''PAGE_NOT_PUBLISHED''"
| "error_code_string ErrorCodeInvalidSlug = ''INVALID_SLUG''"
| "error_code_string ErrorCodeAssetPermissionDenied = ''ASSET_PERMISSION_DENIED''"
| "error_code_string ErrorCodeUnresolvedAssetRef = ''UNRESOLVED_ASSET_REF''"
| "error_code_string ErrorCodeUnsupportedDynamicImageOptimizer =
     ''UNSUPPORTED_DYNAMIC_IMAGE_OPTIMIZER''"
| "error_code_string ErrorCodePathTraversalDetected = ''PATH_TRAVERSAL_DETECTED''"
| "error_code_string ErrorCodeRenderOrigin401 = ''RENDER_ORIGIN_401''"
| "error_code_string ErrorCodeRenderOrigin403 = ''RENDER_ORIGIN_403''"
| "error_code_string ErrorCodeRenderOrigin404 = ''RENDER_ORIGIN_404''"
| "error_code_string ErrorCodeRenderOrigin5xx = ''RENDER_ORIGIN_5XX''"
| "error_code_string ErrorCodeRenderOriginTimeout = ''RENDER_ORIGIN_TIMEOUT''"
| "error_code_string ErrorCodeStorageTimeout = ''STORAGE_TIMEOUT''"
| "error_code_string ErrorCodeStorage5xx = ''STORAGE_5XX''"
| "error_code_string ErrorCodeArtifactUploadTimeout = ''ARTIFACT_UPLOAD_TIMEOUT''"
| "error_code_string ErrorCodeDeploymentServiceTimeout = ''DEPLOYMENT_SERVICE_TIMEOUT''"
| "error_code_string ErrorCodeQueueTemporaryFailure = ''QUEUE_TEMPORARY_FAILURE''"
| "error_code_string ErrorCodeStatusConflict = ''STATUS_CONFLICT''"
| "error_code_string ErrorCodeConfigMissing = ''CONFIG_MISSING''"
| "error_code_string ErrorCodeDeploymentService401 = ''DEPLOYMENT_SERVICE_401''"
| "error_code_string ErrorCodeDeploymentService403 = ''DEPLOYMENT_SERVICE_403''"
| "error_code_string ErrorCodeAssetService401 = ''ASSET_SERVICE_401''"
| "error_code_string ErrorCodeAssetService403 = ''ASSET_SERVICE_403''"

datatype error_classification =
    ErrorClassificationRetryable
  | ErrorClassificationNonRetryable

fun error_classification_string :: "error_classification \<Rightarrow> string" where
  "error_classification_string ErrorClassificationRetryable = ''RETRYABLE''"
| "error_classification_string ErrorClassificationNonRetryable = ''NON_RETRYABLE''"

datatype failed_stage =
    FailedStageConsumeJob
  | FailedStageLoadDeployment
  | FailedStageAcquireLock
  | FailedStageUpdateStatusExporting
  | FailedStageRenderHtml
  | FailedStageHarvestDependencies
  | FailedStageUploadArtifacts
  | FailedStageWriteManifest
  | FailedStageSubmitArtifact
  | FailedStageUpdateStatusReady
  | FailedStageEmitReady
  | FailedStageAckMessage

fun failed_stage_string :: "failed_stage \<Rightarrow> string" where
  "failed_stage_string FailedStageConsumeJob = ''consume_job''"
| "failed_stage_string FailedStageLoadDeployment = ''load_deployment''"
| "failed_stage_string FailedStageAcquireLock = ''acquire_lock''"
| "failed_stage_string FailedStageUpdateStatusExporting = ''update_status_exporting''"
| "failed_stage_string FailedStageRenderHtml = ''render_html''"
| "failed_stage_string FailedStageHarvestDependencies = ''harvest_dependencies''"
| "failed_stage_string FailedStageUploadArtifacts = ''upload_artifacts''"
| "failed_stage_string FailedStageWriteManifest = ''write_manifest''"
| "failed_stage_string FailedStageSubmitArtifact = ''submit_artifact''"
| "failed_stage_string FailedStageUpdateStatusReady = ''update_status_ready''"
| "failed_stage_string FailedStageEmitReady = ''emit_ready''"
| "failed_stage_string FailedStageAckMessage = ''ack_message''"

definition EventTypeExportRequested :: string where
  "EventTypeExportRequested = ''deployment.export.requested''"

definition EventTypeArtifactReady :: string where
  "EventTypeArtifactReady = ''deployment.artifact.ready''"

definition EventTypeExportFailed :: string where
  "EventTypeExportFailed = ''deployment.export.failed''"

record export_requested =
  ev_EventID :: string
  ev_EventType :: string
  ev_DeploymentID :: string
  ev_TeamID :: string
  ev_SiteID :: string
  ev_PageID :: string
  ev_Slug :: string
  ev_Version :: string
  ev_RenderMode :: string
  ev_TargetID :: string
  ev_Environment :: string
  ev_RequestedBy :: string
  ev_IdempotencyKey :: string
  ev_CreatedAt :: string

record artifact_ready =
  rdy_SchemaVersion :: int
  rdy_EventID :: string
  rdy_EventType :: string
  rdy_DeploymentID :: string
  rdy_TeamID :: string
  rdy_SiteID :: string
  rdy_PageID :: string
  rdy_Slug :: string
  rdy_Version :: string
  rdy_Environment :: string
  rdy_RenderMode :: string
  rdy_ArtifactBasePath :: string
  rdy_ManifestStorageKey :: string
  rdy_ManifestDigest :: string
  rdy_Entry :: string
  rdy_FilesCount :: int
  rdy_TotalBytes :: int
  rdy_TraceID :: string
  rdy_CreatedAt :: string

record export_failed =
  fld_SchemaVersion :: int
  fld_EventID :: string
  fld_EventType :: string
  fld_DeploymentID :: string
  fld_TeamID :: string
  fld_SiteID :: string
  fld_PageID :: string
  fld_Slug :: string
  fld_Version :: string
  fld_Environment :: string
  fld_RenderMode :: string
  fld_ErrorCode :: error_code
  fld_ErrorClassification :: error_classification
  fld_FailedStage :: failed_stage
  fld_Attempt :: int
  fld_RetryExhausted :: bool
  fld_TraceID :: string
  fld_CreatedAt :: string

section \<open>deploymentservice\<close>

datatype deployment_status =
    DeploymentStatusPending
  | DeploymentStatusExportQueued
  | DeploymentStatusExporting
  | DeploymentStatusArtifactReady
  | DeploymentStatusCdnUploading
  | DeploymentStatusCdnPurging
  | DeploymentStatusVerifying
  | DeploymentStatusActive
  | DeploymentStatusExportFailed
  | DeploymentStatusCancelled
  | DeploymentStatusUnknown string

record deployment_record =
  rec_DeploymentID :: string
  rec_TeamID :: string
  rec_SiteID :: string
  rec_PageID :: string
  rec_Slug :: string
  rec_Version :: string
  rec_Status :: deployment_status
  rec_RenderMode :: string
  rec_TargetID :: string
  rec_Environment :: string

record status_update_request =
  upd_From :: deployment_status
  upd_To :: deployment_status
  upd_Reason :: string
  upd_TraceID :: string

record artifact_route =
  route_Path :: string
  route_Entry :: string

record artifact_pointer =
  ptr_ManifestStorageKey :: string
  ptr_ArtifactBasePath :: string
  ptr_ManifestDigest :: string
  ptr_Entry :: string
  ptr_FilesCount :: int
  ptr_TotalBytes :: int
  ptr_Routes :: "artifact_route list"

section \<open>artifact\<close>

record manifest_file =
  mf_Path :: string
  mf_StorageKey :: string
  mf_ContentHash :: string
  mf_SizeBytes :: int
  mf_MimeType :: string
  mf_CacheControl :: string

record manifest_route =
  mr_Path :: string
  mr_Entry :: string

record manifest =
  mft_SchemaVersion :: int
  mft_DeploymentID :: string
  mft_SiteID :: string
  mft_PageID :: string
  mft_Slug :: string
  mft_Version :: string
  mft_Environment :: string
  mft_RenderMode :: string
  mft_ArtifactBasePath :: string
  mft_Entry :: string
  mft_Files :: "manifest_file list"
  mft_Routes :: "manifest_route list"
  mft_CreatedAt :: string

section \<open>Facts\<close>

lemma error_code_string_inject [simp]:
  "error_code_string c = error_code_string d \<longleftrightarrow> c = d"
  by (cases c; cases d) simp_all

lemma error_code_string_no_colon [simp]: "CHR '':'' \<notin> set (error_code_string c)"
  by (cases c) simp_all

lemma error_code_string_not_Nil [simp]: "error_code_string c \<noteq> []"
  by (cases c) simp_all

lemma failed_stage_string_inject [simp]:
  "failed_stage_string c = failed_stage_string d \<longleftrightarrow> c = d"
  by (cases c; cases d) simp_all

end
