(* ===== verification/Errclass.thy ===== *)
theory Errclass
  imports Contracts
begin

text \<open>
  Go error values and \<open>src/internal/errclass/errclass.go\<close>.

  A Go \<open>error\<close> is a value of \<open>gerr\<close>, with one constructor per error type or sentinel the worker
  distinguishes; \<open>nil\<close> is \<open>None\<close> of \<open>gerr option\<close>. \<open>fmt.Errorf\<close> with the verb w is \<open>WrapE\<close>: it adds a message
  and keeps the error it wraps. \<open>errors.As\<close> and \<open>errors.Is\<close> walk the unwrap chain.
\<close>

section \<open>Error values\<close>

datatype gerr =
    ClassifiedE error_code failed_stage "gerr option"  \<comment> \<open>\<open>*errclass.Error\<close>\<close>
  | StatusConflictE deployment_status  \<comment> \<open>\<open>*deploymentservice.StatusConflictError\<close>\<close>
  | APIErrorE int  \<comment> \<open>\<open>*deploymentservice.APIError\<close>, by its status code\<close>
  | LockConflictE  \<comment> \<open>\<open>lock.ErrConflict\<close>\<close>
  | UnparseableE  \<comment> \<open>\<open>queue.ErrUnparseable\<close>\<close>
  | ReadyEmitPendingE  \<comment> \<open>\<open>worker.ErrReadyEmitPending\<close>\<close>
  | PipelineUnimplementedE  \<comment> \<open>\<open>worker.ErrPipelineUnimplemented\<close>\<close>
  | RedisNilE  \<comment> \<open>\<open>redis.Nil\<close>\<close>
  | DeadlineExceededE  \<comment> \<open>\<open>context.DeadlineExceeded\<close>\<close>
  | StorageE int  \<comment> \<open>\<open>minio.ErrorResponse\<close>, by its status code\<close>
  | NetE bool "gerr option"  \<comment> \<open>any other error with a method \<open>Timeout()\<close>, by what it reports and wraps\<close>
  | TextE string  \<comment> \<open>any other error, by its message\<close>
  | WrapE gerr

fun Unwrap :: "gerr \<Rightarrow> gerr option" where
  "Unwrap (ClassifiedE c st cause) = cause"
| "Unwrap (NetE t cause) = cause"
| "Unwrap (WrapE e) = Some e"
| "Unwrap _ = None"

fun err_chain :: "gerr \<Rightarrow> gerr list" where
  "err_chain (ClassifiedE c st None) = [ClassifiedE c st None]"
| "err_chain (ClassifiedE c st (Some e)) = ClassifiedE c st (Some e) # err_chain e"
| "err_chain (NetE t None) = [NetE t None]"
| "err_chain (NetE t (Some e)) = NetE t (Some e) # err_chain e"
| "err_chain (WrapE e) = WrapE e # err_chain e"
| "err_chain e = [e]"

definition errors_Is :: "gerr option \<Rightarrow> gerr \<Rightarrow> bool" where
  "errors_Is err target = (case err of None \<Rightarrow> False | Some e \<Rightarrow> target \<in> set (err_chain e))"

text \<open>
  \<open>errors.As(err, &target)\<close>: the first error of the chain that has the target's type, where
  \<open>sel\<close> recognises the type.
\<close>

definition errors_As :: "(gerr \<Rightarrow> 'a option) \<Rightarrow> gerr option \<Rightarrow> 'a option" where
  "errors_As sel err =
     (case err of
        None \<Rightarrow> None
      | Some e \<Rightarrow> (case List.map_filter sel (err_chain e) of [] \<Rightarrow> None | x # _ \<Rightarrow> Some x))"

text \<open>\<open>err.Error()\<close>, as far as the worker inspects it: the message of an unclassified error.\<close>

fun Error_text :: "gerr \<Rightarrow> string" where
  "Error_text (TextE s) = s"
| "Error_text (WrapE e) = Error_text e"
| "Error_text _ = []"

text \<open>\<open>errors.As(err, &t) && t.Timeout()\<close>: the first error of the chain that has the method decides.\<close>

fun timeout_of :: "gerr \<Rightarrow> bool option" where
  "timeout_of DeadlineExceededE = Some True"
| "timeout_of (NetE t _) = Some t"
| "timeout_of _ = None"

definition isTimeout :: "gerr \<Rightarrow> bool" where
  "isTimeout err = (errors_As timeout_of (Some err) = Some True)"

section \<open>Package errclass\<close>

definition retryable :: "error_code set" where
  "retryable =
     {ErrorCodeRenderOriginTimeout, ErrorCodeRenderOrigin5xx, ErrorCodeStorageTimeout,
      ErrorCodeStorage5xx, ErrorCodeQueueTemporaryFailure, ErrorCodeDeploymentServiceTimeout,
      ErrorCodeArtifactUploadTimeout}"

definition authCodes :: "error_code set" where
  "authCodes =
     {ErrorCodeRenderOrigin401, ErrorCodeRenderOrigin403, ErrorCodeDeploymentService401,
      ErrorCodeDeploymentService403, ErrorCodeAssetService401, ErrorCodeAssetService403}"

definition IsAuthCode :: "error_code \<Rightarrow> bool" where
  "IsAuthCode code = (code \<in> authCodes)"

definition Retryable :: "error_code \<Rightarrow> bool" where
  "Retryable code = (code \<in> retryable)"

definition Classification :: "error_code \<Rightarrow> error_classification" where
  "Classification code =
     (if Retryable code then ErrorClassificationRetryable else ErrorClassificationNonRetryable)"

record errclass_error =
  Code :: error_code
  Stage :: failed_stage
  Cause :: "gerr option"

text \<open>The text of a classified error, from the text of its cause.\<close>

definition Error_Error :: "(gerr \<Rightarrow> string) \<Rightarrow> errclass_error \<Rightarrow> string" where
  "Error_Error text_of e =
     (case Cause e of
        Some cause \<Rightarrow> error_code_string (Code e) @ '' at '' @ failed_stage_string (Stage e) @ '': '' @ text_of cause
      | None \<Rightarrow> error_code_string (Code e) @ '' at '' @ failed_stage_string (Stage e))"

definition Error_Retryable :: "errclass_error \<Rightarrow> bool" where
  "Error_Retryable e = Retryable (Code e)"

definition errclass_New :: "error_code \<Rightarrow> failed_stage \<Rightarrow> gerr option \<Rightarrow> errclass_error" where
  "errclass_New code stage cause = \<lparr>Code = code, Stage = stage, Cause = cause\<rparr>"

text \<open>A classified error as an \<open>error\<close> value, and \<open>errors.As(err, &ce)\<close>.\<close>

definition as_error :: "errclass_error \<Rightarrow> gerr" where
  "as_error e = ClassifiedE (Code e) (Stage e) (Cause e)"

fun classified_of :: "gerr \<Rightarrow> errclass_error option" where
  "classified_of (ClassifiedE c st cause) = Some \<lparr>Code = c, Stage = st, Cause = cause\<rparr>"
| "classified_of _ = None"

definition As_Classified :: "gerr option \<Rightarrow> errclass_error option" where
  "As_Classified = errors_As classified_of"

definition From :: "gerr option \<Rightarrow> failed_stage \<Rightarrow> errclass_error" where
  "From err stage =
     (case As_Classified err of
        Some ce \<Rightarrow> ce
      | None \<Rightarrow> errclass_New ErrorCodeQueueTemporaryFailure stage err)"

section \<open>Facts\<close>

lemma err_chain_Unwrap:
  "err_chain e = e # (case Unwrap e of None \<Rightarrow> [] | Some e' \<Rightarrow> err_chain e')"
  by (cases e rule: err_chain.cases) auto

lemma err_chain_self [simp]: "e \<in> set (err_chain e)"
  by (subst err_chain_Unwrap) simp

lemma errors_As_None [simp]: "errors_As sel None = None"
  by (simp add: errors_As_def)

lemma errors_As_head [simp]: "sel e = Some x \<Longrightarrow> errors_As sel (Some e) = Some x"
  by (simp add: errors_As_def err_chain_Unwrap [of e] List.map_filter_simps)

lemma errors_As_skip: "sel e = None \<Longrightarrow> errors_As sel (Some e) = errors_As sel (Unwrap e)"
  by (simp add: errors_As_def err_chain_Unwrap [of e] List.map_filter_simps split: option.splits)

lemma errors_As_Wrap: "sel (WrapE e) = None \<Longrightarrow> errors_As sel (Some (WrapE e)) = errors_As sel (Some e)"
  by (simp add: errors_As_skip)

lemma errors_As_in_chain: "errors_As sel (Some e) = Some x \<Longrightarrow> \<exists>e' \<in> set (err_chain e). sel e' = Some x"
  by (induction e rule: err_chain.induct)
    (auto simp: errors_As_def List.map_filter_simps split: list.splits option.splits)

lemma From_classified [simp]: "From (Some (as_error ce)) st = ce"
  by (cases "Cause ce") (simp_all add: From_def As_Classified_def as_error_def)

lemma From_Wrap: "From (Some (WrapE e)) st = (case As_Classified (Some e) of
    Some ce \<Rightarrow> ce | None \<Rightarrow> errclass_New ErrorCodeQueueTemporaryFailure st (Some (WrapE e)))"
  by (simp add: From_def As_Classified_def errors_As_Wrap)

lemma classified_of_None: "(\<And>c s g. e \<noteq> ClassifiedE c s g) \<Longrightarrow> classified_of e = None"
  by (cases e) auto

text \<open>An error with no classified error in its chain gets the retryable default code.\<close>

lemma From_unclassified:
  assumes "\<And>c s g. ClassifiedE c s g \<notin> set (err_chain e)"
  shows "From (Some e) st = errclass_New ErrorCodeQueueTemporaryFailure st (Some e)"
proof -
  from assms have "classified_of x = None" if "x \<in> set (err_chain e)" for x
    using that by (auto intro!: classified_of_None)
  then have "List.map_filter classified_of (err_chain e) = []"
    by (simp add: List.map_filter_def filter_empty_conv)
  then show ?thesis by (simp add: From_def As_Classified_def errors_As_def)
qed

lemma Retryable_default [simp]: "Retryable ErrorCodeQueueTemporaryFailure"
  by (simp add: Retryable_def retryable_def)

lemma auth_not_retryable: "IsAuthCode c \<Longrightarrow> \<not> Retryable c"
  by (auto simp: IsAuthCode_def Retryable_def authCodes_def retryable_def)

end
