(* ===== verification/Go_URL.thy ===== *)
theory Go_URL
  imports Prelude
begin

text \<open>
  The functions of Go's \<open>net/url\<close> the worker calls on path segments: \<open>PathEscape\<close> and
  \<open>PathUnescape\<close>, with the round trip between them.
\<close>

section \<open>Characters\<close>

definition is_lower :: "char \<Rightarrow> bool" where
  "is_lower c = (97 \<le> (of_char c :: nat) \<and> (of_char c :: nat) \<le> 122)"

definition is_upper :: "char \<Rightarrow> bool" where
  "is_upper c = (65 \<le> (of_char c :: nat) \<and> (of_char c :: nat) \<le> 90)"

definition is_alpha :: "char \<Rightarrow> bool" where
  "is_alpha c = (is_lower c \<or> is_upper c)"

definition ishex :: "char \<Rightarrow> bool" where
  "ishex c =
     (let n = (of_char c :: nat)
      in 48 \<le> n \<and> n \<le> 57 \<or> 97 \<le> n \<and> n \<le> 102 \<or> 65 \<le> n \<and> n \<le> 70)"

definition unhex :: "char \<Rightarrow> nat" where
  "unhex c =
     (let n = (of_char c :: nat)
      in if 48 \<le> n \<and> n \<le> 57 then n - 48
         else if 97 \<le> n \<and> n \<le> 102 then n - 87
         else if 65 \<le> n \<and> n \<le> 70 then n - 55
         else 0)"

definition upperhex :: "nat \<Rightarrow> char" where
  "upperhex d = (if d < 10 then char_of (48 + d) else char_of (55 + d))"

section \<open>Escaping\<close>

text \<open>\<open>url.PathUnescape\<close>: \<open>None\<close> is an \<open>EscapeError\<close>.\<close>

fun PathUnescape :: "string \<Rightarrow> string option" where
  "PathUnescape [] = Some []"
| "PathUnescape (c # s) =
     (if c = CHR ''%'' then
        (case s of
           a # b # t \<Rightarrow>
             if ishex a \<and> ishex b
             then map_option (Cons (char_of (16 * unhex a + unhex b))) (PathUnescape t)
             else None
         | _ \<Rightarrow> None)
      else map_option (Cons c) (PathUnescape s))"

text \<open>\<open>shouldEscape(c, encodePathSegment)\<close>.\<close>

definition shouldEscape :: "char \<Rightarrow> bool" where
  "shouldEscape c = (\<not> (is_alpha c \<or> is_digit c \<or> c \<in> set ''-_.~$&+:=@''))"

definition PathEscape :: "string \<Rightarrow> string" where
  "PathEscape s =
     concat (map (\<lambda>c. if shouldEscape c
                      then [CHR ''%'', upperhex (of_char c div 16), upperhex (of_char c mod 16)]
                      else [c]) s)"

section \<open>Facts\<close>

lemma upperhex_ishex [simp]: "d < 16 \<Longrightarrow> ishex (upperhex d)"
  by (simp add: ishex_def upperhex_def Let_def)

lemma unhex_upperhex [simp]: "d < 16 \<Longrightarrow> unhex (upperhex d) = d"
  by (simp add: unhex_def upperhex_def Let_def)

lemma percent_escaped [simp]: "shouldEscape CHR ''%''"
  by (simp add: shouldEscape_def is_alpha_def is_lower_def is_upper_def is_digit_def)

lemma char_of_nibbles: "char_of (16 * (of_char c div 16) + of_char c mod 16 :: nat) = c"
  by simp

lemma nibbles [simp]: "(of_char c div 16 :: nat) < 16" "(of_char c mod 16 :: nat) < 16"
  using nat_of_char_less_256 [of c] by linarith+

lemma PathUnescape_PathEscape: "PathUnescape (PathEscape s) = Some s"
  by (induction s) (auto simp: PathEscape_def)

lemma PathUnescape_id: "CHR ''%'' \<notin> set s \<Longrightarrow> PathUnescape s = Some s"
  by (induction s) auto

lemma slash_not_hex [simp]: "\<not> ishex CHR ''/''" "shouldEscape CHR ''/''"
  by (simp_all add: ishex_def shouldEscape_def is_alpha_def is_lower_def is_upper_def is_digit_def)

lemma PathEscape_no_slash: "CHR ''/'' \<notin> set (PathEscape s)"
proof -
  have "CHR ''/'' \<noteq> upperhex d" if "d < 16" for d
    using upperhex_ishex [OF that] slash_not_hex(1) by metis
  then show ?thesis
    by (auto simp: PathEscape_def)
qed

end
