(* ===== verification/Deployment.thy ===== *)
theory Deployment
  imports Errclass Go_URL
begin

text \<open>
  The deployment-service client: the generated transport
  (\<open>src/contracts/deploymentservice/client_gen.go\<close>) and the worker's wrapper around it
  (\<open>src/internal/deployment/client.go\<close>).

  The service is reached through the parameter \<open>http_Do\<close> (method, URL, headers, body; a transport
  error or a status and a body), and the JSON encodings of the request and response structs are the
  parameters of \<open>ds_codec\<close>.
\<close>

section \<open>The generated client\<close>

record 'w http_client =
  http_Do :: "string \<Rightarrow> string \<Rightarrow> (string \<times> string) list \<Rightarrow> string option \<Rightarrow> ('w, gerr + (int \<times> string)) state"

record ds_codec =
  enc_StatusUpdate :: "status_update_request \<Rightarrow> string"
  enc_Pointer :: "artifact_pointer \<Rightarrow> string"
  dec_Record :: "string \<Rightarrow> gerr + deployment_record"
  dec_StatusConflict :: "string \<Rightarrow> gerr + deployment_status"

record 'w ds_client =
  BaseURL :: string
  Token :: string
  HTTPClient :: "'w http_client"
  codec :: ds_codec

text \<open>
  \<open>do\<close> without the decoding of the response, which its callers do: an error, or the body of a 2xx
  response. The hooks turn the body of a listed status into an error.
\<close>

definition ds_do :: "'w ds_client \<Rightarrow> string \<Rightarrow> string \<Rightarrow> string option \<Rightarrow> (int \<rightharpoonup> (string \<Rightarrow> gerr))
    \<Rightarrow> ('w, gerr + string) state" where
  "ds_do c method path in_body errHooks = do {
     let headers =
       (if in_body \<noteq> None then [(''Content-Type'', ''application/json'')] else [])
       @ (if Token c \<noteq> [] then [(''Authorization'', ''Bearer '' @ Token c)] else []);
     resp \<leftarrow> http_Do (HTTPClient c) method (TrimRight (BaseURL c) CHR ''/'' @ path) headers in_body;
     ret (case resp of
            Inl err \<Rightarrow> Inl err
          | Inr (status, body) \<Rightarrow>
              if 200 \<le> status \<and> status < 300 then Inr body
              else (case errHooks status of
                      Some hook \<Rightarrow> Inl (hook body)
                    | None \<Rightarrow> Inl (APIErrorE status)))
   }"

text \<open>The zero value of \<open>DeploymentRecord\<close>, which a 2xx response with an empty body leaves.\<close>

definition zero_record :: deployment_record where
  "zero_record = \<lparr>rec_DeploymentID = [], rec_TeamID = [], rec_SiteID = [], rec_PageID = [], rec_Slug = [],
     rec_Version = [], rec_Status = DeploymentStatusUnknown [], rec_RenderMode = [], rec_TargetID = [],
     rec_Environment = []\<rparr>"

definition GetDeployment :: "'w ds_client \<Rightarrow> string \<Rightarrow> ('w, gerr + deployment_record) state" where
  "GetDeployment c deploymentID = do {
     let path = ''/internal/deployments/'' @ PathEscape deploymentID;
     r \<leftarrow> ds_do c ''GET'' path None Map.empty;
     ret (case r of
            Inl err \<Rightarrow> Inl err
          | Inr body \<Rightarrow> if body = [] then Inr zero_record else dec_Record (codec c) body)
   }"

definition UpdateDeploymentStatus :: "'w ds_client \<Rightarrow> string \<Rightarrow> status_update_request
    \<Rightarrow> ('w, gerr option) state" where
  "UpdateDeploymentStatus c deploymentID body = do {
     let path = ''/internal/deployments/'' @ PathEscape deploymentID @ ''/status'';
     r \<leftarrow> ds_do c ''PATCH'' path (Some (enc_StatusUpdate (codec c) body))
       [409 \<mapsto> (\<lambda>b. case dec_StatusConflict (codec c) b of
                      Inl _ \<Rightarrow> APIErrorE 409
                    | Inr st \<Rightarrow> StatusConflictE st)];
     ret (case r of Inl err \<Rightarrow> Some err | Inr _ \<Rightarrow> None)
   }"

definition ds_SubmitArtifact :: "'w ds_client \<Rightarrow> string \<Rightarrow> artifact_pointer \<Rightarrow> ('w, gerr option) state" where
  "ds_SubmitArtifact c deploymentID body = do {
     let path = ''/internal/deployments/'' @ PathEscape deploymentID @ ''/artifact'';
     r \<leftarrow> ds_do c ''POST'' path (Some (enc_Pointer (codec c) body)) Map.empty;
     ret (case r of Inl err \<Rightarrow> Some err | Inr _ \<Rightarrow> None)
   }"

section \<open>The worker's wrapper\<close>

definition workerOwnedTargets :: "deployment_status set" where
  "workerOwnedTargets =
     {DeploymentStatusExporting, DeploymentStatusArtifactReady, DeploymentStatusExportFailed}"

fun api_error_of :: "gerr \<Rightarrow> int option" where
  "api_error_of (APIErrorE status) = Some status"
| "api_error_of _ = None"

fun status_conflict_of :: "gerr \<Rightarrow> deployment_status option" where
  "status_conflict_of (StatusConflictE st) = Some st"
| "status_conflict_of _ = None"

definition ds_classify :: "gerr \<Rightarrow> failed_stage \<Rightarrow> gerr" where
  "ds_classify err stage =
     (case errors_As api_error_of (Some err) of
        Some status \<Rightarrow>
          if status = 401 then as_error (errclass_New ErrorCodeDeploymentService401 stage (Some err))
          else if status = 403 then as_error (errclass_New ErrorCodeDeploymentService403 stage (Some err))
          else if status = 404
          then as_error (errclass_New ErrorCodeValidationFailed stage (Some (WrapE err)))
          else if 500 \<le> status
          then as_error (errclass_New ErrorCodeDeploymentServiceTimeout stage (Some err))
          else as_error (errclass_New ErrorCodeValidationFailed stage (Some err))
      | None \<Rightarrow> as_error (errclass_New ErrorCodeDeploymentServiceTimeout stage (Some err)))"

definition Load :: "'w ds_client \<Rightarrow> string \<Rightarrow> ('w, gerr + deployment_record) state" where
  "Load c deploymentID = do {
     r \<leftarrow> GetDeployment c deploymentID;
     ret (case r of Inl err \<Rightarrow> Inl (ds_classify err FailedStageLoadDeployment) | Inr rec \<Rightarrow> Inr rec)
   }"

definition Reconcile :: "deployment_record \<Rightarrow> export_requested \<Rightarrow> gerr option" where
  "Reconcile rec ev =
     (let mismatches =
            (if ev_RenderMode ev \<noteq> rec_RenderMode rec then [''renderMode''] else [])
            @ (if ev_Version ev \<noteq> rec_Version rec then [''version''] else [])
            @ (if ev_Slug ev \<noteq> rec_Slug rec then [''slug''] else [])
      in if mismatches \<noteq> []
         then Some (as_error (errclass_New ErrorCodeValidationFailed FailedStageLoadDeployment
                (Some (TextE (Join mismatches '' '')))))
         else None)"

definition AsStatusConflict :: "gerr option \<Rightarrow> deployment_status option" where
  "AsStatusConflict err = errors_As status_conflict_of err"

definition Transition :: "'w ds_client \<Rightarrow> string \<Rightarrow> deployment_status \<Rightarrow> deployment_status
    \<Rightarrow> string \<Rightarrow> string \<Rightarrow> failed_stage \<Rightarrow> ('w, gerr option) state" where
  "Transition c deploymentID from_st to_st reason traceID stage =
     (if to_st \<notin> workerOwnedTargets then ret (Some (TextE ''BUG: CAS to a status the worker does not own''))
      else do {
        err \<leftarrow> UpdateDeploymentStatus c deploymentID
          \<lparr>upd_From = from_st, upd_To = to_st, upd_Reason = reason, upd_TraceID = traceID\<rparr>;
        ret (case err of
               None \<Rightarrow> None
             | Some e \<Rightarrow> (case errors_As status_conflict_of err of
                           Some st \<Rightarrow> Some (StatusConflictE st)
                         | None \<Rightarrow> Some (ds_classify e stage)))
      })"

definition NonActionable :: "deployment_status \<Rightarrow> bool" where
  "NonActionable s =
     (s \<in> {DeploymentStatusArtifactReady, DeploymentStatusExportFailed, DeploymentStatusCancelled,
           DeploymentStatusCdnUploading, DeploymentStatusCdnPurging, DeploymentStatusVerifying,
           DeploymentStatusActive})"

definition Actionable :: "deployment_status \<Rightarrow> bool" where
  "Actionable s = (s = DeploymentStatusExportQueued \<or> s = DeploymentStatusExporting)"

definition SubmitArtifact :: "'w ds_client \<Rightarrow> string \<Rightarrow> artifact_pointer \<Rightarrow> ('w, gerr option) state" where
  "SubmitArtifact c deploymentID pointer = do {
     err \<leftarrow> ds_SubmitArtifact c deploymentID pointer;
     ret (case err of
            None \<Rightarrow> None
          | Some e \<Rightarrow>
              if errors_As api_error_of err = Some 409
              then Some (as_error (errclass_New ErrorCodeValidationFailed FailedStageSubmitArtifact
                     (Some (WrapE e))))
              else Some (ds_classify e FailedStageSubmitArtifact))
   }"

section \<open>Lemmas\<close>

lemma Actionable_NonActionable: "Actionable s \<Longrightarrow> \<not> NonActionable s"
  by (auto simp: Actionable_def NonActionable_def)

lemma status_cases:
  "Actionable s \<or> NonActionable s \<or> s = DeploymentStatusPending \<or> (\<exists>x. s = DeploymentStatusUnknown x)"
  by (cases s) (simp_all add: Actionable_def NonActionable_def)

lemma As_Classified_as_error [simp]: "As_Classified (Some (as_error ce)) = Some ce"
  by (simp add: As_Classified_def as_error_def)

lemma AsStatusConflict_simps [simp]:
  "AsStatusConflict None = None"
  "AsStatusConflict (Some (StatusConflictE st)) = Some st"
  by (simp_all add: AsStatusConflict_def)

lemma ds_classify_classified: "\<exists>ce. ds_classify err stage = as_error ce \<and> Stage ce = stage"
  by (auto simp: ds_classify_def errclass_New_def Let_def split: option.splits)

lemma ds_classify_codes:
  "Code (From (Some (ds_classify err stage)) st) \<in>
     {ErrorCodeDeploymentService401, ErrorCodeDeploymentService403, ErrorCodeValidationFailed,
      ErrorCodeDeploymentServiceTimeout}"
  by (auto simp: ds_classify_def errclass_New_def split: option.splits)

text \<open>Exactly transport failures and 5xx responses are retried.\<close>

lemma ds_classify_retryable:
  "Error_Retryable (From (Some (ds_classify err stage)) st) \<longleftrightarrow>
     (case errors_As api_error_of (Some err) of None \<Rightarrow> True | Some s \<Rightarrow> 500 \<le> s)"
  by (auto simp: ds_classify_def errclass_New_def Error_Retryable_def Retryable_def retryable_def
      split: option.splits)

lemma ds_classify_stage [simp]: "Stage (From (Some (ds_classify err stage)) st) = stage"
  using ds_classify_classified [of err stage] by auto

lemma wp_ds_do:
  "wp (ds_do c method path body hooks) Q w =
     wp (http_Do (HTTPClient c) method (TrimRight (BaseURL c) CHR ''/'' @ path)
          ((if body \<noteq> None then [(''Content-Type'', ''application/json'')] else [])
           @ (if Token c \<noteq> [] then [(''Authorization'', ''Bearer '' @ Token c)] else [])) body)
       (\<lambda>resp. Q (case resp of
            Inl err \<Rightarrow> Inl err
          | Inr (status, b) \<Rightarrow>
              if 200 \<le> status \<and> status < 300 then Inr b
              else (case hooks status of Some hook \<Rightarrow> Inl (hook b) | None \<Rightarrow> Inl (APIErrorE status)))) w"
  by (simp add: ds_do_def Let_def)

end
