(* ===== verification/Redis.thy ===== *)
theory Redis
  imports Errclass
begin

text \<open>
  The Redis commands the worker issues through \<open>go-redis\<close>, as a record of effectful operations: the
  server and the client library are outside the repository, so every definition that talks to Redis
  takes this record as a parameter.

  \<open>redis_view\<close> is the part of a server's state that the documented behaviour of the commands speaks
  about. The laws that a development needs of a server are stated per component, as locales over
  these two types.
\<close>

section \<open>Commands\<close>

type_synonym fields = "(string \<times> string) list"

record x_message =
  xm_ID :: string
  xm_Values :: fields

record x_pending =
  xp_Count :: int
  xp_Lower :: string

record x_group =
  xg_Name :: string
  xg_LastDeliveredID :: string

text \<open>The writes that can be queued in a transaction (\<open>TxPipeline\<close>).\<close>

datatype redis_cmd =
    HSet string string string
  | ZAdd string int string
  | ZRem string string
  | HDel string string

text \<open>
  An operation returns an error or its reply. \<open>Eval\<close> runs a script atomically, and a script is a
  program over the primitives \<open>lua_get\<close>, \<open>lua_pexpire\<close> and \<open>lua_del\<close>.
\<close>

record 'w redis =
  XAdd :: "string \<Rightarrow> fields \<Rightarrow> ('w, gerr + string) state"
  XReadGroup :: "string \<Rightarrow> string \<Rightarrow> string \<Rightarrow> int \<Rightarrow> duration \<Rightarrow> ('w, gerr + (string \<times> x_message list) list) state"
  XAck :: "string \<Rightarrow> string \<Rightarrow> string list \<Rightarrow> ('w, gerr option) state"
  XAutoClaim :: "string \<Rightarrow> string \<Rightarrow> string \<Rightarrow> duration \<Rightarrow> string \<Rightarrow> int \<Rightarrow> ('w, gerr + x_message list) state"
  XPending :: "string \<Rightarrow> string \<Rightarrow> ('w, gerr + x_pending) state"
  XInfoGroups :: "string \<Rightarrow> ('w, gerr + x_group list) state"
  XTrimMinID :: "string \<Rightarrow> string \<Rightarrow> ('w, gerr + int) state"
  XGroupCreateMkStream :: "string \<Rightarrow> string \<Rightarrow> string \<Rightarrow> ('w, gerr option) state"
  TxPipeline_Exec :: "redis_cmd list \<Rightarrow> ('w, gerr option) state"
  Cmd_Err :: "redis_cmd \<Rightarrow> ('w, gerr option) state"
  ZRangeByScore :: "string \<Rightarrow> int \<Rightarrow> int \<Rightarrow> ('w, gerr + string list) state"
  HMGet :: "string \<Rightarrow> string list \<Rightarrow> ('w, gerr + string option list) state"
  ZRangeWithScores :: "string \<Rightarrow> int \<Rightarrow> int \<Rightarrow> ('w, gerr + (string \<times> int) list) state"
  SetNX :: "string \<Rightarrow> string \<Rightarrow> duration \<Rightarrow> ('w, gerr + bool) state"
  lua_get :: "string \<Rightarrow> ('w, string option) state"
  lua_pexpire :: "string \<Rightarrow> int \<Rightarrow> ('w, int) state"
  lua_del :: "string \<Rightarrow> ('w, int) state"
  Eval :: "('w, int) state \<Rightarrow> ('w, gerr + int) state"

section \<open>The state the commands speak about\<close>

type_synonym stream_id = "nat \<times> nat"

record consumer_group =
  last_delivered :: stream_id
  pel :: "stream_id list"  \<comment> \<open>delivered and not acknowledged\<close>

record redis_view =
  streams :: "string \<Rightarrow> (stream_id \<times> fields) list"
  groups :: "string \<Rightarrow> string \<rightharpoonup> consumer_group"
  hashes :: "string \<Rightarrow> string \<rightharpoonup> string"
  zsets :: "string \<Rightarrow> string \<rightharpoonup> int"

fun apply_cmd :: "redis_cmd \<Rightarrow> redis_view \<Rightarrow> redis_view" where
  "apply_cmd (HSet key f v) s = s\<lparr>hashes := (hashes s)(key := (hashes s key)(f \<mapsto> v))\<rparr>"
| "apply_cmd (ZAdd key score m) s = s\<lparr>zsets := (zsets s)(key := (zsets s key)(m \<mapsto> score))\<rparr>"
| "apply_cmd (ZRem key m) s = s\<lparr>zsets := (zsets s)(key := (zsets s key)(m := None))\<rparr>"
| "apply_cmd (HDel key f) s = s\<lparr>hashes := (hashes s)(key := (hashes s key)(f := None))\<rparr>"

text \<open>The order of stream IDs: by milliseconds, then by sequence number.\<close>

fun sid_less :: "stream_id \<Rightarrow> stream_id \<Rightarrow> bool" where
  "sid_less (a, b) (c, d) = (a < c \<or> a = c \<and> b < d)"

definition print_sid :: "stream_id \<Rightarrow> string" where
  "print_sid i = FormatUint (fst i) @ ''-'' @ FormatUint (snd i)"

section \<open>Lemmas\<close>

lemma sid_less_irrefl [simp]: "\<not> sid_less i i"
  by (cases i) simp

lemma sid_less_trans: "sid_less i j \<Longrightarrow> sid_less j k \<Longrightarrow> sid_less i k"
  by (cases i; cases j; cases k) auto

lemma sid_not_less_trans: "\<not> sid_less i j \<Longrightarrow> \<not> sid_less j k \<Longrightarrow> \<not> sid_less i k"
  by (cases i; cases j; cases k) auto

lemma sid_less_asym: "sid_less i j \<Longrightarrow> \<not> sid_less j i"
  by (cases i; cases j) auto

lemma sid_less_linear: "sid_less i j \<or> i = j \<or> sid_less j i"
  by (cases i; cases j) auto

end
