(* ===== verification/Go_Time.thy ===== *)
theory Go_Time
  imports Prelude
begin

text \<open>
  Formatting of instants in UTC: the layouts \<open>time.RFC3339\<close> and \<open>time.RFC3339Nano\<close>, which the
  worker writes into outcome events and dead-letter entries.
\<close>

text \<open>Year, month and day of a day number (day 0 is 1 January 1970), proleptic Gregorian.\<close>

definition civil_from_days :: "int \<Rightarrow> int \<times> int \<times> int" where
  "civil_from_days days =
     (let z = days + 719468;
          era = z div 146097;
          doe = z mod 146097;
          yoe = (doe - doe div 1460 + doe div 36524 - doe div 146096) div 365;
          doy = doe - (365 * yoe + yoe div 4 - yoe div 100);
          mp = (5 * doy + 2) div 153;
          d = doy - (153 * mp + 2) div 5 + 1;
          m = (if mp < 10 then mp + 3 else mp - 9);
          y = yoe + era * 400 + (if m \<le> 2 then 1 else 0)
      in (y, m, d))"

definition pad :: "nat \<Rightarrow> int \<Rightarrow> string" where
  "pad width n =
     (let ds = FormatUint (nat \<bar>n\<bar>)
      in (if n < 0 then ''-'' else []) @ replicate (width - length ds) CHR ''0'' @ ds)"

definition format_seconds :: "time \<Rightarrow> string" where
  "format_seconds t =
     (let secs = t div Second; (y, m, d) = civil_from_days (secs div 86400); sod = secs mod 86400
      in pad 4 y @ ''-'' @ pad 2 m @ ''-'' @ pad 2 d @ ''T'' @ pad 2 (sod div 3600) @ '':''
         @ pad 2 (sod div 60 mod 60) @ '':'' @ pad 2 (sod mod 60))"

definition format_RFC3339 :: "time \<Rightarrow> string" where
  "format_RFC3339 t = format_seconds t @ ''Z''"

text \<open>The fraction of a second, without trailing zeros; nothing when it is zero.\<close>

definition format_RFC3339Nano :: "time \<Rightarrow> string" where
  "format_RFC3339Nano t =
     (let frac = TrimRight (pad 9 (t mod Second)) CHR ''0''
      in format_seconds t @ (if frac = [] then [] else CHR ''.'' # frac) @ ''Z'')"

end
