(* ===== verification/Queue.thy ===== *)
theory Queue
  imports Redis Go_Time
begin

text \<open>
  The queue driver: message types (\<open>src/internal/queue/driver.go\<close>), the Redis Streams driver
  (\<open>src/internal/queue/redis.go\<close>) and outcome streams (\<open>src/internal/queue/outcome.go\<close>).
\<close>

section \<open>driver.go\<close>

definition StreamMain :: string where "StreamMain = ''anvilkit:deployment.export.requested''"
definition StreamDLQ :: string where "StreamDLQ = ''anvilkit:deployment.export.dlq''"
definition KeyRetryPayloads :: string where "KeyRetryPayloads = ''anvilkit:deployment.export.retry:payloads''"
definition KeyRetryZSet :: string where "KeyRetryZSet = ''anvilkit:deployment.export.retry:zset''"
definition ConsumerGroup :: string where "ConsumerGroup = ''export-worker''"

record message =
  msg_ID :: string
  msg_Payload :: string
  msg_Attempt :: int
  msg_LastErrorCode :: string
  msg_TraceID :: string

record outgoing_message =
  out_Payload :: string
  out_Attempt :: int
  out_LastErrorCode :: string
  out_TraceID :: string

record dlq_entry =
  dlq_Payload :: string
  dlq_ErrorCode :: error_code
  dlq_FailedStage :: failed_stage
  dlq_Attempt :: int
  dlq_TraceID :: string
  dlq_WorkerID :: string
  dlq_EnqueuedAt :: time
  dlq_FailedAt :: time

record retry_envelope =
  env_RetryEnvelopeID :: string
  env_DeploymentID :: string
  env_Attempt :: int
  env_NextAttemptAt :: int
  env_LastErrorCode :: error_code
  env_TraceID :: string
  env_Payload :: string

section \<open>redis.go and outcome.go\<close>

record 'w redis_driver =
  rdb :: "'w redis"
  consumer :: string

text \<open>An error of the client library, wrapped with a message.\<close>

definition wrap_err :: "gerr option \<Rightarrow> gerr option" where
  "wrap_err err = map_option WrapE err"

definition wrap_res :: "gerr + 'a \<Rightarrow> gerr + 'a" where
  "wrap_res r = map_sum WrapE id r"

definition EnsureGroup :: "'w redis_driver \<Rightarrow> ('w, gerr option) state" where
  "EnsureGroup d = do {
     err \<leftarrow> XGroupCreateMkStream (rdb d) StreamMain ConsumerGroup ''0'';
     ret (case err of
            Some e \<Rightarrow> if \<not> Contains (Error_text e) ''BUSYGROUP'' then Some (WrapE e) else None
          | None \<Rightarrow> None)
   }"

definition publish_values :: "outgoing_message \<Rightarrow> fields" where
  "publish_values msg =
     [(''payload'', out_Payload msg), (''attempt'', FormatInt (out_Attempt msg))]
     @ (if out_LastErrorCode msg \<noteq> [] then [(''lastErrorCode'', out_LastErrorCode msg)] else [])
     @ (if out_TraceID msg \<noteq> [] then [(''traceId'', out_TraceID msg)] else [])"

definition Publish :: "'w redis_driver \<Rightarrow> outgoing_message \<Rightarrow> ('w, gerr + string) state" where
  "Publish d msg = do {
     r \<leftarrow> XAdd (rdb d) StreamMain (publish_values msg);
     ret (wrap_res r)
   }"

definition fromXMessage :: "x_message \<Rightarrow> message" where
  "fromXMessage m =
     (let value = (\<lambda>key. map_of (xm_Values m) key) in
      \<lparr>msg_ID = xm_ID m,
       msg_Payload = (case value ''payload'' of Some v \<Rightarrow> v | None \<Rightarrow> []),
       msg_Attempt = (case value ''attempt'' of
                        Some v \<Rightarrow> (case ParseInt v of Some n \<Rightarrow> n | None \<Rightarrow> 0)
                      | None \<Rightarrow> 0),
       msg_LastErrorCode = (case value ''lastErrorCode'' of Some v \<Rightarrow> v | None \<Rightarrow> []),
       msg_TraceID = (case value ''traceId'' of Some v \<Rightarrow> v | None \<Rightarrow> [])\<rparr>)"

definition Fetch :: "'w redis_driver \<Rightarrow> int \<Rightarrow> duration \<Rightarrow> ('w, gerr + message list) state" where
  "Fetch d max_n block = do {
     r \<leftarrow> XReadGroup (rdb d) ConsumerGroup (consumer d) StreamMain max_n block;
     ret (case r of
            Inl err \<Rightarrow> if errors_Is (Some err) RedisNilE then Inr [] else Inl (WrapE err)
          | Inr ss \<Rightarrow> Inr (concat (map (\<lambda>(_, ms). map fromXMessage ms) ss)))
   }"

definition Ack :: "'w redis_driver \<Rightarrow> string list \<Rightarrow> ('w, gerr option) state" where
  "Ack d ids =
     (if ids = [] then ret None
      else do {
        err \<leftarrow> XAck (rdb d) StreamMain ConsumerGroup ids;
        ret (wrap_err err)
      })"

definition Reclaim :: "'w redis_driver \<Rightarrow> duration \<Rightarrow> int \<Rightarrow> ('w, gerr + message list) state" where
  "Reclaim d minIdle count = do {
     r \<leftarrow> XAutoClaim (rdb d) StreamMain ConsumerGroup (consumer d) minIdle ''0-0'' count;
     ret (case r of
            Inl err \<Rightarrow> if errors_Is (Some err) RedisNilE then Inr [] else Inl (WrapE err)
          | Inr ms \<Rightarrow> Inr (map fromXMessage ms))
   }"

definition PendingCount :: "'w redis_driver \<Rightarrow> ('w, gerr + int) state" where
  "PendingCount d = do {
     r \<leftarrow> XPending (rdb d) StreamMain ConsumerGroup;
     ret (case r of
            Inl err \<Rightarrow> if errors_Is (Some err) RedisNilE then Inr 0 else Inl (WrapE err)
          | Inr res \<Rightarrow> Inr (xp_Count res))
   }"

definition dlq_values :: "dlq_entry \<Rightarrow> fields" where
  "dlq_values entry =
     [(''payload'', dlq_Payload entry),
      (''errorCode'', error_code_string (dlq_ErrorCode entry)),
      (''failedStage'', failed_stage_string (dlq_FailedStage entry)),
      (''attempt'', FormatInt (dlq_Attempt entry)),
      (''traceId'', dlq_TraceID entry),
      (''workerId'', dlq_WorkerID entry),
      (''enqueuedAt'', format_RFC3339Nano (dlq_EnqueuedAt entry)),
      (''failedAt'', format_RFC3339Nano (dlq_FailedAt entry))]"

definition SendToDLQ :: "'w redis_driver \<Rightarrow> dlq_entry \<Rightarrow> ('w, gerr option) state" where
  "SendToDLQ d entry = do {
     r \<leftarrow> XAdd (rdb d) StreamDLQ (dlq_values entry);
     ret (case r of Inl err \<Rightarrow> Some (WrapE err) | Inr _ \<Rightarrow> None)
   }"

definition EnqueueTimeOf :: "string \<Rightarrow> time" where
  "EnqueueTimeOf entryID =
     (case Cut entryID CHR ''-'' of
        (ms, _, ok) \<Rightarrow>
          if \<not> ok then zero_time
          else (case ParseInt ms of None \<Rightarrow> zero_time | Some n \<Rightarrow> time_UnixMilli n))"

definition StreamArtifactReady :: string where
  "StreamArtifactReady = ''anvilkit:deployment.artifact.ready''"

definition StreamExportFailed :: string where
  "StreamExportFailed = ''anvilkit:deployment.export.failed''"

definition AppendOutcome :: "'w redis_driver \<Rightarrow> string \<Rightarrow> string \<Rightarrow> ('w, gerr + string) state" where
  "AppendOutcome d stream payload = do {
     r \<leftarrow> XAdd (rdb d) stream [(''payload'', payload)];
     ret (wrap_res r)
   }"

section \<open>Lemmas\<close>

text \<open>A published message is read back field by field.\<close>

lemma fromXMessage_publish_values:
  assumes "- (2 ^ 63) \<le> out_Attempt m" "out_Attempt m < 2 ^ 63"
  shows "fromXMessage \<lparr>xm_ID = i, xm_Values = publish_values m\<rparr> =
    \<lparr>msg_ID = i, msg_Payload = out_Payload m, msg_Attempt = out_Attempt m,
     msg_LastErrorCode = out_LastErrorCode m, msg_TraceID = out_TraceID m\<rparr>"
  using assms by (simp add: fromXMessage_def publish_values_def ParseInt_FormatInt Let_def)

lemma EnqueueTimeOf_print_sid:
  assumes "fst i < 2 ^ 63"
  shows "EnqueueTimeOf (print_sid i) = time_UnixMilli (int (fst i))"
proof -
  have "ParseInt (FormatUint (fst i)) = Some (int (fst i))"
    using assms ParseInt_FormatInt [of "int (fst i)"] by (simp add: FormatInt_def)
  then show ?thesis
    by (simp add: EnqueueTimeOf_def print_sid_def)
qed

end
