(* ===== verification/Redis_Server.thy ===== *)
theory Redis_Server
  imports Redis
begin

text \<open>
  An executable server with the documented behaviour of the commands of \<open>Redis\<close>, for one client at a
  time, with a script of faults: a command can be refused, or take effect and lose its reply. It is
  the instance on which the locales that state what a component relies on of Redis are interpreted,
  and on which their hypotheses are shown to hold. Idle times of pending entries are not kept: an
  \<open>XAUTOCLAIM\<close> claims every pending entry.
\<close>

section \<open>State\<close>

datatype fault = Fine | Refused | Lost_Reply

record server =
  srv_streams :: "string \<Rightarrow> (stream_id \<times> fields) list"
  srv_groups :: "string \<Rightarrow> (string \<times> consumer_group) list"
  srv_hashes :: "string \<Rightarrow> string \<rightharpoonup> string"
  srv_zsets :: "string \<Rightarrow> (string \<times> int) list"
  srv_keys :: "string \<rightharpoonup> string \<times> time"  \<comment> \<open>value and expiry\<close>
  srv_time :: time
  srv_faults :: "fault list"

definition empty_server :: server where
  "empty_server =
     \<lparr>srv_streams = (\<lambda>_. []), srv_groups = (\<lambda>_. []), srv_hashes = (\<lambda>_. Map.empty),
      srv_zsets = (\<lambda>_. []), srv_keys = Map.empty, srv_time = 0, srv_faults = []\<rparr>"

definition server_view :: "server \<Rightarrow> redis_view" where
  "server_view s =
     \<lparr>streams = srv_streams s, groups = (\<lambda>key. map_of (srv_groups s key)),
      hashes = srv_hashes s, zsets = (\<lambda>key. map_of (srv_zsets s key))\<rparr>"

section \<open>Commands\<close>

text \<open>A command that always succeeds on the server, under the next fault of the script.\<close>

definition faulty :: "(server \<Rightarrow> (gerr + 'a) \<times> server) \<Rightarrow> (server, gerr + 'a) state" where
  "faulty op = State (\<lambda>s.
     case srv_faults s of
       [] \<Rightarrow> op s
     | f # fs \<Rightarrow>
         let s' = s\<lparr>srv_faults := fs\<rparr> in
         (case f of
            Fine \<Rightarrow> op s'
          | Refused \<Rightarrow> (Inl (TextE ''connection refused''), s')
          | Lost_Reply \<Rightarrow> (Inl (TextE ''i/o timeout''), snd (op s'))))"

definition err_only :: "('w, gerr + unit) state \<Rightarrow> ('w, gerr option) state" where
  "err_only m = do {
     r \<leftarrow> m;
     ret (case r of Inl e \<Rightarrow> Some e | Inr _ \<Rightarrow> None)
   }"

fun srv_apply :: "redis_cmd \<Rightarrow> server \<Rightarrow> server" where
  "srv_apply (HSet key f v) s = s\<lparr>srv_hashes := (srv_hashes s)(key := (srv_hashes s key)(f \<mapsto> v))\<rparr>"
| "srv_apply (ZAdd key score m) s =
     s\<lparr>srv_zsets := (srv_zsets s)(key := (m, score) # filter (\<lambda>e. fst e \<noteq> m) (srv_zsets s key))\<rparr>"
| "srv_apply (ZRem key m) s =
     s\<lparr>srv_zsets := (srv_zsets s)(key := filter (\<lambda>e. fst e \<noteq> m) (srv_zsets s key))\<rparr>"
| "srv_apply (HDel key f) s = s\<lparr>srv_hashes := (srv_hashes s)(key := (srv_hashes s key)(f := None))\<rparr>"

text \<open>IDs grow: a new one is above those in the stream and those a group has been delivered, and has 64-bit parts.\<close>

definition top_sid :: "server \<Rightarrow> string \<Rightarrow> stream_id" where
  "top_sid s key =
     foldr (\<lambda>g t. if sid_less t (last_delivered (snd g)) then last_delivered (snd g) else t) (srv_groups s key)
       (case srv_streams s key of [] \<Rightarrow> (0, 0) | es \<Rightarrow> fst (last es))"

definition next_sid :: "server \<Rightarrow> string \<Rightarrow> stream_id" where
  "next_sid s key =
     (let ms = nat (UnixMilli (srv_time s)); top = top_sid s key in
      if fst top < ms then (ms, 0) else (fst top, Suc (snd top)))"

definition srv_XAdd :: "string \<Rightarrow> fields \<Rightarrow> server \<Rightarrow> (gerr + string) \<times> server" where
  "srv_XAdd key vals s =
     (let i = next_sid s key in
      if fst i < 2 ^ 64 \<and> snd i < 2 ^ 64
      then (Inr (print_sid i), s\<lparr>srv_streams := (srv_streams s)(key := srv_streams s key @ [(i, vals)])\<rparr>)
      else (Inl (TextE ''ERR The stream has exhausted the last possible ID''), s))"

definition srv_group_update :: "string \<Rightarrow> string \<Rightarrow> (consumer_group \<Rightarrow> consumer_group) \<Rightarrow> server \<Rightarrow> server" where
  "srv_group_update key g f s =
     s\<lparr>srv_groups := (srv_groups s)(key := map (\<lambda>(n, x). (n, if n = g then f x else x)) (srv_groups s key))\<rparr>"

definition srv_message :: "stream_id \<times> fields \<Rightarrow> x_message" where
  "srv_message e = \<lparr>xm_ID = print_sid (fst e), xm_Values = snd e\<rparr>"

definition srv_XReadGroup ::
  "string \<Rightarrow> string \<Rightarrow> int \<Rightarrow> server \<Rightarrow> (gerr + (string \<times> x_message list) list) \<times> server" where
  "srv_XReadGroup g key count s =
     (case map_of (srv_groups s key) g of
        None \<Rightarrow> (Inl (TextE ''NOGROUP No such key or consumer group''), s)
      | Some grp \<Rightarrow>
          let es = take (nat count) (filter (\<lambda>e. sid_less (last_delivered grp) (fst e)) (srv_streams s key)) in
          if es = [] then (Inl RedisNilE, s)
          else (Inr [(key, map srv_message es)],
                srv_group_update key g
                  (\<lambda>x. x\<lparr>last_delivered := fst (last es), pel := pel x @ map fst es\<rparr>) s))"

definition srv_XAck :: "string \<Rightarrow> string \<Rightarrow> string list \<Rightarrow> server \<Rightarrow> (gerr + unit) \<times> server" where
  "srv_XAck key g ids s =
     (Inr (), srv_group_update key g (\<lambda>x. x\<lparr>pel := filter (\<lambda>i. print_sid i \<notin> set ids) (pel x)\<rparr>) s)"

definition srv_XAutoClaim :: "string \<Rightarrow> string \<Rightarrow> int \<Rightarrow> server \<Rightarrow> (gerr + x_message list) \<times> server" where
  "srv_XAutoClaim key g count s =
     (case map_of (srv_groups s key) g of
        None \<Rightarrow> (Inl (TextE ''NOGROUP No such key or consumer group''), s)
      | Some grp \<Rightarrow>
          (Inr (map srv_message (take (nat count) (filter (\<lambda>e. fst e \<in> set (pel grp)) (srv_streams s key)))), s))"

definition lowest :: "stream_id \<Rightarrow> stream_id list \<Rightarrow> stream_id" where
  "lowest i is = foldr (\<lambda>a b. if sid_less a b then a else b) is i"

definition srv_XPending :: "string \<Rightarrow> string \<Rightarrow> server \<Rightarrow> (gerr + x_pending) \<times> server" where
  "srv_XPending key g s =
     (case map_of (srv_groups s key) g of
        None \<Rightarrow> (Inl (TextE ''NOGROUP No such key or consumer group''), s)
      | Some grp \<Rightarrow>
          (Inr \<lparr>xp_Count = int (length (pel grp)),
                xp_Lower = (case pel grp of [] \<Rightarrow> [] | i # _ \<Rightarrow>
                  print_sid (lowest i (pel grp)))\<rparr>, s))"

definition srv_XInfoGroups :: "string \<Rightarrow> server \<Rightarrow> (gerr + x_group list) \<times> server" where
  "srv_XInfoGroups key s =
     (if srv_groups s key = [] \<and> srv_streams s key = [] then (Inl (TextE ''ERR no such key''), s)
      else (Inr (map (\<lambda>(n, _). \<lparr>xg_Name = n, xg_LastDeliveredID =
                     print_sid (last_delivered (the (map_of (srv_groups s key) n)))\<rparr>) (srv_groups s key)), s))"

definition srv_parse_sid :: "string \<Rightarrow> stream_id option" where
  "srv_parse_sid str =
     (case Cut str CHR ''-'' of
        (ms, sq, ok) \<Rightarrow>
          (case (ParseUint ms, if ok then ParseUint sq else Some 0) of
             (Some a, Some b) \<Rightarrow> Some (a, b)
           | _ \<Rightarrow> None))"

definition srv_XTrimMinID :: "string \<Rightarrow> string \<Rightarrow> server \<Rightarrow> (gerr + int) \<times> server" where
  "srv_XTrimMinID key minid s =
     (case srv_parse_sid minid of
        None \<Rightarrow> (Inl (TextE ''ERR Invalid stream ID''), s)
      | Some i \<Rightarrow>
          let kept = filter (\<lambda>e. \<not> sid_less (fst e) i) (srv_streams s key) in
          (Inr (int (length (srv_streams s key)) - int (length kept)),
           s\<lparr>srv_streams := (srv_streams s)(key := kept)\<rparr>))"

definition srv_XGroupCreate :: "string \<Rightarrow> string \<Rightarrow> string \<Rightarrow> server \<Rightarrow> (gerr + unit) \<times> server" where
  "srv_XGroupCreate key g start s =
     (if map_of (srv_groups s key) g \<noteq> None
      then (Inl (TextE ''BUSYGROUP Consumer Group name already exists''), s)
      else (Inr (), s\<lparr>srv_groups := (srv_groups s)(key := srv_groups s key @
             [(g, \<lparr>last_delivered = (case srv_parse_sid start of Some i \<Rightarrow> i | None \<Rightarrow> (0, 0)), pel = []\<rparr>)])\<rparr>))"

definition srv_ZRangeByScore :: "string \<Rightarrow> int \<Rightarrow> int \<Rightarrow> server \<Rightarrow> (gerr + string list) \<times> server" where
  "srv_ZRangeByScore key mx count s =
     (let score = (\<lambda>m. the (map_of (srv_zsets s key) m));
          ms = sort_key score (remdups (map fst (srv_zsets s key)))
      in (Inr (take (nat count) (filter (\<lambda>m. score m \<le> mx) ms)), s))"

text \<open>Only the range the worker asks for, the member with the lowest score, is served.\<close>

definition srv_ZRangeWithScores :: "string \<Rightarrow> server \<Rightarrow> (gerr + (string \<times> int) list) \<times> server" where
  "srv_ZRangeWithScores key s =
     (Inr (take 1 (sort_key snd (filter (\<lambda>e. map_of (srv_zsets s key) (fst e) = Some (snd e)) (srv_zsets s key)))), s)"

definition srv_get :: "string \<Rightarrow> server \<Rightarrow> string option" where
  "srv_get key s = (case srv_keys s key of
     None \<Rightarrow> None | Some (v, expiry) \<Rightarrow> if srv_time s < expiry then Some v else None)"

definition srv_SetNX :: "string \<Rightarrow> string \<Rightarrow> duration \<Rightarrow> server \<Rightarrow> (gerr + bool) \<times> server" where
  "srv_SetNX key v ttl s =
     (if srv_get key s \<noteq> None then (Inr False, s)
      else (Inr True, s\<lparr>srv_keys := (srv_keys s)(key \<mapsto> (v, srv_time s + ttl))\<rparr>))"

definition srv_pexpire :: "string \<Rightarrow> int \<Rightarrow> server \<Rightarrow> int \<times> server" where
  "srv_pexpire key ms s =
     (case srv_get key s of
        None \<Rightarrow> (0, s)
      | Some v \<Rightarrow> (1, s\<lparr>srv_keys := (srv_keys s)(key \<mapsto> (v, srv_time s + ms * Millisecond))\<rparr>))"

definition srv_del :: "string \<Rightarrow> server \<Rightarrow> int \<times> server" where
  "srv_del key s =
     (if srv_get key s = None then (0, s) else (1, s\<lparr>srv_keys := (srv_keys s)(key := None)\<rparr>))"

definition server_redis :: "server redis" where
  "server_redis =
     \<lparr>XAdd = (\<lambda>key vals. faulty (srv_XAdd key vals)),
      XReadGroup = (\<lambda>g consumer key count block. faulty (srv_XReadGroup g key count)),
      XAck = (\<lambda>key g ids. err_only (faulty (srv_XAck key g ids))),
      XAutoClaim = (\<lambda>key g consumer minIdle start count. faulty (srv_XAutoClaim key g count)),
      XPending = (\<lambda>key g. faulty (srv_XPending key g)),
      XInfoGroups = (\<lambda>key. faulty (srv_XInfoGroups key)),
      XTrimMinID = (\<lambda>key minid. faulty (srv_XTrimMinID key minid)),
      XGroupCreateMkStream = (\<lambda>key g start. err_only (faulty (srv_XGroupCreate key g start))),
      TxPipeline_Exec = (\<lambda>cmds. err_only (faulty (\<lambda>s. (Inr (), fold srv_apply cmds s)))),
      Cmd_Err = (\<lambda>cmd. err_only (faulty (\<lambda>s. (Inr (), srv_apply cmd s)))),
      ZRangeByScore = (\<lambda>key mx count. faulty (srv_ZRangeByScore key mx count)),
      HMGet = (\<lambda>key fs. faulty (\<lambda>s. (Inr (map (srv_hashes s key) fs), s))),
      ZRangeWithScores = (\<lambda>key a b. faulty (srv_ZRangeWithScores key)),
      SetNX = (\<lambda>key v ttl. faulty (srv_SetNX key v ttl)),
      lua_get = (\<lambda>key. State (\<lambda>s. (srv_get key s, s))),
      lua_pexpire = (\<lambda>key ms. State (srv_pexpire key ms)),
      lua_del = (\<lambda>key. State (srv_del key)),
      Eval = (\<lambda>script. faulty (\<lambda>s. map_prod Inr id (run_state script s)))\<rparr>"

section \<open>Lemmas\<close>

lemma server_view_faults [simp]: "server_view (s\<lparr>srv_faults := fs\<rparr>) = server_view s"
  by (simp add: server_view_def)

lemma map_of_without: "map_of (filter (\<lambda>e. fst e \<noteq> m) xs) = (map_of xs)(m := None)"
  by (induction xs) (auto simp: fun_eq_iff)

lemma server_view_apply: "server_view (srv_apply cmd s) = apply_cmd cmd (server_view s)"
  by (cases cmd) (auto simp: server_view_def fun_eq_iff map_of_without)

text \<open>
  A property of a faulty command: it holds of the command, whichever part of the script is left, and of
  every error with an unchanged state or with the state the command leaves.
\<close>

lemma wp_faulty:
  assumes "\<And>fs. (case op (s\<lparr>srv_faults := fs\<rparr>) of (x, s') \<Rightarrow> Q x s' \<and> (\<forall>t. Q (Inl (TextE t)) s'))"
    and "\<And>fs t. Q (Inl (TextE t)) (s\<lparr>srv_faults := fs\<rparr>)"
  shows "wp (faulty op) Q s"
proof (cases "srv_faults s")
  case Nil
  then have "s\<lparr>srv_faults := []\<rparr> = s" by (cases s) simp
  with assms(1) [of "[]"] Nil show ?thesis
    by (simp add: wp_def faulty_def split: prod.splits)
next
  case (Cons f fs)
  with assms(1) [of fs] assms(2) [where fs = fs] show ?thesis
    by (cases f) (auto simp: wp_def faulty_def split: prod.splits)
qed

end
