(* ===== verification/Retry.thy ===== *)
theory Retry
  imports Queue Redis_Server
begin

text \<open>
  Delayed retry, \<open>src/internal/queue/retry.go\<close>: the idempotency key, the backoff policy and the
  retry store on a Redis hash and sorted set.

  The locale \<open>redis_store\<close> states what the store relies on of Redis; \<open>retry_store\<close> is the contract
  of the interface \<open>RetryStore\<close> (\<open>driver.go\<close>), which the store's operations satisfy on every such
  Redis.
\<close>

section \<open>Operations\<close>

definition EnvelopeID :: "string \<Rightarrow> int \<Rightarrow> error_code \<Rightarrow> string" where
  "EnvelopeID deploymentID attempt lastErrorCode =
     deploymentID @ '':'' @ FormatInt attempt @ '':'' @ error_code_string lastErrorCode"

text \<open>
  \<open>time.Duration(r() * float64(half))\<close>, one draw from the random source scaled to \<open>half\<close>: the
  float arithmetic and the generator are a parameter.
\<close>

type_synonym 'w scaler = "duration \<Rightarrow> ('w, duration) state"

record 'w backoff_policy =
  Base :: duration
  Max :: duration
  Rand :: "'w scaler option"

definition DefaultBackoff :: "'w backoff_policy" where
  "DefaultBackoff = \<lparr>Base = 10 * Second, Max = 5 * Minute, Rand = None\<rparr>"

text \<open>Integer division by two, which truncates towards zero.\<close>

definition half_of :: "duration \<Rightarrow> duration" where
  "half_of d = (if d < 0 then - ((- d) div 2) else d div 2)"

text \<open>The shift is on \<open>int64\<close>: bits that leave the word are lost.\<close>

definition backoff_ceiling :: "'w backoff_policy \<Rightarrow> int \<Rightarrow> duration" where
  "backoff_ceiling p attempt =
     (let attempt = (if attempt < 1 then 1 else attempt);
          d = int64 (Base p * 2 ^ nat (attempt - 1))
      in if d > Max p \<or> d \<le> 0 then Max p else d)"

definition Delay :: "'w scaler \<Rightarrow> 'w backoff_policy \<Rightarrow> int \<Rightarrow> ('w, duration) state" where
  "Delay rand_Float64 p attempt = do {
     let d = backoff_ceiling p attempt;
     let r = (case Rand p of Some r \<Rightarrow> r | None \<Rightarrow> rand_Float64);
     let half = half_of d;
     j \<leftarrow> r half;
     ret (half + j)
   }"

text \<open>\<open>json.Marshal\<close> and \<open>json.Unmarshal\<close> of an envelope.\<close>

record env_codec =
  enc_Envelope :: "retry_envelope \<Rightarrow> gerr + string"
  dec_Envelope :: "string \<Rightarrow> retry_envelope option"

definition Schedule :: "'w redis \<Rightarrow> env_codec \<Rightarrow> retry_envelope \<Rightarrow> ('w, gerr option) state" where
  "Schedule r c env =
     (case enc_Envelope c env of
        Inl err \<Rightarrow> ret (Some (WrapE err))
      | Inr raw \<Rightarrow> do {
          err \<leftarrow> TxPipeline_Exec r
            [HSet KeyRetryPayloads (env_RetryEnvelopeID env) raw,
             ZAdd KeyRetryZSet (env_NextAttemptAt env) (env_RetryEnvelopeID env)];
          ret (wrap_err err)
        })"

text \<open>The loop of \<open>Due\<close> over the looked-up payloads; orphaned and unreadable members are dropped.\<close>

fun due_collect :: "'w redis \<Rightarrow> env_codec \<Rightarrow> (string \<times> string option) list \<Rightarrow> ('w, retry_envelope list) state" where
  "due_collect r c [] = ret []"
| "due_collect r c ((i, raw) # rest) =
     (case raw of
        None \<Rightarrow> do {
          Cmd_Err r (ZRem KeyRetryZSet i);
          due_collect r c rest
        }
      | Some str \<Rightarrow>
          (case dec_Envelope c str of
             None \<Rightarrow> do {
               Cmd_Err r (ZRem KeyRetryZSet i);
               Cmd_Err r (HDel KeyRetryPayloads i);
               due_collect r c rest
             }
           | Some env \<Rightarrow> do {
               out \<leftarrow> due_collect r c rest;
               ret (env # out)
             }))"

definition Due :: "'w redis \<Rightarrow> env_codec \<Rightarrow> time \<Rightarrow> int \<Rightarrow> ('w, gerr + retry_envelope list) state" where
  "Due r c now batch = do {
     ids \<leftarrow> ZRangeByScore r KeyRetryZSet (UnixMilli now) batch;
     case ids of
       Inl err \<Rightarrow> ret (Inl (WrapE err))
     | Inr ids \<Rightarrow>
         if ids = [] then ret (Inr [])
         else do {
           raws \<leftarrow> HMGet r KeyRetryPayloads ids;
           case raws of
             Inl err \<Rightarrow> ret (Inl (WrapE err))
           | Inr raws \<Rightarrow> do {
               out \<leftarrow> due_collect r c (zip ids raws);
               ret (Inr out)
             }
         }
   }"

definition Remove :: "'w redis \<Rightarrow> string \<Rightarrow> ('w, gerr option) state" where
  "Remove r retryEnvelopeID = do {
     err \<leftarrow> TxPipeline_Exec r [ZRem KeyRetryZSet retryEnvelopeID, HDel KeyRetryPayloads retryEnvelopeID];
     ret (wrap_err err)
   }"

definition OldestDueLag :: "'w redis \<Rightarrow> time \<Rightarrow> ('w, gerr + (duration \<times> bool)) state" where
  "OldestDueLag r now = do {
     zs \<leftarrow> ZRangeWithScores r KeyRetryZSet 0 0;
     ret (case zs of
            Inl err \<Rightarrow> Inl (WrapE err)
          | Inr [] \<Rightarrow> Inr (0, False)
          | Inr ((_, score) # _) \<Rightarrow>
              let due = time_UnixMilli score
              in if due > now then Inr (0, False) else Inr (now - due, True))
   }"

section \<open>The contract of RetryStore\<close>

text \<open>
  \<open>held w\<close> is the content of the store, by envelope ID. A write that reports an error may or may
  not have happened.
\<close>

locale retry_store =
  fixes store_ok :: "'w \<Rightarrow> bool"
    and held :: "'w \<Rightarrow> string \<rightharpoonup> retry_envelope"
    and stored :: "retry_envelope \<Rightarrow> retry_envelope"
    and schedule :: "retry_envelope \<Rightarrow> ('w, gerr option) state"
    and due :: "time \<Rightarrow> int \<Rightarrow> ('w, gerr + retry_envelope list) state"
    and remove :: "string \<Rightarrow> ('w, gerr option) state"
  assumes schedule_spec:
    "store_ok w \<Longrightarrow> wp (schedule env) (\<lambda>err w'. store_ok w' \<and>
       (held w' = (held w)(env_RetryEnvelopeID env \<mapsto> stored env) \<or> err \<noteq> None \<and> held w' = held w)) w"
    and due_spec:
    "store_ok w \<Longrightarrow> 0 < batch \<Longrightarrow> wp (due now batch) (\<lambda>res w'. store_ok w' \<and> held w' = held w \<and>
       (\<forall>envs. res = Inr envs \<longrightarrow>
          distinct (map env_RetryEnvelopeID envs) \<and> int (length envs) \<le> batch \<and>
          (\<forall>env \<in> set envs. held w (env_RetryEnvelopeID env) = Some env \<and> env_NextAttemptAt env \<le> UnixMilli now) \<and>
          (\<forall>i env. held w i = Some env \<longrightarrow> env_NextAttemptAt env \<le> UnixMilli now \<longrightarrow>
             env \<in> set envs \<or> int (length envs) = batch))) w"
    and remove_spec:
    "store_ok w \<Longrightarrow> wp (remove i) (\<lambda>err w'. store_ok w' \<and>
       (held w' = (held w)(i := None) \<or> err \<noteq> None \<and> held w' = held w)) w"
begin

text \<open>
  Idempotence by envelope ID: scheduling twice under one ID leaves one envelope, the later one, and
  every other envelope as it was.
\<close>

lemma schedule_overwrites:
  assumes "store_ok w" "env_RetryEnvelopeID e2 = env_RetryEnvelopeID e1"
  shows "wp (do { schedule e1; schedule e2 })
     (\<lambda>err w'. err = None \<longrightarrow> held w' = (held w)(env_RetryEnvelopeID e1 \<mapsto> stored e2)) w"
proof -
  have "wp (schedule e1) (\<lambda>_ w1. wp (schedule e2)
     (\<lambda>err w'. err = None \<longrightarrow> held w' = (held w)(env_RetryEnvelopeID e1 \<mapsto> stored e2)) w1) w"
  proof (rule wp_mono [OF schedule_spec [OF assms(1)]])
    fix err w1
    assume "store_ok w1 \<and> (held w1 = (held w)(env_RetryEnvelopeID e1 \<mapsto> stored e1) \<or>
        err \<noteq> None \<and> held w1 = held w)"
    then have ok: "store_ok w1"
      and upd: "(held w1)(env_RetryEnvelopeID e1 \<mapsto> x) = (held w)(env_RetryEnvelopeID e1 \<mapsto> x)" for x
      by auto
    show "wp (schedule e2)
        (\<lambda>err w'. err = None \<longrightarrow> held w' = (held w)(env_RetryEnvelopeID e1 \<mapsto> stored e2)) w1"
      by (rule wp_mono [OF schedule_spec [OF ok]]) (auto simp: assms(2) upd)
  qed
  then show ?thesis by simp
qed

end

section \<open>What the store relies on of Redis\<close>

text \<open>
  The documented behaviour of the commands, for one client at a time: a transaction and a single
  write take effect as a whole, or, when they report an error, possibly not at all; reads change
  nothing; \<open>ZRANGEBYSCORE\<close> with a limit returns distinct members within the score bound, and all of
  them unless the limit is reached; \<open>HMGET\<close> answers in the order of the fields; \<open>XADD\<close> appends one
  entry. \<open>compact\<close> is what \<open>json.Marshal\<close> does to the raw payload inside an envelope.
\<close>

locale redis_store =
  fixes r :: "'w redis"
    and view :: "'w \<Rightarrow> redis_view"
    and c :: env_codec
    and compact :: "string \<Rightarrow> string"
  assumes tx: "wp (TxPipeline_Exec r cmds) (\<lambda>err w'. view w' = fold apply_cmd cmds (view w) \<or>
      err \<noteq> None \<and> view w' = view w) w"
    and cmd: "wp (Cmd_Err r cmd1) (\<lambda>err w'. view w' = apply_cmd cmd1 (view w) \<or>
      err \<noteq> None \<and> view w' = view w) w"
    and zrange: "0 < count \<Longrightarrow> wp (ZRangeByScore r key mx count) (\<lambda>res w'. view w' = view w \<and>
      (\<forall>ids. res = Inr ids \<longrightarrow> distinct ids \<and> int (length ids) \<le> count \<and>
         (\<forall>m \<in> set ids. \<exists>s. zsets (view w) key m = Some s \<and> s \<le> mx) \<and>
         (\<forall>m s. zsets (view w) key m = Some s \<longrightarrow> s \<le> mx \<longrightarrow> m \<in> set ids \<or> int (length ids) = count))) w"
    and hmget: "wp (HMGet r key fs) (\<lambda>res w'. view w' = view w \<and>
      (\<forall>raws. res = Inr raws \<longrightarrow> raws = map (hashes (view w) key) fs)) w"
    and zrange_scores: "wp (ZRangeWithScores r key a b) (\<lambda>_ w'. view w' = view w) w"
    and xadd: "wp (XAdd r stream vals) (\<lambda>res w'.
      (\<exists>i. view w' = (view w)\<lparr>streams := (streams (view w))(stream := streams (view w) stream @ [(i, vals)])\<rparr>) \<or>
      (\<exists>e. res = Inl e) \<and> view w' = view w) w"
    and codec: "enc_Envelope c env = Inr raw \<Longrightarrow>
      dec_Envelope c raw = Some (env\<lparr>env_Payload := compact (env_Payload env)\<rparr>)"
begin

lemma tx_cases:
  assumes "\<And>err w'. view w' = fold apply_cmd cmds (view w) \<Longrightarrow> Q err w'"
    and "\<And>err w'. err \<noteq> None \<Longrightarrow> view w' = view w \<Longrightarrow> Q err w'"
  shows "wp (TxPipeline_Exec r cmds) Q w"
  by (rule wp_mono [OF tx]) (use assms in blast)

end

text \<open>The envelopes a Redis state holds, and that every index member has its envelope.\<close>

definition redis_held :: "env_codec \<Rightarrow> redis_view \<Rightarrow> string \<rightharpoonup> retry_envelope" where
  "redis_held c v i =
     (case zsets v KeyRetryZSet i of
        None \<Rightarrow> None
      | Some _ \<Rightarrow> Option.bind (hashes v KeyRetryPayloads i) (dec_Envelope c))"

definition redis_store_ok :: "env_codec \<Rightarrow> redis_view \<Rightarrow> bool" where
  "redis_store_ok c v =
     (\<forall>i s. zsets v KeyRetryZSet i = Some s \<longrightarrow>
        (\<exists>env. redis_held c v i = Some env \<and> env_RetryEnvelopeID env = i \<and> env_NextAttemptAt env = s))"

section \<open>Lemmas\<close>

lemma EnvelopeID_inject [simp]:
  "EnvelopeID d a e = EnvelopeID d' a' e' \<longleftrightarrow> d = d' \<and> a = a' \<and> e = e'"
proof
  assume eq: "EnvelopeID d a e = EnvelopeID d' a' e'"
  have split: "x = x' \<and> y = y'"
    if "x @ CHR '':'' # y = x' @ CHR '':'' # y'" "CHR '':'' \<notin> set y" "CHR '':'' \<notin> set y'"
    for x y x' y' :: string
    using that by (auto simp: append_eq_append_conv2 append_eq_Cons_conv Cons_eq_append_conv)
  have "d @ CHR '':'' # FormatInt a = d' @ CHR '':'' # FormatInt a' \<and> error_code_string e = error_code_string e'"
    using eq split [of "d @ CHR '':'' # FormatInt a" "error_code_string e"
        "d' @ CHR '':'' # FormatInt a'" "error_code_string e'"]
    by (simp add: EnvelopeID_def)
  then show "d = d' \<and> a = a' \<and> e = e'"
    using split [of d "FormatInt a" d' "FormatInt a'"] by simp
qed simp


lemma int64_dvd:
  assumes "2 ^ k dvd i" "k \<le> 63"
  shows "2 ^ k dvd int64 i"
proof -
  have "(2 :: int) ^ k dvd 2 ^ 63" "(2 :: int) ^ k dvd 2 ^ 64"
    using assms(2) by (intro le_imp_power_dvd; simp)+
  with assms(1) show ?thesis
    unfolding int64_def by (intro dvd_diff dvd_mod dvd_add)
qed

lemma default_ceiling:
  "backoff_ceiling (DefaultBackoff :: 'w backoff_policy) attempt =
     min (10 * Second * 2 ^ nat (max 1 attempt - 1)) (5 * Minute)"
proof -
  let ?k = "nat (max 1 attempt - 1)" and ?b = "10 * Second"
  have b: "?b = 9765625 * 2 ^ 10" and mx: "5 * Minute = 300000000000"
    by (simp_all add: Second_def Minute_def Millisecond_def)
  have unfold: "backoff_ceiling (DefaultBackoff :: 'w backoff_policy) attempt =
      (if int64 (?b * 2 ^ ?k) > 5 * Minute \<or> int64 (?b * 2 ^ ?k) \<le> 0 then 5 * Minute else int64 (?b * 2 ^ ?k))"
    by (simp add: backoff_ceiling_def DefaultBackoff_def Let_def max_def)
  show ?thesis
  proof (cases "?k \<le> 28")
    case True
    then have "(2 :: int) ^ ?k \<le> 2 ^ 28" by (intro power_increasing) simp_all
    then have "0 < ?b * 2 ^ ?k" "?b * 2 ^ ?k < 2 ^ 63" by (simp_all add: b)
    then have "int64 (?b * 2 ^ ?k) = ?b * 2 ^ ?k" by (intro int64_id) auto
    with \<open>0 < ?b * 2 ^ ?k\<close> show ?thesis unfolding unfold by (simp add: min_def)
  next
    case False
    then have "(2 :: int) ^ 29 \<le> 2 ^ ?k" by (intro power_increasing) simp_all
    then have big: "5 * Minute < ?b * 2 ^ ?k" by (simp add: b mx)
    have "(2 :: int) ^ 39 dvd ?b * 2 ^ ?k"
      using False le_imp_power_dvd [of 29 ?k "2 :: int"] mult_dvd_mono [of "2 ^ 10" ?b "2 ^ 29" "2 ^ ?k"]
      by (simp add: b)
    then have "(2 :: int) ^ 39 dvd int64 (?b * 2 ^ ?k)" by (rule int64_dvd) simp
    then have "int64 (?b * 2 ^ ?k) \<le> 0 \<or> 2 ^ 39 \<le> int64 (?b * 2 ^ ?k)"
      using zdvd_imp_le [of "2 ^ 39" "int64 (?b * 2 ^ ?k)"] by linarith
    with big show ?thesis unfolding unfold by (auto simp: mx min_def)
  qed
qed

lemma redis_held_schedule:
  assumes "dec_Envelope c raw = Some env'"
  shows "redis_held c (fold apply_cmd [HSet KeyRetryPayloads i raw, ZAdd KeyRetryZSet s i] v) =
    (redis_held c v)(i \<mapsto> env')"
  using assms by (auto simp: redis_held_def fun_eq_iff split: option.splits)

lemma redis_held_remove:
  "redis_held c (fold apply_cmd [ZRem KeyRetryZSet i, HDel KeyRetryPayloads i] v) = (redis_held c v)(i := None)"
  by (auto simp: redis_held_def fun_eq_iff split: option.splits)

lemma redis_store_ok_schedule:
  assumes "redis_store_ok c v" "dec_Envelope c raw = Some env'"
    "env_RetryEnvelopeID env' = i" "env_NextAttemptAt env' = s"
  shows "redis_store_ok c (fold apply_cmd [HSet KeyRetryPayloads i raw, ZAdd KeyRetryZSet s i] v)"
  using assms(1,3,4) unfolding redis_store_ok_def redis_held_schedule [OF assms(2)]
  by simp

lemma redis_store_ok_remove:
  assumes "redis_store_ok c v"
  shows "redis_store_ok c (fold apply_cmd [ZRem KeyRetryZSet i, HDel KeyRetryPayloads i] v)"
  using assms unfolding redis_store_ok_def redis_held_remove by simp

lemma redis_held_ok:
  assumes "redis_store_ok c v" "redis_held c v i = Some env"
  shows "env_RetryEnvelopeID env = i" "zsets v KeyRetryZSet i = Some (env_NextAttemptAt env)"
proof -
  from assms(2) obtain s where s: "zsets v KeyRetryZSet i = Some s"
    by (auto simp: redis_held_def split: option.splits)
  with assms show "env_RetryEnvelopeID env = i" "zsets v KeyRetryZSet i = Some (env_NextAttemptAt env)"
    unfolding redis_store_ok_def by (metis option.inject)+
qed

text \<open>On payloads that are all present and readable the loop of \<open>Due\<close> only decodes.\<close>

lemma due_collect_readable:
  "\<forall>i \<in> set ids. Option.bind (h i) (dec_Envelope c) = Some (f i) \<Longrightarrow>
   due_collect r c (zip ids (map h ids)) = ret (map f ids)"
  by (induction ids) (auto simp: bind_eq_Some_conv)

context redis_store
begin

lemma Schedule_spec:
  assumes ok: "redis_store_ok c (view w)"
  shows "wp (Schedule r c env) (\<lambda>err w'. redis_store_ok c (view w') \<and>
     (redis_held c (view w') = (redis_held c (view w))
        (env_RetryEnvelopeID env \<mapsto> env\<lparr>env_Payload := compact (env_Payload env)\<rparr>) \<or>
      err \<noteq> None \<and> redis_held c (view w') = redis_held c (view w))) w"
proof (cases "enc_Envelope c env")
  case (Inl err)
  with ok show ?thesis by (simp add: Schedule_def)
next
  case (Inr raw)
  note dec = codec [OF Inr]
  show ?thesis
    unfolding Schedule_def Inr sum.case wp_bind wp_return
  proof (rule tx_cases, goal_cases)
    case (1 err w')
    have "redis_store_ok c (view w')"
      unfolding 1 by (rule redis_store_ok_schedule [OF ok dec]) simp_all
    then show ?case by (simp only: 1 redis_held_schedule [OF dec] simp_thms)
  next
    case (2 err w')
    then show ?case using ok by (simp add: wrap_err_def)
  qed
qed

lemma Remove_spec:
  assumes ok: "redis_store_ok c (view w)"
  shows "wp (Remove r i) (\<lambda>err w'. redis_store_ok c (view w') \<and>
     (redis_held c (view w') = (redis_held c (view w))(i := None) \<or>
      err \<noteq> None \<and> redis_held c (view w') = redis_held c (view w))) w"
  unfolding Remove_def wp_bind wp_return
proof (rule tx_cases, goal_cases)
  case (1 err w')
  have "redis_store_ok c (view w')"
    unfolding 1 by (rule redis_store_ok_remove) (rule ok)
  then show ?case by (simp only: 1 redis_held_remove simp_thms)
next
  case (2 err w')
  then show ?case using ok by (simp add: wrap_err_def)
qed

text \<open>What a list of members within the score bound decodes to.\<close>

lemma due_members:
  assumes ok: "redis_store_ok c v"
    and ids: "distinct ids" "\<forall>m \<in> set ids. \<exists>s. zsets v KeyRetryZSet m = Some s \<and> s \<le> t"
  defines "envs \<equiv> map (\<lambda>i. the (redis_held c v i)) ids"
  shows "due_collect r c (zip ids (map (hashes v KeyRetryPayloads) ids)) = ret envs"
    "distinct (map env_RetryEnvelopeID envs)"
    "\<forall>env \<in> set envs. redis_held c v (env_RetryEnvelopeID env) = Some env \<and> env_NextAttemptAt env \<le> t"
    "\<And>i env. redis_held c v i = Some env \<Longrightarrow> i \<in> set ids \<Longrightarrow> env \<in> set envs"
proof -
  have mem: "redis_held c v i = Some (the (redis_held c v i)) \<and>
      env_RetryEnvelopeID (the (redis_held c v i)) = i \<and> env_NextAttemptAt (the (redis_held c v i)) \<le> t"
    if "i \<in> set ids" for i
    using that ids(2) ok by (fastforce simp: redis_store_ok_def)
  then have "map env_RetryEnvelopeID envs = ids"
    by (simp add: envs_def map_idI)
  with ids(1) show "distinct (map env_RetryEnvelopeID envs)" by simp
  show "\<forall>env \<in> set envs. redis_held c v (env_RetryEnvelopeID env) = Some env \<and> env_NextAttemptAt env \<le> t"
    using mem by (auto simp: envs_def)
  show "env \<in> set envs" if "redis_held c v i = Some env" "i \<in> set ids" for i env
    using that by (force simp: envs_def)
  have "Option.bind (hashes v KeyRetryPayloads i) (dec_Envelope c) = Some (the (redis_held c v i))"
    if "i \<in> set ids" for i
    using mem [OF that] by (auto simp: redis_held_def split: option.splits)
  then show "due_collect r c (zip ids (map (hashes v KeyRetryPayloads) ids)) = ret envs"
    unfolding envs_def by (intro due_collect_readable) blast
qed

lemma Due_spec:
  assumes ok: "redis_store_ok c (view w)" and batch: "0 < batch"
  shows "wp (Due r c now batch) (\<lambda>res w'. redis_store_ok c (view w') \<and>
       redis_held c (view w') = redis_held c (view w) \<and>
       (\<forall>envs. res = Inr envs \<longrightarrow>
          distinct (map env_RetryEnvelopeID envs) \<and> int (length envs) \<le> batch \<and>
          (\<forall>env \<in> set envs. redis_held c (view w) (env_RetryEnvelopeID env) = Some env \<and>
             env_NextAttemptAt env \<le> UnixMilli now) \<and>
          (\<forall>i env. redis_held c (view w) i = Some env \<longrightarrow> env_NextAttemptAt env \<le> UnixMilli now \<longrightarrow>
             env \<in> set envs \<or> int (length envs) = batch))) w" (is "wp _ ?Q w")
proof -
  let ?v = "view w" and ?t = "UnixMilli now"
  have look: "wp (HMGet r KeyRetryPayloads ids)
      (\<lambda>raws. wp (case raws of Inl err \<Rightarrow> ret (Inl (WrapE err))
        | Inr raws \<Rightarrow> due_collect r c (zip ids raws) \<bind> (\<lambda>out. ret (Inr out))) ?Q) w1"
    if v: "view w1 = ?v" and ids: "distinct ids" "int (length ids) \<le> batch"
        "\<forall>m \<in> set ids. \<exists>s. zsets ?v KeyRetryZSet m = Some s \<and> s \<le> ?t"
        "\<forall>m s. zsets ?v KeyRetryZSet m = Some s \<longrightarrow> s \<le> ?t \<longrightarrow> m \<in> set ids \<or> int (length ids) = batch"
    for ids w1
  proof (rule wp_mono [OF hmget], goal_cases)
    case (1 res w2)
    note mem = due_members [OF ok ids(1,3)]
    have all: "i \<in> set ids \<or> int (length ids) = batch"
      if "redis_held c ?v i = Some env" "env_NextAttemptAt env \<le> ?t" for i env
      using ids(4) redis_held_ok(2) [OF ok that(1)] that(2) by blast
    from 1 v ok ids(2) mem(2,3) mem(4) all show ?case
      by (cases res) (auto simp: mem(1))
  qed
  show ?thesis
    unfolding Due_def wp_bind
    by (rule wp_mono [OF zrange [OF batch]]) (use ok look batch in \<open>auto split: sum.splits dest: redis_held_ok(2) [OF ok]\<close>)
qed

end

sublocale redis_store \<subseteq> rs: retry_store
  "\<lambda>w. redis_store_ok c (view w)" "\<lambda>w. redis_held c (view w)"
  "\<lambda>env. env\<lparr>env_Payload := compact (env_Payload env)\<rparr>"
  "Schedule r c" "Due r c" "Remove r"
  by (unfold_locales) (fact Schedule_spec Due_spec Remove_spec)+

context redis_store
begin

lemmas Schedule_overwrites = rs.schedule_overwrites

end

section \<open>The store on the reference server\<close>

text \<open>A codec with a line per field, that refuses what it cannot read back.\<close>

definition all_error_codes :: "error_code list" where
  "all_error_codes =
     [ErrorCodeValidationFailed, ErrorCodePageNotFound, ErrorCodeVersionNotFound, ErrorCodeVersionSlugMismatch,
      ErrorCodePageNotPublished, ErrorCodeInvalidSlug, ErrorCodeAssetPermissionDenied, ErrorCodeUnresolvedAssetRef,
      ErrorCodeUnsupportedDynamicImageOptimizer, ErrorCodePathTraversalDetected, ErrorCodeRenderOrigin401,
      ErrorCodeRenderOrigin403, ErrorCodeRenderOrigin404, ErrorCodeRenderOrigin5xx, ErrorCodeRenderOriginTimeout,
      ErrorCodeStorageTimeout, ErrorCodeStorage5xx, ErrorCodeArtifactUploadTimeout,
      ErrorCodeDeploymentServiceTimeout, ErrorCodeQueueTemporaryFailure, ErrorCodeStatusConflict,
      ErrorCodeConfigMissing, ErrorCodeDeploymentService401, ErrorCodeDeploymentService403,
      ErrorCodeAssetService401, ErrorCodeAssetService403]"

definition line_fields :: "retry_envelope \<Rightarrow> string list" where
  "line_fields env =
     [env_RetryEnvelopeID env, env_DeploymentID env, FormatInt (env_Attempt env),
      FormatInt (env_NextAttemptAt env), error_code_string (env_LastErrorCode env), env_TraceID env,
      env_Payload env]"

fun line_read :: "string list \<Rightarrow> retry_envelope option" where
  "line_read [i, d, a, n, e, t, p] =
     (case (ParseInt a, ParseInt n, find (\<lambda>c. error_code_string c = e) all_error_codes) of
        (Some a, Some n, Some e) \<Rightarrow>
          Some \<lparr>env_RetryEnvelopeID = i, env_DeploymentID = d, env_Attempt = a, env_NextAttemptAt = n,
                env_LastErrorCode = e, env_TraceID = t, env_Payload = p\<rparr>
      | _ \<Rightarrow> None)"
| "line_read _ = None"

definition line_codec :: env_codec where
  "line_codec =
     \<lparr>enc_Envelope = (\<lambda>env.
        if list_all (\<lambda>f. CHR 0x0A \<notin> set f) (line_fields env)
           \<and> - (2 ^ 63) \<le> env_Attempt env \<and> env_Attempt env < 2 ^ 63
           \<and> - (2 ^ 63) \<le> env_NextAttemptAt env \<and> env_NextAttemptAt env < 2 ^ 63
        then Inr (Join (line_fields env) [CHR 0x0A])
        else Inl (TextE ''unsupported value'')),
      dec_Envelope = (\<lambda>raw. line_read (Split raw (CHR 0x0A)))\<rparr>"

lemma find_error_code:
  "find (\<lambda>c. c = e) all_error_codes = Some e"
  by (cases e) (simp_all add: all_error_codes_def)

lemma line_codec_round_trip:
  assumes "enc_Envelope line_codec env = Inr raw"
  shows "dec_Envelope line_codec raw = Some env"
proof -
  from assms have "raw = Join (line_fields env) [CHR 0x0A]" "\<forall>f \<in> set (line_fields env). CHR 0x0A \<notin> set f"
    and "- (2 ^ 63) \<le> env_Attempt env" "env_Attempt env < 2 ^ 63"
      "- (2 ^ 63) \<le> env_NextAttemptAt env" "env_NextAttemptAt env < 2 ^ 63"
    by (simp_all add: line_codec_def list_all_iff split: if_splits)
  then have "Split raw (CHR 0x0A) = line_fields env"
    and "line_read (line_fields env) = Some env"
    by (simp_all add: Split_Join ParseInt_FormatInt find_error_code line_fields_def del: Join.simps)
  then show ?thesis by (simp add: line_codec_def)
qed

lemma server_zrange:
  assumes "0 < count" "srv_ZRangeByScore key mx count s = (Inr ids, s')"
  shows "s' = s" "distinct ids" "int (length ids) \<le> count"
    "\<forall>m \<in> set ids. \<exists>sc. map_of (srv_zsets s key) m = Some sc \<and> sc \<le> mx"
    "\<forall>m sc. map_of (srv_zsets s key) m = Some sc \<longrightarrow> sc \<le> mx \<longrightarrow> m \<in> set ids \<or> int (length ids) = count"
proof -
  define score where "score = (\<lambda>m. the (map_of (srv_zsets s key) m))"
  define all_due where "all_due = filter (\<lambda>m. score m \<le> mx) (sort_key score (remdups (map fst (srv_zsets s key))))"
  have ids: "ids = take (nat count) all_due" and "s' = s"
    using assms(2) by (auto simp: srv_ZRangeByScore_def all_due_def score_def Let_def)
  then show "s' = s" by simp
  show "distinct ids" by (simp add: ids all_due_def)
  show "int (length ids) \<le> count" using assms(1) by (simp add: ids)
  have "\<exists>sc. map_of (srv_zsets s key) m = Some sc \<and> sc \<le> mx" if "m \<in> set all_due" for m
    using that weak_map_of_SomeI by (fastforce simp: all_due_def score_def)
  then show "\<forall>m \<in> set ids. \<exists>sc. map_of (srv_zsets s key) m = Some sc \<and> sc \<le> mx"
    unfolding ids by (meson in_set_takeD)
  have "m \<in> set all_due" if "map_of (srv_zsets s key) m = Some sc" "sc \<le> mx" for m sc
    using that map_of_SomeD by (force simp: all_due_def score_def)
  then show "\<forall>m sc. map_of (srv_zsets s key) m = Some sc \<longrightarrow> sc \<le> mx \<longrightarrow> m \<in> set ids \<or> int (length ids) = count"
    unfolding ids using assms(1) by (cases "length all_due \<le> nat count") auto
qed

lemma server_fold_apply: "server_view (fold srv_apply cmds s) = fold apply_cmd cmds (server_view s)"
  by (induction cmds arbitrary: s) (simp_all add: server_view_apply)

interpretation server: redis_store server_redis server_view line_codec id
proof (unfold_locales, goal_cases)
  case (1 cmds w)
  show ?case
    unfolding server_redis_def err_only_def redis.simps wp_bind wp_return
    by (rule wp_faulty) (simp_all add: server_fold_apply)
next
  case (2 cmd1 w)
  show ?case
    unfolding server_redis_def err_only_def redis.simps wp_bind wp_return
    by (rule wp_faulty) (simp_all add: server_view_apply)
next
  case (3 count key mx w)
  show ?case
    unfolding server_redis_def redis.simps
  proof (rule wp_faulty, goal_cases)
    case (1 fs)
    obtain ids where ids: "srv_ZRangeByScore key mx count (w\<lparr>srv_faults := fs\<rparr>) = (Inr ids, w\<lparr>srv_faults := fs\<rparr>)"
      by (auto simp: srv_ZRangeByScore_def Let_def)
    show ?case
      using server_zrange [OF 3 ids] by (simp add: ids) (simp add: server_view_def)
  qed simp
next
  case (4 key fs w)
  show ?case
    unfolding server_redis_def redis.simps
    by (rule wp_faulty) (auto simp: server_view_def)
next
  case (5 key a b w)
  show ?case
    unfolding server_redis_def redis.simps srv_ZRangeWithScores_def
    by (rule wp_faulty) simp_all
next
  case (6 stream vals w)
  show ?case
    unfolding server_redis_def redis.simps srv_XAdd_def Let_def
    by (rule wp_faulty) (auto simp: server_view_def simp del: split_paired_Ex)
next
  case (7 env raw)
  then show ?case by (simp add: line_codec_round_trip)
qed

section \<open>Properties\<close>

text \<open>
  The retry store is keyed by what a retry is about. On any Redis with the documented command
  behaviour, scheduling the retry of a (deployment, attempt, error code) twice, as a crash and
  redelivery does, leaves one envelope for it, the second, and leaves every other envelope of the store as
  it was; envelopes of different triples never share a key.
\<close>

theorem Schedule_idempotent:
  assumes "redis_store r view c cmp" "redis_store_ok c (view w)"
    and "env_RetryEnvelopeID e1 = EnvelopeID dep attempt code"
    and "env_RetryEnvelopeID e2 = EnvelopeID dep attempt code"
  shows "wp (do { Schedule r c e1; Schedule r c e2 })
      (\<lambda>err w'. err = None \<longrightarrow>
         redis_held c (view w') (EnvelopeID dep attempt code) = Some (e2\<lparr>env_Payload := cmp (env_Payload e2)\<rparr>) \<and>
         (\<forall>dep' attempt' code'. (dep', attempt', code') \<noteq> (dep, attempt, code) \<longrightarrow>
            redis_held c (view w') (EnvelopeID dep' attempt' code') =
            redis_held c (view w) (EnvelopeID dep' attempt' code'))) w"
proof -
  have "env_RetryEnvelopeID e2 = env_RetryEnvelopeID e1" using assms(3,4) by simp
  from redis_store.Schedule_overwrites [OF assms(1,2) this]
  show ?thesis
    by (rule wp_mono) (auto simp: assms(3))
qed

theorem Schedule_idempotent_witness:
  "redis_held line_codec (server_view (snd (run_state
     (do { Schedule server_redis line_codec
             \<lparr>env_RetryEnvelopeID = EnvelopeID ''d1'' 2 ErrorCodeStorage5xx, env_DeploymentID = ''d1'', env_Attempt = 2,
              env_NextAttemptAt = 10, env_LastErrorCode = ErrorCodeStorage5xx, env_TraceID = ''t'', env_Payload = ''p''\<rparr>;
           Schedule server_redis line_codec
             \<lparr>env_RetryEnvelopeID = EnvelopeID ''d1'' 2 ErrorCodeStorage5xx, env_DeploymentID = ''d1'', env_Attempt = 2,
              env_NextAttemptAt = 20, env_LastErrorCode = ErrorCodeStorage5xx, env_TraceID = ''t'', env_Payload = ''p''\<rparr> })
     empty_server))) (EnvelopeID ''d1'' 2 ErrorCodeStorage5xx) \<noteq> None"
proof -
  let ?e = "\<lambda>n. \<lparr>env_RetryEnvelopeID = EnvelopeID ''d1'' 2 ErrorCodeStorage5xx, env_DeploymentID = ''d1'',
    env_Attempt = 2, env_NextAttemptAt = n, env_LastErrorCode = ErrorCodeStorage5xx, env_TraceID = ''t'',
    env_Payload = ''p''\<rparr>"
  let ?m = "do { Schedule server_redis line_codec (?e 10); Schedule server_redis line_codec (?e 20) }"
  have "redis_store_ok line_codec (server_view empty_server)"
    by (simp add: redis_store_ok_def server_view_def empty_server_def)
  from Schedule_idempotent [OF server.redis_store_axioms this, of "?e 10" "''d1''" 2 ErrorCodeStorage5xx "?e 20"]
  have "wp ?m (\<lambda>err w'. err = None \<longrightarrow> redis_held line_codec (server_view w')
      (EnvelopeID ''d1'' 2 ErrorCodeStorage5xx) \<noteq> None) empty_server"
    by (auto elim!: wp_mono)
  moreover have "fst (run_state ?m empty_server) = None"
    by code_simp
  ultimately show ?thesis
    by (auto simp: wp_def split: prod.splits)
qed

text \<open>
  The backoff of the default policy, for every attempt number, however large: with a random
  source that scales to between 0 and its argument, the delay before attempt \<open>n\<close> lies between half of
  and the whole of \<open>min (10 s * 2 ^ (n - 1)) (5 min)\<close>. In particular the shift that overflows
  \<open>int64\<close> for large attempts never yields a short, zero or negative delay.
\<close>

theorem Delay_default_bounds:
  assumes "\<And>h. 0 \<le> h \<Longrightarrow> wp (rand_Float64 h) (\<lambda>j _. 0 \<le> j \<and> j \<le> h) w"
  shows "wp (Delay rand_Float64 DefaultBackoff attempt)
    (\<lambda>d _. min (10 * Second * 2 ^ nat (max 1 attempt - 1)) (5 * Minute) \<le> 2 * d \<and>
           d \<le> min (10 * Second * 2 ^ nat (max 1 attempt - 1)) (5 * Minute)) w"
proof -
  define t where "t = min (10 * Second * 2 ^ nat (max 1 attempt - 1)) (5 * Minute)"
  have pos: "0 \<le> t" by (simp add: t_def Second_def Minute_def Millisecond_def)
  have even: "even t" by (simp add: t_def min_def Second_def Minute_def Millisecond_def)
  have half: "half_of t = t div 2" using pos by (simp add: half_of_def)
  have "wp (Delay rand_Float64 DefaultBackoff attempt) (\<lambda>d _. t \<le> 2 * d \<and> d \<le> t) w"
    unfolding Delay_def default_ceiling t_def [symmetric] Let_def half wp_bind wp_return
    using pos even by (simp add: DefaultBackoff_def) (rule wp_mono [OF assms], auto)
  then show ?thesis by (simp add: t_def)
qed

theorem Delay_default_bounds_witness:
  "wp (Delay (\<lambda>h. ret (h div 3)) DefaultBackoff 100) (\<lambda>d _. 5 * Minute \<le> 2 * d \<and> d \<le> 5 * Minute) ()"
proof -
  have "wp (Delay (\<lambda>h. ret (h div 3)) DefaultBackoff 100)
    (\<lambda>d _. min (10 * Second * 2 ^ nat (max 1 100 - 1)) (5 * Minute) \<le> 2 * d \<and>
           d \<le> min (10 * Second * 2 ^ nat (max 1 100 - 1)) (5 * Minute)) ()"
    by (rule Delay_default_bounds) auto
  moreover have "min (10 * Second * 2 ^ nat (max 1 100 - 1)) (5 * Minute) = 5 * Minute"
    by (simp add: Second_def Minute_def Millisecond_def)
  ultimately show ?thesis by (simp only:)
qed

end
