(* ===== verification/Jsonschema.thy ===== *)
theory Jsonschema
  imports Errclass
begin

text \<open>
  The schema validator, \<open>src/internal/jsonschema/jsonschema.go\<close> and \<open>audit.go\<close>, on decoded JSON values.

  A decoded object is an association list with distinct keys; Go iterates over it in any order, the
  model in the order of the list. A number is the exact value of its \<open>float64\<close>. A violation is kept as
  data (where, and which rule) instead of its rendered text. \<open>encoding/json\<close> and \<open>regexp\<close> are parameters.
\<close>

section \<open>JSON values\<close>

datatype json =
    JNull
  | JBool bool
  | JNum rat
  | JStr string
  | JArr "json list"
  | JObj "(string \<times> json) list"

type_synonym json_object = "(string \<times> json) list"

text \<open>\<open>json.Marshal\<close> and \<open>json.Unmarshal\<close> into \<open>any\<close>.\<close>

record json_lib =
  json_Marshal :: "json \<Rightarrow> gerr + string"
  json_Unmarshal :: "string \<Rightarrow> gerr + json"

text \<open>\<open>regexp.Compile\<close> and \<open>MatchString\<close>: \<open>None\<close> when the pattern does not compile.\<close>

type_synonym regexp_match = "string \<Rightarrow> string \<Rightarrow> bool option"

text \<open>
  \<open>jsonEqual\<close> compares the encodings, in which the keys of an object are sorted: equality up to the
  order of keys.
\<close>

fun as_object :: "json \<Rightarrow> json_object option" where
  "as_object (JObj o1) = Some o1"
| "as_object _ = None"

fun as_array :: "json \<Rightarrow> json list option" where
  "as_array (JArr xs) = Some xs"
| "as_array _ = None"

fun as_string :: "json \<Rightarrow> string option" where
  "as_string (JStr s) = Some s"
| "as_string _ = None"

fun as_number :: "json \<Rightarrow> rat option" where
  "as_number (JNum n) = Some n"
| "as_number _ = None"

fun as_bool :: "json \<Rightarrow> bool option" where
  "as_bool (JBool b) = Some b"
| "as_bool _ = None"

lemma size_json_entry: "(k, v) \<in> set o1 \<Longrightarrow> size v < Suc (size_list (size_prod (\<lambda>_. 0) size) o1)"
  by (induction o1) auto

lemma size_json_elem: "v \<in> set xs \<Longrightarrow> size v < Suc (size_list size xs)"
  by (induction xs) auto

lemma size_json_member: "(k, v) \<in> set o1 \<Longrightarrow> size v < size (JObj o1)"
  by (simp add: size_json_entry)

lemma as_object_Some: "as_object v = Some o1 \<longleftrightarrow> v = JObj o1"
  by (cases v) auto

function jsonEqual :: "json \<Rightarrow> json \<Rightarrow> bool" where
  "jsonEqual JNull b = (b = JNull)"
| "jsonEqual (JBool x) b = (b = JBool x)"
| "jsonEqual (JNum x) b = (b = JNum x)"
| "jsonEqual (JStr x) b = (b = JStr x)"
| "jsonEqual (JArr xs) b =
     (case as_array b of
        None \<Rightarrow> False
      | Some ys \<Rightarrow> length xs = length ys \<and> list_all (\<lambda>(x, y). jsonEqual x y) (zip xs ys))"
| "jsonEqual (JObj xs) b =
     (case as_object b of
        None \<Rightarrow> False
      | Some ys \<Rightarrow> length xs = length ys \<and>
          list_all (\<lambda>(k, x). case map_of ys k of None \<Rightarrow> False | Some y \<Rightarrow> jsonEqual x y) xs)"
  by pat_completeness auto
termination
  by (relation "measure (\<lambda>(a, _). size a)")
    (auto intro!: size_json_elem size_json_entry dest: set_zip_leftD)

section \<open>Validate\<close>

text \<open>Each violation with the path it is at. \<open>RequiredNotString\<close> is the panic of a failed type assertion.\<close>

datatype violation =
    NotJSON
  | ExpectedConst string json
  | NotInEnum string json
  | ExpectedType string string
  | MissingRequired string string
  | AdditionalNotAllowed string string
  | ShorterThanMinLength string rat
  | NoPatternMatch string string
  | BelowMinimum string rat
  | AboveMaximum string rat
  | RequiredNotString string

definition keyword :: "json_object \<Rightarrow> string \<Rightarrow> json option" where
  "keyword schema k = map_of schema k"

text \<open>\<open>n == float64(int64(n))\<close>: a whole number in the range of \<open>int64\<close>.\<close>

definition is_int64 :: "rat \<Rightarrow> bool" where
  "is_int64 n = (of_int \<lfloor>n\<rfloor> = n \<and> - (2 ^ 63) \<le> n \<and> n < 2 ^ 63)"

definition required_violations :: "json_object \<Rightarrow> json_object \<Rightarrow> string \<Rightarrow> violation list" where
  "required_violations schema obj path =
     (case Option.bind (keyword schema ''required'') as_array of
        None \<Rightarrow> []
      | Some rs \<Rightarrow> concat (map (\<lambda>r. case as_string r of
            None \<Rightarrow> [RequiredNotString path]
          | Some k \<Rightarrow> if map_of obj k = None then [MissingRequired path k] else []) rs))"

definition string_violations :: "regexp_match \<Rightarrow> json_object \<Rightarrow> json \<Rightarrow> string \<Rightarrow> violation list" where
  "string_violations rx schema v path =
     (case as_string v of
        None \<Rightarrow> [ExpectedType path ''string'']
      | Some s \<Rightarrow>
          (case Option.bind (keyword schema ''minLength'') as_number of
             Some mn \<Rightarrow> if of_nat (length s) < mn then [ShorterThanMinLength path mn] else []
           | None \<Rightarrow> [])
          @ (case Option.bind (keyword schema ''pattern'') as_string of
               Some pattern \<Rightarrow> if rx pattern s = Some False then [NoPatternMatch path pattern] else []
             | None \<Rightarrow> []))"

definition number_violations :: "string \<Rightarrow> json_object \<Rightarrow> json \<Rightarrow> string \<Rightarrow> violation list" where
  "number_violations ty schema v path =
     (case as_number v of
        None \<Rightarrow> [ExpectedType path ty]
      | Some n \<Rightarrow>
          if ty = ''integer'' \<and> \<not> is_int64 n then [ExpectedType path ''integer'']
          else
            (case Option.bind (keyword schema ''minimum'') as_number of
               Some mn \<Rightarrow> if n < mn then [BelowMinimum path mn] else []
             | None \<Rightarrow> [])
            @ (case Option.bind (keyword schema ''maximum'') as_number of
                 Some mx \<Rightarrow> if n > mx then [AboveMaximum path mx] else []
               | None \<Rightarrow> []))"

definition in_enum :: "json_object \<Rightarrow> json \<Rightarrow> bool" where
  "in_enum schema v =
     (case Option.bind (keyword schema ''enum'') as_array of
        None \<Rightarrow> True
      | Some es \<Rightarrow> list_ex (\<lambda>e. jsonEqual e v) es)"

function validate :: "regexp_match \<Rightarrow> json_object \<Rightarrow> json \<Rightarrow> string \<Rightarrow> violation list" where
  "validate rx schema v path =
     (case keyword schema ''const'' of
        Some c \<Rightarrow> if \<not> jsonEqual c v then [ExpectedConst path c] else []
      | None \<Rightarrow>
          if \<not> in_enum schema v then [NotInEnum path v]
          else (case Option.bind (keyword schema ''type'') as_string of
                  None \<Rightarrow> []
                | Some ty \<Rightarrow>
                    if ty = ''object'' then
                      (case as_object v of
                         None \<Rightarrow> [ExpectedType path ''object'']
                       | Some obj \<Rightarrow>
                           let props = (case Option.bind (keyword schema ''properties'') as_object of
                                          None \<Rightarrow> [] | Some ps \<Rightarrow> ps)
                           in required_violations schema obj path
                              @ concat (map (\<lambda>(key, val).
                                  case Option.bind (map_of props key) as_object of
                                    Some propSchema \<Rightarrow> validate rx propSchema val (path @ ''.'' @ key)
                                  | None \<Rightarrow>
                                      if Option.bind (keyword schema ''additionalProperties'') as_bool = Some False
                                      then [AdditionalNotAllowed path key] else []) obj))
                    else if ty = ''array'' then
                      (case as_array v of
                         None \<Rightarrow> [ExpectedType path ''array'']
                       | Some arr \<Rightarrow>
                           (case Option.bind (keyword schema ''items'') as_object of
                              None \<Rightarrow> []
                            | Some items \<Rightarrow> concat (map (\<lambda>(i, x).
                                validate rx items x (path @ ''['' @ FormatInt (int i) @ '']''))
                                (List.enumerate 0 arr))))
                    else if ty = ''string'' then string_violations rx schema v path
                    else if ty = ''integer'' \<or> ty = ''number'' then number_violations ty schema v path
                    else if ty = ''boolean'' then
                      (if as_bool v = None then [ExpectedType path ''boolean''] else [])
                    else []))"
  by pat_completeness auto
termination
proof (relation "measure (\<lambda>(_, _, v, _). size v)", goal_cases)
  case 1
  show ?case by simp
next
  case (2 rx schema v path)
  then show ?case by (cases v) (auto dest!: size_json_entry)
next
  case (3 rx schema v path)
  then show ?case by (cases v) (auto intro!: size_json_elem simp: in_set_enumerate_eq)
qed

declare validate.simps [simp del]

text \<open>
  \<open>compile\<close> decodes the schema source and caches it; the schemas of this development are given decoded,
  so \<open>Validate\<close> takes the decoded schema.
\<close>

definition Validate :: "regexp_match \<Rightarrow> json_object \<Rightarrow> json \<Rightarrow> violation list" where
  "Validate rx schema v = validate rx schema v ''$''"

definition ValidateBytes :: "json_lib \<Rightarrow> regexp_match \<Rightarrow> json_object \<Rightarrow> string \<Rightarrow> violation list" where
  "ValidateBytes lib rx schema payload =
     (case json_Unmarshal lib payload of
        Inl err \<Rightarrow> [NotJSON]
      | Inr v \<Rightarrow> Validate rx schema v)"

text \<open>
  \<open>compile\<close> decodes a schema source and keeps the result; \<open>decode\<close> is \<open>json.Unmarshal\<close> into a map. With a cache that holds only such results it is as if
  there were no cache.
\<close>

type_synonym schema_cache = "string \<rightharpoonup> json_object"

definition compile_schema :: "(string \<Rightarrow> gerr + json_object) \<Rightarrow> schema_cache \<Rightarrow> string \<Rightarrow> (gerr + json_object) \<times> schema_cache" where
  "compile_schema decode compiled source =
     (case compiled source of
        Some schema \<Rightarrow> (Inr schema, compiled)
      | None \<Rightarrow>
          (case decode source of
             Inl err \<Rightarrow> (Inl (WrapE err), compiled)
           | Inr schema \<Rightarrow> (Inr schema, compiled(source \<mapsto> schema))))"

definition cache_ok :: "(string \<Rightarrow> gerr + json_object) \<Rightarrow> schema_cache \<Rightarrow> bool" where
  "cache_ok decode compiled \<longleftrightarrow> (\<forall>source schema. compiled source = Some schema \<longrightarrow> decode source = Inr schema)"

lemma compile_schema_transparent:
  assumes "cache_ok decode compiled"
  shows "fst (compile_schema decode compiled source) = (case decode source of Inl err \<Rightarrow> Inl (WrapE err) | Inr schema \<Rightarrow> Inr schema)"
    and "cache_ok decode (snd (compile_schema decode compiled source))"
  using assms by (auto simp: compile_schema_def cache_ok_def split: option.splits sum.splits)

section \<open>Audit\<close>

definition supportedKeywords :: "string list" where
  "supportedKeywords =
     [''type'', ''properties'', ''required'', ''additionalProperties'', ''enum'', ''const'', ''pattern'',
      ''minLength'', ''minimum'', ''maximum'', ''items'', ''$schema'', ''$id'', ''title'', ''description'', ''format'']"

definition supportedTypes :: "string list" where
  "supportedTypes = [''object'', ''array'', ''string'', ''integer'', ''number'', ''boolean'']"

datatype finding =
    UnsupportedKeyword string string
  | UnsupportedType string json
  | AdditionalNotBoolean string
  | PropertiesNotObject string
  | PropertyNotObject string string
  | ItemsNotObject string

function audit :: "json_object \<Rightarrow> string \<Rightarrow> finding list" where
  "audit schema path = concat (map (\<lambda>(key, val).
     if key \<notin> set supportedKeywords then [UnsupportedKeyword path key]
     else if key = ''type'' then
       (case as_string val of
          Some t \<Rightarrow> if t \<in> set supportedTypes then [] else [UnsupportedType path val]
        | None \<Rightarrow> [UnsupportedType path val])
     else if key = ''additionalProperties'' then
       (if as_bool val = None then [AdditionalNotBoolean path] else [])
     else if key = ''properties'' then
       (case as_object val of
          None \<Rightarrow> [PropertiesNotObject path]
        | Some props \<Rightarrow> concat (map (\<lambda>(name, sub).
            case as_object sub of
              None \<Rightarrow> [PropertyNotObject path name]
            | Some subSchema \<Rightarrow> audit subSchema (path @ ''.'' @ name)) props))
     else if key = ''items'' then
       (case as_object val of
          None \<Rightarrow> [ItemsNotObject path]
        | Some sub \<Rightarrow> audit sub (path @ ''.items''))
     else []) schema)"
  by pat_completeness auto
termination
proof (relation "measure (\<lambda>(s, _). size (JObj s))", goal_cases)
  case 1
  show ?case by simp
next
  case (2 schema path entry key val props p name sub subSchema)
  then have "(key, val) \<in> set schema" "val = JObj props" "(name, sub) \<in> set props" "sub = JObj subSchema"
    by (simp_all only: as_object_Some)
  then have "size (JObj subSchema) < size (JObj props)" "size (JObj props) < size (JObj schema)"
    using size_json_member by blast+
  then show ?case by simp
next
  case (3 schema path entry key val sub)
  then have "(key, val) \<in> set schema" "val = JObj sub"
    by (simp_all only: as_object_Some)
  then show ?case using size_json_member by fastforce
qed

declare audit.simps [simp del]

definition Audit :: "json_object \<Rightarrow> finding list" where
  "Audit schema = audit schema ''$''"

end
