(* ===== verification/Schemas.thy ===== *)
theory Schemas
  imports Jsonschema
begin

text \<open>
  The embedded contract schemas, decoded: \<open>src/contracts/events/schemas_gen.go\<close> and
  \<open>src/contracts/artifact/schemas_gen.go\<close>. The values of the annotation \<open>description\<close> are left out; every
  other keyword is here, in the order of the source.
\<close>

definition ExportRequested_properties :: json_object where
  "ExportRequested_properties = [
      (''eventId'', JObj [(''type'', JStr ''string''), (''minLength'', JNum 1)]),
      (''eventType'', JObj [(''const'', JStr ''deployment.export.requested'')]),
      (''deploymentId'', JObj [(''type'', JStr ''string''), (''minLength'', JNum 1)]),
      (''teamId'', JObj [(''type'', JStr ''string''), (''minLength'', JNum 1)]),
      (''siteId'', JObj [(''type'', JStr ''string''), (''minLength'', JNum 1)]),
      (''pageId'', JObj [(''type'', JStr ''string''), (''minLength'', JNum 1)]),
      (''slug'', JObj [(''type'', JStr ''string''), (''minLength'', JNum 1)]),
      (''version'', JObj [(''type'', JStr ''string''), (''minLength'', JNum 1)]),
      (''renderMode'', JObj [
        (''type'', JStr ''string''),
        (''enum'', JArr [JStr ''fetch_route'', JStr ''react_ssr'', JStr ''html_export''])]),
      (''targetId'', JObj [(''type'', JStr ''string''), (''minLength'', JNum 1)]),
      (''environment'', JObj [(''type'', JStr ''string''), (''enum'', JArr [JStr ''production'', JStr ''preview''])]),
      (''requestedBy'', JObj [(''type'', JStr ''string'')]),
      (''idempotencyKey'', JObj [(''type'', JStr ''string''), (''minLength'', JNum 1)]),
      (''createdAt'', JObj [(''type'', JStr ''string''), (''format'', JStr ''date-time'')])]"

definition SchemaExportRequested :: json_object where
  "SchemaExportRequested = [
      (''$schema'', JStr ''https://json-schema.org/draft/2020-12/schema''),
      (''$id'',
          JStr ''https://github.com/ancyloce/anvilkit-platform/contracts/events/v1/deployment.export.requested.schema.json''),
      (''title'', JStr ''deployment.export.requested''),
      (''type'', JStr ''object''),
      (''additionalProperties'', JBool True),
      (''required'', JArr [JStr ''eventId'', JStr ''eventType'', JStr ''deploymentId'', JStr ''teamId'',
          JStr ''siteId'', JStr ''pageId'', JStr ''slug'', JStr ''version'', JStr ''renderMode'', JStr ''targetId'',
          JStr ''environment'', JStr ''idempotencyKey'']),
      (''properties'', JObj ExportRequested_properties)]"

definition ArtifactReady_properties :: json_object where
  "ArtifactReady_properties = [
      (''schemaVersion'', JObj [(''const'', JNum 1)]),
      (''eventId'', JObj [(''type'', JStr ''string''), (''minLength'', JNum 1)]),
      (''eventType'', JObj [(''const'', JStr ''deployment.artifact.ready'')]),
      (''deploymentId'', JObj [(''type'', JStr ''string''), (''minLength'', JNum 1)]),
      (''teamId'', JObj [(''type'', JStr ''string''), (''minLength'', JNum 1)]),
      (''siteId'', JObj [(''type'', JStr ''string''), (''minLength'', JNum 1)]),
      (''pageId'', JObj [(''type'', JStr ''string''), (''minLength'', JNum 1)]),
      (''slug'', JObj [(''type'', JStr ''string''), (''minLength'', JNum 1)]),
      (''version'', JObj [(''type'', JStr ''string''), (''minLength'', JNum 1)]),
      (''environment'', JObj [(''type'', JStr ''string''), (''enum'', JArr [JStr ''production'', JStr ''preview''])]),
      (''renderMode'', JObj [
        (''type'', JStr ''string''),
        (''enum'', JArr [JStr ''fetch_route'', JStr ''react_ssr'', JStr ''html_export''])]),
      (''artifactBasePath'', JObj [(''type'', JStr ''string''), (''minLength'', JNum 1)]),
      (''manifestStorageKey'', JObj [(''type'', JStr ''string''), (''minLength'', JNum 1)]),
      (''manifestDigest'', JObj [(''type'', JStr ''string''), (''pattern'', JStr ''^sha256-'')]),
      (''entry'', JObj [(''type'', JStr ''string''), (''minLength'', JNum 1)]),
      (''filesCount'', JObj [(''type'', JStr ''integer''), (''minimum'', JNum 0)]),
      (''totalBytes'', JObj [(''type'', JStr ''integer''), (''minimum'', JNum 0)]),
      (''traceId'', JObj [(''type'', JStr ''string''), (''minLength'', JNum 1)]),
      (''createdAt'', JObj [(''type'', JStr ''string''), (''format'', JStr ''date-time'')])]"

definition SchemaArtifactReady :: json_object where
  "SchemaArtifactReady = [
      (''$schema'', JStr ''https://json-schema.org/draft/2020-12/schema''),
      (''$id'',
          JStr ''https://github.com/ancyloce/anvilkit-platform/contracts/events/v1/deployment.artifact.ready.schema.json''),
      (''title'', JStr ''deployment.artifact.ready''),
      (''type'', JStr ''object''),
      (''additionalProperties'', JBool True),
      (''required'', JArr [JStr ''schemaVersion'', JStr ''eventId'', JStr ''eventType'', JStr ''deploymentId'',
          JStr ''teamId'', JStr ''siteId'', JStr ''pageId'', JStr ''slug'', JStr ''version'', JStr ''environment'',
          JStr ''renderMode'', JStr ''artifactBasePath'', JStr ''manifestStorageKey'', JStr ''manifestDigest'',
          JStr ''entry'', JStr ''filesCount'', JStr ''totalBytes'', JStr ''traceId'', JStr ''createdAt'']),
      (''properties'', JObj ArtifactReady_properties)]"

definition ExportFailed_properties :: json_object where
  "ExportFailed_properties = [
      (''schemaVersion'', JObj [(''const'', JNum 1)]),
      (''eventId'', JObj [(''type'', JStr ''string''), (''minLength'', JNum 1)]),
      (''eventType'', JObj [(''const'', JStr ''deployment.export.failed'')]),
      (''deploymentId'', JObj [(''type'', JStr ''string''), (''minLength'', JNum 1)]),
      (''teamId'', JObj [(''type'', JStr ''string''), (''minLength'', JNum 1)]),
      (''siteId'', JObj [(''type'', JStr ''string''), (''minLength'', JNum 1)]),
      (''pageId'', JObj [(''type'', JStr ''string''), (''minLength'', JNum 1)]),
      (''slug'', JObj [(''type'', JStr ''string''), (''minLength'', JNum 1)]),
      (''version'', JObj [(''type'', JStr ''string''), (''minLength'', JNum 1)]),
      (''environment'', JObj [(''type'', JStr ''string''), (''enum'', JArr [JStr ''production'', JStr ''preview''])]),
      (''renderMode'', JObj [
        (''type'', JStr ''string''),
        (''enum'', JArr [JStr ''fetch_route'', JStr ''react_ssr'', JStr ''html_export''])]),
      (''errorCode'', JObj [
        (''type'', JStr ''string''),
        (''enum'', JArr [JStr ''VALIDATION_FAILED'', JStr ''PAGE_NOT_FOUND'', JStr ''VERSION_NOT_FOUND'',
            JStr ''VERSION_SLUG_MISMATCH'', JStr ''PAGE_NOT_PUBLISHED'', JStr ''INVALID_SLUG'',
            JStr ''ASSET_PERMISSION_DENIED'', JStr ''UNRESOLVED_ASSET_REF'',
            JStr ''UNSUPPORTED_DYNAMIC_IMAGE_OPTIMIZER'', JStr ''PATH_TRAVERSAL_DETECTED'',
            JStr ''RENDER_ORIGIN_401'', JStr ''RENDER_ORIGIN_403'', JStr ''RENDER_ORIGIN_404'',
            JStr ''RENDER_ORIGIN_5XX'', JStr ''RENDER_ORIGIN_TIMEOUT'', JStr ''STORAGE_TIMEOUT'',
            JStr ''STORAGE_5XX'', JStr ''ARTIFACT_UPLOAD_TIMEOUT'', JStr ''DEPLOYMENT_SERVICE_TIMEOUT'',
            JStr ''QUEUE_TEMPORARY_FAILURE'', JStr ''STATUS_CONFLICT'', JStr ''CONFIG_MISSING'',
            JStr ''DEPLOYMENT_SERVICE_401'', JStr ''DEPLOYMENT_SERVICE_403'', JStr ''ASSET_SERVICE_401'',
            JStr ''ASSET_SERVICE_403''])]),
      (''errorClassification'', JObj [(''type'', JStr ''string''), (''enum'', JArr [JStr ''RETRYABLE'',
          JStr ''NON_RETRYABLE''])]),
      (''failedStage'', JObj [
        (''type'', JStr ''string''),
        (''enum'', JArr [JStr ''consume_job'', JStr ''load_deployment'', JStr ''acquire_lock'',
            JStr ''update_status_exporting'', JStr ''render_html'', JStr ''harvest_dependencies'',
            JStr ''upload_artifacts'', JStr ''write_manifest'', JStr ''submit_artifact'',
            JStr ''update_status_ready'', JStr ''emit_ready'', JStr ''ack_message''])]),
      (''attempt'', JObj [(''type'', JStr ''integer''), (''minimum'', JNum 0), (''maximum'', JNum 3)]),
      (''retryExhausted'', JObj [(''type'', JStr ''boolean'')]),
      (''traceId'', JObj [(''type'', JStr ''string''), (''minLength'', JNum 1)]),
      (''createdAt'', JObj [(''type'', JStr ''string''), (''format'', JStr ''date-time'')])]"

definition SchemaExportFailed :: json_object where
  "SchemaExportFailed = [
      (''$schema'', JStr ''https://json-schema.org/draft/2020-12/schema''),
      (''$id'',
          JStr ''https://github.com/ancyloce/anvilkit-platform/contracts/events/v1/deployment.export.failed.schema.json''),
      (''title'', JStr ''deployment.export.failed''),
      (''type'', JStr ''object''),
      (''additionalProperties'', JBool True),
      (''required'', JArr [JStr ''schemaVersion'', JStr ''eventId'', JStr ''eventType'', JStr ''deploymentId'',
          JStr ''teamId'', JStr ''siteId'', JStr ''pageId'', JStr ''slug'', JStr ''version'', JStr ''environment'',
          JStr ''renderMode'', JStr ''errorCode'', JStr ''errorClassification'', JStr ''failedStage'',
          JStr ''attempt'', JStr ''retryExhausted'', JStr ''traceId'', JStr ''createdAt'']),
      (''properties'', JObj ExportFailed_properties)]"

definition ArtifactManifest_properties :: json_object where
  "ArtifactManifest_properties = [
      (''schemaVersion'', JObj [(''const'', JNum 1)]),
      (''deploymentId'', JObj [(''type'', JStr ''string''), (''minLength'', JNum 1)]),
      (''siteId'', JObj [(''type'', JStr ''string''), (''minLength'', JNum 1)]),
      (''pageId'', JObj [(''type'', JStr ''string''), (''minLength'', JNum 1)]),
      (''slug'', JObj [(''type'', JStr ''string''), (''minLength'', JNum 1)]),
      (''version'', JObj [(''type'', JStr ''string''), (''minLength'', JNum 1)]),
      (''environment'', JObj [(''type'', JStr ''string''), (''enum'', JArr [JStr ''production'', JStr ''preview''])]),
      (''renderMode'', JObj [
        (''type'', JStr ''string''),
        (''enum'', JArr [JStr ''fetch_route'', JStr ''react_ssr'', JStr ''html_export''])]),
      (''artifactBasePath'', JObj [(''type'', JStr ''string''), (''minLength'', JNum 1)]),
      (''entry'', JObj [(''type'', JStr ''string''), (''minLength'', JNum 1)]),
      (''files'', JObj [
        (''type'', JStr ''array''),
        (''items'', JObj [
          (''type'', JStr ''object''),
          (''additionalProperties'', JBool True),
          (''required'', JArr [JStr ''path'', JStr ''storageKey'', JStr ''contentHash'', JStr ''sizeBytes'',
              JStr ''mimeType'', JStr ''cacheControl'']),
          (''properties'', JObj [
            (''path'', JObj [(''type'', JStr ''string''), (''minLength'', JNum 1)]),
            (''storageKey'', JObj [(''type'', JStr ''string''), (''minLength'', JNum 1)]),
            (''contentHash'', JObj [(''type'', JStr ''string''), (''pattern'', JStr ''^sha256-'')]),
            (''sizeBytes'', JObj [(''type'', JStr ''integer''), (''minimum'', JNum 0)]),
            (''mimeType'', JObj [(''type'', JStr ''string''), (''minLength'', JNum 1)]),
            (''cacheControl'', JObj [(''type'', JStr ''string''), (''minLength'', JNum 1)])])])]),
      (''routes'', JObj [
        (''type'', JStr ''array''),
        (''items'', JObj [
          (''type'', JStr ''object''),
          (''additionalProperties'', JBool True),
          (''required'', JArr [JStr ''path'', JStr ''entry'']),
          (''properties'', JObj [
            (''path'', JObj [(''type'', JStr ''string''), (''minLength'', JNum 1)]),
            (''entry'', JObj [(''type'', JStr ''string''), (''minLength'', JNum 1)])])])]),
      (''createdAt'', JObj [(''type'', JStr ''string''), (''format'', JStr ''date-time'')])]"

definition SchemaArtifactManifest :: json_object where
  "SchemaArtifactManifest = [
      (''$schema'', JStr ''https://json-schema.org/draft/2020-12/schema''),
      (''$id'',
          JStr ''https://github.com/ancyloce/anvilkit-platform/contracts/artifact/v1/artifact-manifest.schema.json''),
      (''title'', JStr ''artifact-manifest''),
      (''type'', JStr ''object''),
      (''additionalProperties'', JBool True),
      (''required'', JArr [JStr ''schemaVersion'', JStr ''deploymentId'', JStr ''siteId'', JStr ''pageId'',
          JStr ''slug'', JStr ''version'', JStr ''environment'', JStr ''renderMode'', JStr ''artifactBasePath'',
          JStr ''entry'', JStr ''files'', JStr ''routes'', JStr ''createdAt'']),
      (''properties'', JObj ArtifactManifest_properties)]"

end
