(* ===== verification/Emit.thy ===== *)
theory Emit
  imports Schemas Retry
begin

text \<open>
  Outcome events, \<open>src/internal/emit/emit.go\<close>, and the validation of the inbound event,
  \<open>src/internal/queue/validate.go\<close>. Events become JSON by the tags of their structs
  (\<open>src/contracts/events/events_gen.go\<close>).
\<close>

section \<open>Events as JSON\<close>

definition artifact_ready_json :: "artifact_ready \<Rightarrow> json" where
  "artifact_ready_json ev = JObj
     [(''schemaVersion'', JNum (of_int (rdy_SchemaVersion ev))),
      (''eventId'', JStr (rdy_EventID ev)),
      (''eventType'', JStr (rdy_EventType ev)),
      (''deploymentId'', JStr (rdy_DeploymentID ev)),
      (''teamId'', JStr (rdy_TeamID ev)),
      (''siteId'', JStr (rdy_SiteID ev)),
      (''pageId'', JStr (rdy_PageID ev)),
      (''slug'', JStr (rdy_Slug ev)),
      (''version'', JStr (rdy_Version ev)),
      (''environment'', JStr (rdy_Environment ev)),
      (''renderMode'', JStr (rdy_RenderMode ev)),
      (''artifactBasePath'', JStr (rdy_ArtifactBasePath ev)),
      (''manifestStorageKey'', JStr (rdy_ManifestStorageKey ev)),
      (''manifestDigest'', JStr (rdy_ManifestDigest ev)),
      (''entry'', JStr (rdy_Entry ev)),
      (''filesCount'', JNum (of_int (rdy_FilesCount ev))),
      (''totalBytes'', JNum (of_int (rdy_TotalBytes ev))),
      (''traceId'', JStr (rdy_TraceID ev)),
      (''createdAt'', JStr (rdy_CreatedAt ev))]"

definition export_failed_json :: "export_failed \<Rightarrow> json" where
  "export_failed_json ev = JObj
     [(''schemaVersion'', JNum (of_int (fld_SchemaVersion ev))),
      (''eventId'', JStr (fld_EventID ev)),
      (''eventType'', JStr (fld_EventType ev)),
      (''deploymentId'', JStr (fld_DeploymentID ev)),
      (''teamId'', JStr (fld_TeamID ev)),
      (''siteId'', JStr (fld_SiteID ev)),
      (''pageId'', JStr (fld_PageID ev)),
      (''slug'', JStr (fld_Slug ev)),
      (''version'', JStr (fld_Version ev)),
      (''environment'', JStr (fld_Environment ev)),
      (''renderMode'', JStr (fld_RenderMode ev)),
      (''errorCode'', JStr (error_code_string (fld_ErrorCode ev))),
      (''errorClassification'', JStr (error_classification_string (fld_ErrorClassification ev))),
      (''failedStage'', JStr (failed_stage_string (fld_FailedStage ev))),
      (''attempt'', JNum (of_int (fld_Attempt ev))),
      (''retryExhausted'', JBool (fld_RetryExhausted ev)),
      (''traceId'', JStr (fld_TraceID ev)),
      (''createdAt'', JStr (fld_CreatedAt ev))]"

section \<open>Building\<close>

text \<open>\<open>crypto/rand.Read\<close> of \<open>n\<close> bytes.\<close>

type_synonym 'w rand_reader = "nat \<Rightarrow> ('w, string) state"

definition NewEventID :: "'w rand_reader \<Rightarrow> ('w, string) state" where
  "NewEventID rand_Read = do {
     b \<leftarrow> rand_Read 12;
     ret (''evt_'' @ hex_EncodeToString b)
   }"

record ready_input =
  in_Record :: deployment_record
  in_ArtifactBasePath :: string
  in_ManifestStorageKey :: string
  in_ManifestDigest :: string
  in_Entry :: string
  in_FilesCount :: int
  in_TotalBytes :: int
  in_TraceID :: string
  in_Now :: time

definition BuildReady :: "'w rand_reader \<Rightarrow> ready_input \<Rightarrow> ('w, artifact_ready) state" where
  "BuildReady rand_Read inp = do {
     eventID \<leftarrow> NewEventID rand_Read;
     ret \<lparr>rdy_SchemaVersion = 1,
          rdy_EventID = eventID,
          rdy_EventType = EventTypeArtifactReady,
          rdy_DeploymentID = rec_DeploymentID (in_Record inp),
          rdy_TeamID = rec_TeamID (in_Record inp),
          rdy_SiteID = rec_SiteID (in_Record inp),
          rdy_PageID = rec_PageID (in_Record inp),
          rdy_Slug = rec_Slug (in_Record inp),
          rdy_Version = rec_Version (in_Record inp),
          rdy_Environment = rec_Environment (in_Record inp),
          rdy_RenderMode = rec_RenderMode (in_Record inp),
          rdy_ArtifactBasePath = in_ArtifactBasePath inp,
          rdy_ManifestStorageKey = in_ManifestStorageKey inp,
          rdy_ManifestDigest = in_ManifestDigest inp,
          rdy_Entry = in_Entry inp,
          rdy_FilesCount = in_FilesCount inp,
          rdy_TotalBytes = in_TotalBytes inp,
          rdy_TraceID = in_TraceID inp,
          rdy_CreatedAt = format_RFC3339 (in_Now inp)\<rparr>
   }"

definition BuildFailed :: "'w rand_reader \<Rightarrow> export_requested \<Rightarrow> errclass_error \<Rightarrow> int \<Rightarrow> bool \<Rightarrow> string \<Rightarrow> time
    \<Rightarrow> ('w, export_failed) state" where
  "BuildFailed rand_Read ev ce attempt retryExhausted traceID now = do {
     eventID \<leftarrow> NewEventID rand_Read;
     ret \<lparr>fld_SchemaVersion = 1,
          fld_EventID = eventID,
          fld_EventType = EventTypeExportFailed,
          fld_DeploymentID = ev_DeploymentID ev,
          fld_TeamID = ev_TeamID ev,
          fld_SiteID = ev_SiteID ev,
          fld_PageID = ev_PageID ev,
          fld_Slug = ev_Slug ev,
          fld_Version = ev_Version ev,
          fld_Environment = ev_Environment ev,
          fld_RenderMode = ev_RenderMode ev,
          fld_ErrorCode = Code ce,
          fld_ErrorClassification = Classification (Code ce),
          fld_FailedStage = Stage ce,
          fld_Attempt = attempt,
          fld_RetryExhausted = retryExhausted,
          fld_TraceID = traceID,
          fld_CreatedAt = format_RFC3339 now\<rparr>
   }"

section \<open>Emitting\<close>

text \<open>The emitter: the append operation of the driver, and the libraries it uses.\<close>

record 'w emitter =
  em_Append :: "string \<Rightarrow> string \<Rightarrow> ('w, gerr + string) state"
  em_json :: json_lib
  em_regexp :: regexp_match

definition emit :: "'w emitter \<Rightarrow> string \<Rightarrow> json_object \<Rightarrow> json \<Rightarrow> failed_stage \<Rightarrow> ('w, gerr option) state" where
  "emit e stream schema ev stage =
     (case json_Marshal (em_json e) ev of
        Inl err \<Rightarrow> ret (Some (as_error (errclass_New ErrorCodeValidationFailed stage (Some err))))
      | Inr payload \<Rightarrow>
          (case ValidateBytes (em_json e) (em_regexp e) schema payload of
             _ # _ \<Rightarrow> ret (Some (as_error (errclass_New ErrorCodeValidationFailed stage
               (Some (TextE ''outbound event failed schema self-validation'')))))
           | [] \<Rightarrow> do {
               r \<leftarrow> em_Append e stream payload;
               ret (case r of
                      Inl err \<Rightarrow> Some (as_error (errclass_New ErrorCodeQueueTemporaryFailure stage (Some err)))
                    | Inr _ \<Rightarrow> None)
             }))"

definition EmitReady :: "'w emitter \<Rightarrow> artifact_ready \<Rightarrow> ('w, gerr option) state" where
  "EmitReady e ev = emit e StreamArtifactReady SchemaArtifactReady (artifact_ready_json ev) FailedStageEmitReady"

definition EmitFailed :: "'w emitter \<Rightarrow> export_failed \<Rightarrow> ('w, gerr option) state" where
  "EmitFailed e ev = emit e StreamExportFailed SchemaExportFailed (export_failed_json ev) FailedStageEmitReady"

section \<open>The inbound event\<close>

text \<open>
  \<open>json.Unmarshal\<close> into \<open>any\<close> and into the struct \<open>ExportRequested\<close>; the latter is its own parameter, since
  the library matches keys to fields by its own rules.
\<close>

record event_lib = json_lib +
  Unmarshal_ExportRequested :: "string \<Rightarrow> gerr + export_requested"
  Unmarshal_deploymentID :: "string \<Rightarrow> string"
  lib_regexp :: regexp_match

definition ParseEvent :: "event_lib \<Rightarrow> string \<Rightarrow> gerr + export_requested" where
  "ParseEvent lib payload =
     (case json_Unmarshal lib payload of
        Inl err \<Rightarrow> Inl (WrapE UnparseableE)
      | Inr generic \<Rightarrow>
          (case as_object generic of
             None \<Rightarrow> Inl (WrapE UnparseableE)
           | Some obj \<Rightarrow>
               (case Option.bind (map_of obj ''deploymentId'') as_string of
                  None \<Rightarrow> Inl (WrapE UnparseableE)
                | Some dep \<Rightarrow>
                    if TrimSpace dep = [] then Inl (WrapE UnparseableE)
                    else (case Validate (lib_regexp lib) SchemaExportRequested generic of
                            _ # _ \<Rightarrow> Inl (as_error (errclass_New ErrorCodeValidationFailed FailedStageConsumeJob
                              (Some (TextE ''schema-invalid event payload''))))
                          | [] \<Rightarrow>
                              (case Unmarshal_ExportRequested lib payload of
                                 Inl err \<Rightarrow> Inl (as_error (errclass_New ErrorCodeValidationFailed
                                   FailedStageConsumeJob (Some (WrapE err))))
                               | Inr ev \<Rightarrow> Inr ev)))))"

section \<open>What the schemas accept\<close>

text \<open>The property schemas of the events, one by one.\<close>

lemma validate_nonempty:
  "validate rx [(''type'', JStr ''string''), (''minLength'', JNum 1)] (JStr s) p = [] \<longleftrightarrow> s \<noteq> []"
  by (subst validate.simps) (cases s, simp_all add: keyword_def in_enum_def string_violations_def)

lemma validate_string:
  "validate rx [(''type'', JStr ''string'')] (JStr s) p = []"
  by (subst validate.simps) (simp add: keyword_def in_enum_def string_violations_def)

lemma validate_string_format:
  "validate rx [(''type'', JStr ''string''), (''format'', f)] (JStr s) p = []"
  by (subst validate.simps) (simp add: keyword_def in_enum_def string_violations_def)

lemma validate_pattern:
  "validate rx [(''type'', JStr ''string''), (''pattern'', JStr re)] (JStr s) p = [] \<longleftrightarrow> rx re s \<noteq> Some False"
  by (subst validate.simps) (simp add: keyword_def in_enum_def string_violations_def)

lemma validate_enum:
  "validate rx [(''type'', JStr ''string''), (''enum'', JArr es)] (JStr s) p = [] \<longleftrightarrow>
     (\<exists>e \<in> set es. jsonEqual e (JStr s))"
  by (subst validate.simps) (simp add: keyword_def in_enum_def string_violations_def list_ex_iff)

lemma validate_const:
  "validate rx [(''const'', c)] v p = [] \<longleftrightarrow> jsonEqual c v"
  by (subst validate.simps) (simp add: keyword_def)

lemma is_int64_of_int [simp]: "is_int64 (of_int n) \<longleftrightarrow> - (2 ^ 63) \<le> n \<and> n < 2 ^ 63"
proof -
  have "- (2 ^ 63) = (of_int (- (2 ^ 63)) :: rat)" "2 ^ 63 = (of_int (2 ^ 63) :: rat)" by simp_all
  then show ?thesis unfolding is_int64_def by (simp only: of_int_le_iff of_int_less_iff floor_of_int simp_thms)
qed

lemma validate_minimum:
  "validate rx [(''type'', JStr ''integer''), (''minimum'', JNum 0)] (JNum (of_int n)) p = [] \<longleftrightarrow>
     0 \<le> n \<and> n < 2 ^ 63"
  by (subst validate.simps) (auto simp: keyword_def in_enum_def number_violations_def)

lemma validate_minimum_maximum:
  "validate rx [(''type'', JStr ''integer''), (''minimum'', JNum 0), (''maximum'', JNum 3)] (JNum (of_int n)) p = [] \<longleftrightarrow>
     0 \<le> n \<and> n \<le> 3"
  by (subst validate.simps) (auto simp: keyword_def in_enum_def number_violations_def)

lemma validate_boolean: "validate rx [(''type'', JStr ''boolean'')] (JBool b) p = []"
  by (subst validate.simps) (simp add: keyword_def in_enum_def)

lemmas validate_property =
  validate_nonempty validate_string validate_string_format validate_pattern validate_enum validate_const
  validate_minimum validate_minimum_maximum validate_boolean

lemma concat_map_Nil: "concat (map f xs) = [] \<longleftrightarrow> (\<forall>x \<in> set xs. f x = [])"
  by (auto simp: concat_eq_Nil_conv)

text \<open>The registries of the schema hold every constant of the enums.\<close>

lemma error_code_registry:
  "error_code_string c = ''VALIDATION_FAILED'' \<or> error_code_string c = ''PAGE_NOT_FOUND'' \<or>
   error_code_string c = ''VERSION_NOT_FOUND'' \<or> error_code_string c = ''VERSION_SLUG_MISMATCH'' \<or>
   error_code_string c = ''PAGE_NOT_PUBLISHED'' \<or> error_code_string c = ''INVALID_SLUG'' \<or>
   error_code_string c = ''ASSET_PERMISSION_DENIED'' \<or> error_code_string c = ''UNRESOLVED_ASSET_REF'' \<or>
   error_code_string c = ''UNSUPPORTED_DYNAMIC_IMAGE_OPTIMIZER'' \<or>
   error_code_string c = ''PATH_TRAVERSAL_DETECTED'' \<or> error_code_string c = ''RENDER_ORIGIN_401'' \<or>
   error_code_string c = ''RENDER_ORIGIN_403'' \<or> error_code_string c = ''RENDER_ORIGIN_404'' \<or>
   error_code_string c = ''RENDER_ORIGIN_5XX'' \<or> error_code_string c = ''RENDER_ORIGIN_TIMEOUT'' \<or>
   error_code_string c = ''STORAGE_TIMEOUT'' \<or> error_code_string c = ''STORAGE_5XX'' \<or>
   error_code_string c = ''ARTIFACT_UPLOAD_TIMEOUT'' \<or>
   error_code_string c = ''DEPLOYMENT_SERVICE_TIMEOUT'' \<or>
   error_code_string c = ''QUEUE_TEMPORARY_FAILURE'' \<or> error_code_string c = ''STATUS_CONFLICT'' \<or>
   error_code_string c = ''CONFIG_MISSING'' \<or> error_code_string c = ''DEPLOYMENT_SERVICE_401'' \<or>
   error_code_string c = ''DEPLOYMENT_SERVICE_403'' \<or> error_code_string c = ''ASSET_SERVICE_401'' \<or>
   error_code_string c = ''ASSET_SERVICE_403''"
  by (cases c) simp_all

lemma failed_stage_registry:
  "failed_stage_string st = ''consume_job'' \<or> failed_stage_string st = ''load_deployment'' \<or>
   failed_stage_string st = ''acquire_lock'' \<or> failed_stage_string st = ''update_status_exporting'' \<or>
   failed_stage_string st = ''render_html'' \<or> failed_stage_string st = ''harvest_dependencies'' \<or>
   failed_stage_string st = ''upload_artifacts'' \<or> failed_stage_string st = ''write_manifest'' \<or>
   failed_stage_string st = ''submit_artifact'' \<or> failed_stage_string st = ''update_status_ready'' \<or>
   failed_stage_string st = ''emit_ready'' \<or> failed_stage_string st = ''ack_message''"
  by (cases st) simp_all

lemma classification_registry:
  "error_classification_string k = ''RETRYABLE'' \<or> error_classification_string k = ''NON_RETRYABLE''"
  by (cases k) simp_all

text \<open>The events' schemas are open objects with required and described properties.\<close>

lemma validate_object:
  assumes "keyword schema ''const'' = None" "keyword schema ''enum'' = None"
    and "keyword schema ''type'' = Some (JStr ''object'')" "keyword schema ''additionalProperties'' = Some (JBool True)"
    and "keyword schema ''required'' = Some (JArr (map JStr rs))" "keyword schema ''properties'' = Some (JObj props)"
  shows "validate rx schema (JObj obj) p = [] \<longleftrightarrow>
    (\<forall>r \<in> set rs. map_of obj r \<noteq> None) \<and>
    (\<forall>(key, val) \<in> set obj. case Option.bind (map_of props key) as_object of
       Some sub \<Rightarrow> validate rx sub val (p @ ''.'' @ key) = [] | None \<Rightarrow> True)"
proof -
  have eq: "validate rx schema (JObj obj) p = required_violations schema obj p @
      concat (map (\<lambda>(key, val). case Option.bind (map_of props key) as_object of
        Some sub \<Rightarrow> validate rx sub val (p @ ''.'' @ key) | None \<Rightarrow> []) obj)"
    by (subst validate.simps) (simp add: assms in_enum_def cong: option.case_cong)
  have req: "required_violations schema obj p = [] \<longleftrightarrow> (\<forall>r \<in> set rs. map_of obj r \<noteq> None)"
    by (simp only: required_violations_def assms Option.bind.simps as_array.simps option.case concat_map_Nil
        ball_simps set_map as_string.simps) auto
  have "concat (map (\<lambda>(key, val). case Option.bind (map_of props key) as_object of
        Some sub \<Rightarrow> validate rx sub val (p @ ''.'' @ key) | None \<Rightarrow> []) obj) = [] \<longleftrightarrow>
      (\<forall>(key, val) \<in> set obj. case Option.bind (map_of props key) as_object of
        Some sub \<Rightarrow> validate rx sub val (p @ ''.'' @ key) = [] | None \<Rightarrow> True)"
    unfolding concat_map_Nil by (intro ball_cong refl) (simp add: case_prod_beta split: option.split)
  with eq req show ?thesis by simp
qed

lemma failed_schema_keywords:
  "keyword SchemaExportFailed ''const'' = None" "keyword SchemaExportFailed ''enum'' = None"
  "keyword SchemaExportFailed ''type'' = Some (JStr ''object'')"
  "keyword SchemaExportFailed ''additionalProperties'' = Some (JBool True)"
  by (simp_all add: SchemaExportFailed_def keyword_def)

definition environments :: "string set" where
  "environments = {''production'', ''preview''}"

definition render_modes :: "string set" where
  "render_modes = {''fetch_route'', ''react_ssr'', ''html_export''}"

text \<open>What the schema of the failure event demands of the event, in full.\<close>

lemma failed_event_valid_iff:
  "Validate rx SchemaExportFailed (export_failed_json f) = [] \<longleftrightarrow>
     fld_SchemaVersion f = 1 \<and> fld_EventID f \<noteq> [] \<and> fld_EventType f = EventTypeExportFailed \<and>
     fld_DeploymentID f \<noteq> [] \<and> fld_TeamID f \<noteq> [] \<and> fld_SiteID f \<noteq> [] \<and>
     fld_PageID f \<noteq> [] \<and> fld_Slug f \<noteq> [] \<and> fld_Version f \<noteq> [] \<and>
     fld_Environment f \<in> environments \<and> fld_RenderMode f \<in> render_modes \<and>
     0 \<le> fld_Attempt f \<and> fld_Attempt f \<le> 3 \<and> fld_TraceID f \<noteq> []"
proof -
  define rs where "rs = [''schemaVersion'', ''eventId'', ''eventType'', ''deploymentId'', ''teamId'', ''siteId'',
      ''pageId'', ''slug'', ''version'', ''environment'', ''renderMode'', ''errorCode'', ''errorClassification'',
      ''failedStage'', ''attempt'', ''retryExhausted'', ''traceId'', ''createdAt'']"
  define obj where "obj = the (as_object (export_failed_json f))"
  have obj: "export_failed_json f = JObj obj" by (simp add: obj_def export_failed_json_def)
  have rs: "keyword SchemaExportFailed ''required'' = Some (JArr (map JStr rs))"
    by (simp add: SchemaExportFailed_def keyword_def rs_def)
  have props: "keyword SchemaExportFailed ''properties'' = Some (JObj ExportFailed_properties)"
    by (simp add: SchemaExportFailed_def keyword_def)
  have "\<forall>r \<in> set rs. map_of obj r \<noteq> None"
    by (simp add: rs_def obj_def export_failed_json_def)
  then have "Validate rx SchemaExportFailed (JObj obj) = [] \<longleftrightarrow>
      (\<forall>(key, val) \<in> set obj. case Option.bind (map_of ExportFailed_properties key) as_object of
         Some sub \<Rightarrow> validate rx sub val (''$'' @ ''.'' @ key) = [] | None \<Rightarrow> True)"
    unfolding Validate_def validate_object [OF failed_schema_keywords rs props] by simp
  also have "\<dots> \<longleftrightarrow> fld_SchemaVersion f = 1 \<and> fld_EventID f \<noteq> [] \<and> fld_EventType f = EventTypeExportFailed \<and>
     fld_DeploymentID f \<noteq> [] \<and> fld_TeamID f \<noteq> [] \<and> fld_SiteID f \<noteq> [] \<and>
     fld_PageID f \<noteq> [] \<and> fld_Slug f \<noteq> [] \<and> fld_Version f \<noteq> [] \<and>
     fld_Environment f \<in> environments \<and> fld_RenderMode f \<in> render_modes \<and>
     0 \<le> fld_Attempt f \<and> fld_Attempt f \<le> 3 \<and> fld_TraceID f \<noteq> []"
    by (simp add: obj_def ExportFailed_properties_def validate_property export_failed_json_def
        error_code_registry failed_stage_registry classification_registry
        EventTypeExportFailed_def environments_def render_modes_def)
  finally show ?thesis unfolding obj .
qed

text \<open>The inbound schema, read the other way: what an accepted object holds.\<close>

lemma validate_nonempty_any:
  "validate rx [(''type'', JStr ''string''), (''minLength'', JNum 1)] v p = [] \<longleftrightarrow> (\<exists>s. v = JStr s \<and> s \<noteq> [])"
  by (cases v) (simp_all add: validate_nonempty, (subst validate.simps, simp add: keyword_def in_enum_def string_violations_def)+)

lemma jsonEqual_JStr: "jsonEqual (JStr s) v \<longleftrightarrow> v = JStr s"
  by simp

lemma validate_enum_any:
  "validate rx [(''type'', JStr ''string''), (''enum'', JArr (map JStr ss))] v p = [] \<Longrightarrow> \<exists>s \<in> set ss. v = JStr s"
  by (subst (asm) validate.simps)
    (auto simp: keyword_def in_enum_def list_ex_iff jsonEqual_JStr split: if_splits)

lemma requested_schema_keywords:
  "keyword SchemaExportRequested ''const'' = None" "keyword SchemaExportRequested ''enum'' = None"
  "keyword SchemaExportRequested ''type'' = Some (JStr ''object'')"
  "keyword SchemaExportRequested ''additionalProperties'' = Some (JBool True)"
  by (simp_all add: SchemaExportRequested_def keyword_def)

lemma requested_event_fields:
  assumes valid: "Validate rx SchemaExportRequested (JObj obj) = []"
  shows "k \<in> {''eventId'', ''deploymentId'', ''teamId'', ''siteId'', ''pageId'', ''slug'', ''version'', ''targetId''} \<Longrightarrow>
      \<exists>s. map_of obj k = Some (JStr s) \<and> s \<noteq> []"
    and "\<exists>s \<in> environments. map_of obj ''environment'' = Some (JStr s)"
    and "\<exists>s \<in> render_modes. map_of obj ''renderMode'' = Some (JStr s)"
proof -
  define rs where "rs = [''eventId'', ''eventType'', ''deploymentId'', ''teamId'', ''siteId'', ''pageId'', ''slug'',
    ''version'', ''renderMode'', ''targetId'', ''environment'', ''idempotencyKey'']"
  define props where "props = ExportRequested_properties"
  have rs: "keyword SchemaExportRequested ''required'' = Some (JArr (map JStr rs))"
    by (simp add: SchemaExportRequested_def keyword_def rs_def)
  have props: "keyword SchemaExportRequested ''properties'' = Some (JObj props)"
    by (simp add: props_def SchemaExportRequested_def keyword_def)
  note obj = valid [unfolded Validate_def validate_object [OF requested_schema_keywords rs props]]
  have val: "\<exists>v. map_of obj k = Some v \<and> (\<forall>sub. map_of props k = Some (JObj sub) \<longrightarrow> validate rx sub v (''$'' @ ''.'' @ k) = [])"
    if "k \<in> set rs" for k
  proof -
    from obj that obtain v where v: "map_of obj k = Some v" by fast
    then have "(k, v) \<in> set obj" by (rule map_of_SomeD)
    with obj v show ?thesis by force
  qed
  have lookup: "\<forall>k \<in> {''eventId'', ''deploymentId'', ''teamId'', ''siteId'', ''pageId'', ''slug'', ''version'', ''targetId''}.
      map_of props k = Some (JObj [(''type'', JStr ''string''), (''minLength'', JNum 1)])"
    by (simp add: props_def ExportRequested_properties_def)
  show "\<exists>s. map_of obj k = Some (JStr s) \<and> s \<noteq> []"
    if "k \<in> {''eventId'', ''deploymentId'', ''teamId'', ''siteId'', ''pageId'', ''slug'', ''version'', ''targetId''}" for k
  proof -
    have "k \<in> set rs" using that by (auto simp: rs_def)
    from val [OF this] lookup [rule_format, OF that] obtain v where v: "map_of obj k = Some v"
      "validate rx [(''type'', JStr ''string''), (''minLength'', JNum 1)] v (''$'' @ ''.'' @ k) = []"
      by blast
    then show ?thesis unfolding validate_nonempty_any by blast
  qed
  have env: "map_of props ''environment'' =
      Some (JObj [(''type'', JStr ''string''), (''enum'', JArr (map JStr [''production'', ''preview'']))])"
    and mode: "map_of props ''renderMode'' =
      Some (JObj [(''type'', JStr ''string''), (''enum'', JArr (map JStr [''fetch_route'', ''react_ssr'', ''html_export'']))])"
    by (simp_all add: props_def ExportRequested_properties_def)
  have "''environment'' \<in> set rs" "''renderMode'' \<in> set rs" by (simp_all add: rs_def)
  from val [OF this(1)] env obtain v where "map_of obj ''environment'' = Some v"
    "\<exists>s \<in> set [''production'', ''preview'']. v = JStr s"
    using validate_enum_any by metis
  then show "\<exists>s \<in> environments. map_of obj ''environment'' = Some (JStr s)"
    by (auto simp: environments_def)
  from val [OF \<open>''renderMode'' \<in> set rs\<close>] mode obtain v where "map_of obj ''renderMode'' = Some v"
    "\<exists>s \<in> set [''fetch_route'', ''react_ssr'', ''html_export'']. v = JStr s"
    using validate_enum_any by metis
  then show "\<exists>s \<in> render_modes. map_of obj ''renderMode'' = Some (JStr s)"
    by (auto simp: render_modes_def)
qed

section \<open>Properties\<close>

text \<open>
  The library decodes the payload into the struct field by field: each field has the string value of its
  key. (It does so unless the object has a second key that differs from a field's only in case.)
\<close>

definition decodes_fields :: "event_lib \<Rightarrow> string \<Rightarrow> bool" where
  "decodes_fields lib payload =
     (\<forall>obj ev. json_Unmarshal lib payload = Inr (JObj obj) \<longrightarrow> Unmarshal_ExportRequested lib payload = Inr ev \<longrightarrow>
        list_all (\<lambda>(k, s). \<forall>t. map_of obj k = Some (JStr t) \<longrightarrow> s = t)
          [(''deploymentId'', ev_DeploymentID ev), (''teamId'', ev_TeamID ev), (''siteId'', ev_SiteID ev),
           (''pageId'', ev_PageID ev), (''slug'', ev_Slug ev), (''version'', ev_Version ev),
           (''environment'', ev_Environment ev), (''renderMode'', ev_RenderMode ev)])"

lemma ParseEvent_accepts:
  assumes "ParseEvent lib payload = Inr ev"
  shows "\<exists>obj. json_Unmarshal lib payload = Inr (JObj obj) \<and> Unmarshal_ExportRequested lib payload = Inr ev \<and>
    Validate (lib_regexp lib) SchemaExportRequested (JObj obj) = []"
  using assms
  by (auto simp: ParseEvent_def as_object_Some split: sum.splits option.splits if_splits list.splits)

lemma ParseEvent_fields:
  assumes "ParseEvent lib payload = Inr ev" "decodes_fields lib payload"
  shows "ev_DeploymentID ev \<noteq> []" "ev_TeamID ev \<noteq> []" "ev_SiteID ev \<noteq> []" "ev_PageID ev \<noteq> []"
    "ev_Slug ev \<noteq> []" "ev_Version ev \<noteq> []" "ev_Environment ev \<in> environments" "ev_RenderMode ev \<in> render_modes"
proof -
  obtain obj where obj: "json_Unmarshal lib payload = Inr (JObj obj)" "Unmarshal_ExportRequested lib payload = Inr ev"
    and valid: "Validate (lib_regexp lib) SchemaExportRequested (JObj obj) = []"
    using ParseEvent_accepts [OF assms(1)] by blast
  have "list_all (\<lambda>(k, s). \<forall>t. map_of obj k = Some (JStr t) \<longrightarrow> s = t)
      [(''deploymentId'', ev_DeploymentID ev), (''teamId'', ev_TeamID ev), (''siteId'', ev_SiteID ev),
       (''pageId'', ev_PageID ev), (''slug'', ev_Slug ev), (''version'', ev_Version ev),
       (''environment'', ev_Environment ev), (''renderMode'', ev_RenderMode ev)]"
    using assms(2) obj unfolding decodes_fields_def by (elim allE impE)
  then have same: "map_of obj ''deploymentId'' = Some (JStr t) \<Longrightarrow> ev_DeploymentID ev = t"
    "map_of obj ''teamId'' = Some (JStr t) \<Longrightarrow> ev_TeamID ev = t"
    "map_of obj ''siteId'' = Some (JStr t) \<Longrightarrow> ev_SiteID ev = t"
    "map_of obj ''pageId'' = Some (JStr t) \<Longrightarrow> ev_PageID ev = t"
    "map_of obj ''slug'' = Some (JStr t) \<Longrightarrow> ev_Slug ev = t"
    "map_of obj ''version'' = Some (JStr t) \<Longrightarrow> ev_Version ev = t"
    "map_of obj ''environment'' = Some (JStr t) \<Longrightarrow> ev_Environment ev = t"
    "map_of obj ''renderMode'' = Some (JStr t) \<Longrightarrow> ev_RenderMode ev = t" for t
    by simp_all
  note fields = requested_event_fields [OF valid]
  show "ev_DeploymentID ev \<noteq> []" using fields(1) [of "''deploymentId''"] same(1) by auto
  show "ev_TeamID ev \<noteq> []" using fields(1) [of "''teamId''"] same(2) by auto
  show "ev_SiteID ev \<noteq> []" using fields(1) [of "''siteId''"] same(3) by auto
  show "ev_PageID ev \<noteq> []" using fields(1) [of "''pageId''"] same(4) by auto
  show "ev_Slug ev \<noteq> []" using fields(1) [of "''slug''"] same(5) by auto
  show "ev_Version ev \<noteq> []" using fields(1) [of "''version''"] same(6) by auto
  show "ev_Environment ev \<in> environments" using fields(2) same(7) by auto
  show "ev_RenderMode ev \<in> render_modes" using fields(3) same(8) by auto
qed

text \<open>
  C24. The failure event that the worker builds for an accepted request conforms to its contract exactly when the
  attempt is between 0 and 3: for every error, stage and time, with a non-empty trace ID. So within the retry
  budget the self-validation never suppresses a failure event, and beyond it (an attempt above 3 in the queue
  message) it always does.
\<close>

theorem failed_event_conforms:
  assumes "ParseEvent lib payload = Inr ev" "decodes_fields lib payload" "traceID \<noteq> []"
  shows "wp (BuildFailed rand_Read ev ce attempt exhausted traceID now)
    (\<lambda>f _. Validate rx SchemaExportFailed (export_failed_json f) = [] \<longleftrightarrow> 0 \<le> attempt \<and> attempt \<le> 3) w"
  using ParseEvent_fields [OF assms(1,2)] assms(3)
  by (simp add: BuildFailed_def NewEventID_def failed_event_valid_iff)

text \<open>A library that knows one request.\<close>

definition sample_request :: json_object where
  "sample_request =
     [(''eventId'', JStr ''e1''), (''eventType'', JStr ''deployment.export.requested''), (''deploymentId'', JStr ''d1''),
      (''teamId'', JStr ''t1''), (''siteId'', JStr ''s1''), (''pageId'', JStr ''p1''), (''slug'', JStr ''/home''),
      (''version'', JStr ''v1''), (''renderMode'', JStr ''fetch_route''), (''targetId'', JStr ''c1''),
      (''environment'', JStr ''production''), (''idempotencyKey'', JStr ''k1'')]"

definition sample_event :: export_requested where
  "sample_event =
     \<lparr>ev_EventID = ''e1'', ev_EventType = ''deployment.export.requested'', ev_DeploymentID = ''d1'', ev_TeamID = ''t1'',
      ev_SiteID = ''s1'', ev_PageID = ''p1'', ev_Slug = ''/home'', ev_Version = ''v1'', ev_RenderMode = ''fetch_route'',
      ev_TargetID = ''c1'', ev_Environment = ''production'', ev_RequestedBy = '''', ev_IdempotencyKey = ''k1'',
      ev_CreatedAt = ''''\<rparr>"

definition sample_lib :: event_lib where
  "sample_lib =
     \<lparr>json_Marshal = (\<lambda>j. Inr ''{}''),
      json_Unmarshal = (\<lambda>s. if s = ''request'' then Inr (JObj sample_request)
        else if s = ''{}'' then Inr (JObj [(''deploymentId'', JStr ''d1'')]) else Inl (TextE ''invalid character'')),
      Unmarshal_ExportRequested = (\<lambda>s. if s = ''request'' then Inr sample_event else Inl (TextE ''invalid character'')),
      Unmarshal_deploymentID = (\<lambda>s. if s = ''request'' \<or> s = ''{}'' then ''d1'' else ''''),
      lib_regexp = (\<lambda>re s. None)\<rparr>"

lemma sample_accepted: "ParseEvent sample_lib ''request'' = Inr sample_event"
proof -
  have "TrimSpace ''d1'' \<noteq> []" by code_simp
  moreover have "Validate (lib_regexp sample_lib) SchemaExportRequested (JObj sample_request) = []" by code_simp
  ultimately show ?thesis
    by (simp add: ParseEvent_def sample_lib_def) (simp add: sample_request_def)
qed

theorem failed_event_conforms_witness:
  "wp (BuildFailed (\<lambda>n. ret (replicate n CHR ''x'')) sample_event
       \<lparr>Code = ErrorCodeStorage5xx, Stage = FailedStageUploadArtifacts, Cause = None\<rparr> 3 True ''t'' 0)
     (\<lambda>f _. Validate (\<lambda>re s. None) SchemaExportFailed (export_failed_json f) = []) ()"
proof -
  have "decodes_fields sample_lib ''request''"
    by (simp add: decodes_fields_def sample_lib_def) (simp add: sample_request_def sample_event_def)
  then show ?thesis
    by (rule wp_mono [OF failed_event_conforms [OF sample_accepted]]) simp_all
qed

text \<open>
  What an emission does to the streams: it appends one entry with the event's own encoding, and this encoding validates, or it changes no stream and reports
  an error; an event that does not encode or does not validate is refused for good (the code is not retryable), an append that fails may be tried again.
\<close>

definition publishes_valid :: "'w emitter \<Rightarrow> ('w \<Rightarrow> redis_view) \<Rightarrow> string \<Rightarrow> json_object \<Rightarrow> json \<Rightarrow> 'w \<Rightarrow> gerr option \<Rightarrow> 'w \<Rightarrow> bool" where
  "publishes_valid e view stream schema j w err w' \<longleftrightarrow>
     (\<exists>i payload. json_Marshal (em_json e) j = Inr payload \<and> ValidateBytes (em_json e) (em_regexp e) schema payload = [] \<and>
        streams (view w') = (streams (view w))(stream := streams (view w) stream @ [(i, [(''payload'', payload)])])) \<or>
     streams (view w') = streams (view w) \<and>
     (\<exists>code cause. err = Some (as_error (errclass_New code FailedStageEmitReady cause)) \<and>
        code = (case json_Marshal (em_json e) j of
                  Inl _ \<Rightarrow> ErrorCodeValidationFailed
                | Inr payload \<Rightarrow>
                    if ValidateBytes (em_json e) (em_regexp e) schema payload = [] then ErrorCodeQueueTemporaryFailure
                    else ErrorCodeValidationFailed))"

lemma emit_publishes_valid:
  assumes "redis_store (rdb drv) view c cmp" "em_Append e = AppendOutcome drv"
  shows "wp (emit e stream schema j FailedStageEmitReady) (publishes_valid e view stream schema j w) w"
proof (cases "\<exists>payload. json_Marshal (em_json e) j = Inr payload \<and>
    ValidateBytes (em_json e) (em_regexp e) schema payload = []")
  case True
  then obtain payload where p: "json_Marshal (em_json e) j = Inr payload"
    "ValidateBytes (em_json e) (em_regexp e) schema payload = []" by blast
  show ?thesis
    unfolding emit_def p sum.case list.case wp_bind wp_return assms(2) AppendOutcome_def
    by (rule wp_mono [OF redis_store.xadd [OF assms(1)]])
      (auto simp: wrap_res_def publishes_valid_def p simp del: split_paired_Ex)
next
  case False
  then show ?thesis
    by (auto simp: emit_def publishes_valid_def split: sum.splits list.splits)
qed

text \<open>
  C23. No event that violates its contract reaches its stream. With the driver's \<open>AppendOutcome\<close> on any Redis with the documented behaviour of \<open>XADD\<close>:
  \<open>EmitReady\<close> appends one entry to \<open>anvilkit:deployment.artifact.ready\<close> whose payload is the event's encoding and validates against the schema of the ready event,
  or it changes no stream and reports an error; \<open>EmitFailed\<close> does the same with \<open>anvilkit:deployment.export.failed\<close> and the schema of the failure event.
\<close>

theorem emit_only_valid:
  assumes "redis_store (rdb drv) view c cmp" "em_Append e = AppendOutcome drv"
  shows "wp (EmitReady e ready) (publishes_valid e view ''anvilkit:deployment.artifact.ready'' SchemaArtifactReady (artifact_ready_json ready) w) w \<and>
    wp (EmitFailed e failed) (publishes_valid e view ''anvilkit:deployment.export.failed'' SchemaExportFailed (export_failed_json failed) w) w"
  using emit_publishes_valid [OF assms, of StreamArtifactReady SchemaArtifactReady "artifact_ready_json ready" w]
    emit_publishes_valid [OF assms, of StreamExportFailed SchemaExportFailed "export_failed_json failed" w]
  by (simp add: EmitReady_def EmitFailed_def StreamArtifactReady_def StreamExportFailed_def)

text \<open>An emitter whose encoder produces what is not an object: everything is refused.\<close>

definition refusing_emitter :: "server emitter" where
  "refusing_emitter =
     \<lparr>em_Append = AppendOutcome \<lparr>rdb = server_redis, consumer = ''w''\<rparr>,
      em_json = \<lparr>json_Marshal = (\<lambda>j. Inr ''x''), json_Unmarshal = (\<lambda>s. Inr (JStr ''bad''))\<rparr>,
      em_regexp = (\<lambda>re s. None)\<rparr>"

theorem emit_only_valid_witness:
  "\<forall>failed. wp (EmitFailed refusing_emitter failed) (\<lambda>err s. err \<noteq> None \<and> srv_streams s = (\<lambda>_. [])) empty_server"
proof
  fix failed
  let ?e = refusing_emitter
  have "redis_store (rdb \<lparr>rdb = server_redis, consumer = ''w''\<rparr>) server_view line_codec id"
    by (simp add: server.redis_store_axioms)
  note publishes_valid = conjunct2 [OF emit_only_valid [OF this, of ?e], of failed]
  have append: "em_Append ?e = AppendOutcome \<lparr>rdb = server_redis, consumer = ''w''\<rparr>" by (simp add: refusing_emitter_def)
  have "Validate (\<lambda>re s. None) SchemaExportFailed (JStr ''bad'') \<noteq> []" by code_simp
  then have "ValidateBytes (em_json ?e) (em_regexp ?e) SchemaExportFailed p \<noteq> []" for p
    by (simp add: ValidateBytes_def refusing_emitter_def)
  then show "wp (EmitFailed ?e failed) (\<lambda>err s. err \<noteq> None \<and> srv_streams s = (\<lambda>_. [])) empty_server"
    by (intro wp_mono [OF publishes_valid [OF append]]) (auto simp: publishes_valid_def server_view_def empty_server_def)
qed

text \<open>
  The contract schemas are inside the subset that the validator implements: none of them uses a construct that
  \<open>Validate\<close> would silently ignore.
\<close>

theorem contracts_enforceable:
  "Audit SchemaExportRequested = [] \<and> Audit SchemaArtifactReady = [] \<and> Audit SchemaExportFailed = [] \<and>
   Audit SchemaArtifactManifest = []"
  by code_simp

end
