(* ===== verification/Processor.thy ===== *)
theory Processor
  imports Deployment Retry Emit
begin

text \<open>
  The job processor, \<open>src/internal/worker/processor.go\<close>, with its seams \<open>deps.go\<close> and \<open>exporter.go\<close>: every
  acknowledgement decision of the worker.

  The collaborators are effectful functions on an arbitrary world \<open>'w\<close>, so that every result of every call
  is possible: contexts, deadlines and a lease that is lost in the middle of a job show as errors of
  the calls that carry them. Log lines and trace spans are left out.
\<close>

section \<open>Data\<close>

datatype outcome =
    OutcomeSuccess
  | OutcomeDryRun
  | OutcomeAckedTerminal
  | OutcomeRetryScheduled
  | OutcomeDLQ
  | OutcomeFailedTerminal
  | OutcomeLockConflict
  | OutcomeStopSafe
  | OutcomeNoAck

record job =
  job_Event :: export_requested
  job_Record :: deployment_record
  job_Msg :: message
  job_TraceID :: string

text \<open>The updates of \<open>obs.Metrics\<close> that the processor makes.\<close>

datatype metric =
    JobsTotal
  | JobsSuccessTotal
  | JobsFailedTotal
  | JobDurationMs int
  | RetryTotal
  | DLQTotal
  | UnparseableTotal
  | AuthFailuresTotal error_code
  | LockConflictTotal

text \<open>
  \<open>Deps\<close>, with the library functions that the processor calls as its last fields. A lease is its
  \<open>Release\<close>; an optional collaborator is \<open>None\<close> for nil.
\<close>

record 'w deps =
  Consumer_Ack :: "string list \<Rightarrow> ('w, gerr option) state"
  DLQ_SendToDLQ :: "dlq_entry \<Rightarrow> ('w, gerr option) state"
  Retries_Schedule :: "retry_envelope \<Rightarrow> ('w, gerr option) state"
  Locker_Acquire :: "string \<Rightarrow> ('w, gerr + ('w, gerr option) state) state"
  Deploy_Load :: "string \<Rightarrow> ('w, gerr + deployment_record) state"
  Deploy_Transition :: "string \<Rightarrow> deployment_status \<Rightarrow> deployment_status \<Rightarrow> string \<Rightarrow> string \<Rightarrow> failed_stage
    \<Rightarrow> ('w, gerr option) state"
  Exporter_Export :: "job \<Rightarrow> ('w, gerr option) state"
  FailedEmit :: "(export_failed \<Rightarrow> ('w, gerr option) state) option"
  ReadyRedeliver :: "(deployment_record \<Rightarrow> string \<Rightarrow> ('w, gerr + bool) state) option"
  Metrics :: "(metric \<Rightarrow> ('w, unit) state) option"
  Backoff :: "'w backoff_policy"
  WorkerID :: string
  DryRun :: bool
  MaxRetries :: int
  JobTimeout :: duration
  Now :: "('w, time) state option"
  lib :: event_lib
  deps_rand_Read :: "'w rand_reader"
  deps_rand_Float64 :: "'w scaler"
  deps_time_Now :: "('w, time) state"

definition New :: "'w deps \<Rightarrow> 'w deps" where
  "New d =
     (let d = (if MaxRetries d = 0 then d\<lparr>MaxRetries := 3\<rparr> else d);
          d = (if Base (Backoff d) = 0 then d\<lparr>Backoff := DefaultBackoff\<rparr> else d);
          d = (if JobTimeout d \<le> 0 then d\<lparr>JobTimeout := 90 * Second\<rparr> else d);
          d = (if Now d = None then d\<lparr>Now := Some (deps_time_Now d)\<rparr> else d)
      in d)"

section \<open>Helpers\<close>

definition now_of :: "'w deps \<Rightarrow> ('w, time) state" where
  "now_of d = (case Now d of Some f \<Rightarrow> f | None \<Rightarrow> deps_time_Now d)"

definition metric :: "'w deps \<Rightarrow> metric \<Rightarrow> ('w, unit) state" where
  "metric d m = (case Metrics d of None \<Rightarrow> ret () | Some f \<Rightarrow> f m)"

text \<open>The duration of the job, observed when there are metrics.\<close>

definition observe_duration :: "'w deps \<Rightarrow> time \<Rightarrow> ('w, unit) state" where
  "observe_duration d start =
     (case Metrics d of
        None \<Rightarrow> ret ()
      | Some f \<Rightarrow> do { t \<leftarrow> now_of d; f (JobDurationMs (Milliseconds (t - start))) })"

definition extractDeploymentID :: "'w deps \<Rightarrow> string \<Rightarrow> string" where
  "extractDeploymentID d payload = Unmarshal_deploymentID (lib d) payload"

definition newTraceID :: "'w deps \<Rightarrow> ('w, string) state" where
  "newTraceID d = do {
     b \<leftarrow> deps_rand_Read d 16;
     ret (hex_EncodeToString b)
   }"

definition ack :: "'w deps \<Rightarrow> message \<Rightarrow> ('w, unit) state" where
  "ack d msg = do {
     err \<leftarrow> Consumer_Ack d [msg_ID msg];
     ret ()
   }"

definition dlqEntry :: "'w deps \<Rightarrow> message \<Rightarrow> errclass_error \<Rightarrow> ('w, dlq_entry) state" where
  "dlqEntry d msg ce = do {
     t \<leftarrow> now_of d;
     ret \<lparr>dlq_Payload = msg_Payload msg, dlq_ErrorCode = Code ce, dlq_FailedStage = Stage ce,
          dlq_Attempt = msg_Attempt msg, dlq_TraceID = msg_TraceID msg, dlq_WorkerID = WorkerID d,
          dlq_EnqueuedAt = EnqueueTimeOf (msg_ID msg), dlq_FailedAt = t\<rparr>
   }"

definition emitFailed :: "'w deps \<Rightarrow> export_requested option \<Rightarrow> errclass_error \<Rightarrow> int \<Rightarrow> bool \<Rightarrow> string \<Rightarrow> ('w, unit) state" where
  "emitFailed d ev ce attempt retryExhausted traceID =
     (case (FailedEmit d, ev) of
        (Some emit_failed, Some ev) \<Rightarrow> do {
          t \<leftarrow> now_of d;
          failed \<leftarrow> BuildFailed (deps_rand_Read d) ev ce attempt retryExhausted traceID t;
          err \<leftarrow> emit_failed failed;
          ret ()
        }
      | _ \<Rightarrow> ret ())"

definition casFailed :: "'w deps \<Rightarrow> string \<Rightarrow> deployment_record option \<Rightarrow> string \<Rightarrow> errclass_error \<Rightarrow> ('w, gerr option) state" where
  "casFailed d deploymentID rec traceID ce =
     (case rec of
        None \<Rightarrow> ret None
      | Some rec \<Rightarrow>
          if \<not> Actionable (rec_Status rec) then ret None
          else do {
            err \<leftarrow> Deploy_Transition d deploymentID (rec_Status rec) DeploymentStatusExportFailed
              (error_code_string (Code ce)) traceID (Stage ce);
            ret (case AsStatusConflict err of
                   Some currentStatus \<Rightarrow>
                     if NonActionable currentStatus then None else Some (StatusConflictE currentStatus)
                 | None \<Rightarrow> err)
          })"

section \<open>Failure branches\<close>

definition scheduleRetry :: "'w deps \<Rightarrow> message \<Rightarrow> string \<Rightarrow> string \<Rightarrow> errclass_error \<Rightarrow> ('w, outcome) state" where
  "scheduleRetry d msg deploymentID traceID ce = do {
     let next = msg_Attempt msg + 1;
     t \<leftarrow> now_of d;
     delay \<leftarrow> Delay (deps_rand_Float64 d) (Backoff d) next;
     err \<leftarrow> Retries_Schedule d
       \<lparr>env_RetryEnvelopeID = EnvelopeID deploymentID next (Code ce), env_DeploymentID = deploymentID,
        env_Attempt = next, env_NextAttemptAt = UnixMilli (t + delay), env_LastErrorCode = Code ce,
        env_TraceID = traceID, env_Payload = msg_Payload msg\<rparr>;
     case err of
       Some _ \<Rightarrow> ret OutcomeNoAck
     | None \<Rightarrow> do {
         metric d RetryTotal;
         ack d msg;
         ret OutcomeRetryScheduled
       }
   }"

definition exhausted :: "'w deps \<Rightarrow> message \<Rightarrow> export_requested option \<Rightarrow> string \<Rightarrow> deployment_record option \<Rightarrow> string
    \<Rightarrow> errclass_error \<Rightarrow> ('w, outcome) state" where
  "exhausted d msg ev deploymentID rec traceID ce = do {
     casErr \<leftarrow> casFailed d deploymentID rec traceID ce;
     if casErr \<noteq> None \<and> Error_Retryable (From casErr (Stage ce)) then ret OutcomeNoAck
     else do {
       entry \<leftarrow> dlqEntry d msg ce;
       err \<leftarrow> DLQ_SendToDLQ d entry;
       case err of
         Some _ \<Rightarrow> ret OutcomeNoAck
       | None \<Rightarrow> do {
           emitFailed d ev ce (msg_Attempt msg) True traceID;
           metric d DLQTotal;
           metric d JobsFailedTotal;
           ack d msg;
           ret OutcomeDLQ
         }
     }
   }"

text \<open>The terminal branch of \<open>fail\<close>, for an error that is not retryable.\<close>

definition fail_terminal :: "'w deps \<Rightarrow> message \<Rightarrow> export_requested option \<Rightarrow> string \<Rightarrow> deployment_record option \<Rightarrow> string
    \<Rightarrow> errclass_error \<Rightarrow> time \<Rightarrow> ('w, outcome) state" where
  "fail_terminal d msg ev deploymentID rec traceID ce start = do {
     casErr \<leftarrow> casFailed d deploymentID rec traceID ce;
     if casErr \<noteq> None then
       if Error_Retryable (From casErr (Stage ce)) then ret OutcomeNoAck
       else do {
         entry \<leftarrow> dlqEntry d msg ce;
         dlqErr \<leftarrow> DLQ_SendToDLQ d entry;
         case dlqErr of
           Some _ \<Rightarrow> ret OutcomeNoAck
         | None \<Rightarrow> do {
             metric d DLQTotal;
             ack d msg;
             ret OutcomeDLQ
           }
       }
     else do {
       emitFailed d ev ce (msg_Attempt msg) False traceID;
       metric d JobsFailedTotal;
       observe_duration d start;
       t \<leftarrow> now_of d;
       ack d msg;
       ret OutcomeFailedTerminal
     }
   }"

definition fail :: "'w deps \<Rightarrow> message \<Rightarrow> export_requested option \<Rightarrow> string \<Rightarrow> deployment_record option \<Rightarrow> string
    \<Rightarrow> errclass_error \<Rightarrow> time \<Rightarrow> ('w, outcome) state" where
  "fail d msg ev deploymentID rec traceID ce start = do {
     (if IsAuthCode (Code ce) then metric d (AuthFailuresTotal (Code ce)) else ret ());
     if Error_Retryable ce then
       (if msg_Attempt msg \<ge> MaxRetries d then exhausted d msg ev deploymentID rec traceID ce
        else scheduleRetry d msg deploymentID traceID ce)
     else fail_terminal d msg ev deploymentID rec traceID ce start
   }"

definition unparseableToDLQ :: "'w deps \<Rightarrow> message \<Rightarrow> ('w, outcome) state" where
  "unparseableToDLQ d msg = do {
     entry \<leftarrow> dlqEntry d msg (errclass_New ErrorCodeValidationFailed FailedStageConsumeJob None);
     err \<leftarrow> DLQ_SendToDLQ d entry;
     case err of
       Some _ \<Rightarrow> ret OutcomeNoAck
     | None \<Rightarrow> do {
         metric d DLQTotal;
         metric d UnparseableTotal;
         ack d msg;
         ret OutcomeDLQ
       }
   }"

section \<open>Handle\<close>

text \<open>From the export on, with the lock held.\<close>

definition handle_export :: "'w deps \<Rightarrow> message \<Rightarrow> export_requested \<Rightarrow> deployment_record \<Rightarrow> string \<Rightarrow> time
    \<Rightarrow> ('w, outcome) state" where
  "handle_export d msg ev rec traceID start = do {
     err \<leftarrow> Exporter_Export d \<lparr>job_Event = ev, job_Record = rec, job_Msg = msg, job_TraceID = traceID\<rparr>;
     if err \<noteq> None then
       (if errors_Is err ReadyEmitPendingE then ret OutcomeNoAck
        else fail d msg (Some ev) (ev_DeploymentID ev) (Some rec) traceID (From err FailedStageRenderHtml) start)
     else do {
       metric d JobsSuccessTotal;
       observe_duration d start;
       t \<leftarrow> now_of d;
       ack d msg;
       ret OutcomeSuccess
     }
   }"

text \<open>From the dry-run check on, with the lock held: the transition to EXPORTING and the export.\<close>

definition handle_locked :: "'w deps \<Rightarrow> message \<Rightarrow> export_requested \<Rightarrow> deployment_record \<Rightarrow> string \<Rightarrow> time
    \<Rightarrow> ('w, outcome) state" where
  "handle_locked d msg ev rec traceID start =
     (if DryRun d then do {
        ack d msg;
        ret OutcomeDryRun
      }
      else if rec_Status rec = DeploymentStatusExportQueued then do {
        err \<leftarrow> Deploy_Transition d (ev_DeploymentID ev) DeploymentStatusExportQueued DeploymentStatusExporting
          ''worker_started'' traceID FailedStageUpdateStatusExporting;
        case AsStatusConflict err of
          Some currentStatus \<Rightarrow>
            if NonActionable currentStatus then do {
              ack d msg;
              ret OutcomeStopSafe
            }
            else ret OutcomeStopSafe
        | None \<Rightarrow>
            if err \<noteq> None then
              fail d msg (Some ev) (ev_DeploymentID ev) (Some rec) traceID
                (From err FailedStageUpdateStatusExporting) start
            else handle_export d msg ev (rec\<lparr>rec_Status := DeploymentStatusExporting\<rparr>) traceID start
      }
      else handle_export d msg ev rec traceID start)"

text \<open>From the lock on, for a record the worker can act on; the lease is released last.\<close>

definition handle_actionable :: "'w deps \<Rightarrow> message \<Rightarrow> export_requested \<Rightarrow> deployment_record \<Rightarrow> string \<Rightarrow> time
    \<Rightarrow> ('w, outcome) state" where
  "handle_actionable d msg ev rec traceID start = do {
     lease \<leftarrow> Locker_Acquire d (ev_DeploymentID ev);
     case lease of
       Inl err \<Rightarrow>
         if errors_Is (Some err) LockConflictE then do {
           metric d LockConflictTotal;
           ret OutcomeLockConflict
         }
         else fail d msg (Some ev) (ev_DeploymentID ev) (Some rec) traceID
           (errclass_New ErrorCodeQueueTemporaryFailure FailedStageAcquireLock (Some err)) start
     | Inr release \<Rightarrow> do {
         out \<leftarrow> handle_locked d msg ev rec traceID start;
         err \<leftarrow> release;
         ret out
       }
   }"

text \<open>A record that is past the worker's part: acknowledge, after the ready event is re-emitted if it is due.\<close>

definition handle_non_actionable :: "'w deps \<Rightarrow> message \<Rightarrow> deployment_record \<Rightarrow> string \<Rightarrow> ('w, outcome) state" where
  "handle_non_actionable d msg rec traceID =
     (case (if rec_Status rec = DeploymentStatusArtifactReady then ReadyRedeliver d else None) of
        Some reemitReady \<Rightarrow> do {
          r \<leftarrow> reemitReady rec traceID;
          case r of
            Inl rerr \<Rightarrow> ret OutcomeNoAck
          | Inr found \<Rightarrow> do {
              ack d msg;
              ret OutcomeAckedTerminal
            }
        }
      | None \<Rightarrow> do {
          ack d msg;
          ret OutcomeAckedTerminal
        })"

definition handle_event :: "'w deps \<Rightarrow> message \<Rightarrow> export_requested \<Rightarrow> time \<Rightarrow> ('w, outcome) state" where
  "handle_event d msg ev start = do {
     traceID \<leftarrow> (if msg_TraceID msg = [] then newTraceID d else ret (msg_TraceID msg));
     r \<leftarrow> Deploy_Load d (ev_DeploymentID ev);
     case r of
       Inl err \<Rightarrow>
         fail d msg (Some ev) (ev_DeploymentID ev) None traceID (From (Some err) FailedStageLoadDeployment) start
     | Inr rec \<Rightarrow>
         if NonActionable (rec_Status rec) then handle_non_actionable d msg rec traceID
         else if \<not> Actionable (rec_Status rec) then
           fail d msg (Some ev) (ev_DeploymentID ev) (Some rec) traceID
             (errclass_New ErrorCodeQueueTemporaryFailure FailedStageLoadDeployment
               (Some (TextE ''deployment record not yet EXPORT_QUEUED''))) start
         else (case Reconcile rec ev of
                 Some err \<Rightarrow>
                   fail d msg (Some ev) (ev_DeploymentID ev) (Some rec) traceID
                     (From (Some err) FailedStageLoadDeployment) start
               | None \<Rightarrow> handle_actionable d msg ev rec traceID start)
   }"

text \<open>A payload that is not a valid event but names a deployment.\<close>

definition handle_invalid :: "'w deps \<Rightarrow> message \<Rightarrow> gerr \<Rightarrow> time \<Rightarrow> ('w, outcome) state" where
  "handle_invalid d msg perr start = do {
     let deploymentID = extractDeploymentID d (msg_Payload msg);
     r \<leftarrow> Deploy_Load d deploymentID;
     case r of
       Inl lerr \<Rightarrow>
         fail d msg None deploymentID None [] (From (Some lerr) FailedStageLoadDeployment) start
     | Inr rec \<Rightarrow>
         fail d msg None deploymentID (Some rec) [] (From (Some perr) FailedStageConsumeJob) start
   }"

definition Handle :: "'w deps \<Rightarrow> message \<Rightarrow> ('w, outcome) state" where
  "Handle d msg = do {
     start \<leftarrow> now_of d;
     metric d JobsTotal;
     case ParseEvent (lib d) (msg_Payload msg) of
       Inl perr \<Rightarrow>
         if errors_Is (Some perr) UnparseableE then unparseableToDLQ d msg
         else handle_invalid d msg perr start
     | Inr ev \<Rightarrow> handle_event d msg ev start
   }"

end
