(* ===== verification/Protocol.thy ===== *)
theory Protocol
  imports Processor
begin

text \<open>
  The calls of the processor, seen from outside. \<open>traced\<close> wraps the collaborators of \<open>Processor\<close> so that each
  call is logged with its result; \<open>handle_run\<close> is the abstract specification of one message: which outcomes
  and which sequences of calls are allowed, whatever the collaborators answer. \<open>Handle_refines\<close> shows that
  \<open>Handle\<close> does nothing else; the properties of the acknowledgement rule follow from the specification.
\<close>

section \<open>Logged calls\<close>

datatype call =
    LoadC string "gerr + deployment_record"
  | ReemitC deployment_record string "gerr + bool"
  | AcquireC string "gerr option"
  | ReleaseC string "gerr option"
  | TransitionC string deployment_status deployment_status string string failed_stage "gerr option"
  | ExportC job "gerr option"
  | ScheduleC retry_envelope "gerr option"
  | DLQC dlq_entry "gerr option"
  | EmitC export_failed "gerr option"
  | AckC "string list" "gerr option"

definition quiet :: "('w, 'a) state \<Rightarrow> ('w \<times> 'c list, 'a) state" where
  "quiet m = State (\<lambda>(w, tr). case run_state m w of (a, w') \<Rightarrow> (a, (w', tr)))"

definition logged :: "('a \<Rightarrow> 'c) \<Rightarrow> ('w, 'a) state \<Rightarrow> ('w \<times> 'c list, 'a) state" where
  "logged c m = State (\<lambda>(w, tr). case run_state m w of (a, w') \<Rightarrow> (a, (w', tr @ [c a])))"

definition lease_error :: "gerr + 'a \<Rightarrow> gerr option" where
  "lease_error r = (case r of Inl e \<Rightarrow> Some e | Inr _ \<Rightarrow> None)"

definition quiet_policy :: "'w backoff_policy \<Rightarrow> ('w \<times> call list) backoff_policy" where
  "quiet_policy p = \<lparr>Base = Base p, Max = Max p, Rand = map_option (\<lambda>r h. quiet (r h)) (Rand p)\<rparr>"

definition traced :: "'w deps \<Rightarrow> ('w \<times> call list) deps" where
  "traced d =
     \<lparr>Consumer_Ack = (\<lambda>ids. logged (AckC ids) (Consumer_Ack d ids)),
      DLQ_SendToDLQ = (\<lambda>e. logged (DLQC e) (DLQ_SendToDLQ d e)),
      Retries_Schedule = (\<lambda>e. logged (ScheduleC e) (Retries_Schedule d e)),
      Locker_Acquire = (\<lambda>dep. do {
        r \<leftarrow> logged (AcquireC dep \<circ> lease_error) (Locker_Acquire d dep);
        ret (map_sum id (\<lambda>release. logged (ReleaseC dep) release) r)
      }),
      Deploy_Load = (\<lambda>dep. logged (LoadC dep) (Deploy_Load d dep)),
      Deploy_Transition = (\<lambda>dep a b reason trace stage.
        logged (TransitionC dep a b reason trace stage) (Deploy_Transition d dep a b reason trace stage)),
      Exporter_Export = (\<lambda>job. logged (ExportC job) (Exporter_Export d job)),
      FailedEmit = map_option (\<lambda>f ev. logged (EmitC ev) (f ev)) (FailedEmit d),
      ReadyRedeliver = map_option (\<lambda>f rec trace. logged (ReemitC rec trace) (f rec trace)) (ReadyRedeliver d),
      Metrics = map_option (\<lambda>f m. quiet (f m)) (Metrics d),
      Backoff = quiet_policy (Backoff d),
      WorkerID = WorkerID d,
      DryRun = DryRun d,
      MaxRetries = MaxRetries d,
      JobTimeout = JobTimeout d,
      Now = map_option quiet (Now d),
      lib = lib d,
      deps_rand_Read = (\<lambda>n. quiet (deps_rand_Read d n)),
      deps_rand_Float64 = (\<lambda>h. quiet (deps_rand_Float64 d h)),
      deps_time_Now = quiet (deps_time_Now d)\<rparr>"

section \<open>The specification\<close>

definition envelope_of :: "message \<Rightarrow> string \<Rightarrow> string \<Rightarrow> errclass_error \<Rightarrow> retry_envelope \<Rightarrow> bool" where
  "envelope_of msg dep trace ce env \<longleftrightarrow>
     env_RetryEnvelopeID env = EnvelopeID dep (msg_Attempt msg + 1) (Code ce) \<and> env_DeploymentID env = dep \<and>
     env_Attempt env = msg_Attempt msg + 1 \<and> env_LastErrorCode env = Code ce \<and> env_TraceID env = trace \<and>
     env_Payload env = msg_Payload msg"

definition dead_letter_of :: "message \<Rightarrow> errclass_error \<Rightarrow> dlq_entry \<Rightarrow> bool" where
  "dead_letter_of msg ce e \<longleftrightarrow>
     dlq_Payload e = msg_Payload msg \<and> dlq_ErrorCode e = Code ce \<and> dlq_FailedStage e = Stage ce \<and>
     dlq_Attempt e = msg_Attempt msg \<and> dlq_TraceID e = msg_TraceID msg \<and> dlq_EnqueuedAt e = EnqueueTimeOf (msg_ID msg)"

text \<open>A failure event, at most one, and only for a request that parsed.\<close>

inductive emit_run :: "export_requested option \<Rightarrow> errclass_error \<Rightarrow> int \<Rightarrow> bool \<Rightarrow> string \<Rightarrow> call list \<Rightarrow> bool"
  for ev ce attempt ex trace where
  no_event: "emit_run ev ce attempt ex trace []"
| event: "ev = Some e \<Longrightarrow> fld_DeploymentID f = ev_DeploymentID e \<Longrightarrow> fld_ErrorCode f = Code ce \<Longrightarrow>
    fld_FailedStage f = Stage ce \<Longrightarrow> fld_Attempt f = attempt \<Longrightarrow> fld_RetryExhausted f = ex \<Longrightarrow>
    fld_TraceID f = trace \<Longrightarrow> emit_run ev ce attempt ex trace [EmitC f r]"

text \<open>The transition to EXPORT_FAILED, with the error that counts.\<close>

inductive cas_run :: "string \<Rightarrow> deployment_record option \<Rightarrow> string \<Rightarrow> errclass_error \<Rightarrow> gerr option \<Rightarrow> call list \<Rightarrow> bool"
  for dep rec trace ce where
  no_record: "rec = None \<or> (\<exists>rc. rec = Some rc \<and> \<not> Actionable (rec_Status rc)) \<Longrightarrow> cas_run dep rec trace ce None []"
| cas: "rec = Some rc \<Longrightarrow> Actionable (rec_Status rc) \<Longrightarrow>
    casErr = (case AsStatusConflict err of
      Some cur \<Rightarrow> if NonActionable cur then None else Some (StatusConflictE cur) | None \<Rightarrow> err) \<Longrightarrow>
    cas_run dep rec trace ce casErr
      [TransitionC dep (rec_Status rc) DeploymentStatusExportFailed (error_code_string (Code ce)) trace (Stage ce) err]"

definition transient :: "errclass_error \<Rightarrow> gerr option \<Rightarrow> bool" where
  "transient ce casErr \<longleftrightarrow> casErr \<noteq> None \<and> Error_Retryable (From casErr (Stage ce))"

inductive failure_run :: "int \<Rightarrow> message \<Rightarrow> export_requested option \<Rightarrow> string \<Rightarrow> deployment_record option \<Rightarrow> string
    \<Rightarrow> errclass_error \<Rightarrow> outcome \<Rightarrow> call list \<Rightarrow> bool"
  for budget msg ev dep rec trace ce where
  retry_refused: "Error_Retryable ce \<Longrightarrow> msg_Attempt msg < budget \<Longrightarrow> envelope_of msg dep trace ce env \<Longrightarrow>
    failure_run budget msg ev dep rec trace ce OutcomeNoAck [ScheduleC env (Some e)]"
| retry_scheduled: "Error_Retryable ce \<Longrightarrow> msg_Attempt msg < budget \<Longrightarrow> envelope_of msg dep trace ce env \<Longrightarrow>
    failure_run budget msg ev dep rec trace ce OutcomeRetryScheduled [ScheduleC env None, AckC [msg_ID msg] r]"
| exhausted_cas_transient: "Error_Retryable ce \<Longrightarrow> budget \<le> msg_Attempt msg \<Longrightarrow> cas_run dep rec trace ce casErr cs \<Longrightarrow>
    transient ce casErr \<Longrightarrow> failure_run budget msg ev dep rec trace ce OutcomeNoAck cs"
| exhausted_refused: "Error_Retryable ce \<Longrightarrow> budget \<le> msg_Attempt msg \<Longrightarrow> cas_run dep rec trace ce casErr cs \<Longrightarrow>
    \<not> transient ce casErr \<Longrightarrow> dead_letter_of msg ce entry \<Longrightarrow>
    failure_run budget msg ev dep rec trace ce OutcomeNoAck (cs @ [DLQC entry (Some e)])"
| exhausted: "Error_Retryable ce \<Longrightarrow> budget \<le> msg_Attempt msg \<Longrightarrow> cas_run dep rec trace ce casErr cs \<Longrightarrow>
    \<not> transient ce casErr \<Longrightarrow> dead_letter_of msg ce entry \<Longrightarrow> emit_run ev ce (msg_Attempt msg) True trace es \<Longrightarrow>
    failure_run budget msg ev dep rec trace ce OutcomeDLQ (cs @ [DLQC entry None] @ es @ [AckC [msg_ID msg] r])"
| terminal_cas_transient: "\<not> Error_Retryable ce \<Longrightarrow> cas_run dep rec trace ce casErr cs \<Longrightarrow> transient ce casErr \<Longrightarrow>
    failure_run budget msg ev dep rec trace ce OutcomeNoAck cs"
| terminal_refused: "\<not> Error_Retryable ce \<Longrightarrow> cas_run dep rec trace ce (Some casE) cs \<Longrightarrow> \<not> transient ce (Some casE) \<Longrightarrow>
    dead_letter_of msg ce entry \<Longrightarrow>
    failure_run budget msg ev dep rec trace ce OutcomeNoAck (cs @ [DLQC entry (Some e)])"
| terminal_dead_letter: "\<not> Error_Retryable ce \<Longrightarrow> cas_run dep rec trace ce (Some casE) cs \<Longrightarrow> \<not> transient ce (Some casE) \<Longrightarrow>
    dead_letter_of msg ce entry \<Longrightarrow>
    failure_run budget msg ev dep rec trace ce OutcomeDLQ (cs @ [DLQC entry None, AckC [msg_ID msg] r])"
| terminal: "\<not> Error_Retryable ce \<Longrightarrow> cas_run dep rec trace ce None cs \<Longrightarrow>
    emit_run ev ce (msg_Attempt msg) False trace es \<Longrightarrow>
    failure_run budget msg ev dep rec trace ce OutcomeFailedTerminal (cs @ es @ [AckC [msg_ID msg] r])"

inductive export_run :: "int \<Rightarrow> message \<Rightarrow> export_requested \<Rightarrow> deployment_record \<Rightarrow> string \<Rightarrow> outcome \<Rightarrow> call list \<Rightarrow> bool"
  for budget msg ev rec trace where
  ready_pending: "errors_Is err ReadyEmitPendingE \<Longrightarrow>
    export_run budget msg ev rec trace OutcomeNoAck
      [ExportC \<lparr>job_Event = ev, job_Record = rec, job_Msg = msg, job_TraceID = trace\<rparr> err]"
| export_failed: "\<not> errors_Is (Some e) ReadyEmitPendingE \<Longrightarrow>
    failure_run budget msg (Some ev) (ev_DeploymentID ev) (Some rec) trace (From (Some e) FailedStageRenderHtml) out cs \<Longrightarrow>
    export_run budget msg ev rec trace out
      (ExportC \<lparr>job_Event = ev, job_Record = rec, job_Msg = msg, job_TraceID = trace\<rparr> (Some e) # cs)"
| exported: "export_run budget msg ev rec trace OutcomeSuccess
    [ExportC \<lparr>job_Event = ev, job_Record = rec, job_Msg = msg, job_TraceID = trace\<rparr> None, AckC [msg_ID msg] r]"

definition start_call :: "export_requested \<Rightarrow> string \<Rightarrow> gerr option \<Rightarrow> call" where
  "start_call ev trace err = TransitionC (ev_DeploymentID ev) DeploymentStatusExportQueued DeploymentStatusExporting
     ''worker_started'' trace FailedStageUpdateStatusExporting err"

inductive locked_run :: "int \<Rightarrow> bool \<Rightarrow> message \<Rightarrow> export_requested \<Rightarrow> deployment_record \<Rightarrow> string \<Rightarrow> outcome \<Rightarrow> call list \<Rightarrow> bool"
  for budget dry msg ev rec trace where
  dry_run: "dry \<Longrightarrow> locked_run budget dry msg ev rec trace OutcomeDryRun [AckC [msg_ID msg] r]"
| stop_done: "\<not> dry \<Longrightarrow> rec_Status rec = DeploymentStatusExportQueued \<Longrightarrow> AsStatusConflict err = Some cur \<Longrightarrow>
    NonActionable cur \<Longrightarrow>
    locked_run budget dry msg ev rec trace OutcomeStopSafe [start_call ev trace err, AckC [msg_ID msg] r]"
| stop_active: "\<not> dry \<Longrightarrow> rec_Status rec = DeploymentStatusExportQueued \<Longrightarrow> AsStatusConflict err = Some cur \<Longrightarrow>
    \<not> NonActionable cur \<Longrightarrow> locked_run budget dry msg ev rec trace OutcomeStopSafe [start_call ev trace err]"
| start_failed: "\<not> dry \<Longrightarrow> rec_Status rec = DeploymentStatusExportQueued \<Longrightarrow> AsStatusConflict (Some e) = None \<Longrightarrow>
    failure_run budget msg (Some ev) (ev_DeploymentID ev) (Some rec) trace
      (From (Some e) FailedStageUpdateStatusExporting) out cs \<Longrightarrow>
    locked_run budget dry msg ev rec trace out (start_call ev trace (Some e) # cs)"
| started: "\<not> dry \<Longrightarrow> rec_Status rec = DeploymentStatusExportQueued \<Longrightarrow>
    export_run budget msg ev (rec\<lparr>rec_Status := DeploymentStatusExporting\<rparr>) trace out cs \<Longrightarrow>
    locked_run budget dry msg ev rec trace out (start_call ev trace None # cs)"
| resumed: "\<not> dry \<Longrightarrow> rec_Status rec \<noteq> DeploymentStatusExportQueued \<Longrightarrow>
    export_run budget msg ev rec trace out cs \<Longrightarrow> locked_run budget dry msg ev rec trace out cs"

text \<open>One message. \<open>reemits\<close> says whether the re-emission of the ready event is wired.\<close>

inductive handle_run :: "event_lib \<Rightarrow> int \<Rightarrow> bool \<Rightarrow> bool \<Rightarrow> message \<Rightarrow> outcome \<Rightarrow> call list \<Rightarrow> bool"
  for l budget dry reemits msg where
  unparseable_refused: "ParseEvent l (msg_Payload msg) = Inl perr \<Longrightarrow> errors_Is (Some perr) UnparseableE \<Longrightarrow>
    dead_letter_of msg (errclass_New ErrorCodeValidationFailed FailedStageConsumeJob None) entry \<Longrightarrow>
    handle_run l budget dry reemits msg OutcomeNoAck [DLQC entry (Some e)]"
| unparseable: "ParseEvent l (msg_Payload msg) = Inl perr \<Longrightarrow> errors_Is (Some perr) UnparseableE \<Longrightarrow>
    dead_letter_of msg (errclass_New ErrorCodeValidationFailed FailedStageConsumeJob None) entry \<Longrightarrow>
    handle_run l budget dry reemits msg OutcomeDLQ [DLQC entry None, AckC [msg_ID msg] r]"
| invalid_load_failed: "ParseEvent l (msg_Payload msg) = Inl perr \<Longrightarrow> \<not> errors_Is (Some perr) UnparseableE \<Longrightarrow>
    dep = Unmarshal_deploymentID l (msg_Payload msg) \<Longrightarrow>
    failure_run budget msg None dep None [] (From (Some lerr) FailedStageLoadDeployment) out cs \<Longrightarrow>
    handle_run l budget dry reemits msg out (LoadC dep (Inl lerr) # cs)"
| invalid: "ParseEvent l (msg_Payload msg) = Inl perr \<Longrightarrow> \<not> errors_Is (Some perr) UnparseableE \<Longrightarrow>
    dep = Unmarshal_deploymentID l (msg_Payload msg) \<Longrightarrow>
    failure_run budget msg None dep (Some rec) [] (From (Some perr) FailedStageConsumeJob) out cs \<Longrightarrow>
    handle_run l budget dry reemits msg out (LoadC dep (Inr rec) # cs)"
| load_failed: "ParseEvent l (msg_Payload msg) = Inr ev \<Longrightarrow>
    failure_run budget msg (Some ev) (ev_DeploymentID ev) None trace (From (Some lerr) FailedStageLoadDeployment) out cs \<Longrightarrow>
    handle_run l budget dry reemits msg out (LoadC (ev_DeploymentID ev) (Inl lerr) # cs)"
| reemit_failed: "ParseEvent l (msg_Payload msg) = Inr ev \<Longrightarrow> reemits \<Longrightarrow> rec_Status rec = DeploymentStatusArtifactReady \<Longrightarrow>
    handle_run l budget dry reemits msg OutcomeNoAck
      [LoadC (ev_DeploymentID ev) (Inr rec), ReemitC rec trace (Inl e)]"
| reemitted: "ParseEvent l (msg_Payload msg) = Inr ev \<Longrightarrow> reemits \<Longrightarrow> rec_Status rec = DeploymentStatusArtifactReady \<Longrightarrow>
    handle_run l budget dry reemits msg OutcomeAckedTerminal
      [LoadC (ev_DeploymentID ev) (Inr rec), ReemitC rec trace (Inr found), AckC [msg_ID msg] r]"
| already_done: "ParseEvent l (msg_Payload msg) = Inr ev \<Longrightarrow> NonActionable (rec_Status rec) \<Longrightarrow>
    \<not> reemits \<or> rec_Status rec \<noteq> DeploymentStatusArtifactReady \<Longrightarrow>
    handle_run l budget dry reemits msg OutcomeAckedTerminal
      [LoadC (ev_DeploymentID ev) (Inr rec), AckC [msg_ID msg] r]"
| too_early: "ParseEvent l (msg_Payload msg) = Inr ev \<Longrightarrow> \<not> NonActionable (rec_Status rec) \<Longrightarrow> \<not> Actionable (rec_Status rec) \<Longrightarrow>
    Code ce = ErrorCodeQueueTemporaryFailure \<Longrightarrow>
    failure_run budget msg (Some ev) (ev_DeploymentID ev) (Some rec) trace ce out cs \<Longrightarrow>
    handle_run l budget dry reemits msg out (LoadC (ev_DeploymentID ev) (Inr rec) # cs)"
| mismatch: "ParseEvent l (msg_Payload msg) = Inr ev \<Longrightarrow> Actionable (rec_Status rec) \<Longrightarrow> Reconcile rec ev = Some e \<Longrightarrow>
    failure_run budget msg (Some ev) (ev_DeploymentID ev) (Some rec) trace (From (Some e) FailedStageLoadDeployment) out cs \<Longrightarrow>
    handle_run l budget dry reemits msg out (LoadC (ev_DeploymentID ev) (Inr rec) # cs)"
| lock_conflict: "ParseEvent l (msg_Payload msg) = Inr ev \<Longrightarrow> Actionable (rec_Status rec) \<Longrightarrow> Reconcile rec ev = None \<Longrightarrow>
    errors_Is (Some e) LockConflictE \<Longrightarrow>
    handle_run l budget dry reemits msg OutcomeLockConflict
      [LoadC (ev_DeploymentID ev) (Inr rec), AcquireC (ev_DeploymentID ev) (Some e)]"
| lock_failed: "ParseEvent l (msg_Payload msg) = Inr ev \<Longrightarrow> Actionable (rec_Status rec) \<Longrightarrow> Reconcile rec ev = None \<Longrightarrow>
    \<not> errors_Is (Some e) LockConflictE \<Longrightarrow>
    failure_run budget msg (Some ev) (ev_DeploymentID ev) (Some rec) trace
      (errclass_New ErrorCodeQueueTemporaryFailure FailedStageAcquireLock (Some e)) out cs \<Longrightarrow>
    handle_run l budget dry reemits msg out
      (LoadC (ev_DeploymentID ev) (Inr rec) # AcquireC (ev_DeploymentID ev) (Some e) # cs)"
| locked: "ParseEvent l (msg_Payload msg) = Inr ev \<Longrightarrow> Actionable (rec_Status rec) \<Longrightarrow> Reconcile rec ev = None \<Longrightarrow>
    locked_run budget dry msg ev rec trace out cs \<Longrightarrow>
    handle_run l budget dry reemits msg out
      (LoadC (ev_DeploymentID ev) (Inr rec) # AcquireC (ev_DeploymentID ev) None # cs @
        [ReleaseC (ev_DeploymentID ev) r])"

section \<open>Handle refines the specification\<close>

text \<open>\<open>emits m P\<close>: every run of \<open>m\<close> appends calls \<open>cs\<close> to the log and returns \<open>a\<close> with \<open>P a cs\<close>.\<close>

definition emits :: "('w \<times> call list, 'a) state \<Rightarrow> ('a \<Rightarrow> call list \<Rightarrow> bool) \<Rightarrow> bool" where
  "emits m P = (\<forall>w tr. wp m (\<lambda>a (w', tr'). \<exists>cs. tr' = tr @ cs \<and> P a cs) (w, tr))"

lemma emits_ret: "P a [] \<Longrightarrow> emits (ret a) P"
  by (simp add: emits_def)

lemma emits_mono: "emits m P \<Longrightarrow> (\<And>a cs. P a cs \<Longrightarrow> Q a cs) \<Longrightarrow> emits m Q"
  unfolding emits_def by (blast intro: wp_mono [of m])

lemma emits_bind:
  assumes "emits m P" "\<And>a cs. P a cs \<Longrightarrow> emits (f a) (\<lambda>b cs'. Q b (cs @ cs'))"
  shows "emits (m \<bind> f) Q"
  unfolding emits_def wp_bind
proof (intro allI)
  fix w tr
  show "wp m (\<lambda>a. wp (f a) (\<lambda>a (w', tr'). \<exists>cs. tr' = tr @ cs \<and> Q a cs)) (w, tr)"
  proof (rule wp_mono [OF assms(1) [unfolded emits_def, rule_format]], clarsimp, goal_cases)
    case (1 a w1 cs)
    show ?case
      by (rule wp_mono [OF assms(2) [OF 1, unfolded emits_def, rule_format]]) auto
  qed
qed

lemma emits_logged: "(\<And>a. emits (f a) (\<lambda>b cs. Q b (c a # cs))) \<Longrightarrow> emits (logged c m \<bind> f) Q"
  by (rule emits_bind [where P = "\<lambda>a cs. cs = [c a]"]) (auto simp: emits_def logged_def wp_def split: prod.splits)

lemma emits_quiet: "(\<And>a. emits (f a) Q) \<Longrightarrow> emits (quiet m \<bind> f) Q"
  by (rule emits_bind [where P = "\<lambda>a cs. cs = []"]) (auto simp: emits_def quiet_def wp_def split: prod.splits)

lemma emits_quiet_end: "(\<And>a. Q a []) \<Longrightarrow> emits (quiet m) Q"
  by (auto simp: emits_def quiet_def wp_def split: prod.splits)

lemma emits_assoc: "emits (m \<bind> (\<lambda>a. f a \<bind> g)) Q \<Longrightarrow> emits ((m \<bind> f) \<bind> g) Q"
  by (simp add: emits_def)

lemma emits_ret_bind: "emits (f a) Q \<Longrightarrow> emits (ret a \<bind> f) Q"
  by (simp add: emits_def)

lemmas emits_step = emits_ret emits_logged emits_quiet emits_assoc emits_ret_bind

lemma traced_simps [simp]:
  "Consumer_Ack (traced d) = (\<lambda>ids. logged (AckC ids) (Consumer_Ack d ids))"
  "DLQ_SendToDLQ (traced d) = (\<lambda>e. logged (DLQC e) (DLQ_SendToDLQ d e))"
  "Retries_Schedule (traced d) = (\<lambda>e. logged (ScheduleC e) (Retries_Schedule d e))"
  "Deploy_Load (traced d) = (\<lambda>dep. logged (LoadC dep) (Deploy_Load d dep))"
  "Deploy_Transition (traced d) = (\<lambda>dep a b reason trace stage.
     logged (TransitionC dep a b reason trace stage) (Deploy_Transition d dep a b reason trace stage))"
  "Exporter_Export (traced d) = (\<lambda>job. logged (ExportC job) (Exporter_Export d job))"
  "ReadyRedeliver (traced d) = map_option (\<lambda>f rec trace. logged (ReemitC rec trace) (f rec trace)) (ReadyRedeliver d)"
  "MaxRetries (traced d) = MaxRetries d" "DryRun (traced d) = DryRun d" "WorkerID (traced d) = WorkerID d"
  "lib (traced d) = lib d"
  by (simp_all add: traced_def)

text \<open>The calls that are not logged.\<close>

lemma emits_now: "(\<And>t. emits (f t) Q) \<Longrightarrow> emits (now_of (traced d) \<bind> f) Q"
  by (auto simp: now_of_def traced_def split: option.splits intro: emits_quiet)

lemma emits_metric: "(\<And>u. emits (f u) Q) \<Longrightarrow> emits (metric (traced d) m \<bind> f) Q"
  by (auto simp: metric_def traced_def split: option.splits intro: emits_quiet emits_ret_bind)

lemma emits_observe: "(\<And>u. emits (f u) Q) \<Longrightarrow> emits (observe_duration (traced d) start \<bind> f) Q"
  unfolding observe_duration_def
  by (cases "Metrics d")
    (auto simp: traced_def [of d, THEN arg_cong [of _ _ Metrics], simplified]
      intro!: emits_ret_bind emits_assoc emits_now emits_quiet)

lemma emits_delay: "(\<And>t. emits (f t) Q) \<Longrightarrow> emits (Delay (deps_rand_Float64 (traced d)) (Backoff (traced d)) n \<bind> f) Q"
  by (cases "Rand (Backoff d)")
    (auto simp: Delay_def Let_def traced_def quiet_policy_def intro!: emits_assoc emits_quiet emits_ret_bind)

lemma emits_trace_id: "(\<And>t. emits (f t) Q) \<Longrightarrow> emits (newTraceID (traced d) \<bind> f) Q"
  by (auto simp: newTraceID_def traced_def intro!: emits_assoc emits_quiet emits_ret_bind)

lemma emits_ack: "(\<And>r u. emits (f u) (\<lambda>b cs. Q b (AckC [msg_ID msg] r # cs))) \<Longrightarrow> emits (ack (traced d) msg \<bind> f) Q"
  by (auto simp: ack_def intro!: emits_assoc emits_logged emits_ret_bind)

lemma emits_dlq_entry:
  "(\<And>entry. dead_letter_of msg ce entry \<Longrightarrow> emits (f entry) Q) \<Longrightarrow> emits (dlqEntry (traced d) msg ce \<bind> f) Q"
  by (auto simp: dlqEntry_def dead_letter_of_def intro!: emits_assoc emits_now emits_ret_bind)

lemma emits_emit_failed:
  assumes "\<And>es u. emit_run ev ce attempt ex trace es \<Longrightarrow> emits (f u) (\<lambda>b cs. Q b (es @ cs))"
  shows "emits (emitFailed (traced d) ev ce attempt ex trace \<bind> f) Q"
proof (rule emits_bind [where P = "\<lambda>_. emit_run ev ce attempt ex trace"])
  have read: "deps_rand_Read (traced d) = (\<lambda>n. quiet (deps_rand_Read d n))" by (simp add: traced_def)
  have fe: "FailedEmit (traced d) = map_option (\<lambda>f ev. logged (EmitC ev) (f ev)) (FailedEmit d)" by (simp add: traced_def)
  show "emits (emitFailed (traced d) ev ce attempt ex trace) (\<lambda>_. emit_run ev ce attempt ex trace)"
  proof (cases "FailedEmit d \<noteq> None \<and> ev \<noteq> None")
    case True
    then obtain g e where "FailedEmit d = Some g" "ev = Some e" by blast
    then show ?thesis
      by (simp add: emitFailed_def fe BuildFailed_def NewEventID_def read)
        (intro emits_now emits_assoc emits_quiet emits_ret_bind emits_logged emits_ret, rule emit_run.event, simp_all)
  next
    case False
    then show ?thesis
      by (cases "FailedEmit d"; cases ev) (auto simp: emitFailed_def fe intro: emits_ret emit_run.no_event)
  qed
qed (use assms in blast)

lemma emits_cas:
  assumes "\<And>casErr cs. cas_run dep rec trace ce casErr cs \<Longrightarrow> emits (f casErr) (\<lambda>b cs'. Q b (cs @ cs'))"
  shows "emits (casFailed (traced d) dep rec trace ce \<bind> f) Q"
proof (rule emits_bind [where P = "cas_run dep rec trace ce"])
  show "emits (casFailed (traced d) dep rec trace ce) (cas_run dep rec trace ce)"
    by (auto simp: casFailed_def split: option.splits
        intro!: emits_ret emits_logged cas_run.no_record cas_run.cas)
qed (use assms in blast)

lemmas emits_rules = emits_ret emits_now emits_metric emits_observe emits_delay emits_ack emits_dlq_entry
  emits_emit_failed emits_cas

lemma scheduleRetry_run:
  assumes "Error_Retryable ce" "msg_Attempt msg < MaxRetries d"
  shows "emits (scheduleRetry (traced d) msg dep trace ce) (failure_run (MaxRetries d) msg ev dep rec trace ce)"
  unfolding scheduleRetry_def Let_def
  by (intro emits_now emits_delay, simp, rule emits_logged)
    (auto split: option.split intro!: emits_metric emits_ack emits_ret failure_run.retry_refused
      failure_run.retry_scheduled assms simp: envelope_of_def)

lemma exhausted_run:
  assumes "Error_Retryable ce" "MaxRetries d \<le> msg_Attempt msg"
  shows "emits (exhausted (traced d) msg ev dep rec trace ce) (failure_run (MaxRetries d) msg ev dep rec trace ce)"
  unfolding exhausted_def
proof (rule emits_cas, goal_cases)
  case (1 casErr cs)
  show ?case
  proof (cases "transient ce casErr")
    case True
    then show ?thesis
      using failure_run.exhausted_cas_transient [OF assms 1 True]
      by (simp add: transient_def emits_ret)
  next
    case False
    show ?thesis
      using False failure_run.exhausted_refused [OF assms 1 False] failure_run.exhausted [OF assms 1 False]
      by (simp add: transient_def [symmetric] del: not_None_eq)
        (intro emits_dlq_entry, rule emits_logged,
          auto split: option.split intro!: emits_emit_failed emits_metric emits_ack emits_ret)
  qed
qed

lemma fail_terminal_run:
  assumes "\<not> Error_Retryable ce"
  shows "emits (fail_terminal (traced d) msg ev dep rec trace ce start) (failure_run (MaxRetries d) msg ev dep rec trace ce)"
  unfolding fail_terminal_def
proof (rule emits_cas, goal_cases)
  case (1 casErr cs)
  show ?case
  proof (cases casErr)
    case None
    then show ?thesis
      using failure_run.terminal [OF assms 1 [unfolded None]]
      by (auto intro!: emits_emit_failed emits_metric emits_observe emits_now emits_ack emits_ret)
  next
    case (Some e)
    show ?thesis
    proof (cases "transient ce casErr")
      case True
      then show ?thesis
        using failure_run.terminal_cas_transient [OF assms 1 True] Some
        by (simp add: transient_def emits_ret)
    next
      case False
      then have "\<not> Error_Retryable (From casErr (Stage ce))" using Some by (simp add: transient_def)
      then show ?thesis
        using failure_run.terminal_refused [OF assms 1 [unfolded Some] False [unfolded Some]]
          failure_run.terminal_dead_letter [OF assms 1 [unfolded Some] False [unfolded Some]] Some
        by simp (intro emits_dlq_entry, rule emits_logged,
          auto split: option.split intro!: emits_metric emits_ack emits_ret)
    qed
  qed
qed

lemma fail_run:
  "emits (fail (traced d) msg ev dep rec trace ce start) (failure_run (MaxRetries d) msg ev dep rec trace ce)"
proof -
  have rest: "emits (if Error_Retryable ce then
        (if msg_Attempt msg \<ge> MaxRetries (traced d) then exhausted (traced d) msg ev dep rec trace ce
         else scheduleRetry (traced d) msg dep trace ce)
      else fail_terminal (traced d) msg ev dep rec trace ce start) (failure_run (MaxRetries d) msg ev dep rec trace ce)"
    by (simp add: exhausted_run scheduleRetry_run fail_terminal_run)
  show ?thesis
    unfolding fail_def by (cases "IsAuthCode (Code ce)") (simp_all only: if_True if_False emits_metric emits_ret_bind rest)
qed

lemma handle_export_run:
  "emits (handle_export (traced d) msg ev rec trace start) (export_run (MaxRetries d) msg ev rec trace)"
  unfolding handle_export_def
  by (simp, rule emits_logged)
    (auto intro!: emits_ret emits_metric emits_observe emits_now emits_ack export_run.ready_pending
      export_run.exported export_run.export_failed emits_mono [OF fail_run])

lemma handle_locked_run:
  "emits (handle_locked (traced d) msg ev rec trace start) (locked_run (MaxRetries d) (DryRun d) msg ev rec trace)"
proof (cases "DryRun d")
  case True
  then show ?thesis
    by (auto simp: handle_locked_def intro!: emits_ack emits_ret locked_run.dry_run)
next
  case dry: False
  show ?thesis
  proof (cases "rec_Status rec = DeploymentStatusExportQueued")
    case True
    note rules = locked_run.stop_done locked_run.stop_active locked_run.start_failed locked_run.started
    show ?thesis
      using dry True
      by (simp add: handle_locked_def, intro emits_logged, unfold start_call_def [symmetric])
        (auto split: option.split intro!: emits_ack emits_ret emits_mono [OF fail_run]
          emits_mono [OF handle_export_run] intro: rules)
  next
    case False
    then show ?thesis
      using dry by (auto simp: handle_locked_def intro!: emits_mono [OF handle_export_run] locked_run.resumed)
  qed
qed

lemma handle_actionable_run:
  assumes "ParseEvent (lib d) (msg_Payload msg) = Inr ev" "Actionable (rec_Status rec)" "Reconcile rec ev = None"
  shows "emits (handle_actionable (traced d) msg ev rec trace start)
    (\<lambda>out cs. handle_run (lib d) (MaxRetries d) (DryRun d) reemits msg out (LoadC (ev_DeploymentID ev) (Inr rec) # cs))"
proof -
  have acq: "Locker_Acquire (traced d) = (\<lambda>dep. do {
      r \<leftarrow> logged (AcquireC dep \<circ> lease_error) (Locker_Acquire d dep);
      ret (map_sum id (\<lambda>release. logged (ReleaseC dep) release) r) })"
    by (simp add: traced_def)
  show ?thesis
    unfolding handle_actionable_def acq
  proof (rule emits_assoc, rule emits_logged, rule emits_ret_bind, goal_cases)
    case (1 r)
    show ?case
    proof (cases r)
      case (Inl e)
      then show ?thesis
        using handle_run.lock_conflict [OF assms] handle_run.lock_failed [OF assms]
        by (auto simp: lease_error_def intro!: emits_metric emits_ret emits_mono [OF fail_run])
    next
      case (Inr release)
      show ?thesis
        unfolding Inr map_sum.simps sum.case
        using handle_run.locked [OF assms]
        by (auto simp: lease_error_def intro!: emits_bind [OF handle_locked_run] emits_logged emits_ret)
    qed
  qed
qed

definition reemits_wired :: "'w deps \<Rightarrow> bool" where
  "reemits_wired d = (ReadyRedeliver d \<noteq> None)"

lemma handle_non_actionable_run:
  assumes "ParseEvent (lib d) (msg_Payload msg) = Inr ev" "NonActionable (rec_Status rec)"
  shows "emits (handle_non_actionable (traced d) msg rec trace)
    (\<lambda>out cs. handle_run (lib d) (MaxRetries d) (DryRun d) (reemits_wired d) msg out
       (LoadC (ev_DeploymentID ev) (Inr rec) # cs))"
proof (cases "rec_Status rec = DeploymentStatusArtifactReady \<and> ReadyRedeliver d \<noteq> None")
  case True
  then obtain g where g: "ReadyRedeliver d = Some g" by blast
  have wired: "reemits_wired d" and ready: "rec_Status rec = DeploymentStatusArtifactReady"
    using True by (auto simp: reemits_wired_def)
  show ?thesis
    using handle_run.reemit_failed [OF assms(1) wired ready] handle_run.reemitted [OF assms(1) wired ready] ready g
    by (simp add: handle_non_actionable_def)
      (intro emits_logged, auto split: sum.split intro!: emits_ack emits_ret)
next
  case False
  then have "(if rec_Status rec = DeploymentStatusArtifactReady then ReadyRedeliver (traced d) else None) = None"
    by auto
  moreover have "\<not> reemits_wired d \<or> rec_Status rec \<noteq> DeploymentStatusArtifactReady"
    using False by (auto simp: reemits_wired_def)
  ultimately show ?thesis
    using handle_run.already_done [OF assms]
    by (simp only: handle_non_actionable_def option.case) (intro emits_ack emits_ret, blast)
qed

lemma handle_event_run:
  assumes "ParseEvent (lib d) (msg_Payload msg) = Inr ev"
  shows "emits (handle_event (traced d) msg ev start)
    (handle_run (lib d) (MaxRetries d) (DryRun d) (reemits_wired d) msg)"
proof -
  let ?spec = "handle_run (lib d) (MaxRetries d) (DryRun d) (reemits_wired d) msg"
  have rest: "emits (case r of
       Inl err \<Rightarrow> fail (traced d) msg (Some ev) (ev_DeploymentID ev) None trace (From (Some err) FailedStageLoadDeployment) start
     | Inr rec \<Rightarrow>
         if NonActionable (rec_Status rec) then handle_non_actionable (traced d) msg rec trace
         else if \<not> Actionable (rec_Status rec) then
           fail (traced d) msg (Some ev) (ev_DeploymentID ev) (Some rec) trace
             (errclass_New ErrorCodeQueueTemporaryFailure FailedStageLoadDeployment
               (Some (TextE ''deployment record not yet EXPORT_QUEUED''))) start
         else (case Reconcile rec ev of
                 Some err \<Rightarrow> fail (traced d) msg (Some ev) (ev_DeploymentID ev) (Some rec) trace
                     (From (Some err) FailedStageLoadDeployment) start
               | None \<Rightarrow> handle_actionable (traced d) msg ev rec trace start))
      (\<lambda>out cs. ?spec out (LoadC (ev_DeploymentID ev) r # cs))" for r trace
  proof (cases r)
    case (Inl err)
    then show ?thesis
      by (auto intro: emits_mono [OF fail_run] handle_run.load_failed assms)
  next
    case (Inr rec)
    have early: "?spec out (LoadC (ev_DeploymentID ev) (Inr rec) # cs)"
      if "\<not> NonActionable (rec_Status rec)" "\<not> Actionable (rec_Status rec)"
        "failure_run (MaxRetries d) msg (Some ev) (ev_DeploymentID ev) (Some rec) trace
           (errclass_New ErrorCodeQueueTemporaryFailure st x) out cs" for out cs st x
      by (rule handle_run.too_early [OF assms that(1,2) _ that(3)]) (simp add: errclass_New_def)
    show ?thesis
      using Inr early handle_run.mismatch [OF assms, of rec]
      by (auto split: option.split intro!: handle_non_actionable_run handle_actionable_run assms
          emits_mono [OF fail_run])
  qed
  show ?thesis
  proof (cases "msg_TraceID msg = []")
    case True
    then show ?thesis
      unfolding handle_event_def traced_simps by (simp only: if_True simp_thms) (intro emits_trace_id emits_logged rest)
  next
    case False
    then show ?thesis
      unfolding handle_event_def traced_simps by (simp only: if_False) (intro emits_ret_bind emits_logged rest)
  qed
qed

lemma Handle_run:
  "emits (Handle (traced d) msg) (handle_run (lib d) (MaxRetries d) (DryRun d) (reemits_wired d) msg)"
  unfolding Handle_def traced_simps
proof (intro emits_now emits_metric, goal_cases)
  case (1 start u)
  show ?case
  proof (cases "ParseEvent (lib d) (msg_Payload msg)")
    case (Inr ev)
    then show ?thesis by (simp add: handle_event_run)
  next
    case (Inl perr)
    show ?thesis
    proof (cases "errors_Is (Some perr) UnparseableE")
      case True
      then show ?thesis
        using handle_run.unparseable_refused [OF Inl True] handle_run.unparseable [OF Inl True] Inl
        by (simp add: unparseableToDLQ_def) (intro emits_dlq_entry emits_logged,
          auto split: option.split intro!: emits_metric emits_ack emits_ret)
    next
      case False
      show ?thesis
        using Inl False handle_run.invalid_load_failed [OF Inl False refl] handle_run.invalid [OF Inl False refl]
        by (simp add: handle_invalid_def extractDeploymentID_def Let_def) (intro emits_logged,
          auto split: sum.split intro!: emits_mono [OF fail_run])
    qed
  qed
qed

section \<open>The log changes nothing\<close>

text \<open>\<open>shadows m' m\<close>: \<open>m'\<close> does what \<open>m\<close> does, and extends the log.\<close>

definition shadows :: "('w \<times> call list, 'a) state \<Rightarrow> ('w, 'a) state \<Rightarrow> bool" where
  "shadows m' m = (\<forall>w tr. \<exists>cs. run_state m' (w, tr) =
     (fst (run_state m w), (snd (run_state m w), tr @ cs)))"

lemma shadows_ret: "shadows (ret a) (ret a)"
  by (simp add: shadows_def)

lemma shadows_logged: "shadows (logged c m) m"
  by (simp add: shadows_def logged_def split: prod.splits)

lemma shadows_quiet: "shadows (quiet m) m"
  by (simp add: shadows_def quiet_def split: prod.splits)

lemma shadows_bind:
  assumes "shadows m' m" "\<And>a. shadows (f' a) (f a)"
  shows "shadows (m' \<bind> f') (m \<bind> f)"
  unfolding shadows_def
proof (intro allI)
  fix w tr
  obtain cs where cs: "run_state m' (w, tr) = (fst (run_state m w), (snd (run_state m w), tr @ cs))"
    using assms(1) unfolding shadows_def by blast
  obtain cs' where "run_state (f' (fst (run_state m w))) (snd (run_state m w), tr @ cs) =
      (fst (run_state (f (fst (run_state m w))) (snd (run_state m w))),
       (snd (run_state (f (fst (run_state m w))) (snd (run_state m w))), (tr @ cs) @ cs'))"
    using assms(2) unfolding shadows_def by blast
  with cs show "\<exists>cs. run_state (m' \<bind> f') (w, tr) =
      (fst (run_state (m \<bind> f) w), (snd (run_state (m \<bind> f) w), tr @ cs))"
    by (auto split: prod.splits)
qed

lemmas shadows_rules = shadows_ret shadows_logged shadows_quiet shadows_bind

lemma shadows_now: "shadows (now_of (traced d)) (now_of d)"
  by (cases "Now d") (simp_all add: now_of_def traced_def shadows_quiet)

lemma shadows_metric: "shadows (metric (traced d) m) (metric d m)"
  by (cases "Metrics d") (simp_all add: metric_def traced_def shadows_quiet shadows_ret)

lemma shadows_observe: "shadows (observe_duration (traced d) start) (observe_duration d start)"
proof -
  have "Metrics (traced d) = map_option (\<lambda>f m. quiet (f m)) (Metrics d)" by (simp add: traced_def)
  then show ?thesis
    by (cases "Metrics d") (auto simp: observe_duration_def intro!: shadows_rules shadows_now)
qed

lemma shadows_delay:
  "shadows (Delay (deps_rand_Float64 (traced d)) (Backoff (traced d)) n) (Delay (deps_rand_Float64 d) (Backoff d) n)"
proof -
  have "backoff_ceiling (quiet_policy (Backoff d)) n = backoff_ceiling (Backoff d) n"
    by (simp add: backoff_ceiling_def quiet_policy_def Let_def)
  then show ?thesis
    by (cases "Rand (Backoff d)")
      (simp_all add: Delay_def Let_def traced_def shadows_rules, simp_all add: quiet_policy_def shadows_rules)
qed

lemma shadows_trace_id: "shadows (newTraceID (traced d)) (newTraceID d)"
  by (simp add: newTraceID_def traced_def shadows_rules)

lemma shadows_ack: "shadows (ack (traced d) msg) (ack d msg)"
  by (simp add: ack_def shadows_rules)

lemma shadows_dlqEntry: "shadows (dlqEntry (traced d) msg ce) (dlqEntry d msg ce)"
  by (simp add: dlqEntry_def shadows_rules shadows_now)

lemma shadows_emitFailed: "shadows (emitFailed (traced d) ev ce attempt ex trace) (emitFailed d ev ce attempt ex trace)"
proof -
  have read: "deps_rand_Read (traced d) = (\<lambda>n. quiet (deps_rand_Read d n))" by (simp add: traced_def)
  have fe: "FailedEmit (traced d) = map_option (\<lambda>f ev. logged (EmitC ev) (f ev)) (FailedEmit d)" by (simp add: traced_def)
  show ?thesis
    by (cases "FailedEmit d"; cases ev)
      (simp_all add: emitFailed_def fe read BuildFailed_def NewEventID_def shadows_rules shadows_now)
qed

lemma shadows_casFailed: "shadows (casFailed (traced d) dep rec trace ce) (casFailed d dep rec trace ce)"
  by (cases rec) (simp_all add: casFailed_def shadows_rules)

lemmas shadows_helpers = shadows_now shadows_metric shadows_observe shadows_delay shadows_trace_id shadows_ack
  shadows_dlqEntry shadows_emitFailed shadows_casFailed

lemma shadows_fail: "shadows (fail (traced d) msg ev dep rec trace ce start) (fail d msg ev dep rec trace ce start)"
proof -
  have "shadows (scheduleRetry (traced d) msg dep trace ce) (scheduleRetry d msg dep trace ce)"
    by (auto simp: scheduleRetry_def Let_def split: option.split intro!: shadows_rules shadows_helpers)
  moreover have "shadows (exhausted (traced d) msg ev dep rec trace ce) (exhausted d msg ev dep rec trace ce)"
    by (auto simp: exhausted_def split: option.split intro!: shadows_rules shadows_helpers)
  moreover have "shadows (fail_terminal (traced d) msg ev dep rec trace ce start)
      (fail_terminal d msg ev dep rec trace ce start)"
    by (auto simp: fail_terminal_def split: option.split intro!: shadows_rules shadows_helpers)
  ultimately show ?thesis
    by (auto simp: fail_def intro!: shadows_rules shadows_helpers)
qed

lemma shadows_locked: "shadows (handle_locked (traced d) msg ev rec trace start) (handle_locked d msg ev rec trace start)"
proof -
  have "shadows (handle_export (traced d) msg ev rc trace start) (handle_export d msg ev rc trace start)" for rc
    by (auto simp: handle_export_def intro!: shadows_rules shadows_helpers shadows_fail)
  then show ?thesis
    by (auto simp: handle_locked_def split: option.split intro!: shadows_rules shadows_helpers shadows_fail)
qed

lemma shadows_map_bind:
  assumes "shadows m' m" "\<And>a. shadows (f' (h a)) (f a)"
  shows "shadows ((m' \<bind> (\<lambda>a. ret (h a))) \<bind> f') (m \<bind> f)"
proof -
  have "(m' \<bind> (\<lambda>a. ret (h a))) \<bind> f' = m' \<bind> (\<lambda>a. f' (h a))"
    by (rule state.expand) (simp add: fun_eq_iff split: prod.splits)
  with shadows_bind [OF assms(1), of "\<lambda>a. f' (h a)" f] assms(2) show ?thesis by simp
qed

lemma shadows_actionable:
  "shadows (handle_actionable (traced d) msg ev rec trace start) (handle_actionable d msg ev rec trace start)"
proof -
  have acq: "Locker_Acquire (traced d) = (\<lambda>dep. logged (AcquireC dep \<circ> lease_error) (Locker_Acquire d dep) \<bind>
      (\<lambda>r. ret (map_sum id (\<lambda>release. logged (ReleaseC dep) release) r)))"
    by (simp add: traced_def)
  show ?thesis
    unfolding handle_actionable_def acq
    by (rule shadows_map_bind [OF shadows_logged])
      (auto split: sum.split intro!: shadows_rules shadows_helpers shadows_fail shadows_locked)
qed

lemma shadows_Handle: "shadows (Handle (traced d) msg) (Handle d msg)"
proof -
  have "shadows (handle_non_actionable (traced d) msg rec trace) (handle_non_actionable d msg rec trace)" for rec trace
    by (auto simp: handle_non_actionable_def split: option.split sum.split intro!: shadows_rules shadows_helpers)
  then have event: "shadows (handle_event (traced d) msg ev start) (handle_event d msg ev start)" for ev start
    by (auto simp: handle_event_def split: option.split sum.split
        intro!: shadows_rules shadows_helpers shadows_fail shadows_actionable)
  have "shadows (unparseableToDLQ (traced d) msg) (unparseableToDLQ d msg)"
    by (auto simp: unparseableToDLQ_def split: option.split intro!: shadows_rules shadows_helpers)
  moreover have "shadows (handle_invalid (traced d) msg perr start) (handle_invalid d msg perr start)" for perr start
    by (auto simp: handle_invalid_def extractDeploymentID_def Let_def split: sum.split
        intro!: shadows_rules shadows_fail)
  ultimately show ?thesis
    using event by (auto simp: Handle_def split: sum.split intro!: shadows_rules shadows_helpers)
qed

text \<open>Every run of \<open>Handle\<close> has a log, and the log is a run of the specification.\<close>

lemma Handle_logged:
  assumes "run_state (Handle (traced d) msg) (w, []) = (out, (w', cs))"
  shows "handle_run (lib d) (MaxRetries d) (DryRun d) (reemits_wired d) msg out cs"
proof -
  have "wp (Handle (traced d) msg) (\<lambda>out (w', tr'). \<exists>cs. tr' = [] @ cs \<and>
      handle_run (lib d) (MaxRetries d) (DryRun d) (reemits_wired d) msg out cs) (w, [])"
    by (rule Handle_run [unfolded emits_def, rule_format])
  from wp_run [OF this assms] show ?thesis by simp
qed

end
