(* ===== verification/Ack_Rule.thy ===== *)
theory Ack_Rule
  imports Protocol
begin

text \<open>
  The acknowledgement rule and its companions, for every behaviour of the collaborators: what one call of \<open>Handle\<close>
  may do to the queue, to the deployment and to the lock. Everything here is read off the specification
  \<open>handle_run\<close>, which \<open>Handle\<close> refines.
\<close>

section \<open>Reading a log\<close>

fun acks :: "call list \<Rightarrow> string list list" where
  "acks [] = []"
| "acks (c # cs) = (case c of AckC ids _ \<Rightarrow> ids # acks cs | _ \<Rightarrow> acks cs)"

fun is_lock_call :: "call \<Rightarrow> bool" where
  "is_lock_call (AcquireC _ _) = True"
| "is_lock_call (ReleaseC _ _) = True"
| "is_lock_call _ = False"

fun is_export :: "call \<Rightarrow> bool" where
  "is_export (ExportC _ _) = True"
| "is_export _ = False"

text \<open>Calls that do the work the lock protects.\<close>

fun needs_lock :: "call \<Rightarrow> bool" where
  "needs_lock (ExportC _ _) = True"
| "needs_lock (TransitionC _ _ to_st _ _ _ _) = (to_st = DeploymentStatusExporting)"
| "needs_lock _ = False"

lemma acks_append [simp]: "acks (xs @ ys) = acks xs @ acks ys"
  by (induction xs) (simp_all split: call.split)

lemma acks_Nil: "\<forall>c \<in> set cs. \<forall>ids r. c \<noteq> AckC ids r \<Longrightarrow> acks cs = []"
  by (induction cs) (auto split: call.split)

text \<open>
  A call after which the message is done: the export succeeded, the message was handed to the retry store or to
  the dead letters, or another actor or this worker has moved the deployment to a state that needs no
  export.
\<close>

fun settles :: "call \<Rightarrow> bool" where
  "settles (ExportC _ err) = (err = None)"
| "settles (ScheduleC _ err) = (err = None)"
| "settles (DLQC _ err) = (err = None)"
| "settles (TransitionC _ _ to_st _ _ _ err) =
     (to_st = DeploymentStatusExportFailed \<and> err = None \<or>
      (\<exists>cur. AsStatusConflict err = Some cur \<and> NonActionable cur))"
| "settles (LoadC _ (Inr rec)) = NonActionable (rec_Status rec)"
| "settles _ = False"

text \<open>The terminal failures for which there is no transition to make: no record, or one that is not the worker's.\<close>

definition unowned_failure :: "event_lib \<Rightarrow> message \<Rightarrow> call list \<Rightarrow> bool" where
  "unowned_failure l msg cs \<longleftrightarrow>
     (\<exists>dep err. LoadC dep (Inl err) \<in> set cs \<and> \<not> Error_Retryable (From (Some err) FailedStageLoadDeployment)) \<or>
     (\<exists>dep rec perr. LoadC dep (Inr rec) \<in> set cs \<and> \<not> Actionable (rec_Status rec) \<and>
        ParseEvent l (msg_Payload msg) = Inl perr)"

section \<open>Facts of the failure branches\<close>

inductive_cases cas_runE: "cas_run dep rec trace ce casErr cs"
inductive_cases emit_runE: "emit_run ev ce attempt ex trace es"

lemma emit_run_calls: "emit_run ev ce attempt ex trace es \<Longrightarrow> c \<in> set es \<Longrightarrow> \<exists>f r. c = EmitC f r"
  by (auto elim: emit_runE)

lemma cas_run_calls:
  "cas_run dep rec trace ce casErr cs \<Longrightarrow> c \<in> set cs \<Longrightarrow>
   \<exists>rc err. rec = Some rc \<and> Actionable (rec_Status rc) \<and>
     c = TransitionC dep (rec_Status rc) DeploymentStatusExportFailed (error_code_string (Code ce)) trace (Stage ce) err"
  by (auto elim: cas_runE)

lemma acks_emit_run [simp]: "emit_run ev ce attempt ex trace es \<Longrightarrow> acks es = []"
  by (rule acks_Nil) (auto dest: emit_run_calls)

lemma acks_cas_run [simp]: "cas_run dep rec trace ce casErr cs \<Longrightarrow> acks cs = []"
  by (rule acks_Nil) (auto dest: cas_run_calls)

text \<open>A successful transition settles, unless there was none to make.\<close>

lemma cas_run_settles:
  "cas_run dep rec trace ce None cs \<Longrightarrow>
   (\<exists>c \<in> set cs. settles c) \<or> rec = None \<or> (\<exists>rc. rec = Some rc \<and> \<not> Actionable (rec_Status rc))"
  by (erule cas_runE) (auto split: option.splits if_splits)

definition acking :: "outcome set" where
  "acking = {OutcomeSuccess, OutcomeDryRun, OutcomeAckedTerminal, OutcomeRetryScheduled, OutcomeDLQ, OutcomeFailedTerminal}"

lemma failure_acks:
  "failure_run b msg ev dep rec trace ce out cs \<Longrightarrow> acks cs = (if out \<in> acking then [[msg_ID msg]] else [])"
  by (induction rule: failure_run.induct) (auto simp: acking_def)

lemma failure_outcomes:
  "failure_run b msg ev dep rec trace ce out cs \<Longrightarrow>
   out \<in> {OutcomeNoAck, OutcomeRetryScheduled, OutcomeDLQ, OutcomeFailedTerminal}"
  by (induction rule: failure_run.induct) auto

text \<open>The calls of a failure, and that an acknowledgement comes last, after a call that settles.\<close>

lemma failure_calls:
  assumes "failure_run b msg ev dep rec trace ce out cs" "c \<in> set cs"
  shows "(\<exists>env r. c = ScheduleC env r \<and> envelope_of msg dep trace ce env \<and> msg_Attempt msg < b) \<or>
    (\<exists>e r. c = DLQC e r \<and> dead_letter_of msg ce e) \<or> (\<exists>f r. c = EmitC f r) \<or> (\<exists>r. c = AckC [msg_ID msg] r) \<or>
    (\<exists>rc err. rec = Some rc \<and> Actionable (rec_Status rc) \<and> c = TransitionC dep (rec_Status rc)
       DeploymentStatusExportFailed (error_code_string (Code ce)) trace (Stage ce) err)"
  using assms by (induction rule: failure_run.induct) (auto dest: cas_run_calls emit_run_calls)

lemma last_ack:
  assumes "pre @ AckC ids r # post = body @ [AckC x r']" "acks body = []"
  shows "pre = body \<and> ids = x \<and> post = []"
proof -
  have "acks pre @ ids # acks post = [x]"
    using arg_cong [OF assms(1), of acks] assms(2) by simp
  then have "acks post = []" by (simp add: append_eq_Cons_conv)
  then show ?thesis using assms(1) by (cases post rule: rev_cases) auto
qed

lemma failure_shape:
  assumes "failure_run b msg ev dep rec trace ce out cs"
  shows "acks cs = [] \<or> (\<exists>body r. cs = body @ [AckC [msg_ID msg] r] \<and> acks body = [] \<and>
    ((\<exists>c \<in> set body. settles c) \<or>
     \<not> Error_Retryable ce \<and> (rec = None \<or> (\<exists>rc. rec = Some rc \<and> \<not> Actionable (rec_Status rc)))))"
  using assms
proof cases
  case (retry_scheduled env r)
  then show ?thesis by (intro disjI2 exI [of _ "[ScheduleC env None]"]) auto
next
  case (exhausted casErr cas entry es r)
  then show ?thesis by (intro disjI2 exI [of _ "cas @ [DLQC entry None] @ es"]) auto
next
  case (terminal_dead_letter casE cas entry r)
  then show ?thesis by (intro disjI2 exI [of _ "cas @ [DLQC entry None]"]) auto
next
  case (terminal cas es r)
  then show ?thesis using cas_run_settles [OF terminal(4)] by (intro disjI2 exI [of _ "cas @ es"]) auto
qed simp_all

lemma failure_settled:
  assumes "failure_run b msg ev dep rec trace ce out (pre @ AckC ids r # post)"
  shows "ids = [msg_ID msg] \<and> post = [] \<and> ((\<exists>c \<in> set pre. settles c) \<or>
    \<not> Error_Retryable ce \<and> (rec = None \<or> (\<exists>rc. rec = Some rc \<and> \<not> Actionable (rec_Status rc))))"
proof -
  have "acks (pre @ AckC ids r # post) \<noteq> []" by simp
  with failure_shape [OF assms] obtain body r' where body: "pre @ AckC ids r # post = body @ [AckC [msg_ID msg] r']"
    "acks body = []" "(\<exists>c \<in> set body. settles c) \<or>
     \<not> Error_Retryable ce \<and> (rec = None \<or> (\<exists>rc. rec = Some rc \<and> \<not> Actionable (rec_Status rc)))"
    by blast
  with last_ack [OF body(1,2)] show ?thesis by simp
qed

section \<open>Facts of whole runs\<close>

text \<open>At most one acknowledgement, of this message, with \<open>P\<close> of the calls before it.\<close>

definition one_ack :: "message \<Rightarrow> (call list \<Rightarrow> bool) \<Rightarrow> call list \<Rightarrow> bool" where
  "one_ack msg P cs \<longleftrightarrow> acks cs = [] \<or>
     (\<exists>pre r post. cs = pre @ AckC [msg_ID msg] r # post \<and> acks pre = [] \<and> acks post = [] \<and> P pre)"

lemma one_ack_Cons: "one_ack msg (\<lambda>pre. P (c # pre)) cs \<Longrightarrow> acks [c] = [] \<Longrightarrow> one_ack msg P (c # cs)"
  unfolding one_ack_def
proof (elim disjE exE conjE, goal_cases)
  case 1
  then have "acks (c # cs) = []" by (cases c) auto
  then show ?case by simp
next
  case (2 pre r post)
  then have "acks (c # pre) = []" by (cases c) auto
  with 2 show ?case by (metis append_Cons)
qed

lemma one_ack_snoc: "one_ack msg P cs \<Longrightarrow> acks [c] = [] \<Longrightarrow> one_ack msg P (cs @ [c])"
  unfolding one_ack_def by (elim disjE exE conjE) (simp, metis acks_append append.assoc append_Cons append_Nil)

lemma one_ack_mono: "one_ack msg P cs \<Longrightarrow> (\<And>pre. P pre \<Longrightarrow> Q pre) \<Longrightarrow> one_ack msg Q cs"
  unfolding one_ack_def by metis

lemma one_ack_none: "acks cs = [] \<Longrightarrow> one_ack msg P cs"
  by (simp add: one_ack_def)

lemma one_ack_last: "acks cs = [] \<Longrightarrow> P cs \<Longrightarrow> one_ack msg P (cs @ [AckC [msg_ID msg] r])"
  unfolding one_ack_def by (intro disjI2 exI [of _ cs] exI [of _ r] exI [of _ "[]"]) simp

lemma one_ack_single: "P [] \<Longrightarrow> one_ack msg P [AckC [msg_ID msg] r]"
  using one_ack_last [of "[]"] by simp

lemma one_ackD:
  assumes "one_ack msg P (pre @ AckC ids r # post)"
  shows "ids = [msg_ID msg] \<and> P pre"
proof -
  have "acks (pre @ AckC ids r # post) \<noteq> []" by simp
  with assms obtain pre' r' post' where eq: "pre @ AckC ids r # post = pre' @ AckC [msg_ID msg] r' # post'"
    and no: "acks pre' = []" "acks post' = []" "P pre'"
    unfolding one_ack_def by blast
  have "acks pre @ ids # acks post = [[msg_ID msg]]"
    using arg_cong [OF eq, of acks] no by simp
  then have none: "acks pre = []" "acks post = []" by (auto simp: append_eq_Cons_conv)
  from eq consider "pre = pre'" | c cs where "pre' = pre @ c # cs" | c cs where "pre = pre' @ c # cs"
    by (auto simp: append_eq_append_conv2 append_eq_Cons_conv Cons_eq_append_conv)
  then show ?thesis
  proof cases
    case 1
    then show ?thesis using eq no by simp
  next
    case (2 c cs)
    then have "c = AckC ids r" using eq by simp
    then show ?thesis using no(1) 2 by simp
  next
    case (3 c cs)
    then have "c = AckC [msg_ID msg] r'" using eq by simp
    then show ?thesis using none(1) 3 by simp
  qed
qed

lemma failure_one_ack:
  assumes "failure_run b msg ev dep rec trace ce out cs"
  shows "one_ack msg (\<lambda>pre. (\<exists>c \<in> set pre. settles c) \<or>
    \<not> Error_Retryable ce \<and> (rec = None \<or> (\<exists>rc. rec = Some rc \<and> \<not> Actionable (rec_Status rc)))) cs"
  using failure_shape [OF assms] by (auto intro: one_ack_none one_ack_last)

lemma export_one_ack:
  assumes "export_run b msg ev rec trace out cs" "Actionable (rec_Status rec)"
  shows "one_ack msg (\<lambda>pre. \<exists>c \<in> set pre. settles c) cs"
  using assms(1)
proof cases
  case (ready_pending err)
  then show ?thesis by (auto intro: one_ack_none)
next
  case (export_failed e cs')
  then show ?thesis
    using failure_one_ack [OF export_failed(3)] assms(2)
    by (auto intro!: one_ack_Cons elim!: one_ack_mono)
next
  case (exported r)
  then show ?thesis by (auto intro!: one_ack_Cons one_ack_single)
qed

lemma locked_one_ack:
  assumes "locked_run b dry msg ev rec trace out cs" "Actionable (rec_Status rec)"
  shows "one_ack msg (\<lambda>pre. dry \<or> (\<exists>c \<in> set pre. settles c)) cs"
  using assms(1)
proof cases
  case (dry_run r)
  then show ?thesis by (simp add: one_ack_single)
next
  case (stop_done err cur r)
  then show ?thesis by (auto intro!: one_ack_Cons one_ack_single simp: start_call_def)
next
  case (stop_active err cur)
  then show ?thesis by (auto intro!: one_ack_none simp: start_call_def)
next
  case (start_failed e cs')
  then show ?thesis
    using assms(2) failure_one_ack [OF start_failed(5)]
    by (auto intro!: one_ack_Cons elim!: one_ack_mono simp: start_call_def)
next
  case (started cs')
  have "Actionable (rec_Status (rec\<lparr>rec_Status := DeploymentStatusExporting\<rparr>))" by (simp add: Actionable_def)
  with started show ?thesis
    using export_one_ack [OF started(4)]
    by (auto intro!: one_ack_Cons elim!: one_ack_mono simp: start_call_def)
next
  case resumed
  then show ?thesis using export_one_ack [OF resumed(3) assms(2)] by (auto elim: one_ack_mono)
qed

text \<open>What justifies the acknowledgement of a message.\<close>

definition justified :: "event_lib \<Rightarrow> bool \<Rightarrow> message \<Rightarrow> call list \<Rightarrow> bool" where
  "justified l dry msg pre \<longleftrightarrow>
     (\<exists>c \<in> set pre. settles c) \<or> unowned_failure l msg pre \<or> dry \<and> (\<exists>dep. AcquireC dep None \<in> set pre)"

lemma justified_settles: "\<exists>c \<in> set pre. settles c \<Longrightarrow> justified l dry msg pre"
  by (simp add: justified_def)

lemma justified_Cons: "justified l dry msg pre \<Longrightarrow> justified l dry msg (c # pre)"
  unfolding justified_def unowned_failure_def list.set by blast

lemma justified_load_error:
  "\<not> Error_Retryable (From (Some err) FailedStageLoadDeployment) \<Longrightarrow> justified l dry msg (LoadC dep (Inl err) # pre)"
  unfolding justified_def unowned_failure_def
  by (rule disjI2, rule disjI1, rule disjI1, intro exI [of _ dep] exI [of _ err]) simp

lemma justified_foreign:
  "\<not> Actionable (rec_Status rec) \<Longrightarrow> ParseEvent l (msg_Payload msg) = Inl perr \<Longrightarrow>
   justified l dry msg (LoadC dep (Inr rec) # pre)"
  unfolding justified_def unowned_failure_def
  by (rule disjI2, rule disjI1, rule disjI2, intro exI [of _ dep] exI [of _ rec] exI [of _ perr]) simp

lemma handle_one_ack:
  assumes "handle_run l b dry reemits msg out cs"
  shows "one_ack msg (justified l dry msg) cs"
  using assms
proof cases
  case (unparseable_refused perr entry e)
  then show ?thesis by (auto intro: one_ack_none)
next
  case (unparseable perr entry r)
  then show ?thesis by (auto intro!: one_ack_Cons one_ack_single justified_settles)
next
  case (invalid_load_failed perr dep lerr cs')
  then show ?thesis
    using failure_one_ack [OF invalid_load_failed(5)]
    by (auto intro!: one_ack_Cons elim!: one_ack_mono
        intro: justified_load_error justified_foreign justified_Cons justified_settles)
next
  case (invalid perr dep rec cs')
  then show ?thesis
    using failure_one_ack [OF invalid(5)]
    by (auto intro!: one_ack_Cons elim!: one_ack_mono
        intro: justified_load_error justified_foreign justified_Cons justified_settles)
next
  case (load_failed ev trace lerr cs')
  then show ?thesis
    using failure_one_ack [OF load_failed(3)]
    by (auto intro!: one_ack_Cons elim!: one_ack_mono
        intro: justified_load_error justified_foreign justified_Cons justified_settles)
next
  case (reemit_failed ev rec trace e)
  then show ?thesis by (auto intro: one_ack_none)
next
  case (reemitted ev rec trace found r)
  then have "NonActionable (rec_Status rec)" by (simp add: NonActionable_def)
  with reemitted show ?thesis by (auto intro!: one_ack_Cons one_ack_single justified_settles)
next
  case (already_done ev rec r)
  then show ?thesis by (auto intro!: one_ack_Cons one_ack_single justified_settles)
next
  case (too_early ev rec ce trace cs')
  then show ?thesis
    using failure_one_ack [OF too_early(6)]
    by (auto intro!: one_ack_Cons elim!: one_ack_mono simp: justified_def Error_Retryable_def)
next
  case (mismatch ev rec e trace cs')
  then show ?thesis
    using failure_one_ack [OF mismatch(5)]
    by (auto intro!: one_ack_Cons elim!: one_ack_mono simp: justified_def)
next
  case (lock_conflict ev rec e)
  then show ?thesis by (auto intro: one_ack_none)
next
  case (lock_failed ev rec e trace cs')
  then show ?thesis
    using failure_one_ack [OF lock_failed(6)]
    by (auto intro!: one_ack_Cons elim!: one_ack_mono simp: justified_def)
next
  case (locked ev rec trace cs' r)
  have "one_ack msg (justified l dry msg) (LoadC (ev_DeploymentID ev) (Inr rec) #
      AcquireC (ev_DeploymentID ev) None # cs')"
    using locked_one_ack [OF locked(5,3)]
    by (auto intro!: one_ack_Cons elim!: one_ack_mono simp: justified_def)
  from one_ack_snoc [OF this, of "ReleaseC (ev_DeploymentID ev) r"] locked(1) show ?thesis by simp
qed

text \<open>Which outcome acknowledges.\<close>

lemma export_acks:
  "export_run b msg ev rec trace out cs \<Longrightarrow>
   (acks cs = (if out \<in> acking then [[msg_ID msg]] else [])) \<and> out \<notin> {OutcomeStopSafe, OutcomeLockConflict}"
  by (erule export_run.cases) (auto dest: failure_acks failure_outcomes simp: acking_def)

lemma locked_acks:
  "locked_run b dry msg ev rec trace out cs \<Longrightarrow> out \<noteq> OutcomeLockConflict \<and>
   (out \<noteq> OutcomeStopSafe \<longrightarrow> acks cs = (if out \<in> acking then [[msg_ID msg]] else []))"
  by (erule locked_run.cases)
    (auto dest: failure_acks failure_outcomes export_acks simp: acking_def start_call_def)

lemma handle_acks:
  "handle_run l b dry reemits msg out cs \<Longrightarrow>
   out \<noteq> OutcomeStopSafe \<longrightarrow> acks cs = (if out \<in> acking then [[msg_ID msg]] else [])"
  by (erule handle_run.cases)
    (auto dest: failure_acks failure_outcomes locked_acks simp: acking_def)

text \<open>A safe stop: the start was refused with a conflict, and the message is acknowledged if the status found there is past the worker's part.\<close>

definition start_overtaken :: "call list \<Rightarrow> bool" where
  "start_overtaken cs \<longleftrightarrow> (\<exists>dep trace stage err cur.
     TransitionC dep DeploymentStatusExportQueued DeploymentStatusExporting ''worker_started'' trace stage err \<in> set cs \<and>
     AsStatusConflict err = Some cur \<and> NonActionable cur)"

lemma locked_stop:
  "locked_run b dry msg ev rec trace OutcomeStopSafe cs \<Longrightarrow> acks cs = (if start_overtaken cs then [[msg_ID msg]] else [])"
  by (erule locked_run.cases)
    (auto dest: failure_outcomes export_acks simp: start_call_def start_overtaken_def)

lemma handle_stop:
  assumes "handle_run l b dry reemits msg OutcomeStopSafe cs"
  shows "acks cs = (if start_overtaken cs then [[msg_ID msg]] else [])"
  using assms
proof cases
  case (locked ev rec trace cs' r)
  with locked_stop [OF locked(5)] show ?thesis by (auto simp: start_overtaken_def)
qed (auto dest: failure_outcomes)

section \<open>Calls of whole runs\<close>

text \<open>A call that a failure can make: not of the lock, no export, and EXPORT_FAILED the only target.\<close>

definition failure_call :: "int \<Rightarrow> message \<Rightarrow> string \<Rightarrow> deployment_record option \<Rightarrow> call \<Rightarrow> bool" where
  "failure_call b msg dep rec c \<longleftrightarrow>
     (\<exists>env r trace ce. c = ScheduleC env r \<and> envelope_of msg dep trace ce env \<and> msg_Attempt msg < b \<and> Error_Retryable ce) \<or>
     (\<exists>e r ce. c = DLQC e r \<and> dead_letter_of msg ce e) \<or> (\<exists>f r. c = EmitC f r) \<or> (\<exists>r. c = AckC [msg_ID msg] r) \<or>
     (\<exists>rc reason trace stage err. rec = Some rc \<and> Actionable (rec_Status rc) \<and>
        c = TransitionC dep (rec_Status rc) DeploymentStatusExportFailed reason trace stage err)"

lemma failure_run_calls:
  "failure_run b msg ev dep rec trace ce out cs \<Longrightarrow> c \<in> set cs \<Longrightarrow> failure_call b msg dep rec c"
  unfolding failure_call_def
  by (induction rule: failure_run.induct) (auto dest: cas_run_calls emit_run_calls)

lemma failure_call_ack [simp]: "failure_call b msg dep rec (AckC [msg_ID msg] r)"
  by (simp add: failure_call_def)

lemma failure_call_dead_letter: "dead_letter_of msg ce e \<Longrightarrow> failure_call b msg dep rec (DLQC e r)"
  unfolding failure_call_def by blast

lemma export_run_calls:
  assumes "export_run b msg ev rec trace out cs"
  shows "\<exists>job err cs'. cs = ExportC job err # cs' \<and> job_Record job = rec \<and>
    (\<forall>c \<in> set cs'. failure_call b msg (ev_DeploymentID ev) (Some rec) c)"
  using assms by cases (auto dest: failure_run_calls)

lemma start_call_simps [simp]:
  "start_call ev trace err \<noteq> ScheduleC env r" "start_call ev trace err \<noteq> DLQC e r" "start_call ev trace err \<noteq> ExportC job r"
  "start_call ev trace err \<noteq> AckC ids r" "\<not> is_lock_call (start_call ev trace err)" "\<not> is_export (start_call ev trace err)"
  by (simp_all add: start_call_def)

text \<open>Under the lock: an optional start, then perhaps the export, then the calls of a failure.\<close>

lemma locked_run_calls:
  assumes "locked_run b dry msg ev rec trace out cs"
  shows "\<exists>starts exports rest. cs = starts @ exports @ rest \<and>
    (starts = [] \<or> (\<exists>err. starts = [start_call ev trace err] \<and> rec_Status rec = DeploymentStatusExportQueued)) \<and>
    (exports = [] \<or> (\<exists>job err. exports = [ExportC job err])) \<and>
    (exports \<noteq> [] \<longrightarrow> starts = [start_call ev trace None] \<or> rec_Status rec \<noteq> DeploymentStatusExportQueued) \<and>
    (\<forall>c \<in> set rest. failure_call b msg (ev_DeploymentID ev)
       (Some (if exports = [] \<or> starts = [] then rec else rec\<lparr>rec_Status := DeploymentStatusExporting\<rparr>)) c)"
  using assms
proof cases
  case (dry_run r)
  then show ?thesis by - (rule exI [of _ "[]"], rule exI [of _ "[]"], rule exI [of _ "[AckC [msg_ID msg] r]"], simp)
next
  case (stop_done err cur r)
  then show ?thesis
    by - (rule exI [of _ "[start_call ev trace err]"], rule exI [of _ "[]"], rule exI [of _ "[AckC [msg_ID msg] r]"], auto)
next
  case (stop_active err cur)
  then show ?thesis
    by - (rule exI [of _ "[start_call ev trace err]"], rule exI [of _ "[]"], rule exI [of _ "[]"], auto)
next
  case (start_failed e cs')
  then show ?thesis
    by - (rule exI [of _ "[start_call ev trace (Some e)]"], rule exI [of _ "[]"], rule exI [of _ cs'], auto dest: failure_run_calls)
next
  case (started cs')
  with export_run_calls [OF started(4)] obtain job err rest where rest: "cs' = ExportC job err # rest"
    "\<forall>c \<in> set rest. failure_call b msg (ev_DeploymentID ev) (Some (rec\<lparr>rec_Status := DeploymentStatusExporting\<rparr>)) c"
    by blast
  with started show ?thesis
    by - (rule exI [of _ "[start_call ev trace None]"], rule exI [of _ "[ExportC job err]"], rule exI [of _ rest], auto)
next
  case resumed
  with export_run_calls [OF resumed(3)] obtain job err rest where "cs = ExportC job err # rest"
    "\<forall>c \<in> set rest. failure_call b msg (ev_DeploymentID ev) (Some rec) c"
    by blast
  with resumed show ?thesis
    by - (rule exI [of _ "[]"], rule exI [of _ "[ExportC job err]"], rule exI [of _ rest], auto)
qed

lemma failure_call_simps:
  "failure_call b msg dep rec c \<Longrightarrow> \<not> is_lock_call c \<and> \<not> is_export c \<and> \<not> needs_lock c"
  by (auto simp: failure_call_def)

text \<open>Without the lock: the calls of a failure, the load and its consequences, and perhaps a refused acquisition.\<close>

lemma handle_run_cases:
  assumes "handle_run l b dry reemits msg out cs"
  obtains (unlocked) dep rec where "\<forall>c \<in> set cs. failure_call b msg dep rec c \<or> (\<exists>d r. c = LoadC d r) \<or>
      (\<exists>rc t r. c = ReemitC rc t r) \<or> (\<exists>d e. c = AcquireC d (Some e))"
  | (under_lock) ev rec trace cs' r where "cs = LoadC (ev_DeploymentID ev) (Inr rec) # AcquireC (ev_DeploymentID ev) None #
      cs' @ [ReleaseC (ev_DeploymentID ev) r]" "ParseEvent l (msg_Payload msg) = Inr ev" "Actionable (rec_Status rec)"
      "locked_run b dry msg ev rec trace out cs'"
  using assms
proof cases
  case (locked ev rec trace cs' r)
  show ?thesis by (rule under_lock [OF locked(1,2,3,5)])
qed (rule unlocked, auto dest: failure_run_calls failure_call_dead_letter)+

section \<open>Sample collaborators\<close>

text \<open>Collaborators that always give the same answers, for the witnesses.\<close>

definition sample_record :: "deployment_status \<Rightarrow> deployment_record" where
  "sample_record st =
     \<lparr>rec_DeploymentID = ''d1'', rec_TeamID = ''t1'', rec_SiteID = ''s1'', rec_PageID = ''p1'', rec_Slug = ''/home'',
      rec_Version = ''v1'', rec_Status = st, rec_RenderMode = ''fetch_route'', rec_TargetID = ''c1'',
      rec_Environment = ''production''\<rparr>"

definition sample_deps :: "gerr + deployment_record \<Rightarrow> gerr option \<Rightarrow> gerr option \<Rightarrow> unit deps" where
  "sample_deps load transition export =
     \<lparr>Consumer_Ack = (\<lambda>_. ret None), DLQ_SendToDLQ = (\<lambda>_. ret None), Retries_Schedule = (\<lambda>_. ret None),
      Locker_Acquire = (\<lambda>_. ret (Inr (ret None))), Deploy_Load = (\<lambda>_. ret load),
      Deploy_Transition = (\<lambda>_ _ _ _ _ _. ret transition), Exporter_Export = (\<lambda>_. ret export),
      FailedEmit = Some (\<lambda>_. ret None), ReadyRedeliver = None, Metrics = None, Backoff = DefaultBackoff,
      WorkerID = ''w1'', DryRun = False, MaxRetries = 3, JobTimeout = 90 * Second, Now = Some (ret 0),
      lib = sample_lib, deps_rand_Read = (\<lambda>n. ret (replicate n CHR ''x'')), deps_rand_Float64 = (\<lambda>h. ret 0),
      deps_time_Now = ret 0\<rparr>"

definition sample_message :: "string \<Rightarrow> int \<Rightarrow> message" where
  "sample_message payload attempt =
     \<lparr>msg_ID = ''5-0'', msg_Payload = payload, msg_Attempt = attempt, msg_LastErrorCode = [], msg_TraceID = ''tr''\<rparr>"

lemma sample_parse: "ParseEvent (lib (traced (sample_deps x y z))) (msg_Payload (sample_message ''request'' n)) = Inr sample_event"
  by (simp add: sample_deps_def sample_message_def sample_accepted)

text \<open>The run of a message that is exported.\<close>

lemma sample_success:
  "run_state (Handle (traced (sample_deps (Inr (sample_record DeploymentStatusExportQueued)) None None))
      (sample_message ''request'' 0)) ((), []) =
   (OutcomeSuccess, ((),
     [LoadC ''d1'' (Inr (sample_record DeploymentStatusExportQueued)), AcquireC ''d1'' None,
      start_call sample_event ''tr'' None,
      ExportC \<lparr>job_Event = sample_event, job_Record = sample_record DeploymentStatusExporting,
        job_Msg = sample_message ''request'' 0, job_TraceID = ''tr''\<rparr> None,
      AckC [''5-0''] None, ReleaseC ''d1'' None]))"
  by code_simp

section \<open>Properties\<close>

lemma locked_run_members:
  assumes "locked_run b dry msg ev rec trace out cs" "c \<in> set cs"
  obtains (start) err where "c = start_call ev trace err" | (export) job err where "c = ExportC job err"
  | (failure) rc where "failure_call b msg (ev_DeploymentID ev) (Some rc) c"
proof -
  from locked_run_calls [OF assms(1)] obtain starts exports rest rc where cs: "cs = starts @ exports @ rest"
    "starts = [] \<or> (\<exists>err. starts = [start_call ev trace err])" "exports = [] \<or> (\<exists>job err. exports = [ExportC job err])"
    "\<forall>c \<in> set rest. failure_call b msg (ev_DeploymentID ev) (Some rc) c"
    by metis
  with assms(2) consider "c \<in> set starts" | "c \<in> set exports" | "c \<in> set rest" by auto
  then show ?thesis
  proof cases
    case 1
    with cs(2) start show ?thesis by auto
  next
    case 2
    with cs(3) export show ?thesis by auto
  next
    case 3
    with cs(4) failure show ?thesis by blast
  qed
qed

text \<open>
  C1. \<open>Handle\<close> refines its specification. For all collaborators, whatever they answer, every run of \<open>Handle\<close> is a
  run of the same collaborators with a log, with the same outcome and the same final world, and
  that outcome and log are allowed by \<open>handle_run\<close>: the calls, their order, their arguments and the branch taken
  on each result.
\<close>

theorem Handle_refines:
  "\<exists>cs. run_state (Handle (traced d) msg) (w, []) =
       (fst (run_state (Handle d msg) w), (snd (run_state (Handle d msg) w), cs)) \<and>
     handle_run (lib d) (MaxRetries d) (DryRun d) (ReadyRedeliver d \<noteq> None) msg (fst (run_state (Handle d msg) w)) cs"
proof -
  obtain cs where cs: "run_state (Handle (traced d) msg) (w, []) =
      (fst (run_state (Handle d msg) w), (snd (run_state (Handle d msg) w), cs))"
    using shadows_Handle [of d msg, unfolded shadows_def] by fastforce
  from Handle_logged [OF this] cs show ?thesis
    unfolding reemits_wired_def by blast
qed

text \<open>
  C3. The acknowledgement rule (write, then acknowledge). Whenever \<open>Handle\<close> acknowledges, it acknowledges exactly this
  message, and before that call one of these has succeeded: the export; the hand-over to the retry
  store or to the dead letters; the transition to EXPORT_FAILED; or the deployment was found past the worker's
  part (by the load or by a status conflict); or the failure is terminal and the deployment is not the worker's to
  move; or it is a dry run under the lock.
\<close>

theorem Handle_ack_justified:
  assumes "run_state (Handle (traced d) msg) (w, []) = (out, (w', pre @ AckC ids r # post))"
  shows "ids = [msg_ID msg] \<and> justified (lib d) (DryRun d) msg pre"
  using one_ackD [OF handle_one_ack [OF Handle_logged [OF assms]]] .

theorem Handle_ack_justified_witness:
  "justified sample_lib False (sample_message ''request'' 0)
     [LoadC ''d1'' (Inr (sample_record DeploymentStatusExportQueued)), AcquireC ''d1'' None,
      start_call sample_event ''tr'' None,
      ExportC \<lparr>job_Event = sample_event, job_Record = sample_record DeploymentStatusExporting,
        job_Msg = sample_message ''request'' 0, job_TraceID = ''tr''\<rparr> None]"
proof -
  let ?d = "sample_deps (Inr (sample_record DeploymentStatusExportQueued)) None None"
  have "lib ?d = sample_lib" "DryRun ?d = False" by (simp_all add: sample_deps_def)
  then show ?thesis
    using Handle_ack_justified [of ?d "sample_message ''request'' 0" "()" OutcomeSuccess "()"
      "[LoadC ''d1'' (Inr (sample_record DeploymentStatusExportQueued)), AcquireC ''d1'' None,
        start_call sample_event ''tr'' None,
        ExportC \<lparr>job_Event = sample_event, job_Record = sample_record DeploymentStatusExporting,
          job_Msg = sample_message ''request'' 0, job_TraceID = ''tr''\<rparr> None]"
      "[''5-0'']" None "[ReleaseC ''d1'' None]"] sample_success
    by simp
qed

text \<open>
  C4. The outcome tells the acknowledgement, with the answer to the start for a safe stop: success, dry run, terminal, scheduled retry and dead letter mean
  exactly one acknowledgement of this message; lock conflict and no-ack mean none; and a safe stop means one if the transition to EXPORTING was refused
  because the deployment is past the worker's part, and none if it was refused because the deployment is active elsewhere. There is never a second one.
\<close>

theorem Handle_ack_once:
  assumes "run_state (Handle (traced d) msg) (w, []) = (out, (w', cs))"
  shows "acks cs =
    (if out \<in> {OutcomeSuccess, OutcomeDryRun, OutcomeAckedTerminal, OutcomeRetryScheduled, OutcomeDLQ, OutcomeFailedTerminal} \<or>
        out = OutcomeStopSafe \<and> (\<exists>dep trace stage err cur.
          TransitionC dep DeploymentStatusExportQueued DeploymentStatusExporting ''worker_started'' trace stage err \<in> set cs \<and>
          AsStatusConflict err = Some cur \<and> NonActionable cur)
     then [[msg_ID msg]] else [])"
proof (cases "out = OutcomeStopSafe")
  case True
  with handle_stop [of _ _ _ _ msg cs] Handle_logged [OF assms] show ?thesis by (simp add: start_overtaken_def)
next
  case False
  with handle_acks [OF Handle_logged [OF assms]] show ?thesis by (simp add: acking_def)
qed

theorem Handle_ack_once_witness:
  "acks [LoadC ''d1'' (Inr (sample_record DeploymentStatusExportQueued)), AcquireC ''d1'' None,
      start_call sample_event ''tr'' None,
      ExportC \<lparr>job_Event = sample_event, job_Record = sample_record DeploymentStatusExporting,
        job_Msg = sample_message ''request'' 0, job_TraceID = ''tr''\<rparr> None,
      AckC [''5-0''] None, ReleaseC ''d1'' None] = [[msg_ID (sample_message ''request'' 0)]]"
  using Handle_ack_once [OF sample_success] by simp

lemma scheduled_envelope:
  assumes "handle_run l b dry reemits msg out cs" "ScheduleC env r \<in> set cs"
  shows "env_Attempt env = msg_Attempt msg + 1 \<and> env_Attempt env \<le> b \<and>
    Retryable (env_LastErrorCode env) \<and> env_Payload env = msg_Payload msg \<and>
    env_RetryEnvelopeID env = EnvelopeID (env_DeploymentID env) (env_Attempt env) (env_LastErrorCode env)"
proof -
  have call: "env_Attempt env = msg_Attempt msg + 1 \<and> env_Attempt env \<le> b \<and>
    Retryable (env_LastErrorCode env) \<and> env_Payload env = msg_Payload msg \<and>
    env_RetryEnvelopeID env = EnvelopeID (env_DeploymentID env) (env_Attempt env) (env_LastErrorCode env)"
    if "failure_call b msg dep rec (ScheduleC env r)" for dep rec
    using that by (auto simp: failure_call_def envelope_of_def Error_Retryable_def)
  from assms(1) show ?thesis
  proof (cases rule: handle_run_cases)
    case (unlocked dep rec)
    then show ?thesis using assms(2) call by blast
  next
    case (under_lock ev rec trace cs' r')
    then have "ScheduleC env r \<in> set cs'" using assms(2) by auto
    from under_lock(4) this show ?thesis
      by (cases rule: locked_run_members) (auto simp: start_call_def dest: call)
  qed
qed

text \<open>
  C21. The retry budget. A retry is scheduled only for a retryable error and below the budget, as attempt number one
  more than the message's, at most \<open>MaxRetries\<close>; the envelope carries the payload unchanged and is keyed by deployment,
  attempt and error code.
\<close>

theorem Handle_retry_budget:
  assumes "run_state (Handle (traced d) msg) (w, []) = (out, (w', cs))" "ScheduleC env r \<in> set cs"
  shows "env_Attempt env = msg_Attempt msg + 1 \<and> env_Attempt env \<le> MaxRetries d \<and>
    Retryable (env_LastErrorCode env) \<and> env_Payload env = msg_Payload msg \<and>
    env_RetryEnvelopeID env = EnvelopeID (env_DeploymentID env) (env_Attempt env) (env_LastErrorCode env)"
  using scheduled_envelope [OF Handle_logged [OF assms(1)] assms(2)] .

lemma sample_retry:
  "run_state (Handle (traced (sample_deps (Inl (as_error (errclass_New ErrorCodeDeploymentServiceTimeout
       FailedStageLoadDeployment None))) None None)) (sample_message ''request'' 2)) ((), []) =
   (OutcomeRetryScheduled, ((),
     [LoadC ''d1'' (Inl (as_error (errclass_New ErrorCodeDeploymentServiceTimeout FailedStageLoadDeployment None))),
      ScheduleC \<lparr>env_RetryEnvelopeID = ''d1:3:DEPLOYMENT_SERVICE_TIMEOUT'', env_DeploymentID = ''d1'', env_Attempt = 3,
        env_NextAttemptAt = 20000, env_LastErrorCode = ErrorCodeDeploymentServiceTimeout, env_TraceID = ''tr'',
        env_Payload = ''request''\<rparr> None,
      AckC [''5-0''] None]))"
  by code_simp

theorem Handle_retry_budget_witness:
  "Retryable (env_LastErrorCode \<lparr>env_RetryEnvelopeID = ''d1:3:DEPLOYMENT_SERVICE_TIMEOUT'', env_DeploymentID = ''d1'',
     env_Attempt = 3, env_NextAttemptAt = 20000, env_LastErrorCode = ErrorCodeDeploymentServiceTimeout,
     env_TraceID = ''tr'', env_Payload = ''request''\<rparr>)"
  using Handle_retry_budget [OF sample_retry] by simp

text \<open>
  C5. Lock discipline. If the lock is acquired, the run is: load, acquire, work with no lock call in it, and the release
  of the same deployment's lock as the very last call, on every path; the export and the transition to
  EXPORTING happen only in such a run, that is, between a successful acquisition and the release.
\<close>

theorem Handle_lock_discipline:
  assumes "run_state (Handle (traced d) msg) (w, []) = (out, (w', cs))"
    and "c \<in> set cs" "needs_lock c \<or> c = AcquireC dep None \<or> c = ReleaseC dep r"
  shows "\<exists>dep rec work r. cs = LoadC dep (Inr rec) # AcquireC dep None # work @ [ReleaseC dep r] \<and>
    Actionable (rec_Status rec) \<and> (\<forall>c \<in> set work. \<not> is_lock_call c)"
  using Handle_logged [OF assms(1)]
proof (cases rule: handle_run_cases)
  case (unlocked dep' rec)
  then have "failure_call (MaxRetries d) msg dep' rec c \<or> (\<exists>d r. c = LoadC d r) \<or>
      (\<exists>rc t r. c = ReemitC rc t r) \<or> (\<exists>d e. c = AcquireC d (Some e))"
    using assms(2) by blast
  then have "\<not> needs_lock c" "c \<noteq> AcquireC dep None" "c \<noteq> ReleaseC dep r"
    by (auto dest: failure_call_simps)
  with assms(3) show ?thesis by blast
next
  case (under_lock ev rec trace work r')
  from locked_run_calls [OF under_lock(4)] have "\<forall>c \<in> set work. \<not> is_lock_call c"
    by (fastforce dest: failure_call_simps)
  with under_lock(1,3) show ?thesis by blast
qed

theorem Handle_lock_discipline_witness:
  "\<exists>dep rec work r. [LoadC ''d1'' (Inr (sample_record DeploymentStatusExportQueued)), AcquireC ''d1'' None,
      start_call sample_event ''tr'' None,
      ExportC \<lparr>job_Event = sample_event, job_Record = sample_record DeploymentStatusExporting,
        job_Msg = sample_message ''request'' 0, job_TraceID = ''tr''\<rparr> None,
      AckC [''5-0''] None, ReleaseC ''d1'' None] =
     LoadC dep (Inr rec) # AcquireC dep None # work @ [ReleaseC dep r] \<and>
     Actionable (rec_Status rec) \<and> (\<forall>c \<in> set work. \<not> is_lock_call c)"
  by (rule Handle_lock_discipline [OF sample_success, of "AcquireC ''d1'' None"]) simp_all

text \<open>
  C22. Status writes. \<open>Handle\<close> asks for two transitions only: EXPORT_QUEUED to EXPORTING, of the event's deployment, on a
  record loaded as EXPORT_QUEUED; and to EXPORT_FAILED, from EXPORT_QUEUED or EXPORTING. An export runs at most
  once, and on a record that is EXPORTING unless it was already past EXPORT_QUEUED when it was loaded.
\<close>

theorem Handle_transitions:
  assumes "run_state (Handle (traced d) msg) (w, []) = (out, (w', cs))"
  shows "(\<forall>dep a b reason trace stage err. TransitionC dep a b reason trace stage err \<in> set cs \<longrightarrow>
      a = DeploymentStatusExportQueued \<and> b = DeploymentStatusExporting \<or>
      Actionable a \<and> b = DeploymentStatusExportFailed) \<and>
    length (filter is_export cs) \<le> 1"
  using Handle_logged [OF assms]
proof (cases rule: handle_run_cases)
  case (unlocked dep rec)
  then have "filter is_export cs = []"
    by (auto simp: filter_empty_conv dest!: failure_call_simps)
  with unlocked show ?thesis by (fastforce simp: failure_call_def)
next
  case (under_lock ev rec trace work r)
  from locked_run_calls [OF under_lock(4)] obtain starts exports rest dep rc where work: "work = starts @ exports @ rest"
    "starts = [] \<or> (\<exists>err. starts = [start_call ev trace err])" "exports = [] \<or> (\<exists>job err. exports = [ExportC job err])"
    "\<forall>c \<in> set rest. failure_call (MaxRetries d) msg dep rc c"
    by metis
  have "filter is_export rest = []"
    using work(4) by (auto simp: filter_empty_conv dest!: failure_call_simps)
  then have "length (filter is_export cs) \<le> 1"
    using under_lock(1) work by (auto simp: start_call_def)
  moreover have "a = DeploymentStatusExportQueued \<and> b = DeploymentStatusExporting \<or>
      Actionable a \<and> b = DeploymentStatusExportFailed"
    if "TransitionC dep' a b reason trace' stage err \<in> set cs" for dep' a b reason trace' stage err
  proof -
    have "TransitionC dep' a b reason trace' stage err \<in> set work" using that under_lock(1) by auto
    from under_lock(4) this show ?thesis
      by (cases rule: locked_run_members) (auto simp: start_call_def failure_call_def)
  qed
  ultimately show ?thesis by blast
qed

theorem Handle_transitions_witness:
  "length (filter is_export [LoadC ''d1'' (Inr (sample_record DeploymentStatusExportQueued)), AcquireC ''d1'' None,
      start_call sample_event ''tr'' None,
      ExportC \<lparr>job_Event = sample_event, job_Record = sample_record DeploymentStatusExporting,
        job_Msg = sample_message ''request'' 0, job_TraceID = ''tr''\<rparr> None,
      AckC [''5-0''] None, ReleaseC ''d1'' None]) \<le> 1"
  using Handle_transitions [OF sample_success] by blast

text \<open>
  The failure event is not tied to the transition. When the deployment cannot be loaded and the retries are used up,
  the worker emits \<open>deployment.export.failed\<close> although it has made no transition to EXPORT_FAILED at all.
\<close>

theorem Handle_emits_without_transition:
  "case run_state (Handle (traced (sample_deps (Inl (as_error (errclass_New ErrorCodeDeploymentServiceTimeout
       FailedStageLoadDeployment None))) None None)) (sample_message ''request'' 3)) ((), []) of
     (out, (_, cs)) \<Rightarrow> out = OutcomeDLQ \<and>
       map (\<lambda>c. case c of LoadC _ _ \<Rightarrow> 0 | DLQC _ _ \<Rightarrow> 1 | EmitC _ _ \<Rightarrow> 2 | AckC _ _ \<Rightarrow> 3 | _ \<Rightarrow> 4) cs = [0, 1, 2, 3 :: int]"
  by code_simp

text \<open>
  An invalid request for a deployment that is still PENDING is acknowledged with no transition, no dead letter and no
  event: nothing is left that would move the deployment once it becomes EXPORT_QUEUED.
\<close>

theorem Handle_invalid_pending:
  "run_state (Handle (traced (sample_deps (Inr (sample_record DeploymentStatusPending)) None None))
      (sample_message ''{}'' 0)) ((), []) =
   (OutcomeFailedTerminal, ((), [LoadC ''d1'' (Inr (sample_record DeploymentStatusPending)), AckC [''5-0''] None]))"
  by code_simp

end
