(* ===== verification/Paths.thy ===== *)
theory Paths
  imports Errclass Go_URL
begin

text \<open>
  Path safety, \<open>src/internal/harvest/paths.go\<close>: \<open>NormalizePath\<close> (decode, then check),
  \<open>MapSlug\<close> and \<open>StorageKey\<close>. \<open>safe_path\<close> is the specification of a normalized path and
  \<open>resolve\<close> the resolution of dot segments that a file system or an object browser applies.
\<close>

section \<open>Operations\<close>

definition path_violation :: "failed_stage \<Rightarrow> string \<Rightarrow> gerr" where
  "path_violation stage msg =
     as_error (errclass_New ErrorCodePathTraversalDetected stage (Some (TextE msg)))"

text \<open>The decoding loop: at most \<open>n\<close> rounds, stopping at the first round that changes nothing.\<close>

fun decode_rounds :: "nat \<Rightarrow> string \<Rightarrow> string option" where
  "decode_rounds 0 decoded = Some decoded"
| "decode_rounds (Suc n) decoded =
     (case PathUnescape decoded of
        None \<Rightarrow> None
      | Some next \<Rightarrow> if next = decoded then Some decoded else decode_rounds n next)"

text \<open>
  The control-character check ranges over the runes of the string; a byte below 128 is always a
  rune of its own, so testing bytes is the same.
\<close>

definition is_control :: "char \<Rightarrow> bool" where
  "is_control c = ((of_char c :: nat) < 0x20 \<or> (of_char c :: nat) = 0x7f)"

text \<open>The regular expression \<open>^[A-Za-z]:\<close>.\<close>

fun drivePrefix :: "string \<Rightarrow> bool" where
  "drivePrefix (a # b # s) = (is_alpha a \<and> b = CHR '':'')"
| "drivePrefix s = False"

definition dot_or_empty :: "string \<Rightarrow> bool" where
  "dot_or_empty seg = (seg = [] \<or> seg = ''.'' \<or> seg = ''..'')"

definition NormalizePath :: "string \<Rightarrow> gerr + string" where
  "NormalizePath raw =
     (case decode_rounds 4 raw of
        None \<Rightarrow> Inl (path_violation FailedStageHarvestDependencies ''malformed percent-encoding'')
      | Some decoded \<Rightarrow>
          if Contains decoded ''%''
          then Inl (path_violation FailedStageHarvestDependencies ''unresolvable percent-encoding'')
          else if list_ex is_control decoded
          then Inl (path_violation FailedStageHarvestDependencies ''control character'')
          else if Contains decoded [CHR 0x5C]
          then Inl (path_violation FailedStageHarvestDependencies ''backslash separator'')
          else if drivePrefix (TrimPrefix decoded ''/'') \<or> drivePrefix decoded
          then Inl (path_violation FailedStageHarvestDependencies ''drive prefix'')
          else if \<not> HasPrefix decoded ''/''
          then Inl (path_violation FailedStageHarvestDependencies ''path is not absolute'')
          else let segments = Split (TrimPrefix decoded ''/'') CHR ''/'' in
            if list_ex dot_or_empty segments
            then Inl (path_violation FailedStageHarvestDependencies ''empty or dot segment'')
            else Inr (''/'' @ Join segments ''/''))"

definition MapSlug :: "string \<Rightarrow> gerr + string \<times> string" where
  "MapSlug slug =
     (let trimmed = TrimSpace slug in
      if trimmed = ''/'' \<or> trimmed = ''index'' \<or> trimmed = [] then Inr (''/index.html'', ''/'')
      else case NormalizePath (''/'' @ Trim trimmed CHR ''/'') of
             Inl nerr \<Rightarrow> Inl (as_error (errclass_New ErrorCodeInvalidSlug
                                 FailedStageHarvestDependencies (Some (WrapE nerr))))
           | Inr normalized \<Rightarrow> Inr (normalized @ ''/index.html'', normalized))"

definition StorageKey :: "string \<Rightarrow> string \<Rightarrow> gerr + string" where
  "StorageKey basePath artifactPath =
     (if \<not> HasPrefix artifactPath ''/'' \<or> Contains artifactPath [CHR 0x5C]
      then Inl (path_violation FailedStageUploadArtifacts ''escapes the deployment prefix'')
      else if list_ex dot_or_empty (Split (TrimPrefix artifactPath ''/'') CHR ''/'')
      then Inl (path_violation FailedStageUploadArtifacts ''escapes the deployment prefix'')
      else Inr (basePath @ artifactPath))"

section \<open>Specification\<close>

text \<open>What a normalized path is, without reference to how it was obtained.\<close>

definition safe_seg :: "string \<Rightarrow> bool" where
  "safe_seg seg =
     (\<not> dot_or_empty seg \<and>
      (\<forall>c \<in> set seg. c \<noteq> CHR ''/'' \<and> c \<noteq> CHR ''%'' \<and> c \<noteq> CHR 0x5C \<and> \<not> is_control c))"

definition safe_path :: "string \<Rightarrow> bool" where
  "safe_path p =
     (\<exists>segs. segs \<noteq> [] \<and> list_all safe_seg segs \<and> \<not> drivePrefix (hd segs) \<and>
             p = CHR ''/'' # Join segs ''/'')"

text \<open>
  Dot-segment resolution of a key: \<open>.\<close> and the empty segment stay, \<open>..\<close> goes to the parent; the
  first argument is the current directory, innermost first.
\<close>

fun resolve_from :: "string list \<Rightarrow> string list \<Rightarrow> string list" where
  "resolve_from dir [] = rev dir"
| "resolve_from dir (seg # segs) =
     (if seg = [] \<or> seg = ''.'' then resolve_from dir segs
      else if seg = ''..'' then resolve_from (tl dir) segs
      else resolve_from (seg # dir) segs)"

definition resolve :: "string \<Rightarrow> string list" where
  "resolve key = resolve_from [] (Split key CHR ''/'')"

text \<open>Percent-decoding applied \<open>n\<close> times.\<close>

fun unescape_times :: "nat \<Rightarrow> string \<Rightarrow> string option" where
  "unescape_times 0 s = Some s"
| "unescape_times (Suc n) s = Option.bind (PathUnescape s) (unescape_times n)"

section \<open>Lemmas\<close>

lemma decode_rounds_unescape:
  "decode_rounds n s = Some d \<Longrightarrow> \<exists>k \<le> n. unescape_times k s = Some d"
proof (induction n arbitrary: s)
  case (Suc n)
  then obtain t where t: "PathUnescape s = Some t"
    by (auto split: option.splits)
  show ?case
  proof (cases "t = s")
    case True
    with Suc.prems t have "unescape_times 0 s = Some d" by simp
    then show ?thesis by blast
  next
    case False
    with Suc.prems t have "decode_rounds n t = Some d" by simp
    then obtain k where "k \<le> n" "unescape_times k t = Some d"
      using Suc.IH by blast
    with t have "Suc k \<le> Suc n" "unescape_times (Suc k) s = Some d" by auto
    then show ?thesis by blast
  qed
qed auto

lemma decode_rounds_id: "CHR ''%'' \<notin> set s \<Longrightarrow> decode_rounds n s = Some s"
  by (cases n) (simp_all add: PathUnescape_id)

text \<open>The loop reaches every decoding without a percent sign that is within its rounds; it stops early only at a fixed point.\<close>

lemma unescape_times_fixed: "PathUnescape s = Some s \<Longrightarrow> unescape_times k s = Some s"
  by (induction k) simp_all

lemma decode_rounds_complete:
  "unescape_times k s = Some d \<Longrightarrow> k \<le> n \<Longrightarrow> CHR ''%'' \<notin> set d \<Longrightarrow> decode_rounds n s = Some d"
proof (induction k arbitrary: s n)
  case 0
  then show ?case by (simp add: decode_rounds_id)
next
  case (Suc k)
  from Suc.prems(1) obtain t where t: "PathUnescape s = Some t" "unescape_times k t = Some d"
    by (auto simp: bind_eq_Some_conv)
  from Suc.prems(2) obtain m where n: "n = Suc m" "k \<le> m" by (cases n) auto
  show ?case
  proof (cases "t = s")
    case True
    with t unescape_times_fixed [of s k] show ?thesis by (simp add: n)
  qed (use t n Suc.IH [OF t(2) n(2) Suc.prems(3)] in simp)
qed

lemma drivePrefix_slash [simp]: "drivePrefix (CHR ''/'' # s) = False"
  by (cases s) (simp_all add: is_alpha_def is_lower_def is_upper_def)

lemma drivePrefix_Join: "CHR ''/'' \<notin> set s \<Longrightarrow> drivePrefix (Join (s # ss) ''/'') = drivePrefix s"
  by (cases ss; cases s rule: drivePrefix.cases) auto

lemma Join_chars:
  "\<forall>s \<in> set ss. \<forall>c \<in> set s. P c \<Longrightarrow> P d \<Longrightarrow> \<forall>c \<in> set (Join ss [d]). P c"
proof (induction ss)
  case (Cons s ss)
  then show ?case by (cases "ss = []") (simp_all add: Join_Cons ball_Un)
qed simp

lemma safe_seg_no_slash: "safe_seg s \<Longrightarrow> CHR ''/'' \<notin> set s"
  by (auto simp: safe_seg_def)

lemma safe_segs_Split:
  assumes "segs \<noteq> []" "list_all safe_seg segs"
  shows "Split (Join segs ''/'') CHR ''/'' = segs"
  using assms by (intro Split_Join) (auto simp: list_all_iff safe_seg_no_slash)

lemma safe_path_chars:
  assumes "safe_path p"
  shows "\<forall>c \<in> set p. c \<noteq> CHR ''%'' \<and> c \<noteq> CHR 0x5C \<and> \<not> is_control c"
proof -
  let ?P = "\<lambda>c. c \<noteq> CHR ''%'' \<and> c \<noteq> CHR 0x5C \<and> \<not> is_control c"
  from assms obtain segs where segs: "list_all safe_seg segs" and p: "p = CHR ''/'' # Join segs ''/''"
    by (auto simp: safe_path_def)
  have "\<forall>s \<in> set segs. \<forall>c \<in> set s. ?P c"
    using segs by (simp add: list_all_iff safe_seg_def)
  moreover have "?P CHR ''/''" by (simp add: is_control_def)
  moreover from this have "\<forall>c \<in> set (Join segs ''/''). ?P c"
    by (rule Join_chars [rotated]) fact
  ultimately show ?thesis
    unfolding p list.set ball_simps by blast
qed

lemma safe_path_char_checks:
  assumes "safe_path p"
  shows "CHR ''%'' \<notin> set p" "CHR 0x5C \<notin> set p" "\<not> list_ex is_control p"
  using safe_path_chars [OF assms] by (auto simp: list_ex_iff)

lemma NormalizePath_safe:
  assumes "NormalizePath raw = Inr p"
  shows "safe_path p"
proof -
  obtain d where d: "decode_rounds 4 raw = Some d"
    using assms by (auto simp: NormalizePath_def split: option.splits)
  note ok = assms [unfolded NormalizePath_def d, simplified]
  obtain t where t: "d = CHR ''/'' # t"
    using ok by (auto simp: HasPrefix_char split: if_splits)
  let ?segs = "Split t CHR ''/''"
  have segs: "\<not> list_ex dot_or_empty ?segs" "p = CHR ''/'' # t"
    and chars: "CHR ''%'' \<notin> set d" "\<not> list_ex is_control d" "CHR 0x5C \<notin> set d"
    and drive: "\<not> drivePrefix t"
    using ok t by (auto simp: Let_def split: if_splits)
  have "safe_seg seg" if "seg \<in> set ?segs" for seg
    using Split_set [OF that] Split_no_sep [OF that] segs(1) chars that t
    by (auto simp: safe_seg_def list_ex_iff)
  moreover obtain s ss where hd: "?segs = s # ss"
    by (meson Split_not_Nil neq_Nil_conv)
  moreover have "\<not> drivePrefix s"
    using drive drivePrefix_Join [of s ss] Join_Split [of t "CHR ''/''"] Split_no_sep [of s t "CHR ''/''"] hd
    by auto
  ultimately show ?thesis
    unfolding safe_path_def
    using Join_Split [of t "CHR ''/''"]
    by (intro exI [of _ ?segs]) (simp add: list_all_iff segs(2))
qed

lemma safe_path_NormalizePath:
  assumes "safe_path p"
  shows "NormalizePath p = Inr p"
proof -
  from assms obtain segs where segs: "segs \<noteq> []" "list_all safe_seg segs" "\<not> drivePrefix (hd segs)"
    and p: "p = CHR ''/'' # Join segs ''/''"
    by (auto simp: safe_path_def)
  have "\<not> drivePrefix (Join segs ''/'')"
    using segs by (cases segs) (auto simp: drivePrefix_Join safe_seg_no_slash)
  moreover have "\<not> list_ex dot_or_empty segs"
    using segs by (auto simp: list_all_iff list_ex_iff safe_seg_def)
  moreover note safe_path_char_checks [OF assms] safe_segs_Split [OF segs(1,2)]
  ultimately show ?thesis
    by (simp add: NormalizePath_def decode_rounds_id p Let_def)
qed

lemma StorageKey_safe:
  assumes "safe_path p"
  shows "StorageKey base p = Inr (base @ p)"
proof -
  from assms obtain segs where segs: "segs \<noteq> []" "list_all safe_seg segs"
    and p: "p = CHR ''/'' # Join segs ''/''"
    by (auto simp: safe_path_def)
  have "\<not> list_ex dot_or_empty segs"
    using segs by (auto simp: list_all_iff list_ex_iff safe_seg_def)
  with safe_segs_Split [OF segs] safe_path_char_checks(2) [OF assms] show ?thesis
    by (simp add: StorageKey_def p)
qed

lemma Join_snoc: "ss \<noteq> [] \<Longrightarrow> Join (ss @ [s]) sep = Join ss sep @ sep @ s"
  by (induction ss sep rule: Join.induct) auto

lemma safe_path_append:
  assumes "safe_path p" "safe_seg s"
  shows "safe_path (p @ CHR ''/'' # s)"
proof -
  from assms(1) obtain segs where segs: "segs \<noteq> []" "list_all safe_seg segs" "\<not> drivePrefix (hd segs)"
    and p: "p = CHR ''/'' # Join segs ''/''"
    by (auto simp: safe_path_def)
  have "Join (segs @ [s]) ''/'' = Join segs ''/'' @ CHR ''/'' # s"
    using segs(1) by (simp add: Join_snoc)
  with segs p assms(2) show ?thesis
    unfolding safe_path_def by (intro exI [of _ "segs @ [s]"]) simp
qed

lemma Join_last: "ss \<noteq> [] \<Longrightarrow> last ss \<noteq> [] \<Longrightarrow> Join ss sep \<noteq> [] \<and> last (Join ss sep) = last (last ss)"
  by (induction ss sep rule: Join.induct) auto

lemma safe_path_no_trailing_slash:
  assumes "safe_path p"
  shows "\<not> suffix ''/'' p"
proof -
  from assms obtain segs where segs: "segs \<noteq> []" "list_all safe_seg segs"
    and p: "p = CHR ''/'' # Join segs ''/''"
    by (auto simp: safe_path_def)
  then have "safe_seg (last segs)" by (simp add: list_all_iff)
  then have "last segs \<noteq> []" "last (last segs) \<noteq> CHR ''/''"
    by (auto simp: safe_seg_def dot_or_empty_def)
  with Join_last [OF segs(1), of "''/''"] have "last p \<noteq> CHR ''/''" by (simp add: p)
  then show ?thesis by (auto simp: suffix_def)
qed

lemma resolve_from_plain:
  "list_all (\<lambda>s. \<not> dot_or_empty s) segs \<Longrightarrow> resolve_from dir segs = rev dir @ segs"
  by (induction segs arbitrary: dir) (auto simp: dot_or_empty_def)

lemma resolve_from_append:
  "resolve_from dir (xs @ ys) = resolve_from (rev (resolve_from dir xs)) ys"
  by (induction dir xs rule: resolve_from.induct) auto

lemma StorageKey_Inr:
  assumes "StorageKey base p = Inr k"
  obtains t where "p = CHR ''/'' # t" "k = base @ p" "\<not> list_ex dot_or_empty (Split t CHR ''/'')"
  using assms by (auto simp: StorageKey_def HasPrefix_char split: if_splits)

section \<open>Properties\<close>

text \<open>
  C19. \<open>NormalizePath\<close> accepts exactly the inputs that decode to a safe path within four rounds, and returns this path: it returns \<open>p\<close> if and only
  if \<open>p\<close> is safe (absolute, no empty, dot or dot-dot segment, no percent sign, control character, backslash or drive prefix) and is the input after some
  number, at most four, of rounds of percent-decoding. An input that is still encoded after four rounds, or that is malformed on the way, is refused.
\<close>

theorem NormalizePath_correct:
  "NormalizePath raw = Inr p \<longleftrightarrow> safe_path p \<and> (\<exists>k \<le> 4. unescape_times k raw = Some p)"
proof
  assume ok: "NormalizePath raw = Inr p"
  obtain d where d: "decode_rounds 4 raw = Some d"
    using ok by (auto simp: NormalizePath_def split: option.splits)
  have "p = d"
    using ok d by (auto simp: NormalizePath_def Let_def HasPrefix_char split: if_splits)
  with decode_rounds_unescape [OF d] NormalizePath_safe [OF ok]
  show "safe_path p \<and> (\<exists>k \<le> 4. unescape_times k raw = Some p)" by simp
next
  assume *: "safe_path p \<and> (\<exists>k \<le> 4. unescape_times k raw = Some p)"
  then have "decode_rounds 4 raw = decode_rounds 4 p"
    using decode_rounds_complete [of _ raw p 4] safe_path_char_checks(1) [of p] by (auto simp: decode_rounds_id)
  then have "NormalizePath raw = NormalizePath p" by (simp add: NormalizePath_def)
  with * show "NormalizePath raw = Inr p" by (simp add: safe_path_NormalizePath)
qed

theorem NormalizePath_correct_witness:
  "safe_path ''/a b'' \<and> NormalizePath ''/a%25252520b'' = Inr ''/a b'' \<and> NormalizePath ''/a%2525252520b'' \<noteq> Inr ''/a b''"
proof -
  have four: "NormalizePath ''/a%25252520b'' = Inr ''/a b''" and five: "isl (NormalizePath ''/a%2525252520b'')"
    by code_simp+
  from four have "safe_path ''/a b''" using NormalizePath_correct [of "''/a%25252520b''" "''/a b''"] by blast
  with four five show ?thesis by (metis isl_def sum.disc(2))
qed

text \<open>
  C20. Confinement: whenever \<open>StorageKey\<close> returns a key, resolving every dot segment of the key ends
  below the resolved deployment base path, at the artifact path's own segments; no artifact path
  can name an object outside its deployment.
\<close>

theorem StorageKey_confined:
  assumes "StorageKey base p = Inr k"
  shows "k = base @ p \<and> resolve k = resolve base @ Split (tl p) CHR ''/''"
proof -
  from assms obtain t where t: "p = CHR ''/'' # t" "k = base @ p" "\<not> list_ex dot_or_empty (Split t CHR ''/'')"
    by (rule StorageKey_Inr)
  have "resolve k = resolve_from (rev (resolve base)) (Split t CHR ''/'')"
    by (simp add: resolve_def t Split_append resolve_from_append)
  also have "\<dots> = resolve base @ Split t CHR ''/''"
    using t(3) by (simp add: resolve_from_plain list_all_iff list_ex_iff)
  finally show ?thesis by (simp add: t)
qed

theorem StorageKey_confined_witness:
  "StorageKey ''sites/s/deployments/d'' ''/a..b/c.js'' = Inr ''sites/s/deployments/d/a..b/c.js'' \<and>
   resolve ''sites/s/deployments/d/a..b/c.js'' =
     [''sites'', ''s'', ''deployments'', ''d'', ''a..b'', ''c.js'']"
proof -
  have h: "StorageKey ''sites/s/deployments/d'' ''/a..b/c.js'' = Inr ''sites/s/deployments/d/a..b/c.js''"
    by code_simp
  have base: "resolve ''sites/s/deployments/d'' = [''sites'', ''s'', ''deployments'', ''d'']"
    by code_simp
  have segs: "Split (tl ''/a..b/c.js'') CHR ''/'' = [''a..b'', ''c.js'']"
    by code_simp
  show ?thesis
    using h conjunct2 [OF StorageKey_confined [OF h]] unfolding base segs append.simps by blast
qed

lemma safe_seg_index: "safe_seg ''index.html''"
  by (simp add: safe_seg_def dot_or_empty_def is_control_def)

lemma MapSlug_Inr:
  assumes "MapSlug slug = Inr (entry, route)"
  shows "safe_path entry" "entry = TrimSuffix route ''/'' @ ''/index.html''"
proof -
  consider "entry = ''/index.html''" "route = ''/''"
    | normalized raw where "NormalizePath raw = Inr normalized"
        "entry = normalized @ ''/index.html''" "route = normalized"
    using assms by (auto simp: MapSlug_def Let_def split: if_splits sum.splits)
  then have "safe_path entry \<and> entry = TrimSuffix route ''/'' @ ''/index.html''"
  proof cases
    case 1
    have "safe_path ''/index.html''"
      unfolding safe_path_def using safe_seg_index
      by (intro exI [of _ "[''index.html'']"]) simp
    with 1 show ?thesis by (simp add: TrimSuffix_def HasSuffix_def)
  next
    case 2
    then have safe: "safe_path normalized" by (blast intro: NormalizePath_safe)
    then have "\<not> suffix ''/'' normalized"
      by (rule safe_path_no_trailing_slash)
    with 2 safe safe_path_append [OF safe safe_seg_index] show ?thesis
      by (simp add: TrimSuffix_def HasSuffix_def)
  qed
  then show "safe_path entry" "entry = TrimSuffix route ''/'' @ ''/index.html''" by blast+
qed

text \<open>
  The path stages agree: a path that \<open>NormalizePath\<close> accepts and an entry that \<open>MapSlug\<close> maps
  are always accepted by \<open>StorageKey\<close>, so no harvested file fails at upload for its path; the entry
  is the route's \<open>index.html\<close>; and the two functions fail only with their own non-retryable codes.
\<close>

theorem paths_agree:
  "(NormalizePath raw = Inr p \<longrightarrow> StorageKey base p = Inr (base @ p))
   \<and> (MapSlug slug = Inr (entry, route) \<longrightarrow>
        StorageKey base entry = Inr (base @ entry) \<and> entry = TrimSuffix route ''/'' @ ''/index.html'')
   \<and> (NormalizePath raw = Inl e \<longrightarrow>
        Code (From (Some e) st) = ErrorCodePathTraversalDetected \<and> \<not> Error_Retryable (From (Some e) st))
   \<and> (MapSlug slug = Inl e' \<longrightarrow>
        Code (From (Some e') st) = ErrorCodeInvalidSlug \<and> \<not> Error_Retryable (From (Some e') st))"
proof (intro conjI impI; (elim conjE)?)
  show "StorageKey base p = Inr (base @ p)" if "NormalizePath raw = Inr p"
    using that by (intro StorageKey_safe NormalizePath_safe)
  show "StorageKey base entry = Inr (base @ entry)" if "MapSlug slug = Inr (entry, route)"
    using that by (intro StorageKey_safe MapSlug_Inr)
  show "entry = TrimSuffix route ''/'' @ ''/index.html''" if "MapSlug slug = Inr (entry, route)"
    using that by (rule MapSlug_Inr)
next
  assume "NormalizePath raw = Inl e"
  then obtain m where "e = path_violation FailedStageHarvestDependencies m"
    by (auto simp: NormalizePath_def Let_def split: option.splits if_splits)
  then show "Code (From (Some e) st) = ErrorCodePathTraversalDetected" "\<not> Error_Retryable (From (Some e) st)"
    by (simp_all add: path_violation_def errclass_New_def Error_Retryable_def Retryable_def retryable_def)
next
  assume "MapSlug slug = Inl e'"
  then obtain g where "e' = as_error (errclass_New ErrorCodeInvalidSlug FailedStageHarvestDependencies g)"
    by (auto simp: MapSlug_def Let_def split: if_splits sum.splits)
  then show "Code (From (Some e') st) = ErrorCodeInvalidSlug" "\<not> Error_Retryable (From (Some e') st)"
    by (simp_all add: errclass_New_def Error_Retryable_def Retryable_def retryable_def)
qed

theorem paths_agree_witness:
  "MapSlug '' blog/hello '' = Inr (''/blog/hello/index.html'', ''/blog/hello'') \<and>
   StorageKey ''b'' ''/blog/hello/index.html'' = Inr ''b/blog/hello/index.html'' \<and>
   (\<exists>e. MapSlug ''a/%2e%2e/b'' = Inl e \<and>
        Code (From (Some e) FailedStageRenderHtml) = ErrorCodeInvalidSlug)"
proof -
  have h: "MapSlug '' blog/hello '' = Inr (''/blog/hello/index.html'', ''/blog/hello'')"
    by code_simp
  have "isl (MapSlug ''a/%2e%2e/b'')"
    by code_simp
  then obtain e where e: "MapSlug ''a/%2e%2e/b'' = Inl e"
    by (auto simp: isl_def)
  have "StorageKey ''b'' ''/blog/hello/index.html'' = Inr (''b'' @ ''/blog/hello/index.html'')"
    using h paths_agree [where base = "''b''" and slug = "'' blog/hello ''"
        and entry = "''/blog/hello/index.html''" and route = "''/blog/hello''"] by blast
  moreover have "Code (From (Some e) FailedStageRenderHtml) = ErrorCodeInvalidSlug"
    using e paths_agree [where slug = "''a/%2e%2e/b''" and e' = e] by blast
  ultimately show ?thesis using h e by simp
qed

end
