(* ===== verification/Go_Path.thy ===== *)
theory Go_Path
  imports Paths
begin

text \<open>
  Package \<open>path\<close> and the case and field functions of package \<open>strings\<close>, as far as the harvester calls them.
\<close>

section \<open>Package path\<close>

text \<open>
  \<open>path.Clean\<close>, segment by segment, with the segments kept so far, innermost first: a dot-dot removes a segment, is
  dropped at the root and is kept at the front of a relative path.
\<close>

fun clean_segs :: "bool \<Rightarrow> string list \<Rightarrow> string list \<Rightarrow> string list" where
  "clean_segs rooted st [] = rev st"
| "clean_segs rooted st (seg # segs) =
     (if seg = [] \<or> seg = ''.'' then clean_segs rooted st segs
      else if seg = ''..'' then
        (if st \<noteq> [] \<and> hd st \<noteq> ''..'' then clean_segs rooted (tl st) segs
         else if rooted then clean_segs rooted st segs
         else clean_segs rooted (''..'' # st) segs)
      else clean_segs rooted (seg # st) segs)"

definition path_Clean :: "string \<Rightarrow> string" where
  "path_Clean p =
     (let rooted = HasPrefix p ''/''; segs = clean_segs rooted [] (Split p CHR ''/'');
          out = (if rooted then ''/'' else []) @ Join segs ''/''
      in if out = [] then ''.'' else out)"

text \<open>\<open>path.Join\<close> of two elements and \<open>path.Dir\<close>.\<close>

definition path_Join :: "string \<Rightarrow> string \<Rightarrow> string" where
  "path_Join a b = (if a = [] \<and> b = [] then [] else path_Clean (if a = [] then b else a @ ''/'' @ b))"

definition path_Dir :: "string \<Rightarrow> string" where
  "path_Dir p = path_Clean (rev (dropWhile (\<lambda>c. c \<noteq> CHR ''/'') (rev p)))"

section \<open>Package strings\<close>

definition lower_char :: "char \<Rightarrow> char" where
  "lower_char c = (if is_upper c then char_of ((of_char c :: nat) + 32) else c)"

definition is_ascii :: "char \<Rightarrow> bool" where
  "is_ascii c = ((of_char c :: nat) < 128)"

text \<open>
  \<open>strings.ToLower\<close>: on ASCII it maps the letters; the case mapping of other strings is the parameter. \<open>strings.EqualFold\<close> is
  only used where one side is ASCII without the letters k and s, the only ones with a case variant outside ASCII.
\<close>

definition ToLower :: "(string \<Rightarrow> string) \<Rightarrow> string \<Rightarrow> string" where
  "ToLower unicode_lower s = (if list_all is_ascii s then map lower_char s else unicode_lower s)"

definition EqualFold :: "string \<Rightarrow> string \<Rightarrow> bool" where
  "EqualFold s t = (map lower_char s = map lower_char t)"

text \<open>The first element of \<open>strings.Fields\<close> of a string that does not start with white space.\<close>

fun first_field :: "string \<Rightarrow> string" where
  "first_field [] = []"
| "first_field (c # s) = (if list_ex (\<lambda>e. prefix e (c # s)) space_encodings then [] else c # first_field s)"

section \<open>Facts\<close>

text \<open>On a rooted path, cleaning is the resolution of dot segments.\<close>

lemma clean_segs_rooted:
  "''..'' \<notin> set st \<Longrightarrow> clean_segs True st segs = resolve_from st segs"
proof (induction segs arbitrary: st)
  case (Cons seg segs)
  then show ?case by (cases st) auto
qed simp

lemma path_Clean_rooted: "path_Clean (CHR ''/'' # p) = CHR ''/'' # Join (resolve p) ''/''"
  by (simp add: path_Clean_def Let_def clean_segs_rooted resolve_def)

lemma in_tl: "x \<in> set (tl xs) \<Longrightarrow> x \<in> set xs"
  by (cases xs) auto

lemma resolve_from_segs:
  "seg \<in> set (resolve_from dir segs) \<Longrightarrow>
   seg \<in> set dir \<or> seg \<in> set segs \<and> \<not> dot_or_empty seg"
  by (induction dir segs rule: resolve_from.induct) (auto simp: dot_or_empty_def split: if_splits dest: in_tl)

lemma resolve_seg: "seg \<in> set (resolve p) \<Longrightarrow> \<not> dot_or_empty seg \<and> CHR ''/'' \<notin> set seg"
  unfolding resolve_def by (auto dest!: resolve_from_segs dest: Split_no_sep)

lemma path_Join_rooted:
  assumes "HasPrefix a ''/''"
  shows "HasPrefix (path_Join a b) ''/''"
proof -
  obtain t where "a = CHR ''/'' # t" using assms by (cases a) auto
  then show ?thesis by (simp add: path_Join_def path_Clean_rooted)
qed

lemma path_Dir_rooted:
  assumes "HasPrefix p ''/''"
  shows "HasPrefix (path_Dir p) ''/''"
proof -
  obtain t where p: "p = CHR ''/'' # t" using assms by (cases p) auto
  have "suffix [CHR ''/''] (dropWhile (\<lambda>c. c \<noteq> CHR ''/'') (rev t @ [CHR ''/'']))"
    by (induction "rev t") (auto simp: dropWhile_append suffix_def split: if_splits)
  then obtain u where "dropWhile (\<lambda>c. c \<noteq> CHR ''/'') (rev p) = u @ [CHR ''/'']"
    by (auto simp: suffix_def p)
  then show ?thesis by (simp add: path_Dir_def path_Clean_rooted)
qed

end
