(* ===== verification/Harvest.thy ===== *)
theory Harvest
  imports Go_Path "HOL-Library.List_Lexorder" "HOL-Library.Char_ord"
begin

text \<open>
  The dependency harvest, \<open>src/internal/harvest/harvest.go\<close> and \<open>parse.go\<close>: output guards, reference extraction,
  allowlists and the walk over the references of a page.

  The HTML tokenizer, the URL parser and the media type parser are parameters. The walk need not end, since a server can
  invent references for ever: it is a function of fuel, and \<open>harvest_returns\<close> gives the fuel that is enough when the
  total size is bounded.
\<close>

section \<open>Parameters\<close>

text \<open>
  A start or self-closing tag. The tokenizer gives them in document order up to its first error token.
\<close>

record html_tag =
  tag_Data :: string
  tag_Attr :: "(string \<times> string) list"

text \<open>What the code reads of a parsed URL.\<close>

record url =
  u_Scheme :: string
  u_HasUser :: bool
  u_Host :: string
  u_Hostname :: string
  u_Port :: string
  u_Path :: string
  u_EscapedPath :: string
  u_String :: string

record harvest_lib =
  html_tags :: "string \<Rightarrow> html_tag list"
  url_Parse :: "string \<Rightarrow> url option"
  mime_MediaType :: "string \<Rightarrow> string"
  unicode_lower :: "string \<Rightarrow> string"

section \<open>parse.go\<close>

text \<open>The closure \<open>add\<close>: references are trimmed, and empty and repeated ones dropped.\<close>

definition add_ref :: "string list \<Rightarrow> string \<Rightarrow> string list" where
  "add_ref refs r = (let r = TrimSpace r in if r = [] \<or> r \<in> set refs then refs else refs @ [r])"

definition ParseSrcset :: "string \<Rightarrow> string list" where
  "ParseSrcset srcset =
     concat (map (\<lambda>candidate. let t = TrimSpace candidate in if t = [] then [] else [first_field t])
       (Split srcset CHR '',''))"

text \<open>The references of one tag; of repeated attributes the last counts, an absent one is empty.\<close>

definition tag_refs :: "harvest_lib \<Rightarrow> html_tag \<Rightarrow> string list" where
  "tag_refs lib tag =
     (let attrs = (\<lambda>k. case map_of (rev (map (\<lambda>(key, val). (ToLower (unicode_lower lib) key, val)) (tag_Attr tag))) k of
            Some v \<Rightarrow> v | None \<Rightarrow> [])
      in if tag_Data tag = ''link'' then [attrs ''href'']
         else if tag_Data tag = ''script'' then [attrs ''src'']
         else if tag_Data tag = ''img'' \<or> tag_Data tag = ''source'' then attrs ''src'' # ParseSrcset (attrs ''srcset'')
         else if tag_Data tag = ''meta'' then
           (if EqualFold (attrs ''property'') ''og:image'' \<or> EqualFold (attrs ''name'') ''twitter:image''
            then [attrs ''content''] else [])
         else [])"

definition ExtractHTMLRefs :: "harvest_lib \<Rightarrow> string \<Rightarrow> string list" where
  "ExtractHTMLRefs lib body = foldl add_ref [] (concat (map (tag_refs lib) (html_tags lib body)))"

text \<open>
  The regular expression of \<open>cssURLRe\<close>. White space is \<open>\s\<close>; the three alternatives start with different characters
  and each stops at a character it cannot contain, so there is one way to match.
\<close>

definition css_space :: "char \<Rightarrow> bool" where
  "css_space c = (c \<in> {CHR 0x09, CHR 0x0A, CHR 0x0C, CHR 0x0D, CHR 0x20})"

definition css_bare :: "char \<Rightarrow> bool" where
  "css_bare c = (c \<notin> {CHR 0x27, CHR 0x22, CHR '')''} \<and> \<not> css_space c)"

definition css_close :: "string \<Rightarrow> string \<Rightarrow> (string \<times> string) option" where
  "css_close body s =
     (case dropWhile css_space s of [] \<Rightarrow> None | c # rest \<Rightarrow> if c = CHR '')'' then Some (body, rest) else None)"

definition css_match :: "string \<Rightarrow> (string \<times> string) option" where
  "css_match s =
     (if \<not> prefix ''url('' s then None
      else
        let t = dropWhile css_space (drop 4 s) in
        (case t of
           [] \<Rightarrow> None
         | q # u \<Rightarrow>
             if q = CHR 0x27 \<or> q = CHR 0x22 then
               (case dropWhile (\<lambda>c. c \<noteq> q) u of
                  [] \<Rightarrow> None
                | _ # v \<Rightarrow> css_close (takeWhile (\<lambda>c. c \<noteq> q) u) v)
             else if css_bare q then css_close (takeWhile css_bare t) (dropWhile css_bare t)
             else None))"

text \<open>\<open>FindAllSubmatch\<close>: the leftmost match, then on from its end.\<close>

lemma css_close_shorter: "css_close body s = Some (b, rest) \<Longrightarrow> length rest < length s"
  using length_dropWhile_le [of css_space s] by (auto simp: css_close_def split: list.splits if_splits)

lemma css_match_shorter:
  assumes "css_match s = Some (body, rest)"
  shows "length rest < length s"
proof -
  let ?t = "dropWhile css_space (drop 4 s)"
  from assms have s: "prefix ''url('' s" by (simp add: css_match_def split: if_splits)
  then have "length ?t < length s"
    using length_dropWhile_le [of css_space "drop 4 s"] by (auto simp: prefix_def)
  moreover have "length rest \<le> length ?t"
  proof (cases ?t)
    case (Cons q u)
    note tail = length_dropWhile_le [of "\<lambda>c. c \<noteq> q" u] length_dropWhile_le [of css_bare "q # u"]
    show ?thesis
    proof (cases "q = CHR 0x27 \<or> q = CHR 0x22")
      case True
      with assms s Cons obtain c v where "dropWhile (\<lambda>c. c \<noteq> q) u = c # v" "css_close (takeWhile (\<lambda>c. c \<noteq> q) u) v = Some (body, rest)"
        by (auto simp: css_match_def split: list.splits)
      with tail Cons css_close_shorter [OF this(2)] show ?thesis by simp
    next
      case False
      with assms s Cons have "css_close (takeWhile css_bare (q # u)) (dropWhile css_bare (q # u)) = Some (body, rest)"
        by (simp add: css_match_def Let_def split: if_splits)
      with tail Cons css_close_shorter [OF this] show ?thesis by simp
    qed
  qed (use assms s in \<open>simp add: css_match_def del: dropWhile_eq_Nil_conv\<close>)
  ultimately show ?thesis by simp
qed

function css_find :: "string \<Rightarrow> string list" where
  "css_find [] = []"
| "css_find (c # s) =
     (case css_match (c # s) of
        Some (body, rest) \<Rightarrow> body # css_find rest
      | None \<Rightarrow> css_find s)"
  by pat_completeness auto
termination
  by (relation "measure length") (auto dest: css_match_shorter)

definition ExtractCSSURLs :: "string \<Rightarrow> string list" where
  "ExtractCSSURLs css = foldl add_ref [] (css_find css)"

section \<open>Allowlists\<close>

definition DefaultMaxExternalBytes :: int where
  "DefaultMaxExternalBytes = 10 * 2 ^ 20"

fun Allows :: "string list \<Rightarrow> string \<Rightarrow> bool" where
  "Allows [] p = False"
| "Allows (entry # a) p =
     (case CutSuffix entry ''/*'' of
        (pre, ok) \<Rightarrow>
          if ok then (if HasPrefix p (pre @ ''/'') then True else Allows a p)
          else if p = entry then True else Allows a p)"

definition pathWithinPrefix :: "string \<Rightarrow> string \<Rightarrow> bool" where
  "pathWithinPrefix p pre =
     (let p = path_Clean (''/'' @ TrimPrefix p ''/'');
          pre = TrimSuffix (path_Clean (''/'' @ TrimPrefix pre ''/'')) ''/''
      in if pre = [] \<or> pre = ''/'' then True else p = pre \<or> HasPrefix p (pre @ ''/''))"

fun allows_url_entries :: "harvest_lib \<Rightarrow> string list \<Rightarrow> url \<Rightarrow> bool" where
  "allows_url_entries lib [] u = False"
| "allows_url_entries lib (entry # a) u =
     (let host = ToLower (unicode_lower lib) (u_Hostname u) in
      if \<not> Contains entry ''/'' then
        (if host = ToLower (unicode_lower lib) entry then True else allows_url_entries lib a u)
      else (case url_Parse lib entry of
              None \<Rightarrow> allows_url_entries lib a u
            | Some eu \<Rightarrow>
                if u_Host eu = [] then allows_url_entries lib a u
                else if \<not> EqualFold (u_Scheme u) (u_Scheme eu) \<or>
                        host \<noteq> ToLower (unicode_lower lib) (u_Hostname eu) \<or> u_Port u \<noteq> u_Port eu
                then allows_url_entries lib a u
                else if pathWithinPrefix (u_EscapedPath u) (u_EscapedPath eu) then True
                else allows_url_entries lib a u))"

definition AllowsURL :: "harvest_lib \<Rightarrow> string list \<Rightarrow> url \<Rightarrow> bool" where
  "AllowsURL lib a u = (if u_HasUser u then False else allows_url_entries lib a u)"

section \<open>The walk\<close>

record asset =
  as_Path :: string
  as_Body :: string
  as_MimeType :: string

record hfile =
  hf_Path :: string
  hf_Body :: string
  hf_MimeType :: string

record 'w harvester =
  hv_Fetch :: "string \<Rightarrow> ('w, gerr + asset) state"
  hv_FetchExternal :: "(string \<Rightarrow> int \<Rightarrow> ('w, gerr + asset) state) option"
  hv_Allow :: "string list"
  hv_External :: "string list"
  hv_MaxExternalBytes :: int
  hv_MaxTotalBytes :: int
  hv_lib :: harvest_lib

record href =
  ref_raw :: string
  ref_baseDir :: string

definition harvest_error :: "error_code \<Rightarrow> string \<Rightarrow> gerr" where
  "harvest_error code msg = as_error (errclass_New code FailedStageHarvestDependencies (Some (TextE msg)))"

definition GuardHTML :: "string \<Rightarrow> gerr option" where
  "GuardHTML body =
     (if Contains body ''asset://'' then Some (harvest_error ErrorCodeUnresolvedAssetRef ''residual asset:// references'')
      else if Contains body ''/_next/image''
      then Some (harvest_error ErrorCodeUnsupportedDynamicImageOptimizer ''dynamic image optimizer'')
      else None)"

definition GuardCSS :: "string \<Rightarrow> gerr option" where
  "GuardCSS body =
     (if Contains body ''asset://'' then Some (harvest_error ErrorCodeUnresolvedAssetRef ''residual asset:// references'')
      else None)"

definition isCSS :: "harvest_lib \<Rightarrow> string \<Rightarrow> string \<Rightarrow> bool" where
  "isCSS lib p mimeType = (mime_MediaType lib mimeType = ''text/css'' \<or> HasSuffix p ''.css'')"

text \<open>The new files, the new references and the visited paths.\<close>

definition harvestSameOrigin :: "'w harvester \<Rightarrow> string \<Rightarrow> string list
    \<Rightarrow> ('w, gerr + hfile list \<times> href list \<times> string list) state" where
  "harvestSameOrigin h raw visited =
     (let trimmed = takeWhile (\<lambda>c. c \<noteq> CHR ''?'' \<and> c \<noteq> CHR ''#'') raw in
      if HasPrefix trimmed ''/_next/image''
      then ret (Inl (harvest_error ErrorCodeUnsupportedDynamicImageOptimizer ''dynamic image optimizer''))
      else (case NormalizePath trimmed of
              Inl err \<Rightarrow> ret (Inl err)
            | Inr normalized \<Rightarrow>
                if \<not> Allows (hv_Allow h) normalized then ret (Inr ([], [], visited))
                else if normalized \<in> set visited then ret (Inr ([], [], visited))
                else do {
                  asset \<leftarrow> hv_Fetch h normalized;
                  ret (case asset of
                         Inl err \<Rightarrow> Inl err
                       | Inr asset \<Rightarrow>
                           let file = \<lparr>hf_Path = normalized, hf_Body = as_Body asset, hf_MimeType = as_MimeType asset\<rparr> in
                           if isCSS (hv_lib h) normalized (as_MimeType asset) then
                             (case GuardCSS (as_Body asset) of
                                Some err \<Rightarrow> Inl err
                              | None \<Rightarrow> Inr ([file],
                                  map (\<lambda>cssRef. \<lparr>ref_raw = cssRef, ref_baseDir = path_Dir normalized\<rparr>) (ExtractCSSURLs (as_Body asset)),
                                  normalized # visited))
                           else Inr ([file], [], normalized # visited))
                }))"

definition harvestExternal :: "'w harvester \<Rightarrow> string \<Rightarrow> int \<Rightarrow> ('w, gerr + hfile option) state" where
  "harvestExternal h raw limit =
     (let withScheme = (if HasPrefix raw ''//'' then ''https:'' @ raw else raw) in
      case url_Parse (hv_lib h) withScheme of
        None \<Rightarrow> ret (Inr None)
      | Some u \<Rightarrow>
          if u_Host u = [] then ret (Inr None)
          else if \<not> AllowsURL (hv_lib h) (hv_External h) u then ret (Inr None)
          else (case hv_FetchExternal h of
                  None \<Rightarrow> ret (Inr None)
                | Some fetch \<Rightarrow> do {
                    asset \<leftarrow> fetch (u_String u) limit;
                    ret (case asset of
                           Inl err \<Rightarrow> Inl err
                         | Inr asset \<Rightarrow>
                             (case NormalizePath (u_Path u) of
                                Inl err \<Rightarrow> Inl err
                              | Inr normalized \<Rightarrow>
                                  Inr (Some \<lparr>hf_Path = normalized, hf_Body = as_Body asset, hf_MimeType = as_MimeType asset\<rparr>)))
                  }))"

text \<open>The variables of the loop of \<open>Run\<close>.\<close>

record walk =
  wk_queue :: "href list"
  wk_visited :: "string list"
  wk_files :: "hfile list"
  wk_totalBytes :: int

definition appendFile :: "'w harvester \<Rightarrow> walk \<Rightarrow> hfile \<Rightarrow> gerr + walk" where
  "appendFile h st f =
     (let st = st\<lparr>wk_files := wk_files st @ [f], wk_totalBytes := wk_totalBytes st + int (length (hf_Body f))\<rparr> in
      if hv_MaxTotalBytes h > 0 \<and> wk_totalBytes st > hv_MaxTotalBytes h
      then Inl (harvest_error ErrorCodeValidationFailed ''harvested bundle exceeds MAX_TOTAL_ARTIFACT_BYTES'')
      else Inr st)"

fun appendFiles :: "'w harvester \<Rightarrow> walk \<Rightarrow> hfile list \<Rightarrow> gerr + walk" where
  "appendFiles h st [] = Inr st"
| "appendFiles h st (f # fs) = (case appendFile h st f of Inl err \<Rightarrow> Inl err | Inr st \<Rightarrow> appendFiles h st fs)"

definition skipped_prefixes :: "string list" where
  "skipped_prefixes = [''data:'', ''blob:'', ''mailto:'', ''javascript:'', ''#'', ''about:'']"

text \<open>The body of the loop, for the reference that was taken off the queue.\<close>

definition visit :: "'w harvester \<Rightarrow> int \<Rightarrow> href \<Rightarrow> walk \<Rightarrow> ('w, gerr + walk) state" where
  "visit h maxExternal current st =
     (let raw = TrimSpace (ref_raw current) in
      if raw = [] then ret (Inr st)
      else if list_ex (HasPrefix raw) skipped_prefixes then ret (Inr st)
      else if HasPrefix raw ''asset://''
      then ret (Inl (harvest_error ErrorCodeUnresolvedAssetRef ''residual asset reference''))
      else if HasPrefix raw ''http://'' \<or> HasPrefix raw ''https://'' \<or> HasPrefix raw ''//'' then do {
        file \<leftarrow> harvestExternal h raw maxExternal;
        ret (case file of
               Inl err \<Rightarrow> Inl err
             | Inr None \<Rightarrow> Inr st
             | Inr (Some file) \<Rightarrow>
                 if hf_Path file \<in> set (wk_visited st) then Inr st
                 else appendFile h (st\<lparr>wk_visited := hf_Path file # wk_visited st\<rparr>) file)
      }
      else if HasPrefix raw ''/'' then do {
        r \<leftarrow> harvestSameOrigin h raw (wk_visited st);
        ret (case r of
               Inl err \<Rightarrow> Inl err
             | Inr (newFiles, newRefs, visited) \<Rightarrow>
                 (case appendFiles h (st\<lparr>wk_visited := visited\<rparr>) newFiles of
                    Inl err \<Rightarrow> Inl err
                  | Inr st \<Rightarrow> Inr (st\<lparr>wk_queue := wk_queue st @ newRefs\<rparr>)))
      }
      else if ref_baseDir current \<noteq> []
      then ret (Inr (st\<lparr>wk_queue := wk_queue st @ [\<lparr>ref_raw = path_Join (ref_baseDir current) raw, ref_baseDir = []\<rparr>]\<rparr>))
      else ret (Inr st))"

fun walk_loop :: "'w harvester \<Rightarrow> int \<Rightarrow> nat \<Rightarrow> walk \<Rightarrow> ('w, (gerr + walk) option) state" where
  "walk_loop h maxExternal fuel st =
     (case wk_queue st of
        [] \<Rightarrow> ret (Some (Inr st))
      | current # queue \<Rightarrow>
          (case fuel of
             0 \<Rightarrow> ret None
           | Suc n \<Rightarrow> do {
               r \<leftarrow> visit h maxExternal current (st\<lparr>wk_queue := queue\<rparr>);
               case r of
                 Inl err \<Rightarrow> ret (Some (Inl err))
               | Inr st \<Rightarrow> walk_loop h maxExternal n st
             }))"

declare walk_loop.simps [simp del]

definition harvest_start :: "'w harvester \<Rightarrow> string \<Rightarrow> walk" where
  "harvest_start h pageHTML =
     \<lparr>wk_queue = map (\<lambda>r. \<lparr>ref_raw = r, ref_baseDir = []\<rparr>) (ExtractHTMLRefs (hv_lib h) pageHTML),
      wk_visited = [], wk_files = [], wk_totalBytes = int (length pageHTML)\<rparr>"

text \<open>\<open>Run\<close>; \<open>None\<close> when the fuel does not suffice.\<close>

definition harvest_Run :: "'w harvester \<Rightarrow> nat \<Rightarrow> string \<Rightarrow> ('w, (gerr + hfile list) option) state" where
  "harvest_Run h fuel pageHTML =
     (case GuardHTML pageHTML of
        Some err \<Rightarrow> ret (Some (Inl err))
      | None \<Rightarrow> do {
          let maxExternal = (if hv_MaxExternalBytes h \<le> 0 then DefaultMaxExternalBytes else hv_MaxExternalBytes h);
          r \<leftarrow> walk_loop h maxExternal fuel (harvest_start h pageHTML);
          ret (case r of
                 None \<Rightarrow> None
               | Some (Inl err) \<Rightarrow> Some (Inl err)
               | Some (Inr st) \<Rightarrow> Some (Inr (sort_key hf_Path (wk_files st))))
        })"

end
