(* ===== verification/Render.thy ===== *)
theory Render
  imports Harvest Emit
begin

text \<open>
  The render-origin client, \<open>src/internal/render/render.go\<close>. The HTTP transport, the trace propagator and the media type
  parser are parameters; the body of a response is a reader that is asked for a number of bytes.
\<close>

section \<open>Data\<close>

definition DefaultMaxHTMLBytes :: int where
  "DefaultMaxHTMLBytes = 10 * 2 ^ 20"

definition DefaultMaxAssetBytes :: int where
  "DefaultMaxAssetBytes = 25 * 2 ^ 20"

record 'w http_response =
  rsp_StatusCode :: int
  rsp_ContentType :: string
  rsp_Body :: "int \<Rightarrow> ('w, gerr + string) state"

text \<open>
  \<open>rd_NewRequest\<close> is the error of \<open>http.NewRequestWithContext\<close> for a URL, \<open>rd_Inject\<close> the headers that the propagator sets for the
  current span.
\<close>

record 'w render_client =
  rd_baseURL :: string
  rd_token :: string
  rd_Do :: "string \<Rightarrow> (string \<times> string) list \<Rightarrow> ('w, gerr + 'w http_response) state"
  rd_MaxHTMLBytes :: int
  rd_MaxAssetBytes :: int
  rd_NewRequest :: "string \<Rightarrow> gerr option"
  rd_Inject :: "('w, (string \<times> string) list) state"
  rd_MediaType :: "string \<Rightarrow> string"
  rd_rand_Read :: "'w rand_reader"

record pin =
  pin_DeploymentID :: string
  pin_PageID :: string
  pin_Version :: string
  pin_TeamID :: string
  pin_SiteID :: string
  pin_Environment :: string
  pin_TraceID :: string

definition PinFromRecord :: "deployment_record \<Rightarrow> string \<Rightarrow> pin" where
  "PinFromRecord rec traceID =
     \<lparr>pin_DeploymentID = rec_DeploymentID rec, pin_PageID = rec_PageID rec, pin_Version = rec_Version rec,
      pin_TeamID = rec_TeamID rec, pin_SiteID = rec_SiteID rec, pin_Environment = rec_Environment rec,
      pin_TraceID = traceID\<rparr>"

section \<open>Requests\<close>

definition escapeSlug :: "string \<Rightarrow> string" where
  "escapeSlug slug = Join (map PathEscape (Split (Trim slug CHR ''/'') CHR ''/'')) ''/''"

text \<open>\<open>hex.DecodeString\<close> accepts a string of even length of hexadecimal digits of either case.\<close>

definition traceparent :: "'w rand_reader \<Rightarrow> string \<Rightarrow> ('w, string) state" where
  "traceparent rand_Read traceID =
     (if length traceID \<noteq> 32 then ret []
      else if \<not> list_all ishex traceID then ret []
      else do {
        span \<leftarrow> rand_Read 8;
        ret (''00-'' @ traceID @ ''-'' @ hex_EncodeToString span @ ''-01'')
      })"

text \<open>The name of the limit is only used in messages.\<close>

definition limitFor :: "'w render_client \<Rightarrow> failed_stage \<Rightarrow> int" where
  "limitFor c stage =
     (if stage = FailedStageHarvestDependencies then
        (if rd_MaxAssetBytes c > 0 then rd_MaxAssetBytes c else DefaultMaxAssetBytes)
      else if rd_MaxHTMLBytes c > 0 then rd_MaxHTMLBytes c else DefaultMaxHTMLBytes)"

definition statusErr :: "int \<Rightarrow> gerr" where
  "statusErr status = TextE (''render-origin returned '' @ FormatInt status)"

definition pin_headers :: "'w render_client \<Rightarrow> string \<Rightarrow> pin \<Rightarrow> (string \<times> string) list" where
  "pin_headers c accept p =
     [(''Accept'', accept),
      (''Authorization'', ''Bearer '' @ rd_token c),
      (''X-AnvilKit-Render-Worker'', ''true''),
      (''X-AnvilKit-Deployment-Id'', pin_DeploymentID p),
      (''X-AnvilKit-Page-Id'', pin_PageID p),
      (''X-AnvilKit-Version'', pin_Version p),
      (''X-AnvilKit-Team-Id'', pin_TeamID p),
      (''X-AnvilKit-Site-Id'', pin_SiteID p),
      (''X-AnvilKit-Environment'', pin_Environment p)]"

text \<open>\<open>io.ReadAll(io.LimitReader(body, n))\<close>.\<close>

definition read_limited :: "'w http_response \<Rightarrow> int \<Rightarrow> ('w, gerr + string) state" where
  "read_limited resp n = do {
     r \<leftarrow> rsp_Body resp n;
     ret (map_sum id (take (nat n)) r)
   }"

text \<open>An error of the transport or of reading the body.\<close>

definition transport_error :: "failed_stage \<Rightarrow> gerr \<Rightarrow> gerr" where
  "transport_error stage err =
     (if errors_Is (Some err) DeadlineExceededE \<or> isTimeout err
      then as_error (errclass_New ErrorCodeRenderOriginTimeout stage (Some err))
      else as_error (errclass_New ErrorCodeRenderOrigin5xx stage (Some err)))"

text \<open>The final switch of \<open>get\<close>, on the status code.\<close>

definition get_response :: "failed_stage \<Rightarrow> int \<Rightarrow> int \<Rightarrow> string \<Rightarrow> string \<Rightarrow> gerr + string \<times> string" where
  "get_response stage limit status contentType body =
     (if 200 \<le> status \<and> status < 300 then
        (if int (length body) > limit
         then Inl (as_error (errclass_New ErrorCodeValidationFailed stage (Some (TextE ''response exceeds the limit''))))
         else Inr (body, contentType))
      else if status = 401 then Inl (as_error (errclass_New ErrorCodeRenderOrigin401 stage (Some (statusErr status))))
      else if status = 403 then Inl (as_error (errclass_New ErrorCodeRenderOrigin403 stage (Some (statusErr status))))
      else if status = 404 then Inl (as_error (errclass_New ErrorCodeRenderOrigin404 stage (Some (statusErr status))))
      else if status = 409 then Inl (as_error (errclass_New ErrorCodeVersionSlugMismatch stage (Some (statusErr status))))
      else if status \<ge> 500 then Inl (as_error (errclass_New ErrorCodeRenderOrigin5xx stage (Some (statusErr status))))
      else Inl (as_error (errclass_New ErrorCodeValidationFailed stage (Some (TextE ''unexpected render-origin status'')))))"

definition render_get :: "'w render_client \<Rightarrow> string \<Rightarrow> string \<Rightarrow> pin \<Rightarrow> ('w, gerr + string \<times> string) state" where
  "render_get c target accept p =
     (let stage = (if accept \<noteq> ''text/html'' then FailedStageHarvestDependencies else FailedStageRenderHtml) in
      case rd_NewRequest c target of
        Some err \<Rightarrow> ret (Inl (as_error (errclass_New ErrorCodeValidationFailed stage (Some err))))
      | None \<Rightarrow> do {
          injected \<leftarrow> rd_Inject c;
          tp \<leftarrow> (if (case map_of injected ''traceparent'' of Some v \<Rightarrow> v | None \<Rightarrow> []) = []
                 then traceparent (rd_rand_Read c) (pin_TraceID p) else ret []);
          resp \<leftarrow> rd_Do c target (pin_headers c accept p @ injected @ (if tp \<noteq> [] then [(''traceparent'', tp)] else []));
          case resp of
            Inl err \<Rightarrow> ret (Inl (transport_error stage err))
          | Inr resp \<Rightarrow> do {
              let limit = limitFor c stage;
              body \<leftarrow> read_limited resp (limit + 1);
              ret (case body of
                     Inl err \<Rightarrow> Inl (transport_error stage err)
                   | Inr body \<Rightarrow> get_response stage limit (rsp_StatusCode resp) (rsp_ContentType resp) body)
            }
        })"

definition FetchPage :: "'w render_client \<Rightarrow> string \<Rightarrow> pin \<Rightarrow> ('w, gerr + string) state" where
  "FetchPage c slug p = do {
     r \<leftarrow> render_get c (rd_baseURL c @ ''/'' @ escapeSlug slug) ''text/html'' p;
     ret (case r of
            Inl err \<Rightarrow> Inl err
          | Inr (body, contentType) \<Rightarrow>
              if rd_MediaType c contentType \<noteq> ''text/html''
              then Inl (as_error (errclass_New ErrorCodeValidationFailed FailedStageRenderHtml
                (Some (TextE ''render-origin returned non-HTML content-type''))))
              else Inr body)
   }"

definition FetchAsset :: "'w render_client \<Rightarrow> string \<Rightarrow> pin \<Rightarrow> ('w, gerr + asset) state" where
  "FetchAsset c path p =
     (if \<not> HasPrefix path ''/''
      then ret (Inl (as_error (errclass_New ErrorCodeValidationFailed FailedStageHarvestDependencies
        (Some (TextE ''asset path must be same-origin absolute'')))))
      else do {
        r \<leftarrow> render_get c (rd_baseURL c @ path) ''*/*'' p;
        ret (case r of
               Inl err \<Rightarrow> Inl err
             | Inr (body, contentType) \<Rightarrow>
                 let mediaType = rd_MediaType c contentType;
                     mediaType = (if mediaType = [] then ''application/octet-stream'' else mediaType)
                 in Inr \<lparr>as_Path = path, as_Body = body, as_MimeType = mediaType\<rparr>)
      })"

section \<open>Facts\<close>

lemma Code_From_as_error [simp]:
  "From (Some (as_error e)) st = e"
  by (simp add: From_def As_Classified_def as_error_def)

text \<open>A decoder of the segments gets back the segments of the slug.\<close>

lemma escapeSlug_segments:
  "map PathUnescape (Split (escapeSlug slug) CHR ''/'') = map Some (Split (Trim slug CHR ''/'') CHR ''/'')"
proof -
  have "Split (escapeSlug slug) CHR ''/'' = map PathEscape (Split (Trim slug CHR ''/'') CHR ''/'')"
    unfolding escapeSlug_def by (rule Split_Join) (auto simp: PathEscape_no_slash)
  then show ?thesis by (simp add: PathUnescape_PathEscape comp_def)
qed

lemma get_response_Inr:
  "get_response stage limit status ct body = Inr (b, ct') \<longleftrightarrow>
     200 \<le> status \<and> status < 300 \<and> int (length body) \<le> limit \<and> b = body \<and> ct' = ct"
  by (auto simp: get_response_def)

lemma get_response_Inl:
  assumes "get_response stage limit status ct body = Inl e"
  shows "Stage (From (Some e) st) = stage" "Error_Retryable (From (Some e) st) \<longleftrightarrow> 500 \<le> status"
    "IsAuthCode (Code (From (Some e) st)) \<longleftrightarrow> status = 401 \<or> status = 403"
  using assms
  by (auto simp: get_response_def errclass_New_def Error_Retryable_def Retryable_def retryable_def IsAuthCode_def authCodes_def
      split: if_splits)

text \<open>
  Every success of the client is a response with a 2xx status whose body is whole and within the limit; every error is
  classified at the stage of the request.
\<close>

lemma limitFor_positive: "0 < limitFor c stage"
  by (simp add: limitFor_def DefaultMaxHTMLBytes_def DefaultMaxAssetBytes_def)

lemma transport_error_From:
  "Stage (From (Some (transport_error stage err)) st) = stage" "Error_Retryable (From (Some (transport_error stage err)) st)"
  by (auto simp: transport_error_def errclass_New_def Error_Retryable_def Retryable_def retryable_def)

lemma render_get_spec:
  "wp (render_get c target accept p) (\<lambda>r w'. case r of
     Inr (body, ct) \<Rightarrow> int (length body) \<le> limitFor c (if accept \<noteq> ''text/html'' then FailedStageHarvestDependencies else FailedStageRenderHtml)
   | Inl e \<Rightarrow> \<forall>st. Stage (From (Some e) st) = (if accept \<noteq> ''text/html'' then FailedStageHarvestDependencies else FailedStageRenderHtml)) w"
proof (cases "rd_NewRequest c target")
  case None
  define stage where "stage = (if accept \<noteq> ''text/html'' then FailedStageHarvestDependencies else FailedStageRenderHtml)"
  show ?thesis
    unfolding render_get_def Let_def None option.case wp_bind stage_def [symmetric]
    by (rule wp_mono [OF wp_True], rule wp_mono [OF wp_True], rule wp_mono [OF wp_True])
      (auto simp: transport_error_From get_response_Inr get_response_Inl split: sum.splits intro!: wp_mono [OF wp_True])
qed (simp add: render_get_def errclass_New_def)

section \<open>Properties\<close>

text \<open>
  Rendered output is classified by the status alone. A response is accepted exactly when its status is 2xx and its body within
  the limit, and then body and content type are passed on unchanged; otherwise the error is classified at the stage of the
  request, is retryable exactly for a status of 500 or more, and is an authentication failure exactly for 401 and
  403.
\<close>

theorem render_classification:
  "(get_response stage limit status ct body = Inr (b, ct') \<longleftrightarrow>
      200 \<le> status \<and> status < 300 \<and> int (length body) \<le> limit \<and> b = body \<and> ct' = ct) \<and>
   (get_response stage limit status ct body = Inl e \<longrightarrow>
      Stage (From (Some e) st) = stage \<and> (Error_Retryable (From (Some e) st) \<longleftrightarrow> 500 \<le> status) \<and>
      (IsAuthCode (Code (From (Some e) st)) \<longleftrightarrow> status = 401 \<or> status = 403))"
  by (intro conjI impI get_response_Inr) (simp_all add: get_response_Inl)

theorem render_classification_witness:
  "Error_Retryable (From (Some (ClassifiedE ErrorCodeRenderOrigin5xx FailedStageRenderHtml (Some (statusErr 503)))) FailedStageConsumeJob)"
proof -
  have "get_response FailedStageRenderHtml 10 503 [] [] =
      Inl (ClassifiedE ErrorCodeRenderOrigin5xx FailedStageRenderHtml (Some (statusErr 503)))"
    by (simp add: get_response_def as_error_def errclass_New_def)
  with render_classification [of FailedStageRenderHtml 10 503 "[]" "[]" _ _ _ FailedStageConsumeJob] show ?thesis by auto
qed

text \<open>
  C37. Every slug survives the request path. The segments of the request path, decoded one by one, are the segments of the slug
  without its outer slashes: no character of a slug can end its segment, start a query or be lost.
\<close>

theorem escapeSlug_roundtrip:
  "map PathUnescape (Split (escapeSlug slug) CHR ''/'') = map Some (Split (Trim slug CHR ''/'') CHR ''/'')"
  by (rule escapeSlug_segments)

end
