(* ===== verification/Storage.thy ===== *)
theory Storage
  imports Emit
begin

text \<open>
  Object storage, \<open>src/internal/storage/storage.go\<close>. The S3 client library is a record of effectful
  operations; the locale \<open>s3_env\<close> states what the adapter relies on of it.

  \<open>UploadAll\<close> is a pool of goroutines that a feeding loop hands objects to. Its interleavings are the
  parameter \<open>schedule\<close>: which of feeding, finishing, expiry of the caller's context and leaving the feeding loop comes next.
\<close>

section \<open>Operations\<close>

definition MetaContentSHA256 :: string where
  "MetaContentSHA256 = ''content-sha256''"

definition PartSize :: int where
  "PartSize = 16 * 2 ^ 20"

text \<open>\<open>textproto.CanonicalMIMEHeaderKey\<close> of that key.\<close>

definition canonical_MetaContentSHA256 :: string where
  "canonical_MetaContentSHA256 = ''Content-Sha256''"

text \<open>\<open>sha256_Sum256\<close> is the hash function, a parameter.\<close>

definition SHA256Hex :: "(string \<Rightarrow> string) \<Rightarrow> string \<Rightarrow> string" where
  "SHA256Hex sha256_Sum256 body = hex_EncodeToString (sha256_Sum256 body)"

record s3_object =
  obj_Key :: string
  obj_Body :: string
  obj_ContentType :: string
  obj_CacheControl :: string
  obj_SHA256Hex :: string

text \<open>What \<open>StatObject\<close> reports, as far as the adapter reads it: the user metadata.\<close>

record object_info =
  UserMetadata :: "(string \<times> string) list"

record put_options =
  put_ContentType :: string
  put_CacheControl :: string
  put_UserMetadata :: "(string \<times> string) list"
  put_PartSize :: int

text \<open>\<open>GetObject\<close> returns a handle; reading it is an effect of its own.\<close>

record 'w s3_client =
  BucketExists :: "string \<Rightarrow> ('w, gerr + bool) state"
  StatObject :: "string \<Rightarrow> string \<Rightarrow> ('w, gerr + object_info) state"
  PutObject :: "string \<Rightarrow> string \<Rightarrow> string \<Rightarrow> put_options \<Rightarrow> ('w, gerr option) state"
  GetObject :: "string \<Rightarrow> string \<Rightarrow> ('w, gerr + ('w, gerr + string) state) state"

record 'w s3_store =
  s3_client :: "'w s3_client"
  s3_bucket :: string

text \<open>
  \<open>NewS3\<close>: the URL parser (the host and the scheme of a URL that parses) and the constructor of the client are
  parameters.
\<close>

definition NewS3 :: "(string \<Rightarrow> (string \<times> string) option) \<Rightarrow> (string \<Rightarrow> bool \<Rightarrow> string \<Rightarrow> string \<Rightarrow> string \<Rightarrow> gerr + 'w s3_client)
    \<Rightarrow> string \<Rightarrow> string \<Rightarrow> string \<Rightarrow> string \<Rightarrow> string \<Rightarrow> gerr + 'w s3_store" where
  "NewS3 url_Parse minio_New endpointURL region accessKey secretKey bucket =
     (case url_Parse endpointURL of
        None \<Rightarrow> Inl (TextE ''S3_ENDPOINT is not a valid URL'')
      | Some (host, scheme) \<Rightarrow>
          if host = [] then Inl (TextE ''S3_ENDPOINT is not a valid URL'')
          else (case minio_New host (scheme = ''https'') accessKey secretKey region of
                  Inl err \<Rightarrow> Inl (WrapE err)
                | Inr client \<Rightarrow> Inr \<lparr>s3_client = client, s3_bucket = bucket\<rparr>))"

definition EnsureBucket :: "'w s3_store \<Rightarrow> ('w, gerr option) state" where
  "EnsureBucket s = do {
     ok \<leftarrow> BucketExists (s3_client s) (s3_bucket s);
     ret (case ok of
            Inl err \<Rightarrow> Some (WrapE err)
          | Inr ok \<Rightarrow> if \<not> ok then Some (TextE ''artifact bucket does not exist'') else None)
   }"

fun minio_status :: "gerr \<Rightarrow> int option" where
  "minio_status (StorageE status) = Some status"
| "minio_status _ = None"

definition classifyStorage :: "gerr \<Rightarrow> gerr" where
  "classifyStorage err =
     (let wrapped = WrapE err in
      if errors_Is (Some err) DeadlineExceededE
      then as_error (errclass_New ErrorCodeStorageTimeout FailedStageUploadArtifacts (Some wrapped))
      else if isTimeout err
      then as_error (errclass_New ErrorCodeStorageTimeout FailedStageUploadArtifacts (Some wrapped))
      else case errors_As minio_status (Some err) of
             Some status \<Rightarrow>
               if 400 \<le> status \<and> status < 500
               then as_error (errclass_New ErrorCodeValidationFailed FailedStageUploadArtifacts (Some wrapped))
               else as_error (errclass_New ErrorCodeStorage5xx FailedStageUploadArtifacts (Some wrapped))
           | None \<Rightarrow> as_error (errclass_New ErrorCodeStorage5xx FailedStageUploadArtifacts (Some wrapped)))"

definition existingHash :: "object_info \<Rightarrow> string" where
  "existingHash stat =
     (case map_of (UserMetadata stat) canonical_MetaContentSHA256 of
        Some v \<Rightarrow> v
      | None \<Rightarrow> (case map_of (UserMetadata stat) MetaContentSHA256 of Some v \<Rightarrow> v | None \<Rightarrow> []))"

text \<open>The upload itself, from \<open>PutObject\<close> on.\<close>

definition put_object :: "'w s3_store \<Rightarrow> s3_object \<Rightarrow> ('w, gerr + bool) state" where
  "put_object s obj = do {
     err \<leftarrow> PutObject (s3_client s) (s3_bucket s) (obj_Key obj) (obj_Body obj)
       \<lparr>put_ContentType = obj_ContentType obj, put_CacheControl = obj_CacheControl obj,
        put_UserMetadata = [(MetaContentSHA256, obj_SHA256Hex obj)], put_PartSize = PartSize\<rparr>;
     ret (case err of Some e \<Rightarrow> Inl (classifyStorage e) | None \<Rightarrow> Inr False)
   }"

definition EnsureUploaded :: "'w s3_store \<Rightarrow> s3_object \<Rightarrow> ('w, gerr + bool) state" where
  "EnsureUploaded s obj = do {
     stat \<leftarrow> StatObject (s3_client s) (s3_bucket s) (obj_Key obj);
     case stat of
       Inr stat \<Rightarrow> if existingHash stat = obj_SHA256Hex obj then ret (Inr True) else put_object s obj
     | Inl statErr \<Rightarrow>
         (case errors_As minio_status (Some statErr) of
            Some status \<Rightarrow> if status \<noteq> 404 then ret (Inl (classifyStorage statErr)) else put_object s obj
          | None \<Rightarrow> ret (Inl (classifyStorage statErr)))
   }"

definition FetchIfExists :: "'w s3_store \<Rightarrow> string \<Rightarrow> ('w, gerr + (string \<times> bool)) state" where
  "FetchIfExists s key = do {
     obj \<leftarrow> GetObject (s3_client s) (s3_bucket s) key;
     case obj of
       Inl err \<Rightarrow> ret (Inl (classifyStorage err))
     | Inr obj \<Rightarrow> do {
         buf \<leftarrow> obj;
         ret (case buf of
                Inl err \<Rightarrow> if errors_As minio_status (Some err) = Some 404 then Inr ([], False) else Inl (classifyStorage err)
              | Inr bytes \<Rightarrow> Inr (bytes, True))
       }
   }"

definition s3_Fetch :: "'w s3_store \<Rightarrow> string \<Rightarrow> ('w, gerr + string) state" where
  "s3_Fetch s key = do {
     obj \<leftarrow> GetObject (s3_client s) (s3_bucket s) key;
     case obj of
       Inl err \<Rightarrow> ret (Inl (classifyStorage err))
     | Inr obj \<Rightarrow> do {
         buf \<leftarrow> obj;
         ret (case buf of Inl err \<Rightarrow> Inl (classifyStorage err) | Inr bytes \<Rightarrow> Inr bytes)
       }
   }"

section \<open>The upload pool\<close>

text \<open>
  What can happen next: the feeding loop hands the next object to an idle goroutine; a goroutine finishes the
  \<open>n\<close>-th object in flight; the caller's context expires; the feeding loop sees that the context is done and
  ends. A choice that is not possible does nothing.
\<close>

datatype upload_choice = Feed | Finish nat | Expire | Leave

record upload_pool =
  up_feed :: "s3_object list"  \<comment> \<open>not yet handed over\<close>
  up_work :: "s3_object list"  \<comment> \<open>in flight\<close>
  up_uploaded :: int
  up_skipped :: int
  up_firstErr :: "gerr option"
  up_ctxDone :: bool

definition clamp_concurrency :: "int \<Rightarrow> int" where
  "clamp_concurrency concurrency =
     (let c = (if concurrency < 1 then 8 else concurrency) in if c > 16 then 16 else c)"

text \<open>What a goroutine does with an object, under the mutex.\<close>

definition upload_finish :: "'w s3_store \<Rightarrow> upload_pool \<Rightarrow> nat \<Rightarrow> ('w, upload_pool) state" where
  "upload_finish s p i = do {
     r \<leftarrow> EnsureUploaded s (up_work p ! i);
     let p = p\<lparr>up_work := take i (up_work p) @ drop (Suc i) (up_work p)\<rparr>;
     ret (case r of
            Inl uerr \<Rightarrow> if up_firstErr p = None then p\<lparr>up_firstErr := Some uerr, up_ctxDone := True\<rparr> else p
          | Inr wasSkipped \<Rightarrow>
              if wasSkipped then p\<lparr>up_skipped := up_skipped p + 1\<rparr> else p\<lparr>up_uploaded := up_uploaded p + 1\<rparr>)
   }"

fun upload_step :: "'w s3_store \<Rightarrow> int \<Rightarrow> upload_choice \<Rightarrow> upload_pool \<Rightarrow> ('w, upload_pool) state" where
  "upload_step s c Feed p =
     (case up_feed p of
        [] \<Rightarrow> ret p
      | obj # objs \<Rightarrow>
          ret (if int (length (up_work p)) < c then p\<lparr>up_feed := objs, up_work := up_work p @ [obj]\<rparr> else p))"
| "upload_step s c (Finish i) p = (if i < length (up_work p) then upload_finish s p i else ret p)"
| "upload_step s c Expire p = ret (p\<lparr>up_ctxDone := True\<rparr>)"
| "upload_step s c Leave p = ret (if up_ctxDone p then p\<lparr>up_feed := []\<rparr> else p)"

fun upload_steps :: "'w s3_store \<Rightarrow> int \<Rightarrow> upload_choice list \<Rightarrow> upload_pool \<Rightarrow> ('w, upload_pool) state" where
  "upload_steps s c [] p = ret p"
| "upload_steps s c (ch # chs) p = do { p \<leftarrow> upload_step s c ch p; upload_steps s c chs p }"

text \<open>
  The rest after the schedule, in the order of the objects; \<open>n\<close> bounds the number of steps, two for each object
  that is left and one for each in flight.
\<close>

fun upload_drain :: "'w s3_store \<Rightarrow> int \<Rightarrow> nat \<Rightarrow> upload_pool \<Rightarrow> ('w, upload_pool) state" where
  "upload_drain s c 0 p = ret p"
| "upload_drain s c (Suc n) p =
     (if up_work p \<noteq> [] then do { p \<leftarrow> upload_step s c (Finish 0) p; upload_drain s c n p }
      else if up_feed p \<noteq> [] then do {
        p \<leftarrow> upload_step s c (if up_ctxDone p then Leave else Feed) p;
        upload_drain s c n p
      }
      else ret p)"

definition pool_work :: "upload_pool \<Rightarrow> nat" where
  "pool_work p = 2 * length (up_feed p) + length (up_work p)"

definition UploadAll :: "'w s3_store \<Rightarrow> upload_choice list \<Rightarrow> s3_object list \<Rightarrow> int \<Rightarrow> ('w, int \<times> int \<times> gerr option) state" where
  "UploadAll s schedule objs concurrency = do {
     let c = clamp_concurrency concurrency;
     p \<leftarrow> upload_steps s c schedule
       \<lparr>up_feed = objs, up_work = [], up_uploaded = 0, up_skipped = 0, up_firstErr = None, up_ctxDone = False\<rparr>;
     p \<leftarrow> upload_drain s c (pool_work p) p;
     ret (up_uploaded p, up_skipped p, up_firstErr p)
   }"

section \<open>What the adapter relies on\<close>

text \<open>
  A stored object: its bytes, its headers and its user metadata. The metadata comes back with the hash that was put; an absent object is
  a 404; a put that reports an error may or may not have taken place.
\<close>

record stored =
  st_Body :: string
  st_ContentType :: string
  st_CacheControl :: string
  st_Meta :: "(string \<times> string) list"

definition st_hash :: "stored \<Rightarrow> string" where
  "st_hash st = (case map_of (st_Meta st) MetaContentSHA256 of Some v \<Rightarrow> v | None \<Rightarrow> [])"

text \<open>What a put of these bytes under these options leaves in the bucket, and what the bucket is to hold for an object.\<close>

definition put_result :: "string \<Rightarrow> put_options \<Rightarrow> stored" where
  "put_result body opts =
     \<lparr>st_Body = body, st_ContentType = put_ContentType opts, st_CacheControl = put_CacheControl opts, st_Meta = put_UserMetadata opts\<rparr>"

definition stored_as :: "s3_object \<Rightarrow> stored" where
  "stored_as obj =
     \<lparr>st_Body = obj_Body obj, st_ContentType = obj_ContentType obj, st_CacheControl = obj_CacheControl obj,
      st_Meta = [(MetaContentSHA256, obj_SHA256Hex obj)]\<rparr>"

lemma st_hash_stored_as [simp]: "st_hash (stored_as obj) = obj_SHA256Hex obj"
  by (simp add: st_hash_def stored_as_def)

locale s3_env =
  fixes c :: "'w s3_client" and objects :: "'w \<Rightarrow> string \<Rightarrow> string \<rightharpoonup> stored"
  assumes stat: "wp (StatObject c b k) (\<lambda>r w'. objects w' = objects w \<and>
      (case r of
         Inr info \<Rightarrow> \<exists>st. objects w b k = Some st \<and> existingHash info = st_hash st
       | Inl e \<Rightarrow> errors_As minio_status (Some e) = Some 404 \<longrightarrow> objects w b k = None)) w"
    and put: "wp (PutObject c b k body opts) (\<lambda>r w'.
      objects w' = (objects w)(b := (objects w b)(k \<mapsto> put_result body opts)) \<or>
      r \<noteq> None \<and> objects w' = objects w) w"
    and get: "wp (GetObject c b k) (\<lambda>r w1. objects w1 = objects w \<and>
      (case r of
         Inl e \<Rightarrow> True
       | Inr rd \<Rightarrow> wp rd (\<lambda>r w'. objects w' = objects w \<and>
           (case r of
              Inr bytes \<Rightarrow> \<exists>st. objects w b k = Some st \<and> bytes = st_Body st
            | Inl e \<Rightarrow> errors_As minio_status (Some e) = Some 404 \<longrightarrow> objects w b k = None)) w1)) w"
begin

text \<open>
  The bucket has the hash of the object under its key, which is all that the adapter compares before it skips an upload; it has the hash of one
  of the listed objects with this key; only the object's own key changes; every key has what it had or one of the objects, whole.
\<close>

definition holds :: "string \<Rightarrow> 'w \<Rightarrow> s3_object \<Rightarrow> bool" where
  "holds b w obj \<longleftrightarrow> (\<exists>st. objects w b (obj_Key obj) = Some st \<and> st_hash st = obj_SHA256Hex obj)"

definition has_one :: "string \<Rightarrow> s3_object list \<Rightarrow> 'w \<Rightarrow> s3_object \<Rightarrow> bool" where
  "has_one b objs w obj \<longleftrightarrow> (\<exists>obj' \<in> set objs. obj_Key obj' = obj_Key obj \<and> holds b w obj')"

definition touches :: "string \<Rightarrow> string \<Rightarrow> 'w \<Rightarrow> 'w \<Rightarrow> bool" where
  "touches b k w w' \<longleftrightarrow> (\<forall>b' k'. (b', k') \<noteq> (b, k) \<longrightarrow> objects w' b' k' = objects w b' k')"

definition writes_only :: "string \<Rightarrow> s3_object set \<Rightarrow> 'w \<Rightarrow> 'w \<Rightarrow> bool" where
  "writes_only b objs w w' \<longleftrightarrow>
     (\<forall>b' k. objects w' b' k = objects w b' k \<or>
        b' = b \<and> (\<exists>obj \<in> objs. obj_Key obj = k \<and> objects w' b k = Some (stored_as obj)))"

lemma writes_only_refl [simp]: "objects w' = objects w \<Longrightarrow> writes_only b objs w w'"
  by (simp add: writes_only_def)

lemma writes_only_trans:
  "writes_only b objs w w1 \<Longrightarrow> writes_only b objs' w1 w2 \<Longrightarrow> objs' \<subseteq> objs \<Longrightarrow> writes_only b objs w w2"
  unfolding writes_only_def by (metis subsetD)

lemma writes_only_touches: "writes_only b {obj} w w' \<Longrightarrow> touches b (obj_Key obj) w w'"
  by (auto simp: writes_only_def touches_def)

text \<open>
  What \<open>EnsureUploaded\<close> did: whatever it reports, its key has what it had or the whole object; a skip changes nothing and means that the hash was
  there; a reported upload put the object, body and headers included.
\<close>

definition upload_effect :: "string \<Rightarrow> s3_object \<Rightarrow> 'w \<Rightarrow> gerr + bool \<Rightarrow> 'w \<Rightarrow> bool" where
  "upload_effect b obj w r w' \<longleftrightarrow> writes_only b {obj} w w' \<and>
     (r = Inr True \<longrightarrow> holds b w obj \<and> objects w' = objects w) \<and>
     (r = Inr False \<longrightarrow> \<not> holds b w obj \<and> objects w' b (obj_Key obj) = Some (stored_as obj))"

lemma put_object_spec:
  assumes "s3_client s = c"
  shows "wp (put_object s obj) (\<lambda>r w'. writes_only (s3_bucket s) {obj} w w' \<and> r \<noteq> Inr True \<and>
    (r = Inr False \<longrightarrow> objects w' (s3_bucket s) (obj_Key obj) = Some (stored_as obj))) w"
  unfolding put_object_def assms wp_bind wp_return
  by (rule wp_mono [OF put]) (auto simp: writes_only_def put_result_def stored_as_def split: option.splits if_splits)

lemma EnsureUploaded_spec:
  assumes "s3_client s = c"
  shows "wp (EnsureUploaded s obj) (upload_effect (s3_bucket s) obj w) w"
proof -
  have upload: "wp (put_object s obj) (upload_effect (s3_bucket s) obj w) w1"
    if "objects w1 = objects w" "\<not> holds (s3_bucket s) w obj" for w1
    by (rule wp_mono [OF put_object_spec [OF assms, of obj w1]])
      (use that in \<open>auto simp: upload_effect_def writes_only_def\<close>)
  show ?thesis
    unfolding EnsureUploaded_def assms wp_bind
  proof (rule wp_mono [OF stat], goal_cases)
    case (1 r w1)
    show ?case
    proof (cases r)
      case (Inl e)
      then show ?thesis
        using 1 upload [of w1] by (auto simp: upload_effect_def holds_def split: option.splits)
    next
      case (Inr info)
      then show ?thesis
        using 1 upload [of w1] by (auto simp: upload_effect_def holds_def)
    qed
  qed
qed

lemma upload_effect_holds: "upload_effect b obj w (Inr skipped) w' \<Longrightarrow> holds b w' obj"
  by (cases skipped) (auto simp: upload_effect_def holds_def)

lemma EnsureUploaded_touches:
  assumes "s3_client s = c"
  shows "wp (EnsureUploaded s obj) (\<lambda>r w'. touches (s3_bucket s) (obj_Key obj) w w' \<and>
    (\<forall>skipped. r = Inr skipped \<longrightarrow> holds (s3_bucket s) w' obj)) w"
  by (rule wp_mono [OF EnsureUploaded_spec [OF assms]])
    (auto simp: upload_effect_def intro: writes_only_touches upload_effect_holds [unfolded upload_effect_def])

text \<open>
  The invariant of the pool, from the world \<open>w0\<close> it started in: the bucket has changed only by whole objects of the list; the counters account for all
  objects that are neither waiting nor in flight; until an error or an expiry every object is waiting, in flight, or there is an object for its key whose
  hash the bucket has. Two objects of the list may have the same key.
\<close>

definition pool_inv :: "string \<Rightarrow> s3_object list \<Rightarrow> 'w \<Rightarrow> bool \<Rightarrow> upload_pool \<Rightarrow> 'w \<Rightarrow> bool" where
  "pool_inv b objs w0 expired p w \<longleftrightarrow>
     set (up_work p) \<subseteq> set objs \<and> 0 \<le> up_uploaded p \<and> 0 \<le> up_skipped p \<and>
     up_uploaded p + up_skipped p + int (length (up_work p)) + int (length (up_feed p)) \<le> int (length objs) \<and>
     set (up_feed p) \<subseteq> set objs \<and> writes_only b (set objs) w0 w \<and>
     (up_ctxDone p \<longrightarrow> expired \<or> up_firstErr p \<noteq> None) \<and>
     (up_firstErr p = None \<and> \<not> expired \<longrightarrow>
        up_uploaded p + up_skipped p + int (length (up_work p)) + int (length (up_feed p)) = int (length objs) \<and>
        (\<forall>obj \<in> set objs. obj \<in> set (up_work p) \<union> set (up_feed p) \<or> has_one b objs w obj))"

lemma nth_split:
  assumes "i < length xs"
  shows "set xs = insert (xs ! i) (set (take i xs @ drop (Suc i) xs))"
    "length xs = Suc (length (take i xs @ drop (Suc i) xs))"
  using id_take_nth_drop [OF assms] by (metis Un_insert_right list.simps(15) set_append) (use assms in auto)

lemma upload_finish_inv:
  assumes "s3_client s = c" "pool_inv (s3_bucket s) objs w0 expired p w" "i < length (up_work p)"
  shows "wp (upload_finish s p i) (pool_inv (s3_bucket s) objs w0 expired) w"
  unfolding upload_finish_def Let_def wp_bind wp_return
proof (rule wp_mono [OF EnsureUploaded_spec [OF assms(1)]], goal_cases)
  case (1 r w')
  define obj1 rest where "obj1 = up_work p ! i" and "rest = take i (up_work p) @ drop (Suc i) (up_work p)"
  have work: "set (up_work p) = insert obj1 (set rest)" "length (up_work p) = Suc (length rest)"
    unfolding obj1_def rest_def by (rule nth_split [OF assms(3)])+
  note effect = 1 [folded obj1_def]
  have in_objs: "obj1 \<in> set objs" using assms(2) work(1) by (auto simp: pool_inv_def)
  have written: "writes_only (s3_bucket s) (set objs) w0 w'"
    using assms(2) effect in_objs writes_only_trans [of "s3_bucket s" "set objs" w0 w "{obj1}" w']
    by (simp add: pool_inv_def upload_effect_def)
  show ?case
  proof (cases r)
    case (Inl e)
    then show ?thesis using assms(2) work written by (auto simp: pool_inv_def rest_def [symmetric])
  next
    case (Inr skipped)
    then have new: "holds (s3_bucket s) w' obj1" using effect upload_effect_holds by blast
    then have one: "has_one (s3_bucket s) objs w' obj1" using in_objs by (auto simp: has_one_def)
    have kept: "has_one (s3_bucket s) objs w' obj" if "has_one (s3_bucket s) objs w obj" for obj
    proof (cases "obj_Key obj = obj_Key obj1")
      case False
      have "touches (s3_bucket s) (obj_Key obj1) w w'"
        using effect writes_only_touches by (simp add: upload_effect_def)
      with False have "objects w' (s3_bucket s) (obj_Key obj) = objects w (s3_bucket s) (obj_Key obj)" by (simp add: touches_def)
      with that show ?thesis by (auto simp: has_one_def holds_def)
    qed (use one in \<open>simp add: has_one_def\<close>)
    show ?thesis
      using assms(2) work written kept one Inr by (auto simp: pool_inv_def rest_def [symmetric])
  qed
qed

lemma upload_step_inv:
  assumes "s3_client s = c" "pool_inv (s3_bucket s) objs w0 expired p w"
  shows "wp (upload_step s n ch p) (pool_inv (s3_bucket s) objs w0 (expired \<or> ch = Expire)) w"
proof (cases ch)
  case (Finish i)
  then show ?thesis using upload_finish_inv [OF assms] assms(2) by simp
next
  case Feed
  then show ?thesis using assms(2) by (auto simp: pool_inv_def split: list.splits)
qed (use assms(2) in \<open>auto simp: pool_inv_def\<close>)

lemma upload_steps_inv:
  assumes "s3_client s = c" "pool_inv (s3_bucket s) objs w0 expired p w"
  shows "wp (upload_steps s n chs p) (pool_inv (s3_bucket s) objs w0 (expired \<or> Expire \<in> set chs)) w"
  using assms(2)
proof (induction chs arbitrary: p w expired)
  case (Cons ch chs)
  show ?case
    unfolding upload_steps.simps wp_bind
  proof (rule wp_mono [OF upload_step_inv [OF assms(1) Cons.prems]], goal_cases)
    case (1 p' w')
    then show ?case using Cons.IH [OF 1] by (auto simp: disj_assoc eq_commute)
  qed
qed simp

text \<open>The bound of the draining loop is enough: it ends with nothing waiting and nothing in flight.\<close>

lemma upload_step_work:
  assumes "0 < n" "up_work p = [] \<Longrightarrow> ch = (if up_ctxDone p then Leave else Feed) \<and> up_feed p \<noteq> []"
    "up_work p \<noteq> [] \<Longrightarrow> ch = Finish 0"
  shows "wp (upload_step s n ch p) (\<lambda>p' _. pool_work p' < pool_work p) w"
proof (cases "up_work p")
  case Nil
  then show ?thesis using assms(1,2) by (auto simp: pool_work_def split: list.splits)
next
  case (Cons obj rest)
  then show ?thesis
    using assms(3) by (simp add: upload_finish_def Let_def)
      (rule wp_mono [OF wp_True], auto simp: pool_work_def split: sum.split)
qed

lemma upload_drain_inv:
  assumes "s3_client s = c" "pool_inv (s3_bucket s) objs w0 expired p w" "pool_work p \<le> m" "0 < n"
  shows "wp (upload_drain s n m p) (\<lambda>p' w'. pool_inv (s3_bucket s) objs w0 expired p' w' \<and> up_work p' = [] \<and> up_feed p' = []) w"
  using assms(2,3)
proof (induction m arbitrary: p w)
  case (Suc m)
  have step: "wp (upload_step s n ch p) (\<lambda>p' w'. pool_inv (s3_bucket s) objs w0 expired p' w' \<and> pool_work p' < pool_work p) w"
    if "ch \<noteq> Expire" "up_work p = [] \<Longrightarrow> ch = (if up_ctxDone p then Leave else Feed) \<and> up_feed p \<noteq> []"
      "up_work p \<noteq> [] \<Longrightarrow> ch = Finish 0" for ch
    using wp_conj [OF upload_step_inv [OF assms(1) Suc.prems(1), of n ch] upload_step_work [OF assms(4) that(2,3), of s]] that(1)
    by simp
  show ?case
  proof (cases "up_work p = [] \<and> up_feed p = []")
    case True
    then show ?thesis using Suc.prems by simp
  next
    case False
    let ?ch = "if up_work p \<noteq> [] then Finish 0 else if up_ctxDone p then Leave else Feed"
    have "upload_drain s n (Suc m) p = upload_step s n ?ch p \<bind> upload_drain s n m"
      using False by auto
    moreover have "wp (upload_step s n ?ch p) (\<lambda>p' w'. pool_inv (s3_bucket s) objs w0 expired p' w' \<and> pool_work p' < pool_work p) w"
      by (rule step) (use False in \<open>auto split: if_splits\<close>)
    then have "wp (upload_step s n ?ch p) (\<lambda>p'. wp (upload_drain s n m p')
        (\<lambda>p' w'. pool_inv (s3_bucket s) objs w0 expired p' w' \<and> up_work p' = [] \<and> up_feed p' = [])) w"
      by (rule wp_mono) (use Suc in auto)
    ultimately show ?thesis by simp
  qed
qed (auto simp: pool_work_def)

lemma UploadAll_spec:
  assumes "s3_client s = c"
  shows "wp (UploadAll s schedule objs concurrency) (\<lambda>(uploaded, skipped, err) w'.
    0 \<le> uploaded \<and> 0 \<le> skipped \<and> uploaded + skipped \<le> int (length objs) \<and> writes_only (s3_bucket s) (set objs) w w' \<and>
    (err = None \<and> Expire \<notin> set schedule \<longrightarrow>
       uploaded + skipped = int (length objs) \<and>
       (\<forall>obj \<in> set objs. has_one (s3_bucket s) objs w' obj))) w"
proof -
  let ?n = "clamp_concurrency concurrency" and ?e = "Expire \<in> set schedule"
  have "pool_inv (s3_bucket s) objs w False \<lparr>up_feed = objs, up_work = [], up_uploaded = 0, up_skipped = 0,
      up_firstErr = None, up_ctxDone = False\<rparr> w"
    by (simp add: pool_inv_def)
  note steps = upload_steps_inv [OF assms this, of ?n schedule]
  have "0 < ?n" by (simp add: clamp_concurrency_def Let_def)
  note drain = upload_drain_inv [OF assms _ order_refl this]
  show ?thesis
    unfolding UploadAll_def Let_def wp_bind wp_return
  proof (rule wp_mono [OF steps], goal_cases)
    case (1 p w1)
    then have "pool_inv (s3_bucket s) objs w ?e p w1" by simp
    from drain [OF this] show ?case
      by (rule wp_mono) (auto simp: pool_inv_def)
  qed
qed

text \<open>With one object per key it is the object itself.\<close>

lemma UploadAll_distinct:
  assumes "s3_client s = c" "distinct (map obj_Key objs)"
  shows "wp (UploadAll s schedule objs concurrency) (\<lambda>(uploaded, skipped, err) w'.
    err = None \<and> Expire \<notin> set schedule \<longrightarrow> (\<forall>obj \<in> set objs. holds (s3_bucket s) w' obj)) w"
proof (rule wp_mono [OF UploadAll_spec [OF assms(1)]], goal_cases)
  case (1 r w')
  have "obj' = obj" if "obj \<in> set objs" "obj' \<in> set objs" "obj_Key obj' = obj_Key obj" for obj obj'
    using that assms(2) by (auto simp: distinct_map inj_on_def)
  with 1 show ?case by (auto simp: has_one_def split: prod.splits) blast
qed

text \<open>A key that the bucket has a listed object for: it was put, or it is what was there before, with the object's hash.\<close>

lemma writes_only_holds:
  assumes "writes_only b (set objs) w w'" "obj' \<in> set objs" "holds b w' obj'"
  shows "\<exists>obj \<in> set objs. obj_Key obj = obj_Key obj' \<and>
    (objects w' b (obj_Key obj') = Some (stored_as obj) \<or> objects w' b (obj_Key obj') = objects w b (obj_Key obj') \<and> holds b w obj)"
  using assms unfolding writes_only_def holds_def by metis

lemma FetchIfExists_spec:
  assumes "s3_client s = c"
  shows "wp (FetchIfExists s key) (\<lambda>r w'. objects w' = objects w \<and>
    (case r of
       Inl e \<Rightarrow> True
     | Inr (bytes, found) \<Rightarrow>
         if found then \<exists>st. objects w (s3_bucket s) key = Some st \<and> bytes = st_Body st
         else objects w (s3_bucket s) key = None)) w"
  unfolding FetchIfExists_def assms wp_bind
proof (rule wp_mono [OF get], goal_cases)
  case (1 r w1)
  then show ?case
    by (cases r) (auto elim!: wp_mono split: sum.splits)
qed

end

section \<open>An executable store\<close>

text \<open>
  Buckets as association lists, with the faults of \<open>Redis_Server\<close>: an operation is refused, or done with its reply lost. The
  metadata comes back with canonical keys, as the client library reports it.
\<close>

record s3_server =
  sv_objects :: "string \<Rightarrow> string \<rightharpoonup> stored"
  sv_faults :: "fault list"

definition sv_faulty :: "(s3_server \<Rightarrow> (gerr + 'a) \<times> s3_server) \<Rightarrow> (s3_server, gerr + 'a) state" where
  "sv_faulty op = State (\<lambda>s.
     case sv_faults s of
       [] \<Rightarrow> op s
     | f # fs \<Rightarrow>
         let s' = s\<lparr>sv_faults := fs\<rparr> in
         (case f of
            Fine \<Rightarrow> op s'
          | Refused \<Rightarrow> (Inl (NetE False None), s')
          | Lost_Reply \<Rightarrow> (Inl DeadlineExceededE, snd (op s'))))"

definition sv_stat :: "string \<Rightarrow> string \<Rightarrow> s3_server \<Rightarrow> (gerr + object_info) \<times> s3_server" where
  "sv_stat b k s =
     (case sv_objects s b k of
        None \<Rightarrow> Inl (StorageE 404)
      | Some st \<Rightarrow> Inr \<lparr>UserMetadata = [(canonical_MetaContentSHA256, st_hash st)]\<rparr>, s)"

definition sv_put :: "string \<Rightarrow> string \<Rightarrow> string \<Rightarrow> put_options \<Rightarrow> s3_server \<Rightarrow> (gerr + unit) \<times> s3_server" where
  "sv_put b k body opts s =
     (Inr (), s\<lparr>sv_objects := (sv_objects s)(b := (sv_objects s b)(k \<mapsto> put_result body opts))\<rparr>)"

definition sv_read :: "string \<Rightarrow> string \<Rightarrow> s3_server \<Rightarrow> (gerr + string) \<times> s3_server" where
  "sv_read b k s = (case sv_objects s b k of None \<Rightarrow> Inl (StorageE 404) | Some st \<Rightarrow> Inr (st_Body st), s)"

definition server_s3 :: "s3_server s3_client" where
  "server_s3 =
     \<lparr>BucketExists = (\<lambda>b. sv_faulty (\<lambda>s. (Inr True, s))),
      StatObject = (\<lambda>b k. sv_faulty (sv_stat b k)),
      PutObject = (\<lambda>b k body opts. err_only (sv_faulty (sv_put b k body opts))),
      GetObject = (\<lambda>b k. ret (Inr (sv_faulty (sv_read b k))))\<rparr>"

text \<open>An operation under any fault: it ran, or it reports an error, and then it ran or nothing happened.\<close>

lemma wp_sv_faulty:
  assumes "\<And>s. sv_objects s = sv_objects w \<Longrightarrow> Q (fst (op s)) (snd (op s))"
    and "\<And>s e. sv_objects s = sv_objects w \<Longrightarrow> minio_status e = None \<Longrightarrow> Unwrap e = None \<Longrightarrow> Q (Inl e) (snd (op s)) \<and> Q (Inl e) s"
  shows "wp (sv_faulty op) Q w"
proof -
  have lost: "Q (Inl (NetE False None)) s" "Q (Inl DeadlineExceededE) (snd (op s))" if "sv_objects s = sv_objects w" for s
    using assms(2) [OF that] by simp_all
  show ?thesis
  proof (cases "sv_faults w")
    case Nil
    then show ?thesis using assms(1) [of w] by (simp add: wp_def sv_faulty_def case_prod_beta)
  next
    case (Cons f fs)
    then show ?thesis
      using assms(1) [of "w\<lparr>sv_faults := fs\<rparr>"] lost [of "w\<lparr>sv_faults := fs\<rparr>"]
      by (cases f) (simp_all add: wp_def sv_faulty_def case_prod_beta)
  qed
qed

lemma no_status: "minio_status e = None \<Longrightarrow> Unwrap e = None \<Longrightarrow> errors_As minio_status (Some e) = None"
  by (simp add: errors_As_skip)

interpretation server_s3: s3_env server_s3 sv_objects
proof (unfold_locales, goal_cases)
  case (1 b k w)
  show ?case unfolding server_s3_def s3_client.simps
    by (rule wp_sv_faulty)
      (auto simp: sv_stat_def no_status existingHash_def split: option.splits)
next
  case (2 b k body opts w)
  show ?case unfolding server_s3_def s3_client.simps err_only_def wp_bind wp_return
    by (rule wp_sv_faulty) (auto simp: sv_put_def)
next
  case (3 b k w)
  have "wp (sv_faulty (sv_read b k)) (\<lambda>r w'. sv_objects w' = sv_objects w \<and>
      (case r of Inr bytes \<Rightarrow> \<exists>st. sv_objects w b k = Some st \<and> bytes = st_Body st
       | Inl e \<Rightarrow> errors_As minio_status (Some e) = Some 404 \<longrightarrow> sv_objects w b k = None)) w"
    by (rule wp_sv_faulty) (auto simp: sv_read_def no_status split: option.splits)
  then show ?case unfolding server_s3_def s3_client.simps by simp
qed

section \<open>Properties\<close>

definition sample_object :: "string \<Rightarrow> string \<Rightarrow> s3_object" where
  "sample_object key hash =
     \<lparr>obj_Key = key, obj_Body = ''body'', obj_ContentType = ''text/css'', obj_CacheControl = ''no-store'', obj_SHA256Hex = hash\<rparr>"

definition sample_store :: "s3_server s3_store" where
  "sample_store = \<lparr>s3_client = server_s3, s3_bucket = ''artifacts''\<rparr>"

definition sample_bucket :: s3_server where
  "sample_bucket = \<lparr>sv_objects = (\<lambda>_. Map.empty), sv_faults = []\<rparr>"

text \<open>
  C28. A clean upload is complete. On any store with the documented behaviour and whatever the interleaving of the pool: if \<open>UploadAll\<close> returns no error
  and the caller's context did not expire, then every object was counted once as uploaded or as skipped, and the key of every object has one of the
  objects listed for this key: put with its body, content type, cache control and hash, or, when the bucket already had its hash there, left as it was.
  Every other key is as it was. A list with one object per key has therefore every object stored; of two objects with the same key one is.
\<close>

theorem UploadAll_complete:
  assumes "s3_env c objects" "s3_client s = c" "Expire \<notin> set schedule"
    and "run_state (UploadAll s schedule objs concurrency) w = ((uploaded, skipped, None), w')"
  shows "uploaded + skipped = int (length objs) \<and>
    (\<forall>obj \<in> set objs. \<exists>obj' \<in> set objs. obj_Key obj' = obj_Key obj \<and>
       (objects w' (s3_bucket s) (obj_Key obj) = Some (stored_as obj') \<or>
        objects w' (s3_bucket s) (obj_Key obj) = objects w (s3_bucket s) (obj_Key obj) \<and>
        map_option st_hash (objects w (s3_bucket s) (obj_Key obj)) = Some (obj_SHA256Hex obj'))) \<and>
    (\<forall>b k. b \<noteq> s3_bucket s \<or> k \<notin> obj_Key ` set objs \<longrightarrow> objects w' b k = objects w b k)"
proof -
  note env = assms(1) and def = s3_env.holds_def [OF assms(1)] and wdef = s3_env.writes_only_def [OF assms(1)]
  have spec: "uploaded + skipped = int (length objs)" "s3_env.writes_only objects (s3_bucket s) (set objs) w w'"
      "\<forall>obj \<in> set objs. s3_env.has_one objects (s3_bucket s) objs w' obj"
    using wp_run [OF s3_env.UploadAll_spec [OF env assms(2)] assms(4)] assms(3) by simp_all
  have "\<exists>obj' \<in> set objs. obj_Key obj' = obj_Key obj \<and>
       (objects w' (s3_bucket s) (obj_Key obj) = Some (stored_as obj') \<or>
        objects w' (s3_bucket s) (obj_Key obj) = objects w (s3_bucket s) (obj_Key obj) \<and>
        map_option st_hash (objects w (s3_bucket s) (obj_Key obj)) = Some (obj_SHA256Hex obj'))" if "obj \<in> set objs" for obj
  proof -
    from spec(3) that obtain obj1 where "obj1 \<in> set objs" "obj_Key obj1 = obj_Key obj" "s3_env.holds objects (s3_bucket s) w' obj1"
      by (auto simp: s3_env.has_one_def [OF env])
    from s3_env.writes_only_holds [OF env spec(2) this(1,3)] this(2) show ?thesis by (fastforce simp: def)
  qed
  moreover have "objects w' b k = objects w b k" if "b \<noteq> s3_bucket s \<or> k \<notin> obj_Key ` set objs" for b k
    using spec(2) that by (auto simp: wdef)
  ultimately show ?thesis using spec(1) by blast
qed

text \<open>Two objects, one of which the bucket already has by its hash.\<close>

definition sample_objects :: "s3_object list" where
  "sample_objects = [sample_object ''a'' ''h1'', sample_object ''b'' ''h2'']"

definition half_bucket :: s3_server where
  "half_bucket = sample_bucket\<lparr>sv_objects := (\<lambda>_. [''b'' \<mapsto> stored_as (sample_object ''b'' ''h2'')])\<rparr>"

theorem UploadAll_complete_witness:
  "\<exists>w'. run_state (UploadAll sample_store [Feed, Feed, Finish 1] sample_objects 2) half_bucket = ((1, 1, None), w') \<and>
     sv_objects w' ''artifacts'' ''a'' = Some (stored_as (sample_object ''a'' ''h1'')) \<and>
     sv_objects w' ''artifacts'' ''b'' = Some (stored_as (sample_object ''b'' ''h2''))"
proof -
  have "fst (run_state (UploadAll sample_store [Feed, Feed, Finish 1] sample_objects 2) half_bucket) = (1, 1, None)"
    by code_simp
  then obtain w' where run: "run_state (UploadAll sample_store [Feed, Feed, Finish 1] sample_objects 2) half_bucket = ((1, 1, None), w')"
    by (metis prod.collapse)
  from UploadAll_complete [OF server_s3.s3_env_axioms _ _ run] run show ?thesis
    by (simp add: sample_store_def sample_objects_def sample_object_def half_bucket_def sample_bucket_def)
qed

text \<open>Uploading objects one after the other, the reference for a pool that is cut off.\<close>

fun ensure_all :: "'w s3_store \<Rightarrow> s3_object list \<Rightarrow> ('w, gerr + (int \<times> int)) state" where
  "ensure_all s [] = ret (Inr (0, 0))"
| "ensure_all s (obj # objs) = do {
     r \<leftarrow> EnsureUploaded s obj;
     case r of
       Inl e \<Rightarrow> ret (Inl e)
     | Inr skipped \<Rightarrow> do {
         rest \<leftarrow> ensure_all s objs;
         ret (case rest of Inl e \<Rightarrow> Inl e | Inr (u, k) \<Rightarrow> Inr (if skipped then (u, k + 1) else (u + 1, k)))
       }
   }"

definition one_by_one :: "nat \<Rightarrow> upload_choice list" where
  "one_by_one n = concat (replicate n [Feed, Finish 0])"

lemma one_by_one_steps:
  assumes "run_state (ensure_all s objs) w = (Inr (u, k), w')" "0 < c" "up_feed p = objs @ rest" "up_work p = []"
  shows "run_state (upload_steps s c (one_by_one (length objs) @ chs) p) w =
    run_state (upload_steps s c chs (p\<lparr>up_feed := rest, up_uploaded := up_uploaded p + u, up_skipped := up_skipped p + k\<rparr>)) w'"
  using assms
proof (induction objs arbitrary: p w u k)
  case (Cons obj objs)
  from Cons.prems(1) obtain skipped w1 u1 k1 where one: "run_state (EnsureUploaded s obj) w = (Inr skipped, w1)"
      "run_state (ensure_all s objs) w1 = (Inr (u1, k1), w')" "(u, k) = (if skipped then (u1, k1 + 1) else (u1 + 1, k1))"
    by (auto simp: run_state_bind split: prod.splits sum.splits)
  let ?p = "p\<lparr>up_feed := objs @ rest, up_uploaded := up_uploaded p + (if skipped then 0 else 1), up_skipped := up_skipped p + (if skipped then 1 else 0)\<rparr>"
  have "run_state (upload_steps s c (one_by_one (length (obj # objs)) @ chs) p) w =
      run_state (upload_steps s c (one_by_one (length objs) @ chs) ?p) w1"
    using Cons.prems(2-4) one(1) by (cases p; cases skipped) (simp_all add: one_by_one_def run_state_bind upload_finish_def Let_def)
  also have "\<dots> = run_state (upload_steps s c chs (?p\<lparr>up_feed := rest, up_uploaded := up_uploaded ?p + u1, up_skipped := up_skipped ?p + k1\<rparr>)) w'"
    by (rule Cons.IH [OF one(2)]) (use Cons.prems in simp_all)
  finally show ?case using one(3) by (cases skipped) (simp_all add: ac_simps)
next
  case Nil
  then show ?case by (cases p) (simp add: one_by_one_def)
qed

text \<open>
  C40. A budget that expires between two objects is not reported. On any store, for any objects that upload one after the other without an error and any
  further objects: when the caller's context expires after the first group while no goroutine is busy, the feeding loop leaves, and \<open>UploadAll\<close> returns
  without an error, with the counters and the world of the first group; the bucket has nothing new under a key that is not one of theirs.
\<close>

theorem UploadAll_expired:
  assumes "s3_env c objects" "s3_client s = c" "run_state (ensure_all s objs) w = (Inr (u, k), w')"
  shows "run_state (UploadAll s (one_by_one (length objs) @ [Expire, Leave]) (objs @ rest) concurrency) w = ((u, k, None), w') \<and>
    (\<forall>b key. key \<notin> obj_Key ` set objs \<longrightarrow> objects w' b key = objects w b key)"
proof
  have "0 < clamp_concurrency concurrency" by (simp add: clamp_concurrency_def Let_def)
  from one_by_one_steps [OF assms(3) this, where rest = rest and chs = "[Expire, Leave]"]
  show "run_state (UploadAll s (one_by_one (length objs) @ [Expire, Leave]) (objs @ rest) concurrency) w = ((u, k, None), w')"
    by (simp add: UploadAll_def Let_def run_state_bind pool_work_def)
  show "\<forall>b key. key \<notin> obj_Key ` set objs \<longrightarrow> objects w' b key = objects w b key"
    using assms(3)
  proof (induction objs arbitrary: w u k)
    case (Cons obj objs)
    from Cons.prems obtain skipped w1 u1 k1 where one: "run_state (EnsureUploaded s obj) w = (Inr skipped, w1)"
        "run_state (ensure_all s objs) w1 = (Inr (u1, k1), w')"
      by (auto simp: run_state_bind split: prod.splits sum.splits)
    have "s3_env.touches objects (s3_bucket s) (obj_Key obj) w w1"
      using wp_run [OF s3_env.EnsureUploaded_touches [OF assms(1,2)] one(1)] by simp
    with Cons.IH [OF one(2)] show ?case by (simp add: s3_env.touches_def [OF assms(1)])
  qed simp
qed

theorem UploadAll_expired_witness:
  "\<exists>w'. run_state (UploadAll sample_store (one_by_one 1 @ [Expire, Leave]) sample_objects 8) sample_bucket = ((1, 0, None), w') \<and>
     sv_objects w' ''artifacts'' ''b'' = None"
proof -
  have "fst (run_state (ensure_all sample_store [sample_object ''a'' ''h1'']) sample_bucket) = Inr (1, 0)" by code_simp
  then obtain w' where "run_state (ensure_all sample_store [sample_object ''a'' ''h1'']) sample_bucket = (Inr (1, 0), w')"
    by (metis prod.collapse)
  from UploadAll_expired [OF server_s3.s3_env_axioms _ this, of "[sample_object ''b'' ''h2'']" 8] show ?thesis
    by (simp add: sample_store_def sample_objects_def sample_object_def sample_bucket_def)
qed

text \<open>
  C34. Uploads are exact and idempotent. When \<open>EnsureUploaded\<close> returns without an error it reports a skip exactly when the bucket already had the object's
  hash under its key, and then nothing has changed; otherwise the bucket has the object's body, content type, cache control and hash under its key. No other
  key has changed, and a second call uploads nothing and changes nothing, whatever errors it meets.
\<close>

theorem EnsureUploaded_idempotent:
  assumes "s3_env c objects" "s3_client s = c" "run_state (EnsureUploaded s obj) w = (Inr skipped, w1)"
  shows "(skipped \<longleftrightarrow> map_option st_hash (objects w (s3_bucket s) (obj_Key obj)) = Some (obj_SHA256Hex obj)) \<and>
    objects w1 = (if skipped then objects w else (objects w)(s3_bucket s := (objects w (s3_bucket s))(obj_Key obj \<mapsto> stored_as obj))) \<and>
    wp (EnsureUploaded s obj) (\<lambda>r w2. objects w2 = objects w1 \<and> r \<noteq> Inr False) w1"
proof -
  note env = assms(1) and def = s3_env.holds_def [OF assms(1)] s3_env.writes_only_def [OF assms(1)]
  have effect: "s3_env.upload_effect objects (s3_bucket s) obj w (Inr skipped) w1"
    using wp_run [OF s3_env.EnsureUploaded_spec [OF env assms(2)] assms(3)] .
  note held = s3_env.upload_effect_holds [OF env effect]
  have "wp (EnsureUploaded s obj) (\<lambda>r w2. objects w2 = objects w1 \<and> r \<noteq> Inr False) w1"
    unfolding EnsureUploaded_def assms(2) wp_bind
    by (rule wp_mono [OF s3_env.stat [OF env]])
      (use held in \<open>auto simp: def split: sum.splits option.splits\<close>)
  moreover have "objects w1 = (objects w)(s3_bucket s := (objects w (s3_bucket s))(obj_Key obj \<mapsto> stored_as obj))" if "\<not> skipped"
    using effect that by (intro ext) (auto simp: s3_env.upload_effect_def [OF env] def)
  ultimately show ?thesis
    using effect by (auto simp: s3_env.upload_effect_def [OF env] def)
qed

theorem EnsureUploaded_idempotent_witness:
  "\<exists>w1. run_state (EnsureUploaded sample_store (sample_object ''a'' ''h1'')) sample_bucket = (Inr False, w1) \<and>
     sv_objects w1 ''artifacts'' ''a'' = Some (stored_as (sample_object ''a'' ''h1'')) \<and>
     wp (EnsureUploaded sample_store (sample_object ''a'' ''h1'')) (\<lambda>r w2. sv_objects w2 = sv_objects w1 \<and> r \<noteq> Inr False) w1"
proof -
  have "fst (run_state (EnsureUploaded sample_store (sample_object ''a'' ''h1'')) sample_bucket) = Inr False"
    by code_simp
  then obtain w1 where run: "run_state (EnsureUploaded sample_store (sample_object ''a'' ''h1'')) sample_bucket = (Inr False, w1)"
    by (metis prod.collapse)
  from EnsureUploaded_idempotent [OF server_s3.s3_env_axioms _ this] run show ?thesis
    by (auto simp: sample_store_def sample_object_def)
qed

end
