(* ===== verification/Manifest.thy ===== *)
theory Manifest
  imports Storage
begin

text \<open>
  The artifact manifest, \<open>src/internal/storage/manifest.go\<close>: cache classes, and the construction with
  self-validation of \<open>artifact-manifest.json\<close>. The JSON encoding is a parameter.
\<close>

section \<open>Cache classes\<close>

definition CacheControlHTML :: string where
  "CacheControlHTML = ''public, max-age=60, stale-while-revalidate=300''"

definition CacheControlHashed :: string where
  "CacheControlHashed = ''public, max-age=31536000, immutable''"

definition CacheControlNonHashed :: string where
  "CacheControlNonHashed = ''public, max-age=3600''"

definition CacheControlManifest :: string where
  "CacheControlManifest = ''private, max-age=0, no-store''"

definition ManifestFilename :: string where
  "ManifestFilename = ''artifact-manifest.json''"

definition is_lower_hex :: "char \<Rightarrow> bool" where
  "is_lower_hex c = (is_digit c \<or> 97 \<le> (of_char c :: nat) \<and> (of_char c :: nat) \<le> 102)"

definition is_alnum :: "char \<Rightarrow> bool" where
  "is_alnum c =
     (is_digit c \<or> 65 \<le> (of_char c :: nat) \<and> (of_char c :: nat) \<le> 90 \<or> 97 \<le> (of_char c :: nat) \<and> (of_char c :: nat) \<le> 122)"

text \<open>
  The regular expression of \<open>hashedNameRe\<close>: a dot, at least eight lower-case hex digits, a dot and an alphanumeric
  extension at the end. The runs are delimited by dots, so they are read from the end.
\<close>

definition hashedNameRe :: "string \<Rightarrow> bool" where
  "hashedNameRe s =
     (let ext = takeWhile is_alnum (rev s); r = dropWhile is_alnum (rev s) in
      ext \<noteq> [] \<and>
      (case r of
         [] \<Rightarrow> False
       | d # r \<Rightarrow> d = CHR ''.'' \<and> 8 \<le> length (takeWhile is_lower_hex r) \<and>
           (case dropWhile is_lower_hex r of [] \<Rightarrow> False | d # _ \<Rightarrow> d = CHR ''.'')))"

definition IsHashedAsset :: "string \<Rightarrow> bool" where
  "IsHashedAsset path = (HasPrefix path ''/_next/static/'' \<or> hashedNameRe path)"

definition CacheControlFor :: "string \<Rightarrow> string \<Rightarrow> string" where
  "CacheControlFor path mimeType =
     (if HasPrefix mimeType ''text/html'' \<or> HasSuffix path ''.html'' then CacheControlHTML
      else if IsHashedAsset path then CacheControlHashed
      else CacheControlNonHashed)"

section \<open>The manifest\<close>

record manifest_file_input =
  mfi_Path :: string
  mfi_StorageKey :: string
  mfi_SHA256Hex :: string
  mfi_SizeBytes :: int
  mfi_MimeType :: string
  mfi_CacheControl :: string

text \<open>The libraries: JSON into \<open>any\<close>, the manifest's own encoding and decoding, regular expressions, the hash.\<close>

record manifest_lib =
  ml_json :: json_lib
  ml_regexp :: regexp_match
  manifest_MarshalIndent :: "manifest \<Rightarrow> gerr + string"
  manifest_Unmarshal :: "string \<Rightarrow> gerr + manifest"
  ml_Sum256 :: "string \<Rightarrow> string"

definition manifest_json :: "manifest \<Rightarrow> json" where
  "manifest_json m = JObj
     [(''schemaVersion'', JNum (of_int (mft_SchemaVersion m))),
      (''deploymentId'', JStr (mft_DeploymentID m)),
      (''siteId'', JStr (mft_SiteID m)),
      (''pageId'', JStr (mft_PageID m)),
      (''slug'', JStr (mft_Slug m)),
      (''version'', JStr (mft_Version m)),
      (''environment'', JStr (mft_Environment m)),
      (''renderMode'', JStr (mft_RenderMode m)),
      (''artifactBasePath'', JStr (mft_ArtifactBasePath m)),
      (''entry'', JStr (mft_Entry m)),
      (''files'', JArr (map (\<lambda>f. JObj
         [(''path'', JStr (mf_Path f)),
          (''storageKey'', JStr (mf_StorageKey f)),
          (''contentHash'', JStr (mf_ContentHash f)),
          (''sizeBytes'', JNum (of_int (mf_SizeBytes f))),
          (''mimeType'', JStr (mf_MimeType f)),
          (''cacheControl'', JStr (mf_CacheControl f))]) (mft_Files m))),
      (''routes'', JArr (map (\<lambda>r. JObj [(''path'', JStr (mr_Path r)), (''entry'', JStr (mr_Entry r))]) (mft_Routes m))),
      (''createdAt'', JStr (mft_CreatedAt m))]"

definition manifest_of :: "deployment_record \<Rightarrow> string \<Rightarrow> string \<Rightarrow> string \<Rightarrow> manifest_file_input list \<Rightarrow> string \<Rightarrow> manifest" where
  "manifest_of rec basePath entry route files createdAt =
     \<lparr>mft_SchemaVersion = 1, mft_DeploymentID = rec_DeploymentID rec, mft_SiteID = rec_SiteID rec,
      mft_PageID = rec_PageID rec, mft_Slug = rec_Slug rec, mft_Version = rec_Version rec,
      mft_Environment = rec_Environment rec, mft_RenderMode = rec_RenderMode rec,
      mft_ArtifactBasePath = basePath, mft_Entry = entry,
      mft_Files = map (\<lambda>f. \<lparr>mf_Path = mfi_Path f, mf_StorageKey = mfi_StorageKey f,
        mf_ContentHash = ''sha256-'' @ mfi_SHA256Hex f, mf_SizeBytes = mfi_SizeBytes f,
        mf_MimeType = mfi_MimeType f, mf_CacheControl = mfi_CacheControl f\<rparr>) files,
      mft_Routes = [\<lparr>mr_Path = route, mr_Entry = entry\<rparr>],
      mft_CreatedAt = createdAt\<rparr>"

definition BuildManifest :: "manifest_lib \<Rightarrow> deployment_record \<Rightarrow> string \<Rightarrow> string \<Rightarrow> string \<Rightarrow> manifest_file_input list \<Rightarrow> string
    \<Rightarrow> gerr + manifest \<times> string \<times> string" where
  "BuildManifest lib rec basePath entry route files createdAt =
     (let m = manifest_of rec basePath entry route files createdAt in
      case manifest_MarshalIndent lib m of
        Inl err \<Rightarrow> Inl (as_error (errclass_New ErrorCodeValidationFailed FailedStageWriteManifest (Some err)))
      | Inr encoded \<Rightarrow>
          let encoded = encoded @ [CHR 0x0A] in
          (case ValidateBytes (ml_json lib) (ml_regexp lib) SchemaArtifactManifest encoded of
             _ # _ \<Rightarrow> Inl (as_error (errclass_New ErrorCodeValidationFailed FailedStageWriteManifest
               (Some (TextE ''generated manifest failed schema self-validation''))))
           | [] \<Rightarrow> Inr (m, encoded, ''sha256-'' @ SHA256Hex (ml_Sum256 lib) encoded)))"

section \<open>Facts\<close>

text \<open>The scan from the end recognises the language of the regular expression.\<close>

lemma takeWhile_stop: "list_all P xs \<Longrightarrow> \<not> P y \<Longrightarrow> takeWhile P (xs @ y # ys) = xs \<and> dropWhile P (xs @ y # ys) = y # ys"
  by (induction xs) auto

lemma takeWhile_decompose: "dropWhile P xs = y # ys \<Longrightarrow> xs = takeWhile P xs @ y # ys"
  by (metis takeWhile_dropWhile_id)

lemma dot_no_run: "\<not> is_alnum CHR ''.''" "\<not> is_lower_hex CHR ''.''"
  by (simp_all add: is_alnum_def is_lower_hex_def is_digit_def)

lemma hashedNameRe_iff:
  "hashedNameRe s \<longleftrightarrow> (\<exists>pre h ext. s = pre @ ''.'' @ h @ ''.'' @ ext \<and>
     8 \<le> length h \<and> list_all is_lower_hex h \<and> ext \<noteq> [] \<and> list_all is_alnum ext)"
proof
  assume "hashedNameRe s"
  then obtain r r2 where r: "takeWhile is_alnum (rev s) \<noteq> []" "dropWhile is_alnum (rev s) = CHR ''.'' # r"
    "8 \<le> length (takeWhile is_lower_hex r)" "dropWhile is_lower_hex r = CHR ''.'' # r2"
    by (auto simp: hashedNameRe_def Let_def split: list.splits)
  have "rev s = takeWhile is_alnum (rev s) @ CHR ''.'' # takeWhile is_lower_hex r @ CHR ''.'' # r2"
    using takeWhile_decompose [OF r(2)] takeWhile_decompose [OF r(4)] by simp
  then have "s = rev r2 @ ''.'' @ rev (takeWhile is_lower_hex r) @ ''.'' @ rev (takeWhile is_alnum (rev s))"
    by (metis append.assoc append_Cons append_Nil rev.simps(2) rev_append rev_rev_ident)
  moreover have "list_all is_lower_hex (rev (takeWhile is_lower_hex r))" "list_all is_alnum (rev (takeWhile is_alnum (rev s)))"
    by (auto simp: list_all_iff dest: set_takeWhileD)
  ultimately show "\<exists>pre h ext. s = pre @ ''.'' @ h @ ''.'' @ ext \<and>
     8 \<le> length h \<and> list_all is_lower_hex h \<and> ext \<noteq> [] \<and> list_all is_alnum ext"
    using r(1,3) by (metis length_rev rev_is_Nil_conv)
next
  assume "\<exists>pre h ext. s = pre @ ''.'' @ h @ ''.'' @ ext \<and>
     8 \<le> length h \<and> list_all is_lower_hex h \<and> ext \<noteq> [] \<and> list_all is_alnum ext"
  then obtain pre h ext where s: "s = pre @ ''.'' @ h @ ''.'' @ ext" "8 \<le> length h" "list_all is_lower_hex h"
    "ext \<noteq> []" "list_all is_alnum ext" by blast
  then have rev: "rev s = rev ext @ CHR ''.'' # (rev h @ CHR ''.'' # rev pre)" by simp
  have "list_all is_alnum (rev ext)" "list_all is_lower_hex (rev h)" using s by simp_all
  note scan = takeWhile_stop [where P = is_alnum, OF this(1) dot_no_run(1)] takeWhile_stop [where P = is_lower_hex, OF this(2) dot_no_run(2)]
  show "hashedNameRe s" using s(2,4) by (simp add: hashedNameRe_def rev scan)
qed

text \<open>What the schema demands of an array and of the manifest.\<close>

lemma validate_array:
  "validate rx [(''type'', JStr ''array''), (''items'', JObj items)] (JArr xs) p = [] \<longleftrightarrow>
     (\<forall>i < length xs. validate rx items (xs ! i) (p @ ''['' @ FormatInt (int i) @ '']'') = [])"
  by (subst validate.simps)
    (simp add: keyword_def in_enum_def concat_map_Nil all_set_conv_all_nth [of "List.enumerate 0 xs"] nth_enumerate_eq)

definition file_ok :: "regexp_match \<Rightarrow> manifest_file \<Rightarrow> bool" where
  "file_ok rx f \<longleftrightarrow> mf_Path f \<noteq> [] \<and> mf_StorageKey f \<noteq> [] \<and> rx ''^sha256-'' (mf_ContentHash f) \<noteq> Some False \<and>
     0 \<le> mf_SizeBytes f \<and> mf_SizeBytes f < 2 ^ 63 \<and> mf_MimeType f \<noteq> [] \<and> mf_CacheControl f \<noteq> []"

definition manifest_ok :: "regexp_match \<Rightarrow> manifest \<Rightarrow> bool" where
  "manifest_ok rx m \<longleftrightarrow> mft_SchemaVersion m = 1 \<and> mft_DeploymentID m \<noteq> [] \<and> mft_SiteID m \<noteq> [] \<and> mft_PageID m \<noteq> [] \<and>
     mft_Slug m \<noteq> [] \<and> mft_Version m \<noteq> [] \<and> mft_Environment m \<in> environments \<and> mft_RenderMode m \<in> render_modes \<and>
     mft_ArtifactBasePath m \<noteq> [] \<and> mft_Entry m \<noteq> [] \<and> list_all (file_ok rx) (mft_Files m) \<and>
     list_all (\<lambda>r. mr_Path r \<noteq> [] \<and> mr_Entry r \<noteq> []) (mft_Routes m)"

definition file_schema :: json_object where
  "file_schema =
     [(''type'', JStr ''object''),
      (''additionalProperties'', JBool True),
      (''required'', JArr [JStr ''path'', JStr ''storageKey'', JStr ''contentHash'', JStr ''sizeBytes'',
          JStr ''mimeType'', JStr ''cacheControl'']),
      (''properties'', JObj [
        (''path'', JObj [(''type'', JStr ''string''), (''minLength'', JNum 1)]),
        (''storageKey'', JObj [(''type'', JStr ''string''), (''minLength'', JNum 1)]),
        (''contentHash'', JObj [(''type'', JStr ''string''), (''pattern'', JStr ''^sha256-'')]),
        (''sizeBytes'', JObj [(''type'', JStr ''integer''), (''minimum'', JNum 0)]),
        (''mimeType'', JObj [(''type'', JStr ''string''), (''minLength'', JNum 1)]),
        (''cacheControl'', JObj [(''type'', JStr ''string''), (''minLength'', JNum 1)])])]"

definition route_schema :: json_object where
  "route_schema =
     [(''type'', JStr ''object''),
      (''additionalProperties'', JBool True),
      (''required'', JArr [JStr ''path'', JStr ''entry'']),
      (''properties'', JObj [
        (''path'', JObj [(''type'', JStr ''string''), (''minLength'', JNum 1)]),
        (''entry'', JObj [(''type'', JStr ''string''), (''minLength'', JNum 1)])])]"

lemma validate_file:
  "validate rx file_schema (JObj
     [(''path'', JStr (mf_Path f)), (''storageKey'', JStr (mf_StorageKey f)), (''contentHash'', JStr (mf_ContentHash f)),
      (''sizeBytes'', JNum (of_int (mf_SizeBytes f))), (''mimeType'', JStr (mf_MimeType f)),
      (''cacheControl'', JStr (mf_CacheControl f))]) p = [] \<longleftrightarrow> file_ok rx f"
  by (subst validate_object [where rs = "[''path'', ''storageKey'', ''contentHash'', ''sizeBytes'', ''mimeType'', ''cacheControl'']"])
    (auto simp: file_schema_def keyword_def validate_property file_ok_def)

lemma validate_route:
  "validate rx route_schema (JObj [(''path'', JStr (mr_Path r)), (''entry'', JStr (mr_Entry r))]) p = [] \<longleftrightarrow>
     mr_Path r \<noteq> [] \<and> mr_Entry r \<noteq> []"
  by (subst validate_object [where rs = "[''path'', ''entry'']"])
    (auto simp: route_schema_def keyword_def validate_property)

lemma manifest_schema_keywords:
  "keyword SchemaArtifactManifest ''const'' = None" "keyword SchemaArtifactManifest ''enum'' = None"
  "keyword SchemaArtifactManifest ''type'' = Some (JStr ''object'')"
  "keyword SchemaArtifactManifest ''additionalProperties'' = Some (JBool True)"
  "keyword SchemaArtifactManifest ''properties'' = Some (JObj ArtifactManifest_properties)"
  by (simp_all add: SchemaArtifactManifest_def keyword_def)

lemma manifest_valid_iff: "Validate rx SchemaArtifactManifest (manifest_json m) = [] \<longleftrightarrow> manifest_ok rx m"
proof -
  define rs where "rs = [''schemaVersion'', ''deploymentId'', ''siteId'', ''pageId'', ''slug'', ''version'', ''environment'',
      ''renderMode'', ''artifactBasePath'', ''entry'', ''files'', ''routes'', ''createdAt'']"
  define obj where "obj = the (as_object (manifest_json m))"
  have obj: "manifest_json m = JObj obj" by (simp add: obj_def manifest_json_def)
  have rs: "keyword SchemaArtifactManifest ''required'' = Some (JArr (map JStr rs))"
    by (simp add: SchemaArtifactManifest_def keyword_def rs_def)
  have "\<forall>r \<in> set rs. map_of obj r \<noteq> None"
    by (simp add: rs_def obj_def manifest_json_def)
  then have "Validate rx SchemaArtifactManifest (JObj obj) = [] \<longleftrightarrow>
      (\<forall>(key, val) \<in> set obj. case Option.bind (map_of ArtifactManifest_properties key) as_object of
         Some sub \<Rightarrow> validate rx sub val (''$'' @ ''.'' @ key) = [] | None \<Rightarrow> True)"
    unfolding Validate_def validate_object [OF manifest_schema_keywords(1-4) rs manifest_schema_keywords(5)] by simp
  also have "\<dots> \<longleftrightarrow> manifest_ok rx m"
    by (simp add: obj_def ArtifactManifest_properties_def validate_property manifest_json_def validate_array
        file_schema_def [symmetric] route_schema_def [symmetric] validate_file validate_route
        manifest_ok_def environments_def render_modes_def list_all_length)
  finally show ?thesis unfolding obj .
qed

section \<open>Properties\<close>

text \<open>What a manifest can be built from.\<close>

definition inputs_ok :: "deployment_record \<Rightarrow> string \<Rightarrow> string \<Rightarrow> string \<Rightarrow> manifest_file_input list \<Rightarrow> bool" where
  "inputs_ok rec basePath entry route files \<longleftrightarrow>
     rec_DeploymentID rec \<noteq> [] \<and> rec_SiteID rec \<noteq> [] \<and> rec_PageID rec \<noteq> [] \<and> rec_Slug rec \<noteq> [] \<and>
     rec_Version rec \<noteq> [] \<and> rec_Environment rec \<in> environments \<and> rec_RenderMode rec \<in> render_modes \<and>
     basePath \<noteq> [] \<and> entry \<noteq> [] \<and> route \<noteq> [] \<and>
     (\<forall>f \<in> set files. mfi_Path f \<noteq> [] \<and> mfi_StorageKey f \<noteq> [] \<and> 0 \<le> mfi_SizeBytes f \<and> mfi_SizeBytes f < 2 ^ 63 \<and>
        mfi_MimeType f \<noteq> [] \<and> mfi_CacheControl f \<noteq> [])"

lemma manifest_of_ok:
  assumes "\<And>s. rx ''^sha256-'' s = Some (HasPrefix s ''sha256-'')"
  shows "manifest_ok rx (manifest_of rec basePath entry route files createdAt) \<longleftrightarrow> inputs_ok rec basePath entry route files"
  by (auto simp: manifest_ok_def manifest_of_def inputs_ok_def file_ok_def list_all_iff assms HasPrefix_def)

text \<open>
  C35. When the manifest validates. With a JSON library that decodes what it encoded and the usual meaning of the pattern
  of the schema: \<open>BuildManifest\<close> succeeds exactly when the record's identifiers are not empty, its environment and
  render mode are in the contract's vocabulary and no path, key, size, type or cache class is missing; then it
  returns the manifest of the record and the files, its encoding and the hash of exactly these bytes; otherwise it
  fails with the terminal code VALIDATION_FAILED and nothing is returned.
\<close>

theorem BuildManifest_conforms:
  assumes "manifest_MarshalIndent lib (manifest_of rec basePath entry route files createdAt) = Inr enc"
    and "json_Unmarshal (ml_json lib) (enc @ [CHR 0x0A]) = Inr (manifest_json (manifest_of rec basePath entry route files createdAt))"
    and "\<And>s. ml_regexp lib ''^sha256-'' s = Some (HasPrefix s ''sha256-'')"
  shows "if inputs_ok rec basePath entry route files
    then BuildManifest lib rec basePath entry route files createdAt =
      Inr (manifest_of rec basePath entry route files createdAt, enc @ [CHR 0x0A],
        ''sha256-'' @ hex_EncodeToString (ml_Sum256 lib (enc @ [CHR 0x0A])))
    else \<exists>err. BuildManifest lib rec basePath entry route files createdAt = Inl err \<and>
      Code (From (Some err) st) = ErrorCodeValidationFailed \<and> \<not> Error_Retryable (From (Some err) st)"
proof -
  let ?m = "manifest_of rec basePath entry route files createdAt"
  have "ValidateBytes (ml_json lib) (ml_regexp lib) SchemaArtifactManifest (enc @ [CHR 0x0A]) = [] \<longleftrightarrow>
      inputs_ok rec basePath entry route files"
    using manifest_valid_iff manifest_of_ok [where rx = "ml_regexp lib", OF assms(3)] assms(2) by (simp add: ValidateBytes_def)
  then show ?thesis
    using assms(1)
    by (auto simp: BuildManifest_def Let_def SHA256Hex_def From_def as_error_def As_Classified_def errclass_New_def
        Error_Retryable_def Retryable_def retryable_def split: list.split)
qed

definition sample_manifest_lib :: "manifest \<Rightarrow> manifest_lib" where
  "sample_manifest_lib m =
     \<lparr>ml_json = \<lparr>json_Marshal = (\<lambda>_. Inr ''{}''), json_Unmarshal = (\<lambda>_. Inr (manifest_json m))\<rparr>,
      ml_regexp = (\<lambda>re s. if re = ''^sha256-'' then Some (HasPrefix s ''sha256-'') else Some True),
      manifest_MarshalIndent = (\<lambda>_. Inr ''{}''), manifest_Unmarshal = (\<lambda>_. Inr m), ml_Sum256 = (\<lambda>_. ''h'')\<rparr>"

definition sample_rec :: deployment_record where
  "sample_rec =
     \<lparr>rec_DeploymentID = ''d1'', rec_TeamID = ''t1'', rec_SiteID = ''s1'', rec_PageID = ''p1'', rec_Slug = ''/home'',
      rec_Version = ''v1'', rec_Status = DeploymentStatusExporting, rec_RenderMode = ''fetch_route'', rec_TargetID = ''c1'',
      rec_Environment = ''production''\<rparr>"

definition sample_inputs :: "manifest_file_input list" where
  "sample_inputs = [\<lparr>mfi_Path = ''/home/index.html'', mfi_StorageKey = ''sites/s1/deployments/d1/home/index.html'',
     mfi_SHA256Hex = ''ab'', mfi_SizeBytes = 4, mfi_MimeType = ''text/html'', mfi_CacheControl = CacheControlHTML\<rparr>]"

theorem BuildManifest_conforms_witness:
  "\<exists>enc digest. BuildManifest (sample_manifest_lib (manifest_of sample_rec ''base'' ''/home/index.html'' ''/home'' sample_inputs ''now''))
     sample_rec ''base'' ''/home/index.html'' ''/home'' sample_inputs ''now'' =
     Inr (manifest_of sample_rec ''base'' ''/home/index.html'' ''/home'' sample_inputs ''now'', enc, digest)"
proof -
  let ?m = "manifest_of sample_rec ''base'' ''/home/index.html'' ''/home'' sample_inputs ''now''"
  have "inputs_ok sample_rec ''base'' ''/home/index.html'' ''/home'' sample_inputs"
    by (simp add: inputs_ok_def sample_rec_def sample_inputs_def environments_def render_modes_def CacheControlHTML_def)
  with BuildManifest_conforms [of "sample_manifest_lib ?m" sample_rec "''base''" "''/home/index.html''" "''/home''" sample_inputs
      "''now''" "''{}''"] show ?thesis
    by (simp add: sample_manifest_lib_def)
qed

text \<open>
  Only content-addressed files are immutable. A file gets the year-long immutable class exactly when it is not HTML and
  is under \<open>/_next/static/\<close> or its name ends in a dot, at least eight lower-case hexadecimal digits, a dot and an
  alphanumeric extension; HTML always gets the short class.
\<close>

theorem CacheControlFor_classes:
  "(CacheControlFor path mimeType = CacheControlHashed \<longleftrightarrow>
      \<not> HasPrefix mimeType ''text/html'' \<and> \<not> HasSuffix path ''.html'' \<and>
      (HasPrefix path ''/_next/static/'' \<or>
       (\<exists>pre h ext. path = pre @ ''.'' @ h @ ''.'' @ ext \<and> 8 \<le> length h \<and> list_all is_lower_hex h \<and>
          ext \<noteq> [] \<and> list_all is_alnum ext))) \<and>
   (CacheControlFor path mimeType = CacheControlHTML \<longleftrightarrow> HasPrefix mimeType ''text/html'' \<or> HasSuffix path ''.html'')"
proof -
  have "CacheControlHTML \<noteq> CacheControlHashed" "CacheControlHTML \<noteq> CacheControlNonHashed" "CacheControlNonHashed \<noteq> CacheControlHashed"
    by (simp_all add: CacheControlHTML_def CacheControlHashed_def CacheControlNonHashed_def)
  then show ?thesis
    unfolding hashedNameRe_iff [symmetric] by (auto simp: CacheControlFor_def IsHashedAsset_def)
qed

end
