(* ===== verification/Harvest_Walk.thy ===== *)
theory Harvest_Walk
  imports Harvest "HOL-Library.Multiset"
begin

text \<open>
  What the harvest guarantees: the allowlists by segments of the path, that a bounded walk returns, that what it
  returns is allowed, distinct, sorted and within the size limit, and that nothing that is referenced and allowed is missing.
\<close>

section \<open>Allowlists\<close>

lemma Allows_iff:
  "Allows a p \<longleftrightarrow> (\<exists>entry \<in> set a. (\<exists>pre. entry = pre @ ''/*'' \<and> HasPrefix p (pre @ ''/'')) \<or> \<not> HasSuffix entry ''/*'' \<and> p = entry)"
proof (induction a p rule: Allows.induct)
  case (2 entry a p)
  show ?case
  proof (cases "HasSuffix entry ''/*''")
    case True
    then obtain pre where "entry = pre @ ''/*''" by (auto simp: HasSuffix_def suffix_def)
    with 2 True show ?thesis by (auto simp: CutSuffix_def)
  next
    case False
    moreover have "entry \<noteq> pre @ ''/*''" for pre using False by (auto simp: HasSuffix_def suffix_def)
    ultimately show ?thesis using 2 by (auto simp: CutSuffix_def)
  qed
qed simp

lemma Join_append: "xs \<noteq> [] \<Longrightarrow> ys \<noteq> [] \<Longrightarrow> Join (xs @ ys) sep = Join xs sep @ sep @ Join ys sep"
  by (induction xs sep rule: Join.induct) (auto simp: Join_Cons)

lemma Join_prefix_iff:
  assumes "\<forall>s \<in> set xs. CHR ''/'' \<notin> set s" "\<forall>s \<in> set ys. CHR ''/'' \<notin> set s" "xs \<noteq> []"
  shows "Join ys ''/'' = Join xs ''/'' \<and> ys \<noteq> [] \<or> prefix (Join xs ''/'' @ ''/'') (Join ys ''/'') \<longleftrightarrow> prefix xs ys"
proof
  assume "Join ys ''/'' = Join xs ''/'' \<and> ys \<noteq> [] \<or> prefix (Join xs ''/'' @ ''/'') (Join ys ''/'')"
  then consider "Join ys ''/'' = Join xs ''/''" "ys \<noteq> []" | t where "Join ys ''/'' = Join xs ''/'' @ CHR ''/'' # t"
    by (auto simp: prefix_def)
  then show "prefix xs ys"
  proof cases
    case 1
    then show ?thesis using Split_Join [of xs "CHR ''/''"] Split_Join [of ys "CHR ''/''"] assms by simp
  next
    case (2 t)
    then have "ys \<noteq> []" by auto
    then have "ys = Split (Join xs ''/'' @ CHR ''/'' # t) CHR ''/''"
      using Split_Join [of ys "CHR ''/''"] assms 2 by simp
    then show ?thesis using Split_Join [of xs "CHR ''/''"] assms by (simp add: Split_append prefix_def)
  qed
next
  assume "prefix xs ys"
  then obtain zs where "ys = xs @ zs" by (auto simp: prefix_def)
  then show "Join ys ''/'' = Join xs ''/'' \<and> ys \<noteq> [] \<or> prefix (Join xs ''/'' @ ''/'') (Join ys ''/'')"
    using assms(3) by (cases zs) (simp_all add: Join_append)
qed

lemma resolve_TrimPrefix: "resolve (TrimPrefix p ''/'') = resolve p"
  by (cases p) (auto simp: TrimPrefix_def resolve_def)

lemma Join_not_slash:
  assumes "list_all (\<lambda>s. s \<noteq> [] \<and> CHR ''/'' \<notin> set s) xs" "xs \<noteq> []"
  shows "\<not> HasSuffix (CHR ''/'' # Join xs ''/'') ''/''"
proof -
  have "last xs \<noteq> []" "CHR ''/'' \<notin> set (last xs)" using assms by (auto simp: list_all_iff)
  then have "last (last xs) \<noteq> CHR ''/''" by (metis last_in_set)
  with Join_last [OF assms(2) \<open>last xs \<noteq> []\<close>, of "''/''"] show ?thesis
    by (auto simp: HasSuffix_def suffix_def dest!: arg_cong [of _ _ last] split: if_splits)
qed

lemma pathWithinPrefix_iff: "pathWithinPrefix p q \<longleftrightarrow> prefix (resolve q) (resolve p)"
proof -
  have clean: "path_Clean (''/'' @ TrimPrefix s ''/'') = CHR ''/'' # Join (resolve s) ''/''" for s
    by (simp add: path_Clean_rooted resolve_TrimPrefix)
  have segs: "\<forall>s \<in> set (resolve s'). CHR ''/'' \<notin> set s" for s' by (auto dest: resolve_seg)
  show ?thesis
  proof (cases "resolve q = []")
    case True
    then show ?thesis
      unfolding pathWithinPrefix_def clean by (simp add: Let_def TrimSuffix_def HasSuffix_def)
  next
    case False
    have all: "list_all (\<lambda>s. s \<noteq> [] \<and> CHR ''/'' \<notin> set s) (resolve q)"
      by (auto simp: list_all_iff dot_or_empty_def dest: resolve_seg)
    then have "Join (resolve q) ''/'' \<noteq> []"
      using False Join_last [OF False, of "''/''"] by (auto simp: list_all_iff)
    moreover have "TrimSuffix (CHR ''/'' # Join (resolve q) ''/'') ''/'' = CHR ''/'' # Join (resolve q) ''/''"
      using Join_not_slash [OF all False] by (simp add: TrimSuffix_def)
    ultimately have "pathWithinPrefix p q \<longleftrightarrow>
        Join (resolve p) ''/'' = Join (resolve q) ''/'' \<and> resolve p \<noteq> [] \<or>
        prefix (Join (resolve q) ''/'' @ ''/'') (Join (resolve p) ''/'')"
      unfolding pathWithinPrefix_def clean by (auto simp: Let_def HasPrefix_def)
    then show ?thesis using Join_prefix_iff [OF segs segs False] by simp
  qed
qed

text \<open>What an entry of the external allowlist admits.\<close>

definition entry_admits :: "harvest_lib \<Rightarrow> url \<Rightarrow> string \<Rightarrow> bool" where
  "entry_admits lib u entry \<longleftrightarrow>
     (if Contains entry ''/''
      then \<exists>eu. url_Parse lib entry = Some eu \<and> u_Host eu \<noteq> [] \<and> EqualFold (u_Scheme u) (u_Scheme eu) \<and>
        ToLower (unicode_lower lib) (u_Hostname u) = ToLower (unicode_lower lib) (u_Hostname eu) \<and> u_Port u = u_Port eu \<and>
        prefix (resolve (u_EscapedPath eu)) (resolve (u_EscapedPath u))
      else ToLower (unicode_lower lib) (u_Hostname u) = ToLower (unicode_lower lib) entry)"

lemma allows_url_entries_iff: "allows_url_entries lib a u \<longleftrightarrow> (\<exists>entry \<in> set a. entry_admits lib u entry)"
proof (induction a)
  case (Cons entry a)
  have "allows_url_entries lib (entry # a) u \<longleftrightarrow> entry_admits lib u entry \<or> allows_url_entries lib a u"
    by (cases "url_Parse lib entry") (auto simp: Let_def pathWithinPrefix_iff entry_admits_def)
  with Cons show ?case by simp
qed simp

section \<open>The walk returns\<close>

lemma length_add_refs: "length (foldl add_ref acc xs) \<le> length acc + length xs"
proof (induction xs arbitrary: acc)
  case (Cons x xs)
  have "length (add_ref acc x) \<le> Suc (length acc)" by (simp add: add_ref_def Let_def)
  with Cons [of "add_ref acc x"] show ?case by simp
qed simp

lemma length_css_find: "length (css_find s) \<le> length s"
proof (induction s rule: css_find.induct)
  case (2 c s)
  show ?case
  proof (cases "css_match (c # s)")
    case (Some m)
    then obtain body rest where m: "css_match (c # s) = Some (body, rest)" by (cases m) auto
    with 2(2) [OF m refl] css_match_shorter [OF m] show ?thesis by simp
  qed (use 2(1) in simp)
qed simp

lemma length_ExtractCSSURLs: "length (ExtractCSSURLs css) \<le> length css"
  using length_add_refs [of "[]" "css_find css"] length_css_find [of css] by (simp add: ExtractCSSURLs_def)

text \<open>
  The work that is left: a reference of a stylesheet may be queued a second time, resolved; each byte of the budget pays
  for a reference.
\<close>

definition ref_weight :: "href \<Rightarrow> nat" where
  "ref_weight r = (if ref_baseDir r \<noteq> [] then 2 else 1)"

definition queue_weight :: "href list \<Rightarrow> nat" where
  "queue_weight q = sum_list (map ref_weight q)"

definition work_left :: "'w harvester \<Rightarrow> walk \<Rightarrow> nat" where
  "work_left h st = queue_weight (wk_queue st) + 2 * nat (hv_MaxTotalBytes h - wk_totalBytes st)"

lemma queue_weight_simps [simp]:
  "queue_weight [] = 0" "queue_weight (r # q) = ref_weight r + queue_weight q"
  "queue_weight (q @ q') = queue_weight q + queue_weight q'" "0 < ref_weight r"
  by (simp_all add: queue_weight_def ref_weight_def)

lemma queue_weight_css: "queue_weight (map (\<lambda>c. \<lparr>ref_raw = c, ref_baseDir = d\<rparr>) cs) \<le> 2 * length cs"
  by (induction cs) (auto simp: ref_weight_def)

lemma appendFile_Inr:
  assumes "appendFile h st f = Inr st'"
  shows "st' = st\<lparr>wk_files := wk_files st @ [f], wk_totalBytes := wk_totalBytes st + int (length (hf_Body f))\<rparr>"
    "hv_MaxTotalBytes h > 0 \<Longrightarrow> wk_totalBytes st + int (length (hf_Body f)) \<le> hv_MaxTotalBytes h"
  using assms by (auto simp: appendFile_def Let_def split: if_splits)

lemma work_left_append:
  assumes "appendFile h (st\<lparr>wk_visited := vs\<rparr>) f = Inr st'" "hv_MaxTotalBytes h > 0"
  shows "work_left h st' + 2 * length (hf_Body f) = work_left h st"
proof -
  note st' = appendFile_Inr [OF assms(1)]
  have "work_left h st' = queue_weight (wk_queue st) + 2 * nat (hv_MaxTotalBytes h - (wk_totalBytes st + int (length (hf_Body f))))"
    by (simp add: work_left_def st'(1))
  moreover have "wk_totalBytes st + int (length (hf_Body f)) \<le> hv_MaxTotalBytes h" using st'(2) [OF assms(2)] by simp
  ultimately show ?thesis by (simp add: work_left_def)
qed

section \<open>References, targets and provenance\<close>

text \<open>The path of a local reference, the URL of an external one, and the references of a stylesheet.\<close>

definition local_path :: "string \<Rightarrow> string" where
  "local_path raw = takeWhile (\<lambda>c. c \<noteq> CHR ''?'' \<and> c \<noteq> CHR ''#'') raw"

definition with_scheme :: "string \<Rightarrow> string" where
  "with_scheme raw = (if HasPrefix raw ''//'' then ''https:'' @ raw else raw)"

definition css_refs :: "'w harvester \<Rightarrow> hfile \<Rightarrow> href list" where
  "css_refs h f =
     (if isCSS (hv_lib h) (hf_Path f) (hf_MimeType f)
      then map (\<lambda>c. \<lparr>ref_raw = c, ref_baseDir = path_Dir (hf_Path f)\<rparr>) (ExtractCSSURLs (hf_Body f)) else [])"

definition css_clean :: "'w harvester \<Rightarrow> hfile \<Rightarrow> bool" where
  "css_clean h f \<longleftrightarrow> isCSS (hv_lib h) (hf_Path f) (hf_MimeType f) \<longrightarrow> \<not> Contains (hf_Body f) ''asset://''"

text \<open>The kinds of reference: one that is passed over, one with a host, and one relative to a directory. A relative one is resolved.\<close>

definition ignored :: "string \<Rightarrow> bool" where
  "ignored raw \<longleftrightarrow> raw = [] \<or> list_ex (HasPrefix raw) (skipped_prefixes @ [''asset://''])"

definition has_host :: "string \<Rightarrow> bool" where
  "has_host raw \<longleftrightarrow> HasPrefix raw ''http://'' \<or> HasPrefix raw ''https://'' \<or> HasPrefix raw ''//''"

definition ref_string :: "href \<Rightarrow> string" where
  "ref_string r =
     (let raw = TrimSpace (ref_raw r) in
      if \<not> ignored raw \<and> \<not> has_host raw \<and> \<not> HasPrefix raw ''/'' \<and> ref_baseDir r \<noteq> []
      then TrimSpace (path_Join (ref_baseDir r) raw) else raw)"

text \<open>
  The path that a reference stands for, when it is allowed: on the allowlist of the origin, or a URL with a host that is admitted and can be fetched.
\<close>

definition admitted_url :: "'w harvester \<Rightarrow> string \<Rightarrow> url \<Rightarrow> bool" where
  "admitted_url h raw u \<longleftrightarrow> url_Parse (hv_lib h) (with_scheme raw) = Some u \<and> u_Host u \<noteq> [] \<and> AllowsURL (hv_lib h) (hv_External h) u"

definition string_target :: "'w harvester \<Rightarrow> string \<Rightarrow> string \<Rightarrow> bool" where
  "string_target h raw p \<longleftrightarrow> \<not> ignored raw \<and>
     (if has_host raw then hv_FetchExternal h \<noteq> None \<and> (\<exists>u. admitted_url h raw u \<and> NormalizePath (u_Path u) = Inr p)
      else HasPrefix raw ''/'' \<and> NormalizePath (local_path raw) = Inr p \<and> Allows (hv_Allow h) p)"

definition target :: "'w harvester \<Rightarrow> href \<Rightarrow> string \<Rightarrow> bool" where
  "target h r = string_target h (ref_string r)"

text \<open>
  Where a file comes from. Its bytes and its type are what a fetch answered: for a reference to the origin the fetch of the path; for a reference with a
  host the fetch, within the limit for external files, of the URL that this very reference parses to.
\<close>

definition max_external :: "'w harvester \<Rightarrow> int" where
  "max_external h = (if hv_MaxExternalBytes h \<le> 0 then DefaultMaxExternalBytes else hv_MaxExternalBytes h)"

definition fetch_gives :: "('w, gerr + asset) state \<Rightarrow> hfile \<Rightarrow> bool" where
  "fetch_gives fetch f \<longleftrightarrow> (\<exists>w asset w'. run_state fetch w = (Inr asset, w') \<and> hf_Body f = as_Body asset \<and> hf_MimeType f = as_MimeType asset)"

definition from_origin :: "'w harvester \<Rightarrow> string \<Rightarrow> hfile \<Rightarrow> bool" where
  "from_origin h raw f \<longleftrightarrow> \<not> ignored raw \<and> \<not> has_host raw \<and> HasPrefix raw ''/'' \<and>
     NormalizePath (local_path raw) = Inr (hf_Path f) \<and> Allows (hv_Allow h) (hf_Path f) \<and> fetch_gives (hv_Fetch h (hf_Path f)) f \<and> css_clean h f"

definition from_external :: "'w harvester \<Rightarrow> string \<Rightarrow> hfile \<Rightarrow> bool" where
  "from_external h raw f \<longleftrightarrow> \<not> ignored raw \<and> has_host raw \<and>
     (\<exists>u fetch. admitted_url h raw u \<and> NormalizePath (u_Path u) = Inr (hf_Path f) \<and>
        hv_FetchExternal h = Some fetch \<and> fetch_gives (fetch (u_String u) (max_external h)) f)"

lemma wp_answers:
  "wp fetch (\<lambda>r w'. \<forall>asset f. r = Inr asset \<longrightarrow> hf_Body f = as_Body asset \<longrightarrow> hf_MimeType f = as_MimeType asset \<longrightarrow> fetch_gives fetch f) w"
  by (auto simp: wp_def fetch_gives_def split: prod.splits)

lemma harvestSameOrigin_spec:
  "wp (harvestSameOrigin h raw visited) (\<lambda>r w'. \<forall>fs refs visited'. r = Inr (fs, refs, visited') \<longrightarrow>
     (case NormalizePath (local_path raw) of
        Inl _ \<Rightarrow> False
      | Inr p \<Rightarrow>
          if \<not> Allows (hv_Allow h) p \<or> p \<in> set visited then fs = [] \<and> refs = [] \<and> visited' = visited
          else \<exists>f. fs = [f] \<and> hf_Path f = p \<and> visited' = p # visited \<and> fetch_gives (hv_Fetch h p) f \<and> css_clean h f \<and> refs = css_refs h f)) w"
proof (cases "NormalizePath (local_path raw)")
  case (Inr p)
  consider "HasPrefix (local_path raw) ''/_next/image''"
    | "\<not> HasPrefix (local_path raw) ''/_next/image''" "\<not> Allows (hv_Allow h) p \<or> p \<in> set visited"
    | "\<not> HasPrefix (local_path raw) ''/_next/image''" "Allows (hv_Allow h) p" "p \<notin> set visited"
    by blast
  then show ?thesis
  proof cases
    case 3
    show ?thesis
      unfolding harvestSameOrigin_def Let_def local_path_def [symmetric] using 3 Inr
      by simp (rule wp_mono [OF wp_answers], auto simp: css_clean_def css_refs_def GuardCSS_def split: sum.splits if_splits)
  qed (auto simp: harvestSameOrigin_def Let_def local_path_def [symmetric] Inr)
qed (auto simp: harvestSameOrigin_def Let_def local_path_def [symmetric])

lemma harvestExternal_spec:
  assumes "has_host raw" "\<not> ignored raw"
  shows "wp (harvestExternal h raw (max_external h)) (\<lambda>r w'.
     (r = Inr None \<longrightarrow> (\<forall>p. \<not> string_target h raw p)) \<and>
     (\<forall>f. r = Inr (Some f) \<longrightarrow> from_external h raw f \<and> (\<forall>p. string_target h raw p \<longrightarrow> p = hf_Path f))) w"
proof (cases "url_Parse (hv_lib h) (with_scheme raw)")
  case (Some u)
  have admitted: "admitted_url h raw u' \<longleftrightarrow> u' = u \<and> u_Host u \<noteq> [] \<and> AllowsURL (hv_lib h) (hv_External h) u" for u'
    using Some by (auto simp: admitted_url_def)
  show ?thesis
  proof (cases "u_Host u = [] \<or> \<not> AllowsURL (hv_lib h) (hv_External h) u \<or> hv_FetchExternal h = None")
    case True
    then show ?thesis
      unfolding harvestExternal_def Let_def with_scheme_def [symmetric] Some option.case
      using assms by (auto simp: string_target_def admitted split: option.splits)
  next
    case False
    then obtain fetch where fetch: "u_Host u \<noteq> []" "AllowsURL (hv_lib h) (hv_External h) u" "hv_FetchExternal h = Some fetch" by blast
    then show ?thesis
      unfolding harvestExternal_def Let_def with_scheme_def [symmetric] Some option.case
      using assms by simp (rule wp_mono [OF wp_answers],
        auto simp: string_target_def from_external_def admitted fetch split: sum.splits)
  qed
next
  case None
  then show ?thesis
    unfolding harvestExternal_def Let_def with_scheme_def [symmetric] None using assms by (simp add: string_target_def admitted_url_def None)
qed

section \<open>Invariants of the walk\<close>

text \<open>
  \<open>own\<close> are the files that came from the origin itself; the references to follow are those of the page and of the own stylesheets. Every file comes from
  one of them; every one whose target is not yet among the files is still represented in the queue, and the queue has nothing else.
\<close>

definition refs_of :: "'w harvester \<Rightarrow> href set \<Rightarrow> hfile set \<Rightarrow> href set" where
  "refs_of h roots own = roots \<union> (\<Union>f \<in> own. set (css_refs h f))"

definition harvested :: "'w harvester \<Rightarrow> href set \<Rightarrow> hfile set \<Rightarrow> hfile \<Rightarrow> bool" where
  "harvested h roots own f \<longleftrightarrow> (\<exists>r \<in> refs_of h roots own. if f \<in> own then from_origin h (ref_string r) f else from_external h (ref_string r) f)"

definition walk_inv :: "'w harvester \<Rightarrow> string \<Rightarrow> href set \<Rightarrow> hfile set \<Rightarrow> walk \<Rightarrow> bool" where
  "walk_inv h page roots own st \<longleftrightarrow>
     set (wk_visited st) = hf_Path ` set (wk_files st) \<and> distinct (map hf_Path (wk_files st)) \<and> own \<subseteq> set (wk_files st) \<and>
     (\<forall>f \<in> set (wk_files st). harvested h roots own f) \<and>
     wk_totalBytes st = int (length page) + int (sum_list (map (length \<circ> hf_Body) (wk_files st))) \<and>
     (hv_MaxTotalBytes h > 0 \<and> wk_files st \<noteq> [] \<longrightarrow> wk_totalBytes st \<le> hv_MaxTotalBytes h)"

definition represented :: "'w harvester \<Rightarrow> walk \<Rightarrow> href \<Rightarrow> bool" where
  "represented h st r \<longleftrightarrow> (\<forall>p. target h r p \<longrightarrow>
     p \<in> set (wk_visited st) \<or> (\<exists>q \<in> set (wk_queue st). target h q p))"

definition walk_closed :: "'w harvester \<Rightarrow> href set \<Rightarrow> hfile set \<Rightarrow> walk \<Rightarrow> bool" where
  "walk_closed h roots own st \<longleftrightarrow> (\<forall>r \<in> refs_of h roots own. represented h st r) \<and>
     ref_string ` set (wk_queue st) \<subseteq> ref_string ` refs_of h roots own"

lemma refs_of_mono: "own \<subseteq> own' \<Longrightarrow> refs_of h roots own \<subseteq> refs_of h roots own'"
  by (auto simp: refs_of_def)

lemma walk_inv_queue [simp]: "walk_inv h page roots own (st\<lparr>wk_queue := q\<rparr>) = walk_inv h page roots own st"
  by (cases st) (simp add: walk_inv_def)

lemma harvested_safe: "harvested h roots own f \<Longrightarrow> safe_path (hf_Path f)"
  by (auto simp: harvested_def from_origin_def from_external_def split: if_splits dest: NormalizePath_safe)

lemma harvested_more:
  assumes "harvested h roots own f" "own' = own \<or> own' = insert g own" "f \<noteq> g"
  shows "harvested h roots own' f"
proof -
  from assms(2) have "own \<subseteq> own'" by auto
  with assms refs_of_mono [OF this, of h roots] show ?thesis unfolding harvested_def by auto
qed

lemma walk_inv_append:
  assumes "walk_inv h page roots own st" "appendFile h (st\<lparr>wk_visited := hf_Path f # wk_visited st\<rparr>) f = Inr st'"
    and "hf_Path f \<notin> set (wk_visited st)" "harvested h roots own' f" "own' = own \<or> own' = insert f own"
  shows "walk_inv h page roots own' st'"
proof -
  note st' = appendFile_Inr [OF assms(2)]
  have "f \<notin> set (wk_files st)" using assms(1,3) by (auto simp: walk_inv_def)
  then have "\<forall>g \<in> set (wk_files st). harvested h roots own' g"
    using assms(1,5) by (auto simp: walk_inv_def intro: harvested_more)
  with assms(1,3-5) st' show ?thesis
    unfolding walk_inv_def by (auto simp: image_iff)
qed

text \<open>What one round of the loop does, whichever branch it takes.\<close>

definition round_ok :: "'w harvester \<Rightarrow> string \<Rightarrow> href set \<Rightarrow> hfile set \<Rightarrow> href \<Rightarrow> walk \<Rightarrow> walk \<Rightarrow> bool" where
  "round_ok h page roots own cur st st' \<longleftrightarrow>
     (\<exists>own' new. own \<subseteq> own' \<and> walk_inv h page roots own' st' \<and> wk_queue st' = wk_queue st @ new \<and>
        set (wk_visited st) \<subseteq> set (wk_visited st') \<and>
        (\<forall>p. target h cur p \<longrightarrow> p \<in> set (wk_visited st') \<or> (\<exists>q \<in> set new. target h q p)) \<and>
        (\<forall>f \<in> own' - own. set (css_refs h f) \<subseteq> set new) \<and>
        ref_string ` set new \<subseteq> ref_string ` refs_of h roots own' \<and>
        (hv_MaxTotalBytes h > 0 \<longrightarrow> work_left h st' < ref_weight cur + work_left h st))"

lemma round_ok_same:
  assumes "walk_inv h page roots own st" "\<forall>p. target h cur p \<longrightarrow> p \<in> set (wk_visited st)"
  shows "round_ok h page roots own cur st st"
  unfolding round_ok_def using assms by (intro exI [of _ own] exI [of _ "[]"]) simp

lemma round_ok_external:
  assumes "walk_inv h page roots own st" "\<forall>p. target h cur p \<longrightarrow> p = hf_Path f" "hf_Path f \<notin> set (wk_visited st)"
    and "from_external h (ref_string r) f" "r \<in> refs_of h roots own"
    and "appendFile h (st\<lparr>wk_visited := hf_Path f # wk_visited st\<rparr>) f = Inr st'"
  shows "round_ok h page roots own cur st st'"
proof -
  note st' = appendFile_Inr [OF assms(6)]
  have "f \<notin> own" using assms(1,3) by (auto simp: walk_inv_def)
  then have "harvested h roots own f" using assms(4,5) by (auto simp: harvested_def)
  then have "walk_inv h page roots own st'" using walk_inv_append [OF assms(1,6,3), of own] by simp
  moreover have "work_left h st' < ref_weight cur + work_left h st" if "hv_MaxTotalBytes h > 0"
    using work_left_append [OF assms(6) that] queue_weight_simps(4) [of cur] by linarith
  ultimately show ?thesis
    unfolding round_ok_def using assms(2) by (intro exI [of _ own] exI [of _ "[]"]) (auto simp: st'(1))
qed

lemma round_ok_local:
  assumes "walk_inv h page roots own st" "hf_Path f \<notin> set (wk_visited st)" "\<forall>p. target h cur p \<longrightarrow> p = hf_Path f"
    and "from_origin h (ref_string r) f" "r \<in> refs_of h roots own"
    and "appendFile h (st\<lparr>wk_visited := hf_Path f # wk_visited st\<rparr>) f = Inr st1"
  shows "round_ok h page roots own cur st (st1\<lparr>wk_queue := wk_queue st1 @ css_refs h f\<rparr>)"
proof -
  note st1 = appendFile_Inr [OF assms(6)]
  have "harvested h roots (insert f own) f" using assms(4,5) by (auto simp: harvested_def refs_of_def)
  then have "walk_inv h page roots (insert f own) (st1\<lparr>wk_queue := wk_queue st1 @ css_refs h f\<rparr>)"
    using walk_inv_append [OF assms(1,6,2), of "insert f own"] by simp
  moreover have refs: "queue_weight (css_refs h f) \<le> 2 * length (hf_Body f)"
    using queue_weight_css [of "path_Dir (hf_Path f)" "ExtractCSSURLs (hf_Body f)"] length_ExtractCSSURLs [of "hf_Body f"]
    by (simp add: css_refs_def)
  have "work_left h (st1\<lparr>wk_queue := wk_queue st1 @ css_refs h f\<rparr>) < ref_weight cur + work_left h st"
    if "hv_MaxTotalBytes h > 0"
  proof -
    have "work_left h (st1\<lparr>wk_queue := wk_queue st1 @ css_refs h f\<rparr>) = work_left h st1 + queue_weight (css_refs h f)"
      by (simp add: work_left_def)
    then show ?thesis using work_left_append [OF assms(6) that] refs queue_weight_simps(4) [of cur] by linarith
  qed
  ultimately show ?thesis
    unfolding round_ok_def using assms(3)
    by (intro exI [of _ "insert f own"] exI [of _ "css_refs h f"]) (auto simp: st1(1) refs_of_def)
qed

lemma visit_external:
  assumes "walk_inv h page roots own st" "r0 \<in> refs_of h roots own" "ref_string cur = ref_string r0"
    and "raw = TrimSpace (ref_raw cur)" "\<not> ignored raw" "has_host raw"
  shows "wp (visit h (max_external h) cur st) (\<lambda>r w'. \<forall>st'. r = Inr st' \<longrightarrow> round_ok h page roots own cur st st') w"
proof -
  have raw: "ref_string r0 = raw" "target h cur = string_target h raw"
    using assms(3-6) by (simp_all add: target_def ref_string_def Let_def)
  have visit: "visit h (max_external h) cur st = do {
      file \<leftarrow> harvestExternal h raw (max_external h);
      ret (case file of
             Inl err \<Rightarrow> Inl err
           | Inr None \<Rightarrow> Inr st
           | Inr (Some file) \<Rightarrow>
               if hf_Path file \<in> set (wk_visited st) then Inr st
               else appendFile h (st\<lparr>wk_visited := hf_Path file # wk_visited st\<rparr>) file)
    }"
    using assms(4-6) unfolding visit_def Let_def by (auto simp: ignored_def has_host_def)
  show ?thesis
    unfolding visit wp_bind wp_return
  proof (rule wp_mono [OF harvestExternal_spec [OF assms(6,5)]], goal_cases)
    case (1 got w')
    show ?case
    proof (cases got)
      case (Inr opt)
      show ?thesis
      proof (cases opt)
        case None
        with 1 Inr round_ok_same [OF assms(1)] show ?thesis by (simp add: raw(2))
      next
        case (Some f)
        with 1 Inr have f: "from_external h (ref_string r0) f" "\<forall>p. target h cur p \<longrightarrow> p = hf_Path f" by (simp_all add: raw)
        have "round_ok h page roots own cur st st" if "hf_Path f \<in> set (wk_visited st)"
          by (rule round_ok_same [OF assms(1)]) (use f(2) that in auto)
        with Inr Some round_ok_external [OF assms(1) f(2) _ f(1) assms(2)] show ?thesis by simp
      qed
    qed simp
  qed
qed

lemma visit_local:
  assumes "walk_inv h page roots own st" "r0 \<in> refs_of h roots own" "ref_string cur = ref_string r0"
    and "raw = TrimSpace (ref_raw cur)" "\<not> ignored raw" "\<not> has_host raw" "HasPrefix raw ''/''"
  shows "wp (visit h limit cur st) (\<lambda>r w'. \<forall>st'. r = Inr st' \<longrightarrow> round_ok h page roots own cur st st') w"
proof -
  have raw: "ref_string r0 = raw" "target h cur = string_target h raw"
    using assms(3-7) by (simp_all add: target_def ref_string_def Let_def)
  have target: "target h cur p \<longleftrightarrow> NormalizePath (local_path raw) = Inr p \<and> Allows (hv_Allow h) p" for p
    using assms(5-7) by (simp add: raw string_target_def)
  have visit: "visit h limit cur st = do {
      r \<leftarrow> harvestSameOrigin h raw (wk_visited st);
      ret (case r of
             Inl err \<Rightarrow> Inl err
           | Inr (newFiles, newRefs, visited) \<Rightarrow>
               (case appendFiles h (st\<lparr>wk_visited := visited\<rparr>) newFiles of
                  Inl err \<Rightarrow> Inl err
                | Inr st \<Rightarrow> Inr (st\<lparr>wk_queue := wk_queue st @ newRefs\<rparr>)))
    }"
    using assms(4-7) unfolding visit_def Let_def by (auto simp: ignored_def has_host_def)
  show ?thesis
    unfolding visit wp_bind wp_return
  proof (rule wp_mono [OF harvestSameOrigin_spec], intro allI impI, goal_cases)
    case (1 r w' st')
    from 1(2) obtain fs refs visited where r1: "r = Inr (fs, refs, visited)" by (cases r) auto
    note 1 = 1(1) [rule_format, OF r1] 1(2) [unfolded r1]
    then obtain p where p: "NormalizePath (local_path raw) = Inr p" by (cases "NormalizePath (local_path raw)") auto
    note 1 = 1 [unfolded p sum.case]
    show ?case
    proof (cases "\<not> Allows (hv_Allow h) p \<or> p \<in> set (wk_visited st)")
      case True
      then have "st' = st" using 1 by auto
      moreover have "round_ok h page roots own cur st st"
        by (rule round_ok_same [OF assms(1)]) (use True p in \<open>auto simp: target\<close>)
      ultimately show ?thesis by simp
    next
      case False
      then obtain f where f: "fs = [f]" "hf_Path f = p" "visited = p # wk_visited st" "fetch_gives (hv_Fetch h p) f" "css_clean h f"
          "refs = css_refs h f"
        using 1 by auto
      then obtain st1 where st1: "appendFile h (st\<lparr>wk_visited := hf_Path f # wk_visited st\<rparr>) f = Inr st1"
        "st' = st1\<lparr>wk_queue := wk_queue st1 @ css_refs h f\<rparr>"
        using 1 by (auto split: sum.splits)
      have "from_origin h (ref_string r0) f" using assms(5-7) f False p by (simp add: raw(1) from_origin_def)
      from round_ok_local [OF assms(1) _ _ this assms(2) st1(1), of cur] False f(2) p show ?thesis
        by (simp add: st1(2) target)
    qed
  qed
qed

lemma visit_round:
  assumes "walk_inv h page roots own st" "r0 \<in> refs_of h roots own" "ref_string cur = ref_string r0"
  shows "wp (visit h (max_external h) cur st) (\<lambda>r w'. \<forall>st'. r = Inr st' \<longrightarrow> round_ok h page roots own cur st st') w"
proof -
  define raw where "raw = TrimSpace (ref_raw cur)"
  have none: "\<forall>p. target h cur p \<longrightarrow> p \<in> set (wk_visited st)" if "ref_string cur = raw" "ignored raw \<or> \<not> has_host raw \<and> \<not> HasPrefix raw ''/''"
    using that by (auto simp: target_def string_target_def)
  consider (ignored) "ignored raw" | (host) "\<not> ignored raw" "has_host raw"
    | (local) "\<not> ignored raw" "\<not> has_host raw" "HasPrefix raw ''/''"
    | (relative) "\<not> ignored raw" "\<not> has_host raw" "\<not> HasPrefix raw ''/''"
    by blast
  then show ?thesis
  proof cases
    case ignored
    then have "ref_string cur = raw" by (simp add: ref_string_def raw_def)
    from round_ok_same [OF assms(1) none [OF this]] ignored show ?thesis
      unfolding visit_def Let_def raw_def [symmetric] by (auto simp: ignored_def)
  next
    case relative
    show ?thesis
    proof (cases "ref_baseDir cur = []")
      case True
      then have "ref_string cur = raw" by (simp add: ref_string_def raw_def)
      from round_ok_same [OF assms(1) none [OF this]] relative True show ?thesis
        unfolding visit_def Let_def raw_def [symmetric] by (auto simp: ignored_def has_host_def)
    next
      case False
      let ?q = "\<lparr>ref_raw = path_Join (ref_baseDir cur) raw, ref_baseDir = []\<rparr>"
      have q: "ref_string ?q = ref_string cur" using relative False by (simp add: ref_string_def raw_def Let_def)
      then have "ref_string ?q \<in> ref_string ` refs_of h roots own" using assms(2,3) by simp
      moreover have "ref_weight cur = 2" "ref_weight ?q = 1" using False by (simp_all add: ref_weight_def)
      ultimately have "round_ok h page roots own cur st (st\<lparr>wk_queue := wk_queue st @ [?q]\<rparr>)"
        unfolding round_ok_def using assms(1) q
        by (intro exI [of _ own] exI [of _ "[?q]"]) (simp add: work_left_def target_def)
      then show ?thesis
        using relative False by (auto simp: visit_def Let_def raw_def [symmetric] ignored_def has_host_def)
    qed
  qed (use visit_external [OF assms raw_def] visit_local [OF assms raw_def] in auto)
qed

section \<open>The whole walk\<close>

lemma round_closed:
  assumes "walk_closed h roots own (st\<lparr>wk_queue := cur # wk_queue st\<rparr>)" "round_ok h page roots own cur st st'"
  obtains own' where "walk_inv h page roots own' st'" "walk_closed h roots own' st'"
    "hv_MaxTotalBytes h > 0 \<longrightarrow> work_left h st' < work_left h (st\<lparr>wk_queue := cur # wk_queue st\<rparr>)"
proof -
  obtain own' new where ok: "own \<subseteq> own'" "walk_inv h page roots own' st'" "wk_queue st' = wk_queue st @ new"
      "set (wk_visited st) \<subseteq> set (wk_visited st')"
      "\<forall>p. target h cur p \<longrightarrow> p \<in> set (wk_visited st') \<or> (\<exists>q \<in> set new. target h q p)"
      "\<forall>f \<in> own' - own. set (css_refs h f) \<subseteq> set new"
      "ref_string ` set new \<subseteq> ref_string ` refs_of h roots own'"
      "hv_MaxTotalBytes h > 0 \<longrightarrow> work_left h st' < ref_weight cur + work_left h st"
    using assms(2) unfolding round_ok_def by (elim exE conjE) (rule that)
  have old: "represented h st' r" if "represented h (st\<lparr>wk_queue := cur # wk_queue st\<rparr>) r" for r
    unfolding represented_def
  proof (intro allI impI)
    fix p assume p: "target h r p"
    with that consider "p \<in> set (wk_visited st)" | "target h cur p" | q where "q \<in> set (wk_queue st)" "target h q p"
      by (auto simp: represented_def)
    then show "p \<in> set (wk_visited st') \<or> (\<exists>q \<in> set (wk_queue st'). target h q p)"
      using ok(3-5) by cases auto
  qed
  have "represented h st' r" if "r \<in> refs_of h roots own'" for r
  proof (cases "r \<in> refs_of h roots own")
    case True
    with assms(1) old show ?thesis by (simp add: walk_closed_def)
  next
    case False
    with that ok(6) have "r \<in> set new" unfolding refs_of_def by blast
    with ok(3) show ?thesis by (auto simp: represented_def)
  qed
  moreover have "ref_string ` set (wk_queue st) \<subseteq> ref_string ` refs_of h roots own"
    using assms(1) by (simp add: walk_closed_def)
  then have "ref_string ` set (wk_queue st') \<subseteq> ref_string ` refs_of h roots own'"
    using ok(7) image_mono [OF refs_of_mono [OF ok(1), of h roots], of ref_string] unfolding ok(3) set_append image_Un
    by (intro Un_least) (rule order_trans)
  ultimately have "walk_closed h roots own' st'" by (simp add: walk_closed_def)
  moreover have "work_left h (st\<lparr>wk_queue := cur # wk_queue st\<rparr>) = ref_weight cur + work_left h st"
    by (simp add: work_left_def)
  ultimately show ?thesis using that ok(2,8) by simp
qed

lemma walk_loop_inv:
  assumes "walk_inv h page roots own st" "walk_closed h roots own st"
  shows "wp (walk_loop h (max_external h) fuel st) (\<lambda>r w'.
    (hv_MaxTotalBytes h > 0 \<and> work_left h st \<le> fuel \<longrightarrow> r \<noteq> None) \<and>
    (\<forall>st'. r = Some (Inr st') \<longrightarrow> (\<exists>own'. walk_inv h page roots own' st' \<and> walk_closed h roots own' st' \<and> wk_queue st' = []))) w"
  using assms
proof (induction fuel arbitrary: st own w)
  case 0
  show ?case
  proof (cases "wk_queue st")
    case Nil
    then show ?thesis using 0 by (subst walk_loop.simps) auto
  next
    case (Cons cur queue)
    then have "0 < work_left h st" by (simp add: work_left_def)
    then show ?thesis by (subst walk_loop.simps) (simp add: Cons)
  qed
next
  case (Suc n)
  show ?case
  proof (cases "wk_queue st")
    case Nil
    then show ?thesis using Suc.prems by (subst walk_loop.simps) auto
  next
    case (Cons cur queue)
    define st0 where "st0 = st\<lparr>wk_queue := queue\<rparr>"
    have st: "st = st0\<lparr>wk_queue := cur # wk_queue st0\<rparr>" using Cons by (simp add: st0_def)
    have inv: "walk_inv h page roots own st0" using Suc.prems(1) by (simp add: st0_def)
    have step: "walk_loop h (max_external h) (Suc n) st = visit h (max_external h) cur st0 \<bind> (\<lambda>r. case r of
          Inl err \<Rightarrow> ret (Some (Inl err)) | Inr st \<Rightarrow> walk_loop h (max_external h) n st)"
      by (subst walk_loop.simps) (simp add: Cons st0_def)
    obtain r0 where r0: "r0 \<in> refs_of h roots own" "ref_string cur = ref_string r0"
      using Suc.prems(2) Cons unfolding walk_closed_def by auto
    show ?thesis
      unfolding step wp_bind
    proof (rule wp_mono [OF visit_round [OF inv r0]], goal_cases)
      case (1 r w')
      show ?case
      proof (cases r)
        case (Inr st')
        with 1 have "round_ok h page roots own cur st0 st'" by simp
        from round_closed [OF Suc.prems(2) [unfolded st] this] obtain own' where own': "walk_inv h page roots own' st'"
          "walk_closed h roots own' st'" "hv_MaxTotalBytes h > 0 \<longrightarrow> work_left h st' < work_left h st"
          unfolding st [symmetric] by blast
        from Suc.IH [OF own'(1,2)] show ?thesis
          unfolding Inr sum.case by (rule wp_mono) (use own'(3) in auto)
      qed simp
    qed
  qed
qed

text \<open>The references of the page itself.\<close>

definition page_refs :: "'w harvester \<Rightarrow> string \<Rightarrow> href set" where
  "page_refs h page = (\<lambda>r. \<lparr>ref_raw = r, ref_baseDir = []\<rparr>) ` set (ExtractHTMLRefs (hv_lib h) page)"

lemma start_inv:
  "walk_inv h page (page_refs h page) {} (harvest_start h page)" "walk_closed h (page_refs h page) {} (harvest_start h page)"
  by (auto simp: walk_inv_def walk_closed_def represented_def harvest_start_def page_refs_def refs_of_def)

definition enough_fuel :: "'w harvester \<Rightarrow> string \<Rightarrow> nat" where
  "enough_fuel h page = length (ExtractHTMLRefs (hv_lib h) page) + 2 * nat (hv_MaxTotalBytes h - int (length page))"

lemma start_work: "work_left h (harvest_start h page) = enough_fuel h page"
  by (simp add: work_left_def harvest_start_def enough_fuel_def queue_weight_def comp_def ref_weight_def sum_list_triv)

lemma harvest_spec:
  "wp (harvest_Run h fuel page) (\<lambda>r w'.
     (hv_MaxTotalBytes h > 0 \<and> enough_fuel h page \<le> fuel \<longrightarrow> r \<noteq> None) \<and>
     (\<forall>files. r = Some (Inr files) \<longrightarrow> GuardHTML page = None \<and> (\<exists>own st. files = sort_key hf_Path (wk_files st) \<and>
        walk_inv h page (page_refs h page) own st \<and> walk_closed h (page_refs h page) own st \<and> wk_queue st = []))) w"
proof (cases "GuardHTML page")
  case None
  show ?thesis
    unfolding harvest_Run_def None option.case Let_def wp_bind wp_return max_external_def [symmetric]
    by (rule wp_mono [OF walk_loop_inv [OF start_inv]]) (auto simp: start_work split: option.splits sum.splits, blast+)
qed (simp add: harvest_Run_def)

section \<open>Properties\<close>

text \<open>A page with a stylesheet that refers to a picture relative to itself, and an origin that serves the two.\<close>

definition sample_page :: string where
  "sample_page = ''page''"

definition sample_hlib :: harvest_lib where
  "sample_hlib =
     \<lparr>html_tags = (\<lambda>_. [\<lparr>tag_Data = ''link'', tag_Attr = [(''HREF'', '' /static/app.css?v=1'')]\<rparr>,
        \<lparr>tag_Data = ''script'', tag_Attr = [(''src'', ''/private/a.js'')]\<rparr>]),
      url_Parse = (\<lambda>s. if s = ''https://cdn.example.com/assets'' then Some \<lparr>u_Scheme = ''https'', u_HasUser = False,
        u_Host = ''cdn.example.com'', u_Hostname = ''cdn.example.com'', u_Port = [], u_Path = ''/assets'',
        u_EscapedPath = ''/assets'', u_String = s\<rparr> else None),
      mime_MediaType = id, unicode_lower = id\<rparr>"

definition sample_harvester :: "unit harvester" where
  "sample_harvester =
     \<lparr>hv_Fetch = (\<lambda>p. ret (Inr \<lparr>as_Path = p,
        as_Body = (if p = ''/static/app.css'' then ''a{b:url(img/x.png)}'' else ''png''), as_MimeType = ''x''\<rparr>)),
      hv_FetchExternal = None, hv_Allow = [''/static/*''], hv_External = [''https://cdn.example.com/assets''],
      hv_MaxExternalBytes = 0, hv_MaxTotalBytes = 100, hv_lib = sample_hlib\<rparr>"

definition sample_files :: "hfile list" where
  "sample_files =
     [\<lparr>hf_Path = ''/static/app.css'', hf_Body = ''a{b:url(img/x.png)}'', hf_MimeType = ''x''\<rparr>,
      \<lparr>hf_Path = ''/static/img/x.png'', hf_Body = ''png'', hf_MimeType = ''x''\<rparr>]"

lemma sample_harvest: "run_state (harvest_Run sample_harvester 194 sample_page) () = (Some (Inr sample_files), ())"
  by code_simp

text \<open>
  C25. A bounded harvest returns. Whatever the origin and the external hosts answer, with a positive limit on the total size
  the walk ends after at most as many rounds as the page has references plus two for every byte of the limit that the
  page leaves.
\<close>

theorem harvest_returns:
  assumes "hv_MaxTotalBytes h > 0" "length (ExtractHTMLRefs (hv_lib h) page) + 2 * nat (hv_MaxTotalBytes h - int (length page)) \<le> fuel"
  shows "\<exists>r w'. run_state (harvest_Run h fuel page) w = (Some r, w')"
  using wp_run [OF harvest_spec, of h fuel page w] assms unfolding enough_fuel_def [symmetric]
  by (cases "run_state (harvest_Run h fuel page) w") auto

theorem harvest_returns_witness: "\<exists>r w'. run_state (harvest_Run sample_harvester 194 sample_page) () = (Some r, w')"
proof -
  have "length (ExtractHTMLRefs (hv_lib sample_harvester) sample_page) = 2" by code_simp
  with harvest_returns [of sample_harvester sample_page 194 "()"] show ?thesis
    by (simp add: sample_harvester_def sample_page_def)
qed

text \<open>
  C26. What a harvest returns: files sorted by path with no path twice, every path safe. Every file comes from a reference of the page or of a harvested
  stylesheet of the origin, and its bytes and type are what a fetch answered: a reference to the origin by its path, which is on the allowlist, and the
  fetch of this path; or a reference with a host, which parses to a URL with a host that the external allowlist admits, and the fetch of this URL within the
  limit, the file's path being the URL's. Page and files together are within the size limit; the page and the stylesheets have no unresolved asset reference,
  and the page does not use the image optimizer.
\<close>

theorem harvest_sound:
  assumes "run_state (harvest_Run h fuel page) w = (Some (Inr files), w')"
  shows "sorted (map hf_Path files) \<and> distinct (map hf_Path files) \<and>
    (\<exists>own \<subseteq> set files. \<forall>f \<in> set files. safe_path (hf_Path f) \<and>
       (\<exists>r \<in> page_refs h page \<union> (\<Union>g \<in> own. set (css_refs h g)).
          if f \<in> own then from_origin h (ref_string r) f else from_external h (ref_string r) f)) \<and>
    (hv_MaxTotalBytes h > 0 \<and> files \<noteq> [] \<longrightarrow>
       int (length page + sum_list (map (length \<circ> hf_Body) files)) \<le> hv_MaxTotalBytes h) \<and>
    \<not> Contains page ''asset://'' \<and> \<not> Contains page ''/_next/image''"
proof -
  from wp_run [OF harvest_spec assms] obtain own st where st: "GuardHTML page = None"
    "files = sort_key hf_Path (wk_files st)" "walk_inv h page (page_refs h page) own st" by blast
  have perm: "mset files = mset (wk_files st)" by (simp add: st(2))
  then have sums: "mset (map hf_Path files) = mset (map hf_Path (wk_files st))"
    "sum_list (map (length \<circ> hf_Body) files) = sum_list (map (length \<circ> hf_Body) (wk_files st))"
    by (simp_all add: sum_mset_sum_list [symmetric])
  have set: "set files = set (wk_files st)" "files = [] \<longleftrightarrow> wk_files st = []"
    using mset_eq_setD [OF perm] by auto
  have "\<forall>f \<in> set files. safe_path (hf_Path f) \<and> harvested h (page_refs h page) own f" "own \<subseteq> set files"
    using st(3) set by (auto simp: walk_inv_def intro: harvested_safe)
  then have "\<exists>own \<subseteq> set files. \<forall>f \<in> set files. safe_path (hf_Path f) \<and>
       (\<exists>r \<in> page_refs h page \<union> (\<Union>g \<in> own. set (css_refs h g)).
          if f \<in> own then from_origin h (ref_string r) f else from_external h (ref_string r) f)"
    unfolding harvested_def refs_of_def by blast
  moreover have "sorted (map hf_Path files)" by (simp add: st(2))
  moreover have "distinct (map hf_Path files)"
    using st(3) mset_eq_imp_distinct_iff [OF sums(1)] by (simp add: walk_inv_def)
  ultimately show ?thesis
    using st(1,3) sums(2) set(2) by (auto simp: walk_inv_def GuardHTML_def split: if_splits)
qed

theorem harvest_sound_witness:
  "int (length sample_page + sum_list (map (length \<circ> hf_Body) sample_files)) \<le> 100 \<and> safe_path ''/static/img/x.png''"
  using harvest_sound [OF sample_harvest] by (auto simp: sample_harvester_def sample_files_def)

text \<open>
  C27. Nothing is missing. The files of the origin and the external ones are told apart as above; and every reference of the page and of the origin's
  stylesheets, those relative to the stylesheet included, that is allowed (a local path on the allowlist, or a URL that the external allowlist admits when
  external files are fetched at all) has its path among the paths of the files.
\<close>

theorem harvest_closed:
  assumes "run_state (harvest_Run h fuel page) w = (Some (Inr files), w')"
  shows "\<exists>own \<subseteq> set files.
    (\<forall>f \<in> set files. \<exists>r. if f \<in> own then from_origin h (ref_string r) f else from_external h (ref_string r) f) \<and>
    (\<forall>r \<in> page_refs h page \<union> (\<Union>f \<in> own. set (css_refs h f)). \<forall>p. target h r p \<longrightarrow> p \<in> hf_Path ` set files)"
proof -
  from wp_run [OF harvest_spec assms] obtain own st where st: "set files = set (wk_files st)" "walk_inv h page (page_refs h page) own st"
    "walk_closed h (page_refs h page) own st" "wk_queue st = []" by auto
  then have "\<forall>f \<in> set files. \<exists>r. if f \<in> own then from_origin h (ref_string r) f else from_external h (ref_string r) f"
    unfolding walk_inv_def harvested_def by blast
  moreover have "\<forall>r \<in> page_refs h page \<union> (\<Union>f \<in> own. set (css_refs h f)). \<forall>p. target h r p \<longrightarrow> p \<in> hf_Path ` set files"
    using st unfolding walk_closed_def refs_of_def represented_def walk_inv_def by simp
  moreover have "own \<subseteq> set files" using st by (simp add: walk_inv_def)
  ultimately show ?thesis by blast
qed

text \<open>The sample with a reference to an admitted host as well.\<close>

definition external_harvester :: "unit harvester" where
  "external_harvester = sample_harvester\<lparr>
     hv_FetchExternal := Some (\<lambda>u limit. ret (Inr \<lparr>as_Path = u, as_Body = ''css'', as_MimeType = ''text/css''\<rparr>)),
     hv_lib := sample_hlib\<lparr>html_tags := (\<lambda>_. [\<lparr>tag_Data = ''link'', tag_Attr = [(''href'', ''https://cdn.example.com/assets'')]\<rparr>])\<rparr>\<rparr>"

theorem harvest_closed_witness:
  "\<exists>files. run_state (harvest_Run external_harvester 194 sample_page) () = (Some (Inr files), ()) \<and> ''/assets'' \<in> hf_Path ` set files"
proof -
  let ?r = "\<lparr>ref_raw = ''https://cdn.example.com/assets'', ref_baseDir = []\<rparr>"
    and ?files = "[\<lparr>hf_Path = ''/assets'', hf_Body = ''css'', hf_MimeType = ''text/css''\<rparr>]"
  have run: "run_state (harvest_Run external_harvester 194 sample_page) () = (Some (Inr ?files), ())" by code_simp
  have "?r \<in> page_refs external_harvester sample_page" unfolding page_refs_def by code_simp
  moreover have "\<not> ignored (ref_string ?r)" "has_host (ref_string ?r)" "hv_FetchExternal external_harvester \<noteq> None"
    by (code_simp, code_simp, simp add: external_harvester_def)
  moreover obtain u where "url_Parse (hv_lib external_harvester) (with_scheme (ref_string ?r)) = Some u" "u_Host u \<noteq> []"
      "AllowsURL (hv_lib external_harvester) (hv_External external_harvester) u" "NormalizePath (u_Path u) = Inr ''/assets''"
  proof
    let ?u = "the (url_Parse (hv_lib external_harvester) (with_scheme (ref_string ?r)))"
    show "url_Parse (hv_lib external_harvester) (with_scheme (ref_string ?r)) = Some ?u" "u_Host ?u \<noteq> []"
      "AllowsURL (hv_lib external_harvester) (hv_External external_harvester) ?u" "NormalizePath (u_Path ?u) = Inr ''/assets''"
      by code_simp+
  qed
  ultimately have "target external_harvester ?r ''/assets''"
    by (auto simp: target_def string_target_def admitted_url_def)
  with harvest_closed [OF run] \<open>?r \<in> page_refs external_harvester sample_page\<close> run show ?thesis by blast
qed

text \<open>
  C36. External URLs are matched exactly. A URL is admitted exactly when it carries no credentials and some entry of the
  allowlist admits it: a bare entry its host; an entry with a slash its scheme, host and port, and then the segments
  of the URL's path, dot segments resolved, start with the segments of the entry's path.
\<close>

theorem AllowsURL_segments:
  "AllowsURL lib a u \<longleftrightarrow> \<not> u_HasUser u \<and>
     (\<exists>entry \<in> set a. if Contains entry ''/''
        then \<exists>eu. url_Parse lib entry = Some eu \<and> u_Host eu \<noteq> [] \<and> EqualFold (u_Scheme u) (u_Scheme eu) \<and>
          ToLower (unicode_lower lib) (u_Hostname u) = ToLower (unicode_lower lib) (u_Hostname eu) \<and> u_Port u = u_Port eu \<and>
          prefix (resolve (u_EscapedPath eu)) (resolve (u_EscapedPath u))
        else ToLower (unicode_lower lib) (u_Hostname u) = ToLower (unicode_lower lib) entry)"
  by (simp add: AllowsURL_def allows_url_entries_iff entry_admits_def)

end
