(* ===== verification/Export.thy ===== *)
theory Export
  imports Processor Render Manifest Harvest_Walk
begin

text \<open>
  The export pipeline, \<open>src/internal/export/export.go\<close>: render, harvest, upload, manifest, pointer, status, event. The
  stages are definitions of their own, each ending in the call of the next. Log lines and trace spans are left out.

  \<open>None\<close> as a result says that the harvest did not return within the fuel; \<open>harvest_returns\<close> rules it out for a
  limited bundle size.
\<close>

section \<open>Data\<close>

text \<open>The updates of \<open>obs.Metrics\<close> that the pipeline makes.\<close>

datatype export_metric =
    RenderDurationMs int
  | HarvestDurationMs int
  | UploadDurationMs int
  | ArtifactBytesTotal int
  | ArtifactFilesTotal int

text \<open>
  The client for external assets: the error of building a request, and the request.
\<close>

record 'w ext_http =
  ext_NewRequest :: "string \<Rightarrow> gerr option"
  ext_Do :: "string \<Rightarrow> ('w, gerr + 'w http_response) state"

text \<open>
  \<open>Pipeline\<close>. The last fields are the libraries and the environment: \<open>pl_schedule\<close> is how the goroutines of the upload
  interleave, \<open>pl_uploadExpired\<close> whether the upload budget has expired while the job's context has not.
\<close>

record 'w pipeline =
  pl_Render :: "'w render_client"
  pl_Transition :: "string \<Rightarrow> deployment_status \<Rightarrow> deployment_status \<Rightarrow> string \<Rightarrow> string \<Rightarrow> failed_stage \<Rightarrow> ('w, gerr option) state"
  pl_SubmitArtifact :: "string \<Rightarrow> artifact_pointer \<Rightarrow> ('w, gerr option) state"
  pl_Store :: "'w s3_store"
  pl_EmitReady :: "artifact_ready \<Rightarrow> ('w, gerr option) state"
  pl_BasePrefix :: string
  pl_Allow :: "string list"
  pl_External :: "string list"
  pl_UploadConcurrency :: int
  pl_MaxTotalArtifactBytes :: int
  pl_ExternalHTTP :: "'w ext_http option"
  pl_Metrics :: "(export_metric \<Rightarrow> ('w, unit) state) option"
  pl_Now :: "('w, time) state option"
  pl_time_Now :: "('w, time) state"
  pl_hlib :: harvest_lib
  pl_mlib :: manifest_lib
  pl_rand_Read :: "'w rand_reader"
  pl_schedule :: "('w, upload_choice list) state"
  pl_uploadExpired :: "('w, bool) state"
  pl_fuel :: nat

definition pl_now :: "'w pipeline \<Rightarrow> ('w, time) state" where
  "pl_now p = (case pl_Now p of Some f \<Rightarrow> f | None \<Rightarrow> pl_time_Now p)"

definition observe_since :: "'w pipeline \<Rightarrow> (int \<Rightarrow> export_metric) \<Rightarrow> time \<Rightarrow> ('w, unit) state" where
  "observe_since p mk start =
     (case pl_Metrics p of
        None \<Rightarrow> ret ()
      | Some f \<Rightarrow> do { t \<leftarrow> pl_now p; f (mk (Milliseconds (t - start))) })"

definition export_base :: "'w pipeline \<Rightarrow> deployment_record \<Rightarrow> string" where
  "export_base p rec = pl_BasePrefix p @ ''/'' @ rec_SiteID rec @ ''/deployments/'' @ rec_DeploymentID rec"

section \<open>External assets\<close>

definition external_error :: "gerr \<Rightarrow> gerr" where
  "external_error cause = as_error (errclass_New ErrorCodeValidationFailed FailedStageHarvestDependencies (Some cause))"

definition externalFetcher :: "'w pipeline \<Rightarrow> (string \<Rightarrow> int \<Rightarrow> ('w, gerr + asset) state) option" where
  "externalFetcher p =
     (case pl_ExternalHTTP p of
        None \<Rightarrow> None
      | Some http \<Rightarrow> Some (\<lambda>rawURL limit.
          case ext_NewRequest http rawURL of
            Some err \<Rightarrow> ret (Inl (external_error err))
          | None \<Rightarrow> do {
              resp \<leftarrow> ext_Do http rawURL;
              case resp of
                Inl err \<Rightarrow> ret (Inl (external_error (WrapE err)))
              | Inr resp \<Rightarrow>
                  if rsp_StatusCode resp \<noteq> 200
                  then ret (Inl (external_error (TextE ''allowlisted external asset returned another status'')))
                  else do {
                    body \<leftarrow> read_limited resp (limit + 1);
                    ret (case body of
                           Inl err \<Rightarrow> Inl (external_error err)
                         | Inr body \<Rightarrow>
                             if int (length body) > limit
                             then Inl (external_error (TextE ''external asset exceeds the mirror limit''))
                             else let mimeType = rsp_ContentType resp;
                                      mimeType = (if mimeType = [] then ''application/octet-stream'' else mimeType)
                                  in Inr \<lparr>as_Path = [], as_Body = body, as_MimeType = mimeType\<rparr>)
                  }
            }))"

section \<open>Stages\<close>

definition ready_input_of :: "deployment_record \<Rightarrow> artifact_pointer \<Rightarrow> string \<Rightarrow> time \<Rightarrow> ready_input" where
  "ready_input_of rec ptr traceID t =
     \<lparr>in_Record = rec, in_ArtifactBasePath = ptr_ArtifactBasePath ptr, in_ManifestStorageKey = ptr_ManifestStorageKey ptr,
      in_ManifestDigest = ptr_ManifestDigest ptr, in_Entry = ptr_Entry ptr, in_FilesCount = ptr_FilesCount ptr,
      in_TotalBytes = ptr_TotalBytes ptr, in_TraceID = traceID, in_Now = t\<rparr>"

text \<open>The ready event, whose failure is turned into \<open>ErrReadyEmitPending\<close>; the error it came from is only printed.\<close>

definition export_emit :: "'w pipeline \<Rightarrow> job \<Rightarrow> artifact_pointer \<Rightarrow> ('w, gerr option) state" where
  "export_emit p job ptr = do {
     t \<leftarrow> pl_now p;
     ready \<leftarrow> BuildReady (pl_rand_Read p) (ready_input_of (job_Record job) ptr (job_TraceID job) t);
     err \<leftarrow> pl_EmitReady p ready;
     ret (case err of Some _ \<Rightarrow> Some (WrapE ReadyEmitPendingE) | None \<Rightarrow> None)
   }"

definition casReady :: "'w pipeline \<Rightarrow> job \<Rightarrow> ('w, gerr + bool) state" where
  "casReady p job = do {
     err \<leftarrow> pl_Transition p (rec_DeploymentID (job_Record job)) DeploymentStatusExporting DeploymentStatusArtifactReady
       ''artifact_ready'' (job_TraceID job) FailedStageUpdateStatusReady;
     ret (case AsStatusConflict err of
            None \<Rightarrow> (case err of None \<Rightarrow> Inr True | Some e \<Rightarrow> Inl e)
          | Some current \<Rightarrow>
              if current = DeploymentStatusArtifactReady then Inr True
              else if NonActionable current then Inr False
              else Inl (as_error (errclass_New ErrorCodeValidationFailed FailedStageUpdateStatusReady
                (Some (TextE ''unexpected CAS conflict'')))))
   }"

definition export_submit :: "'w pipeline \<Rightarrow> job \<Rightarrow> artifact_pointer \<Rightarrow> ('w, gerr option) state" where
  "export_submit p job ptr = do {
     err \<leftarrow> pl_SubmitArtifact p (rec_DeploymentID (job_Record job)) ptr;
     case err of
       Some e \<Rightarrow> ret (Some e)
     | None \<Rightarrow> do {
         r \<leftarrow> casReady p job;
         case r of
           Inl e \<Rightarrow> ret (Some e)
         | Inr emitReady \<Rightarrow> if \<not> emitReady then ret None else export_emit p job ptr
       }
   }"

definition manifestCreatedAt :: "'w pipeline \<Rightarrow> string \<Rightarrow> string \<Rightarrow> time \<Rightarrow> ('w, string) state" where
  "manifestCreatedAt p eventCreatedAt manifestKey fresh =
     (if eventCreatedAt \<noteq> [] then ret eventCreatedAt
      else do {
        r \<leftarrow> FetchIfExists (pl_Store p) manifestKey;
        ret (case r of
               Inr (data, found) \<Rightarrow>
                 if found then
                   (case manifest_Unmarshal (pl_mlib p) data of
                      Inr prior \<Rightarrow> if mft_CreatedAt prior \<noteq> [] then mft_CreatedAt prior else format_RFC3339 fresh
                    | Inl _ \<Rightarrow> format_RFC3339 fresh)
                 else format_RFC3339 fresh
             | Inl _ \<Rightarrow> format_RFC3339 fresh)
      })"

definition manifest_object :: "'w pipeline \<Rightarrow> string \<Rightarrow> string \<Rightarrow> s3_object" where
  "manifest_object p manifestKey encoded =
     \<lparr>obj_Key = manifestKey, obj_Body = encoded, obj_ContentType = ''application/json'',
      obj_CacheControl = CacheControlManifest, obj_SHA256Hex = SHA256Hex (ml_Sum256 (pl_mlib p)) encoded\<rparr>"

definition export_manifest :: "'w pipeline \<Rightarrow> job \<Rightarrow> string \<Rightarrow> string \<Rightarrow> manifest_file_input list \<Rightarrow> int \<Rightarrow> ('w, gerr option) state" where
  "export_manifest p job entry route manifestFiles totalBytes = do {
     let rec = job_Record job;
     let basePath = export_base p rec;
     let manifestKey = basePath @ ''/'' @ ManifestFilename;
     fresh \<leftarrow> pl_now p;
     createdAt \<leftarrow> manifestCreatedAt p (ev_CreatedAt (job_Event job)) manifestKey fresh;
     case BuildManifest (pl_mlib p) rec basePath entry route manifestFiles createdAt of
       Inl err \<Rightarrow> ret (Some err)
     | Inr (manifest, encoded, digest) \<Rightarrow> do {
         r \<leftarrow> EnsureUploaded (pl_Store p) (manifest_object p manifestKey encoded);
         case r of
           Inl err \<Rightarrow>
             let ce = From (Some err) FailedStageWriteManifest
             in ret (Some (as_error (errclass_New (Code ce) FailedStageWriteManifest (Cause ce))))
         | Inr _ \<Rightarrow>
             export_submit p job
               \<lparr>ptr_ManifestStorageKey = manifestKey, ptr_ArtifactBasePath = basePath, ptr_ManifestDigest = digest,
                ptr_Entry = entry, ptr_FilesCount = int (length (mft_Files manifest)), ptr_TotalBytes = totalBytes,
                ptr_Routes = [\<lparr>route_Path = route, route_Entry = entry\<rparr>]\<rparr>
       }
   }"

text \<open>The loop that builds the objects and the manifest's files; the first path without a key ends it.\<close>

fun export_objects :: "'w pipeline \<Rightarrow> string \<Rightarrow> hfile list \<Rightarrow> gerr + (s3_object \<times> manifest_file_input) list" where
  "export_objects p basePath [] = Inr []"
| "export_objects p basePath (f # fs) =
     (case StorageKey basePath (hf_Path f) of
        Inl kerr \<Rightarrow> Inl kerr
      | Inr key \<Rightarrow>
          let hash = SHA256Hex (ml_Sum256 (pl_mlib p)) (hf_Body f);
              cacheControl = CacheControlFor (hf_Path f) (hf_MimeType f);
              obj = \<lparr>obj_Key = key, obj_Body = hf_Body f, obj_ContentType = hf_MimeType f, obj_CacheControl = cacheControl,
                     obj_SHA256Hex = hash\<rparr>;
              mfi = \<lparr>mfi_Path = hf_Path f, mfi_StorageKey = key, mfi_SHA256Hex = hash, mfi_SizeBytes = int (length (hf_Body f)),
                     mfi_MimeType = hf_MimeType f, mfi_CacheControl = cacheControl\<rparr>
          in (case export_objects p basePath fs of Inl kerr \<Rightarrow> Inl kerr | Inr os \<Rightarrow> Inr ((obj, mfi) # os)))"

definition file_bytes :: "hfile list \<Rightarrow> int" where
  "file_bytes files = int (sum_list (map (length \<circ> hf_Body) files))"

definition export_upload :: "'w pipeline \<Rightarrow> job \<Rightarrow> string \<Rightarrow> string \<Rightarrow> hfile list \<Rightarrow> ('w, gerr option) state" where
  "export_upload p job entry route files =
     (case export_objects p (export_base p (job_Record job)) files of
        Inl kerr \<Rightarrow> ret (Some kerr)
      | Inr os \<Rightarrow>
          let totalBytes = file_bytes files in
          if pl_MaxTotalArtifactBytes p > 0 \<and> totalBytes > pl_MaxTotalArtifactBytes p
          then ret (Some (as_error (errclass_New ErrorCodeValidationFailed FailedStageUploadArtifacts
            (Some (TextE ''artifact exceeds MAX_TOTAL_ARTIFACT_BYTES'')))))
          else do {
            start \<leftarrow> pl_now p;
            schedule \<leftarrow> pl_schedule p;
            (uploaded, skipped, err) \<leftarrow> UploadAll (pl_Store p) schedule (map fst os) (pl_UploadConcurrency p);
            observe_since p UploadDurationMs start;
            (case pl_Metrics p of
               None \<Rightarrow> ret ()
             | Some f \<Rightarrow> do { f (ArtifactBytesTotal totalBytes); f (ArtifactFilesTotal (int (length os))) });
            case err of
              Some e \<Rightarrow> do {
                expired \<leftarrow> pl_uploadExpired p;
                ret (Some (if expired
                  then as_error (errclass_New ErrorCodeArtifactUploadTimeout FailedStageUploadArtifacts (Some e)) else e))
              }
            | None \<Rightarrow> export_manifest p job entry route (map snd os) totalBytes
          })"

definition harvester_of :: "'w pipeline \<Rightarrow> pin \<Rightarrow> 'w harvester" where
  "harvester_of p pn =
     \<lparr>hv_Fetch = (\<lambda>path. FetchAsset (pl_Render p) path pn), hv_FetchExternal = externalFetcher p, hv_Allow = pl_Allow p,
      hv_External = pl_External p, hv_MaxExternalBytes = 0, hv_MaxTotalBytes = pl_MaxTotalArtifactBytes p,
      hv_lib = pl_hlib p\<rparr>"

definition export_harvest :: "'w pipeline \<Rightarrow> job \<Rightarrow> string \<Rightarrow> string \<Rightarrow> pin \<Rightarrow> string \<Rightarrow> ('w, gerr option option) state" where
  "export_harvest p job entry route pn html = do {
     start \<leftarrow> pl_now p;
     deps \<leftarrow> harvest_Run (harvester_of p pn) (pl_fuel p) html;
     case deps of
       None \<Rightarrow> ret None
     | Some r \<Rightarrow> do {
         observe_since p HarvestDurationMs start;
         case r of
           Inl err \<Rightarrow> ret (Some (Some err))
         | Inr deps \<Rightarrow> do {
             err \<leftarrow> export_upload p job entry route
               (\<lparr>hf_Path = entry, hf_Body = html, hf_MimeType = ''text/html''\<rparr> # deps);
             ret (Some err)
           }
       }
   }"

definition Export :: "'w pipeline \<Rightarrow> job \<Rightarrow> ('w, gerr option option) state" where
  "Export p job =
     (case MapSlug (rec_Slug (job_Record job)) of
        Inl err \<Rightarrow> ret (Some (Some err))
      | Inr (entry, route) \<Rightarrow> do {
          let pn = PinFromRecord (job_Record job) (job_TraceID job);
          start \<leftarrow> pl_now p;
          html \<leftarrow> FetchPage (pl_Render p) (rec_Slug (job_Record job)) pn;
          observe_since p RenderDurationMs start;
          case html of
            Inl err \<Rightarrow> ret (Some (Some err))
          | Inr html \<Rightarrow> export_harvest p job entry route pn html
        })"

text \<open>\<open>ReemitReady\<close>: found or not, or found with an error.\<close>

definition ReemitReady :: "'w pipeline \<Rightarrow> deployment_record \<Rightarrow> string \<Rightarrow> ('w, bool \<times> gerr option) state" where
  "ReemitReady p rec traceID = do {
     let basePath = export_base p rec;
     let manifestKey = basePath @ ''/'' @ ManifestFilename;
     r \<leftarrow> FetchIfExists (pl_Store p) manifestKey;
     case r of
       Inl err \<Rightarrow> ret (False, Some err)
     | Inr (data, found) \<Rightarrow>
         if \<not> found then ret (False, None)
         else (case manifest_Unmarshal (pl_mlib p) data of
                 Inl err \<Rightarrow> ret (True, Some (as_error (errclass_New ErrorCodeValidationFailed FailedStageEmitReady
                   (Some (WrapE err)))))
               | Inr m \<Rightarrow> do {
                   let totalBytes = sum_list (map mf_SizeBytes (mft_Files m));
                   t \<leftarrow> pl_now p;
                   ready \<leftarrow> BuildReady (pl_rand_Read p)
                     \<lparr>in_Record = rec, in_ArtifactBasePath = basePath, in_ManifestStorageKey = manifestKey,
                      in_ManifestDigest = ''sha256-'' @ SHA256Hex (ml_Sum256 (pl_mlib p)) data, in_Entry = mft_Entry m,
                      in_FilesCount = int (length (mft_Files m)), in_TotalBytes = totalBytes, in_TraceID = traceID, in_Now = t\<rparr>;
                   err \<leftarrow> pl_EmitReady p ready;
                   ret (True, err)
                 })
   }"

end
