(* ===== verification/Export_Rule.thy ===== *)
theory Export_Rule
  imports Export
begin

text \<open>
  What the pipeline promises to the rest of the system: nothing is announced before it is stored, and what is
  announced agrees with what is stored. The locale \<open>export_env\<close> says what the pipeline relies on: a store, a deployment service
  and an event stream whose calls can be observed, and everything else leaving the store and the services alone.
\<close>

section \<open>Operations that leave a part of the world alone\<close>

definition silent :: "('w \<Rightarrow> 'v) \<Rightarrow> ('w, 'a) state \<Rightarrow> bool" where
  "silent view m \<longleftrightarrow> (\<forall>w. wp m (\<lambda>_ w'. view w' = view w) w)"

definition silent_response :: "('w \<Rightarrow> 'v) \<Rightarrow> ('w, gerr + 'w http_response) state \<Rightarrow> bool" where
  "silent_response view m \<longleftrightarrow> (\<forall>w. wp m (\<lambda>r w'. view w' = view w \<and>
     (\<forall>resp n. r = Inr resp \<longrightarrow> silent view (rsp_Body resp n))) w)"

named_theorems silent_intros \<open>rules that show an operation silent\<close>

lemma silentD: "silent view m \<Longrightarrow> wp m (\<lambda>_ w'. view w' = view w) w"
  by (simp add: silent_def)

lemma silent_ret [silent_intros]: "silent view (ret a)"
  by (simp add: silent_def)

lemma silent_bind [silent_intros]:
  assumes "silent view m" "\<And>a. silent view (f a)"
  shows "silent view (m \<bind> f)"
  unfolding silent_def wp_bind
proof
  fix w
  show "wp m (\<lambda>a. wp (f a) (\<lambda>_ w'. view w' = view w)) w"
    using silentD [OF assms(1)]
  proof (rule wp_mono)
    fix a w1
    assume "view w1 = view w"
    with silentD [OF assms(2), of a w1] show "wp (f a) (\<lambda>_ w'. view w' = view w) w1" by simp
  qed
qed

lemma silent_response_bind [silent_intros]:
  assumes "silent_response view (m :: ('a, gerr + 'a http_response) state)" "\<And>e. silent view (f (Inl e))"
    and "\<And>resp. (\<And>n. silent view (rsp_Body resp n)) \<Longrightarrow> silent view (f (Inr resp))"
  shows "silent view (m \<bind> f)"
  unfolding silent_def wp_bind
proof
  fix w
  show "wp m (\<lambda>a. wp (f a) (\<lambda>_ w'. view w' = view w)) w"
    using assms(1) [unfolded silent_response_def, rule_format, of w]
  proof (rule wp_mono)
    fix r :: "gerr + 'a http_response" and w1
    assume r: "view w1 = view w \<and> (\<forall>resp n. r = Inr resp \<longrightarrow> silent view (rsp_Body resp n))"
    have "silent view (f r)" using r assms(2,3) by (cases r) auto
    from silentD [OF this, of w1] r show "wp (f r) (\<lambda>_ w'. view w' = view w) w1" by simp
  qed
qed

lemma silent_if [silent_intros]: "(b \<Longrightarrow> silent view m) \<Longrightarrow> (\<not> b \<Longrightarrow> silent view m') \<Longrightarrow> silent view (if b then m else m')"
  by simp

lemma silent_sum [silent_intros]:
  "(\<And>a. r = Inl a \<Longrightarrow> silent view (f a)) \<Longrightarrow> (\<And>b. r = Inr b \<Longrightarrow> silent view (g b)) \<Longrightarrow>
   silent view (case r of Inl a \<Rightarrow> f a | Inr b \<Rightarrow> g b)"
  by (cases r) auto

lemma silent_option [silent_intros]:
  "(r = None \<Longrightarrow> silent view m) \<Longrightarrow> (\<And>b. r = Some b \<Longrightarrow> silent view (g b)) \<Longrightarrow>
   silent view (case r of None \<Rightarrow> m | Some b \<Rightarrow> g b)"
  by (cases r) auto

lemma silent_prod [silent_intros]: "(\<And>a b. r = (a, b) \<Longrightarrow> silent view (f a b)) \<Longrightarrow> silent view (case r of (a, b) \<Rightarrow> f a b)"
  by (cases r) auto

lemma silent_list [silent_intros]:
  "(r = [] \<Longrightarrow> silent view m) \<Longrightarrow> (\<And>b bs. r = b # bs \<Longrightarrow> silent view (g b bs)) \<Longrightarrow>
   silent view (case r of [] \<Rightarrow> m | b # bs \<Rightarrow> g b bs)"
  by (cases r) auto

lemma silent_read [silent_intros]: "(\<And>n. silent view (rsp_Body resp n)) \<Longrightarrow> silent view (read_limited resp n)"
  unfolding read_limited_def by (intro silent_intros)

section \<open>Silence of the stages\<close>

text \<open>A render client whose transport, propagator and random source are silent.\<close>

definition silent_render :: "('w \<Rightarrow> 'v) \<Rightarrow> 'w render_client \<Rightarrow> bool" where
  "silent_render view c \<longleftrightarrow> (\<forall>t hs. silent_response view (rd_Do c t hs)) \<and> silent view (rd_Inject c) \<and>
     (\<forall>n. silent view (rd_rand_Read c n))"

lemma silent_render_get [silent_intros]: "silent_render view c \<Longrightarrow> silent view (render_get c url accept p)"
  unfolding render_get_def Let_def traceparent_def silent_render_def
  by (intro silent_intros silent_response_bind) auto

lemma silent_FetchPage [silent_intros]: "silent_render view c \<Longrightarrow> silent view (FetchPage c slug p)"
  unfolding FetchPage_def by (intro silent_intros)

lemma silent_FetchAsset [silent_intros]: "silent_render view c \<Longrightarrow> silent view (FetchAsset c path p)"
  unfolding FetchAsset_def by (intro silent_intros)

lemma silent_visit [silent_intros]:
  assumes "\<And>path. silent view (hv_Fetch h path)"
    and "\<And>fetch url n. hv_FetchExternal h = Some fetch \<Longrightarrow> silent view (fetch url n)"
  shows "silent view (visit h limit cur st)"
  unfolding visit_def harvestExternal_def harvestSameOrigin_def Let_def
  by (intro silent_intros assms)

lemma silent_walk_loop:
  assumes "\<And>cur st. silent view (visit h limit cur st)"
  shows "silent view (walk_loop h limit fuel st)"
proof (induction fuel arbitrary: st)
  case 0
  show ?case by (subst walk_loop.simps) (auto intro: silent_intros split: list.split)
next
  case (Suc n)
  show ?case by (subst walk_loop.simps) (auto intro!: silent_intros assms Suc split: list.split)
qed

lemma silent_harvest [silent_intros]:
  assumes "\<And>path. silent view (hv_Fetch h path)"
    and "\<And>fetch url n. hv_FetchExternal h = Some fetch \<Longrightarrow> silent view (fetch url n)"
  shows "silent view (harvest_Run h fuel page)"
  unfolding harvest_Run_def Let_def by (intro silent_intros silent_walk_loop silent_visit assms)

lemma silent_externalFetcher:
  assumes "externalFetcher p = Some fetch" "\<And>http u. pl_ExternalHTTP p = Some http \<Longrightarrow> silent_response view (ext_Do http u)"
  shows "silent view (fetch url n)"
proof -
  obtain http where http: "pl_ExternalHTTP p = Some http"
    using assms(1) by (auto simp: externalFetcher_def split: option.splits)
  show ?thesis
  proof (cases "ext_NewRequest http url")
    case None
    show ?thesis
      using assms(1) unfolding externalFetcher_def http option.case option.inject
      by (auto simp: None silent_ret
        intro!: silent_response_bind [OF assms(2) [OF http]] silent_bind [OF silent_read silent_ret])
  next
    case (Some e)
    then show ?thesis using assms(1) by (auto simp: externalFetcher_def http silent_ret)
  qed
qed

lemma silent_EnsureUploaded [silent_intros]:
  assumes "\<And>b k. silent view (StatObject (s3_client s) b k)" "\<And>b k body opts. silent view (PutObject (s3_client s) b k body opts)"
  shows "silent view (EnsureUploaded s obj)"
  unfolding EnsureUploaded_def put_object_def by (intro silent_intros assms)

lemma silent_UploadAll [silent_intros]:
  assumes "\<And>obj. silent view (EnsureUploaded s obj)"
  shows "silent view (UploadAll s schedule objs n)"
proof -
  have step: "silent view (upload_step s c ch p)" for c ch p
    by (cases ch) (auto simp: upload_finish_def Let_def intro!: silent_intros assms split: list.split)
  have "silent view (upload_steps s c chs p)" for c chs p
    by (induction chs arbitrary: p) (auto intro!: silent_intros step)
  moreover have "silent view (upload_drain s c m p)" for c m p
    by (induction m arbitrary: p) (auto intro!: silent_intros step simp del: upload_step.simps)
  ultimately show ?thesis unfolding UploadAll_def Let_def by (intro silent_intros)
qed

section \<open>The abstract pipeline\<close>

text \<open>The calls that tell others about an artifact, with their results.\<close>

datatype service_call =
    SubmitCall string artifact_pointer "gerr option"
  | StatusCall string deployment_status deployment_status "gerr option"
  | ReadyCall artifact_ready "gerr option"

text \<open>The ready event of a pointer, but for its ID and time.\<close>

definition announces :: "job \<Rightarrow> artifact_pointer \<Rightarrow> artifact_ready \<Rightarrow> bool" where
  "announces job ptr ev \<longleftrightarrow>
     rdy_DeploymentID ev = rec_DeploymentID (job_Record job) \<and> rdy_Version ev = rec_Version (job_Record job) \<and>
     rdy_ArtifactBasePath ev = ptr_ArtifactBasePath ptr \<and> rdy_ManifestStorageKey ev = ptr_ManifestStorageKey ptr \<and>
     rdy_ManifestDigest ev = ptr_ManifestDigest ptr \<and> rdy_Entry ev = ptr_Entry ptr \<and>
     rdy_FilesCount ev = ptr_FilesCount ptr \<and> rdy_TotalBytes ev = ptr_TotalBytes ptr \<and> rdy_TraceID ev = job_TraceID job"

definition to_ready :: "job \<Rightarrow> gerr option \<Rightarrow> service_call" where
  "to_ready job err =
     StatusCall (rec_DeploymentID (job_Record job)) DeploymentStatusExporting DeploymentStatusArtifactReady err"

text \<open>The calls of an export from the pointer on, with the error it returns.\<close>

inductive service_run :: "job \<Rightarrow> artifact_pointer \<Rightarrow> gerr option \<Rightarrow> service_call list \<Rightarrow> bool" for job ptr where
  refused: "service_run job ptr (Some e) [SubmitCall (rec_DeploymentID (job_Record job)) ptr (Some e)]"
| status_failed: "AsStatusConflict (Some e) = None \<Longrightarrow>
    service_run job ptr (Some e) [SubmitCall (rec_DeploymentID (job_Record job)) ptr None, to_ready job (Some e)]"
| status_conflict: "AsStatusConflict err = Some current \<Longrightarrow> \<not> NonActionable current \<Longrightarrow>
    Code (From (Some e) FailedStageRenderHtml) = ErrorCodeValidationFailed \<Longrightarrow>
    service_run job ptr (Some e) [SubmitCall (rec_DeploymentID (job_Record job)) ptr None, to_ready job err]"
| overtaken: "AsStatusConflict err = Some current \<Longrightarrow> NonActionable current \<Longrightarrow> current \<noteq> DeploymentStatusArtifactReady \<Longrightarrow>
    service_run job ptr None [SubmitCall (rec_DeploymentID (job_Record job)) ptr None, to_ready job err]"
| ready: "err = None \<or> AsStatusConflict err = Some DeploymentStatusArtifactReady \<Longrightarrow> announces job ptr ev \<Longrightarrow>
    service_run job ptr (if e = None then None else Some (WrapE ReadyEmitPendingE))
      [SubmitCall (rec_DeploymentID (job_Record job)) ptr None, to_ready job err, ReadyCall ev e]"

inductive_cases service_runE: "service_run job ptr r cs"

section \<open>What is stored\<close>

definition manifest_key :: "'w pipeline \<Rightarrow> deployment_record \<Rightarrow> string" where
  "manifest_key p rec = export_base p rec @ ''/'' @ ManifestFilename"

text \<open>
  The pointer describes the manifest of the files, and the object under the manifest's key carries the digest of the
  pointer as its hash.
\<close>

definition published :: "'w pipeline \<Rightarrow> job \<Rightarrow> string \<Rightarrow> string \<Rightarrow> manifest_file_input list \<Rightarrow> int \<Rightarrow> artifact_pointer
    \<Rightarrow> (string \<Rightarrow> string \<rightharpoonup> stored) \<Rightarrow> bool" where
  "published p job entry route inputs totalBytes ptr objs \<longleftrightarrow>
     (\<exists>createdAt m encoded st.
        BuildManifest (pl_mlib p) (job_Record job) (export_base p (job_Record job)) entry route inputs createdAt =
          Inr (m, encoded, ptr_ManifestDigest ptr) \<and>
        objs (s3_bucket (pl_Store p)) (manifest_key p (job_Record job)) = Some st \<and>
        ptr_ManifestDigest ptr = ''sha256-'' @ st_hash st) \<and>
     ptr_ManifestStorageKey ptr = manifest_key p (job_Record job) \<and>
     ptr_ArtifactBasePath ptr = export_base p (job_Record job) \<and> ptr_Entry ptr = entry \<and>
     ptr_FilesCount ptr = int (length inputs) \<and> ptr_TotalBytes ptr = totalBytes \<and>
     ptr_Routes ptr = [\<lparr>route_Path = route, route_Entry = entry\<rparr>]"

definition file_stored :: "'w pipeline \<Rightarrow> job \<Rightarrow> (string \<Rightarrow> string \<rightharpoonup> stored) \<Rightarrow> hfile \<Rightarrow> bool" where
  "file_stored p job objs f \<longleftrightarrow>
     (\<exists>st. objs (s3_bucket (pl_Store p)) (export_base p (job_Record job) @ hf_Path f) = Some st \<and>
        st_hash st = SHA256Hex (ml_Sum256 (pl_mlib p)) (hf_Body f))"

text \<open>The upload budget does not expire.\<close>

definition in_budget :: "'w pipeline \<Rightarrow> bool" where
  "in_budget p \<longleftrightarrow> (\<forall>w. wp (pl_schedule p) (\<lambda>s _. Expire \<notin> set s) w)"

lemma export_objects_Inr:
  assumes "export_objects p base files = Inr os"
  shows "map (obj_Key \<circ> fst) os = map (\<lambda>f. base @ hf_Path f) files"
    "map (obj_SHA256Hex \<circ> fst) os = map (SHA256Hex (ml_Sum256 (pl_mlib p)) \<circ> hf_Body) files"
    "length os = length files"
  using assms
proof (induction files arbitrary: os)
  case (Cons f files)
  {
    case 1
    then show ?case using Cons
      by (auto simp: Let_def split: sum.splits elim!: StorageKey_Inr)
  next
    case 2
    then show ?case using Cons by (auto simp: Let_def split: sum.splits)
  next
    case 3
    then show ?case using Cons by (auto simp: Let_def split: sum.splits)
  }
qed simp_all

lemma export_objects_sizes:
  "export_objects p base files = Inr os \<Longrightarrow> sum_list (map (mfi_SizeBytes \<circ> snd) os) = file_bytes files"
  by (induction files arbitrary: os) (auto simp: file_bytes_def Let_def split: sum.splits)

text \<open>No harvested file takes the key of the page or of the manifest.\<close>

definition collision_free :: "string \<Rightarrow> hfile list \<Rightarrow> bool" where
  "collision_free entry deps \<longleftrightarrow> (\<forall>f \<in> set deps. hf_Path f \<noteq> entry \<and> hf_Path f \<noteq> ''/'' @ ManifestFilename)"

lemma harvest_distinct:
  "wp (harvest_Run h fuel page) (\<lambda>r w'. \<forall>files. r = Some (Inr files) \<longrightarrow> distinct (map hf_Path files)) w"
proof (rule wp_mono [OF harvest_spec], intro allI impI)
  fix r w' files
  assume "(hv_MaxTotalBytes h > 0 \<and> enough_fuel h page \<le> fuel \<longrightarrow> r \<noteq> None) \<and>
     (\<forall>files. r = Some (Inr files) \<longrightarrow> GuardHTML page = None \<and> (\<exists>own st. files = sort_key hf_Path (wk_files st) \<and>
        walk_inv h page (page_refs h page) own st \<and> walk_closed h (page_refs h page) own st \<and> wk_queue st = []))" "r = Some (Inr files)"
  then obtain own st where st: "files = sort_key hf_Path (wk_files st)" "walk_inv h page (page_refs h page) own st" by blast
  then have "mset (map hf_Path files) = mset (map hf_Path (wk_files st))" by simp
  from mset_eq_imp_distinct_iff [OF this] st(2) show "distinct (map hf_Path files)" by (simp add: walk_inv_def)
qed

lemma entry_not_manifest:
  assumes "MapSlug slug = Inr (entry, route)"
  shows "entry \<noteq> ''/'' @ ManifestFilename"
proof -
  obtain pre where "entry = pre @ ''/index.html''"
    using assms by (auto simp: MapSlug_def Let_def split: if_splits sum.splits)
  then have "last entry = CHR ''l''" by simp
  then show ?thesis by (auto simp: ManifestFilename_def)
qed

section \<open>What the pipeline relies on\<close>

locale export_env = s3_env c objects for c :: "'w s3_client" and objects :: "'w \<Rightarrow> string \<Rightarrow> string \<rightharpoonup> stored" +
  fixes p :: "'w pipeline" and calls :: "'w \<Rightarrow> service_call list"
  assumes client: "s3_client (pl_Store p) = c"
    and store_quiet: "silent calls (StatObject c b k)" "silent calls (PutObject c b k body opts)"
    and get_quiet: "wp (GetObject c b k) (\<lambda>r w'. calls w' = calls w \<and> (\<forall>rd. r = Inr rd \<longrightarrow> silent calls rd)) w"
    and render_quiet: "silent_render (\<lambda>w. (objects w, calls w)) (pl_Render p)"
    and now_quiet: "silent (\<lambda>w. (objects w, calls w)) (pl_now p)"
    and rand_quiet: "silent (\<lambda>w. (objects w, calls w)) (pl_rand_Read p n)"
    and schedule_quiet: "silent (\<lambda>w. (objects w, calls w)) (pl_schedule p)"
    and expired_quiet: "silent (\<lambda>w. (objects w, calls w)) (pl_uploadExpired p)"
    and metrics_quiet: "pl_Metrics p = Some f \<Longrightarrow> silent (\<lambda>w. (objects w, calls w)) (f m)"
    and external_quiet: "pl_ExternalHTTP p = Some http \<Longrightarrow> silent_response (\<lambda>w. (objects w, calls w)) (ext_Do http url)"
    and submit: "wp (pl_SubmitArtifact p d ptr) (\<lambda>err w'. objects w' = objects w \<and> calls w' = calls w @ [SubmitCall d ptr err]) w"
    and status: "wp (pl_Transition p d st st' reason trace stage) (\<lambda>err w'. objects w' = objects w \<and>
      calls w' = calls w @ [StatusCall d st st' err]) w"
    and emit: "wp (pl_EmitReady p ev) (\<lambda>err w'. objects w' = objects w \<and> calls w' = calls w @ [ReadyCall ev err]) w"
begin

lemma quiet: "silent (\<lambda>w. (objects w, calls w)) m \<Longrightarrow> wp m (\<lambda>_ w'. objects w' = objects w \<and> calls w' = calls w) w"
  using silentD [of "\<lambda>w. (objects w, calls w)" m w] by (auto elim: wp_mono)

lemma observe_quiet: "silent (\<lambda>w. (objects w, calls w)) (observe_since p mk start)"
  unfolding observe_since_def by (intro silent_intros now_quiet metrics_quiet)

lemma BuildReady_quiet: "silent (\<lambda>w. (objects w, calls w)) (BuildReady (pl_rand_Read p) inp)"
  unfolding BuildReady_def NewEventID_def by (intro silent_intros rand_quiet)

lemma BuildReady_announces:
  "wp (BuildReady (pl_rand_Read p) (ready_input_of (job_Record job) ptr (job_TraceID job) t)) (\<lambda>ev w'.
     objects w' = objects w \<and> calls w' = calls w \<and> announces job ptr ev) w"
proof -
  have "wp (BuildReady (pl_rand_Read p) (ready_input_of (job_Record job) ptr (job_TraceID job) t)) (\<lambda>ev _. announces job ptr ev) w"
    unfolding BuildReady_def wp_bind wp_return
    by (rule wp_mono [OF wp_True]) (simp add: announces_def ready_input_of_def)
  from wp_conj [OF quiet [OF BuildReady_quiet] this] show ?thesis by simp
qed

lemma export_emit_spec:
  "wp (export_emit p job ptr) (\<lambda>r w'. objects w' = objects w \<and> (\<exists>ev e. calls w' = calls w @ [ReadyCall ev e] \<and>
     announces job ptr ev \<and> r = (if e = None then None else Some (WrapE ReadyEmitPendingE)))) w"
  unfolding export_emit_def wp_bind wp_return
proof (rule wp_mono [OF quiet [OF now_quiet]], goal_cases)
  case (1 t w1)
  show ?case
  proof (rule wp_mono [OF BuildReady_announces], goal_cases)
    case (1 ev w2)
    show ?case
      by (rule wp_mono [OF emit]) (use 1 \<open>objects w1 = objects w \<and> calls w1 = calls w\<close> in \<open>auto split: option.splits\<close>)
  qed
qed

lemma casReady_spec:
  "wp (casReady p job) (\<lambda>r w'. objects w' = objects w \<and> (\<exists>err. calls w' = calls w @ [to_ready job err] \<and>
     (case r of
        Inr True \<Rightarrow> err = None \<or> AsStatusConflict err = Some DeploymentStatusArtifactReady
      | Inr False \<Rightarrow> \<exists>current. AsStatusConflict err = Some current \<and> NonActionable current \<and> current \<noteq> DeploymentStatusArtifactReady
      | Inl e \<Rightarrow> err = Some e \<and> AsStatusConflict err = None \<or>
          (\<exists>current. AsStatusConflict err = Some current \<and> \<not> NonActionable current) \<and>
          Code (From (Some e) FailedStageRenderHtml) = ErrorCodeValidationFailed))) w"
  unfolding casReady_def wp_bind wp_return
  by (rule wp_mono [OF status])
    (auto simp: to_ready_def errclass_New_def NonActionable_def split: option.splits if_splits)

lemma export_submit_spec:
  "wp (export_submit p job ptr) (\<lambda>r w'. objects w' = objects w \<and> (\<exists>cs. calls w' = calls w @ cs \<and> service_run job ptr r cs)) w"
  unfolding export_submit_def wp_bind
proof (rule wp_mono [OF submit], goal_cases)
  case (1 err w1)
  show ?case
  proof (cases err)
    case (Some e)
    with 1 show ?thesis by (auto intro: service_run.refused)
  next
    case None
    have "wp (casReady p job) (\<lambda>a. wp (case a of Inl e \<Rightarrow> ret (Some e)
        | Inr emitReady \<Rightarrow> if \<not> emitReady then ret None else export_emit p job ptr)
        (\<lambda>r w'. objects w' = objects w \<and> (\<exists>cs. calls w' = calls w @ cs \<and> service_run job ptr r cs))) w1"
    proof (rule wp_mono [OF casReady_spec], goal_cases)
      case (1 r w2)
      then obtain st where cs: "calls w2 = calls w @ [SubmitCall (rec_DeploymentID (job_Record job)) ptr None, to_ready job st]"
        "objects w2 = objects w" and r: "case r of
            Inr True \<Rightarrow> st = None \<or> AsStatusConflict st = Some DeploymentStatusArtifactReady
          | Inr False \<Rightarrow> \<exists>current. AsStatusConflict st = Some current \<and> NonActionable current \<and> current \<noteq> DeploymentStatusArtifactReady
          | Inl e \<Rightarrow> st = Some e \<and> AsStatusConflict st = None \<or>
              (\<exists>current. AsStatusConflict st = Some current \<and> \<not> NonActionable current) \<and>
              Code (From (Some e) FailedStageRenderHtml) = ErrorCodeValidationFailed"
        using \<open>objects w1 = objects w \<and> _\<close> None by auto
      show ?case
      proof (cases r)
        case (Inl e)
        with r cs show ?thesis by (auto intro: service_run.status_failed service_run.status_conflict)
      next
        case (Inr b)
        show ?thesis
        proof (cases b)
          case True
          with Inr r have st: "st = None \<or> AsStatusConflict st = Some DeploymentStatusArtifactReady" by simp
          have "wp (export_emit p job ptr)
            (\<lambda>r w'. objects w' = objects w \<and> (\<exists>cs. calls w' = calls w @ cs \<and> service_run job ptr r cs)) w2"
            by (rule wp_mono [OF export_emit_spec]) (use cs in \<open>auto intro: service_run.ready [OF st]\<close>)
          with Inr True show ?thesis by simp
        next
          case False
          with Inr r cs show ?thesis by (auto intro: service_run.overtaken)
        qed
      qed
    qed
    with None show ?thesis by simp
  qed
qed

lemma FetchIfExists_quiet: "wp (FetchIfExists (pl_Store p) key) (\<lambda>_ w'. objects w' = objects w \<and> calls w' = calls w) w"
proof -
  have "wp (FetchIfExists (pl_Store p) key) (\<lambda>_ w'. calls w' = calls w) w"
    unfolding FetchIfExists_def client wp_bind
  proof (rule wp_mono [OF get_quiet], goal_cases)
    case (1 r w1)
    show ?case
    proof (cases r)
      case (Inr rd)
      with 1 have "silent calls rd" by simp
      from silentD [OF this, of w1] 1 Inr show ?thesis by simp
    qed (use 1 in simp)
  qed
  from wp_conj [OF FetchIfExists_spec [OF client] this] show ?thesis by (rule wp_mono) simp
qed

lemma manifestCreatedAt_quiet:
  "wp (manifestCreatedAt p eventCreatedAt key fresh) (\<lambda>_ w'. objects w' = objects w \<and> calls w' = calls w) w"
  unfolding manifestCreatedAt_def using FetchIfExists_quiet by (auto elim: wp_mono)

lemma EnsureUploaded_quiet: "silent calls (EnsureUploaded (pl_Store p) obj)"
  by (intro silent_intros) (simp_all add: client store_quiet)

lemma export_manifest_spec:
  "wp (export_manifest p job entry route inputs totalBytes) (\<lambda>r w'.
     touches (s3_bucket (pl_Store p)) (manifest_key p (job_Record job)) w w' \<and>
     ((\<exists>e. r = Some e) \<and> calls w' = calls w \<or>
      (\<exists>ptr cs. calls w' = calls w @ cs \<and> service_run job ptr r cs \<and>
         published p job entry route inputs totalBytes ptr (objects w')))) w"
  (is "wp _ ?Q w")
  unfolding export_manifest_def Let_def wp_bind
proof (rule wp_mono [OF quiet [OF now_quiet]], goal_cases)
  case (1 t w1)
  note w1 = 1
  show ?case
  proof (rule wp_mono [OF manifestCreatedAt_quiet], goal_cases)
    case (1 createdAt w2)
    with w1 have w2: "objects w2 = objects w" "calls w2 = calls w" by simp_all
    let ?base = "export_base p (job_Record job)" and ?key = "manifest_key p (job_Record job)"
    show ?case
    proof (cases "BuildManifest (pl_mlib p) (job_Record job) ?base entry route inputs createdAt")
      case (Inl e)
      then show ?thesis using w2 by (simp add: touches_def)
    next
      case (Inr x)
      then obtain m enc digest where built:
        "BuildManifest (pl_mlib p) (job_Record job) ?base entry route inputs createdAt = Inr (m, enc, digest)" by (cases x) auto
      then have digest: "digest = ''sha256-'' @ SHA256Hex (ml_Sum256 (pl_mlib p)) enc" "length (mft_Files m) = length inputs"
        by (auto simp: BuildManifest_def Let_def manifest_of_def split: sum.splits list.splits)
      let ?ptr = "\<lparr>ptr_ManifestStorageKey = ?key, ptr_ArtifactBasePath = ?base, ptr_ManifestDigest = digest,
                ptr_Entry = entry, ptr_FilesCount = int (length (mft_Files m)), ptr_TotalBytes = totalBytes,
                ptr_Routes = [\<lparr>route_Path = route, route_Entry = entry\<rparr>]\<rparr>"
      have "wp (EnsureUploaded (pl_Store p) (manifest_object p ?key enc)) (\<lambda>a. wp (case a of
           Inl err \<Rightarrow> ret (Some (as_error (errclass_New (Code (From (Some err) FailedStageWriteManifest)) FailedStageWriteManifest
             (Cause (From (Some err) FailedStageWriteManifest)))))
         | Inr _ \<Rightarrow> export_submit p job ?ptr) ?Q) w2"
      proof (rule wp_mono [OF wp_conj [OF EnsureUploaded_touches [OF client] silentD [OF EnsureUploaded_quiet]]], goal_cases)
        case (1 r w3)
        show ?case
        proof (cases r)
          case (Inl e)
          with 1 w2 show ?thesis by (auto simp: touches_def manifest_object_def)
        next
          case (Inr b)
          with 1 have held: "holds (s3_bucket (pl_Store p)) w3 (manifest_object p ?key enc)" by blast
          have pub: "published p job entry route inputs totalBytes ?ptr (objects w3)"
            unfolding published_def
          proof (intro conjI)
            from held obtain st where "objects w3 (s3_bucket (pl_Store p)) ?key = Some st" "digest = ''sha256-'' @ st_hash st"
              by (auto simp: holds_def manifest_object_def digest(1))
            with built show "\<exists>createdAt m encoded st.
                BuildManifest (pl_mlib p) (job_Record job) ?base entry route inputs createdAt = Inr (m, encoded, ptr_ManifestDigest ?ptr) \<and>
                objects w3 (s3_bucket (pl_Store p)) ?key = Some st \<and> ptr_ManifestDigest ?ptr = ''sha256-'' @ st_hash st"
              by auto
          qed (simp_all add: digest(2))
          have "wp (export_submit p job ?ptr) ?Q w3"
            by (rule wp_mono [OF export_submit_spec])
              (use 1 w2 pub in \<open>auto simp: touches_def manifest_object_def\<close>)
          with Inr show ?thesis by simp
        qed
      qed
      from this [unfolded manifest_key_def] show ?thesis by (simp only: built manifest_key_def sum.case prod.case wp_bind)
    qed
  qed
qed

text \<open>
  What an export leaves behind, for given files: it announced nothing and failed, or it announced a pointer to
  what is stored.
\<close>

definition export_outcome :: "job \<Rightarrow> string \<Rightarrow> string \<Rightarrow> hfile list \<Rightarrow> 'w \<Rightarrow> gerr option \<Rightarrow> 'w \<Rightarrow> bool" where
  "export_outcome job entry route files w r w' \<longleftrightarrow>
     r \<noteq> None \<and> calls w' = calls w \<or>
     (\<exists>os ptr cs. export_objects p (export_base p (job_Record job)) files = Inr os \<and> calls w' = calls w @ cs \<and>
        service_run job ptr r cs \<and> published p job entry route (map snd os) (file_bytes files) ptr (objects w') \<and>
        (pl_MaxTotalArtifactBytes p > 0 \<longrightarrow> file_bytes files \<le> pl_MaxTotalArtifactBytes p) \<and>
        (in_budget p \<and> distinct (map hf_Path files) \<and> (\<forall>f \<in> set files. hf_Path f \<noteq> ''/'' @ ManifestFilename) \<longrightarrow>
           (\<forall>f \<in> set files. file_stored p job (objects w') f)))"

lemma stored_kept:
  assumes "\<forall>obj \<in> set (map fst os). holds (s3_bucket (pl_Store p)) w obj"
    and "export_objects p (export_base p (job_Record job)) files = Inr os"
    and "touches (s3_bucket (pl_Store p)) (manifest_key p (job_Record job)) w w'"
    and "\<forall>f \<in> set files. hf_Path f \<noteq> ''/'' @ ManifestFilename"
  shows "\<forall>f \<in> set files. file_stored p job (objects w') f"
proof
  fix f
  assume f: "f \<in> set files"
  note os = export_objects_Inr [OF assms(2)]
  from f obtain i where i: "i < length files" "files ! i = f" by (auto simp: in_set_conv_nth)
  let ?obj = "fst (os ! i)"
  have obj: "obj_Key ?obj = export_base p (job_Record job) @ hf_Path f"
      "obj_SHA256Hex ?obj = SHA256Hex (ml_Sum256 (pl_mlib p)) (hf_Body f)"
    using arg_cong [OF os(1), of "\<lambda>xs. xs ! i"] arg_cong [OF os(2), of "\<lambda>xs. xs ! i"] i os(3) by simp_all
  have "?obj \<in> set (map fst os)" using i os(3) by simp
  with assms(1) have "holds (s3_bucket (pl_Store p)) w ?obj" by blast
  moreover have "obj_Key ?obj \<noteq> manifest_key p (job_Record job)"
    using f assms(4) by (auto simp: obj manifest_key_def)
  ultimately show "file_stored p job (objects w') f"
    using assms(3) by (auto simp: holds_def touches_def file_stored_def obj)
qed

lemma metrics_quiet':
  "wp (case pl_Metrics p of None \<Rightarrow> ret () | Some f \<Rightarrow> do { f a; f b }) (\<lambda>_ w'. objects w' = objects w \<and> calls w' = calls w) w"
  by (rule quiet) (intro silent_intros metrics_quiet)

lemma export_upload_spec:
  "wp (export_upload p job entry route files) (export_outcome job entry route files w) w"
proof (cases "export_objects p (export_base p (job_Record job)) files")
  case (Inl e)
  then show ?thesis by (simp add: export_upload_def export_outcome_def)
next
  case (Inr os)
  let ?Q = "export_outcome job entry route files w"
  have keys: "map obj_Key (map fst os) = map (\<lambda>f. export_base p (job_Record job) @ hf_Path f) files"
    using export_objects_Inr(1) [OF Inr] by (simp add: comp_def)
  have fits: "pl_MaxTotalArtifactBytes p > 0 \<longrightarrow> file_bytes files \<le> pl_MaxTotalArtifactBytes p"
    if "\<not> (pl_MaxTotalArtifactBytes p > 0 \<and> file_bytes files > pl_MaxTotalArtifactBytes p)" using that by linarith
  show ?thesis
  proof (cases "pl_MaxTotalArtifactBytes p > 0 \<and> file_bytes files > pl_MaxTotalArtifactBytes p")
    case True
    with Inr show ?thesis by (simp add: export_upload_def export_outcome_def Let_def)
  next
    case False
    let ?up = "\<lambda>schedule. UploadAll (pl_Store p) schedule (map fst os) (pl_UploadConcurrency p)"
    let ?all = "\<lambda>w'. \<forall>obj \<in> set (map fst os). holds (s3_bucket (pl_Store p)) w' obj"
    let ?safe = "in_budget p \<and> distinct (map hf_Path files)"
    have upload: "wp (?up schedule) (\<lambda>(u, k, err) w'. calls w' = calls w1 \<and> (err = None \<and> ?safe \<longrightarrow> ?all w')) w1"
      if "in_budget p \<longrightarrow> Expire \<notin> set schedule" for schedule w1
    proof -
      have quiet: "wp (?up schedule) (\<lambda>_ w'. calls w' = calls w1) w1"
        by (rule silentD) (intro silent_intros, simp_all add: client store_quiet)
      show ?thesis
      proof (cases ?safe)
        case True
        then have "distinct (map obj_Key (map fst os))"
          unfolding keys by (auto simp: distinct_map inj_on_def)
        from wp_conj [OF quiet UploadAll_distinct [OF client this]] show ?thesis
          by (rule wp_mono) (use that True in auto)
      next
        case False
        from quiet show ?thesis by (rule wp_mono) (use False in auto)
      qed
    qed
    show ?thesis
      unfolding export_upload_def Inr sum.case Let_def if_not_P [OF False] wp_bind
    proof (rule wp_mono [OF quiet [OF now_quiet]], goal_cases)
      case w1: (1 start w1)
      have sched: "wp (pl_schedule p) (\<lambda>s w2. objects w2 = objects w \<and> calls w2 = calls w \<and> (in_budget p \<longrightarrow> Expire \<notin> set s)) w1"
      proof (cases "in_budget p")
        case True
        then have "wp (pl_schedule p) (\<lambda>s _. Expire \<notin> set s) w1" by (simp add: in_budget_def)
        from wp_conj [OF quiet [OF schedule_quiet] this] show ?thesis by (rule wp_mono) (use w1 in auto)
      qed (use quiet [OF schedule_quiet, of w1] w1 in simp)
      show ?case
      proof (rule wp_mono [OF sched], goal_cases)
        case w2: (1 schedule w2)
        have "in_budget p \<longrightarrow> Expire \<notin> set schedule" using w2 by simp
        from upload [OF this, of w2] show ?case
        proof (rule wp_mono, goal_cases)
          case w3: (1 res w3)
          obtain u k err where res: "res = (u, k, err)" by (cases res) auto
          show ?case
            unfolding res prod.case wp_bind
          proof (rule wp_mono [OF quiet [OF observe_quiet]], rule wp_mono [OF metrics_quiet'], goal_cases)
            case w5: (1 _ w4 _ w5)
            then have w5': "calls w5 = calls w" "err = None \<and> ?safe \<longrightarrow> ?all w5"
              using w3 w2 by (simp_all add: res holds_def)
            show ?case
            proof (cases err)
              case (Some e)
              have "wp (pl_uploadExpired p) (\<lambda>_ w'. calls w' = calls w) w5"
                by (rule wp_mono [OF quiet [OF expired_quiet]]) (simp add: w5')
              then show ?thesis by (simp add: Some export_outcome_def) (auto elim: wp_mono)
            next
              case None
              have "wp (export_manifest p job entry route (map snd os) (file_bytes files)) ?Q w5"
              proof (rule wp_mono [OF export_manifest_spec], goal_cases)
                case (1 r w')
                then show ?case
                  using None w5' stored_kept [OF _ Inr, of w5 w'] Inr fits [OF False]
                  unfolding export_outcome_def by auto
              qed
              then show ?thesis by (simp add: None)
            qed
          qed
        qed
      qed
    qed
  qed
qed

lemma externalFetcher_quiet:
  assumes "externalFetcher p = Some fetch"
  shows "silent (\<lambda>w. (objects w, calls w)) (fetch url n)"
  by (rule silent_externalFetcher [OF assms external_quiet])

lemma harvest_quiet: "silent (\<lambda>w. (objects w, calls w)) (harvest_Run (harvester_of p pn) fuel html)"
  by (rule silent_harvest) (simp_all add: harvester_of_def externalFetcher_quiet silent_FetchAsset render_quiet)

lemma FetchPage_quiet: "silent (\<lambda>w. (objects w, calls w)) (FetchPage (pl_Render p) slug pn)"
  by (intro silent_intros render_quiet)

text \<open>The whole export: the files are the page under its entry and what the harvest of the page returned.\<close>

definition export_post :: "job \<Rightarrow> 'w \<Rightarrow> gerr option option \<Rightarrow> 'w \<Rightarrow> bool" where
  "export_post job w r w' \<longleftrightarrow>
     (case r of
        None \<Rightarrow> calls w' = calls w
      | Some err \<Rightarrow> err \<noteq> None \<and> calls w' = calls w \<or>
          (\<exists>entry route html deps. MapSlug (rec_Slug (job_Record job)) = Inr (entry, route) \<and>
             distinct (map hf_Path deps) \<and>
             export_outcome job entry route (\<lparr>hf_Path = entry, hf_Body = html, hf_MimeType = ''text/html''\<rparr> # deps) w err w'))"

lemma export_outcome_cong: "calls w1 = calls w \<Longrightarrow> export_outcome job entry route files w1 = export_outcome job entry route files w"
  by (simp add: export_outcome_def fun_eq_iff)

lemma export_harvest_spec:
  assumes "MapSlug (rec_Slug (job_Record job)) = Inr (entry, route)" "calls w1 = calls w"
  shows "wp (export_harvest p job entry route pn html) (\<lambda>r w'. export_post job w r w' \<and>
    (pl_MaxTotalArtifactBytes p > 0 \<and> enough_fuel (harvester_of p pn) html \<le> pl_fuel p \<longrightarrow> r \<noteq> None)) w1"
  unfolding export_harvest_def wp_bind
proof (rule wp_mono [OF quiet [OF now_quiet]], goal_cases)
  case w2: (1 start w2)
  show ?case
  proof (rule wp_mono [OF wp_conj [OF quiet [OF harvest_quiet] wp_conj [OF harvest_distinct harvest_spec]]], goal_cases)
    case w3: (1 r w3)
    show ?case
    proof (cases r)
      case None
      with w2 w3 assms(2) show ?thesis by (auto simp: export_post_def harvester_of_def)
    next
      case (Some res)
      note r = Some
      have "wp (observe_since p HarvestDurationMs start) (\<lambda>_. wp (case res of
           Inl err \<Rightarrow> ret (Some (Some err))
         | Inr deps \<Rightarrow> export_upload p job entry route (\<lparr>hf_Path = entry, hf_Body = html, hf_MimeType = ''text/html''\<rparr> # deps)
             \<bind> (\<lambda>err. ret (Some err))) (\<lambda>r w'. export_post job w r w' \<and> r \<noteq> None)) w3"
      proof (rule wp_mono [OF quiet [OF observe_quiet]], goal_cases)
        case w4: (1 _ w4)
        then have calls: "calls w4 = calls w" using w2 w3 assms(2) by simp
        show ?case
        proof (cases res)
          case (Inl e)
          then show ?thesis using calls by (simp add: export_post_def)
        next
          case (Inr deps)
          with w3 r have "distinct (map hf_Path deps)" by simp
          then show ?thesis
            unfolding Inr sum.case wp_bind wp_return export_post_def option.case
            by (intro wp_mono [OF export_upload_spec]) (use assms(1) in \<open>auto simp: export_outcome_cong [OF calls]\<close>)
        qed
      qed
      then show ?thesis unfolding r option.case wp_bind by (auto elim!: wp_mono)
    qed
  qed
qed

lemma Export_spec:
  "wp (Export p job) (\<lambda>r w'. export_post job w r w' \<and>
     (pl_MaxTotalArtifactBytes p > 0 \<and> (\<forall>pn html. enough_fuel (harvester_of p pn) html \<le> pl_fuel p) \<longrightarrow> r \<noteq> None)) w"
proof (cases "MapSlug (rec_Slug (job_Record job))")
  case (Inl e)
  then show ?thesis by (simp add: Export_def export_post_def)
next
  case (Inr x)
  obtain entry route where slug: "MapSlug (rec_Slug (job_Record job)) = Inr (entry, route)" using Inr by (cases x) auto
  let ?pn = "PinFromRecord (job_Record job) (job_TraceID job)"
  show ?thesis
    unfolding Export_def slug sum.case prod.case Let_def wp_bind
  proof (rule wp_mono [OF quiet [OF now_quiet]], rule wp_mono [OF quiet [OF FetchPage_quiet]],
      rule wp_mono [OF quiet [OF observe_quiet]], goal_cases)
    case (1 _ w1 html w2 _ w3)
    then have calls: "calls w3 = calls w" by simp
    show ?case
    proof (cases html)
      case (Inl e)
      then show ?thesis using calls by (simp add: export_post_def)
    next
      case (Inr html)
      then show ?thesis using export_harvest_spec [OF slug calls, of ?pn html] by (auto elim: wp_mono)
    qed
  qed
qed

text \<open>The event that is written again.\<close>

lemma ReemitReady_spec:
  assumes os: "export_objects p (export_base p (job_Record job)) files = Inr os"
    and built: "BuildManifest (pl_mlib p) (job_Record job) (export_base p (job_Record job)) entry route (map snd os) createdAt =
      Inr (m, encoded, digest)"
    and st: "objects w (s3_bucket (pl_Store p)) (manifest_key p (job_Record job)) = Some st" "st_Body st = encoded"
    and codec: "manifest_Unmarshal (pl_mlib p) encoded = Inr m"
  shows "wp (ReemitReady p (job_Record job) (job_TraceID job)) (\<lambda>r w'. objects w' = objects w \<and>
    ((\<exists>e. r = (False, Some e)) \<and> calls w' = calls w \<or>
     (\<exists>ev err. r = (True, err) \<and> calls w' = calls w @ [ReadyCall ev err] \<and>
        announces job \<lparr>ptr_ManifestStorageKey = manifest_key p (job_Record job),
          ptr_ArtifactBasePath = export_base p (job_Record job), ptr_ManifestDigest = digest, ptr_Entry = entry,
          ptr_FilesCount = int (length files), ptr_TotalBytes = file_bytes files,
          ptr_Routes = [\<lparr>route_Path = route, route_Entry = entry\<rparr>]\<rparr> ev))) w"
  (is "wp _ ?Q w")
proof -
  let ?rec = "job_Record job"
  let ?ptr = "\<lparr>ptr_ManifestStorageKey = manifest_key p ?rec, ptr_ArtifactBasePath = export_base p ?rec, ptr_ManifestDigest = digest,
      ptr_Entry = entry, ptr_FilesCount = int (length files), ptr_TotalBytes = file_bytes files,
      ptr_Routes = [\<lparr>route_Path = route, route_Entry = entry\<rparr>]\<rparr>"
  have m: "m = manifest_of ?rec (export_base p ?rec) entry route (map snd os) createdAt"
    "digest = ''sha256-'' @ SHA256Hex (ml_Sum256 (pl_mlib p)) encoded"
    using built by (auto simp: BuildManifest_def Let_def split: sum.splits list.splits)
  have input: "\<lparr>in_Record = ?rec, in_ArtifactBasePath = export_base p ?rec, in_ManifestStorageKey = manifest_key p ?rec,
      in_ManifestDigest = ''sha256-'' @ SHA256Hex (ml_Sum256 (pl_mlib p)) encoded, in_Entry = mft_Entry m,
      in_FilesCount = int (length (mft_Files m)), in_TotalBytes = sum_list (map mf_SizeBytes (mft_Files m)),
      in_TraceID = job_TraceID job, in_Now = t\<rparr> = ready_input_of ?rec ?ptr (job_TraceID job) t" for t
    using export_objects_sizes [OF os] export_objects_Inr(3) [OF os]
    by (simp add: ready_input_of_def m manifest_of_def comp_def)
  have emit: "wp (pl_now p \<bind> (\<lambda>t. BuildReady (pl_rand_Read p) (ready_input_of ?rec ?ptr (job_TraceID job) t) \<bind>
      (\<lambda>ready. pl_EmitReady p ready \<bind> (\<lambda>err. ret (True, err))))) ?Q w1"
    if "objects w1 = objects w" "calls w1 = calls w" for w1
    unfolding wp_bind wp_return
  proof (rule wp_mono [OF quiet [OF now_quiet]], rule wp_mono [OF BuildReady_announces], goal_cases)
    case (1 t w2 ev w3)
    show ?case by (rule wp_mono [OF emit]) (use 1 that in auto)
  qed
  show ?thesis
    unfolding ReemitReady_def Let_def manifest_key_def [symmetric] wp_bind
  proof (rule wp_mono [OF wp_conj [OF FetchIfExists_quiet FetchIfExists_spec [OF client]]], goal_cases)
    case (1 r w1)
    show ?case
    proof (cases r)
      case (Inl e)
      with 1 show ?thesis by simp
    next
      case (Inr x)
      with 1 st have "r = Inr (encoded, True)" by (auto split: if_splits)
      with emit [of w1] 1 show ?thesis by (simp only: sum.case prod.case not_True_eq_False if_False codec input wp_bind)
    qed
  qed
qed

end

end
