(* ===== verification/Export_World.thy ===== *)
theory Export_World
  imports Export_Rule
begin

text \<open>
  An executable world for the pipeline - the store of \<open>Storage\<close>, a deployment service and an event stream that
  log their calls and answer from a script - as an instance of \<open>export_env\<close>, and the pipeline's properties.
\<close>

section \<open>The world\<close>

record export_world =
  ew_store :: s3_server
  ew_calls :: "service_call list"
  ew_answers :: "gerr option list"  \<comment> \<open>of the service calls to come; none left means success\<close>

definition on_store :: "(s3_server, 'a) state \<Rightarrow> (export_world, 'a) state" where
  "on_store m = State (\<lambda>w. case run_state m (ew_store w) of (a, s) \<Rightarrow> (a, w\<lparr>ew_store := s\<rparr>))"

definition world_s3 :: "export_world s3_client" where
  "world_s3 =
     \<lparr>BucketExists = (\<lambda>b. on_store (BucketExists server_s3 b)),
      StatObject = (\<lambda>b k. on_store (StatObject server_s3 b k)),
      PutObject = (\<lambda>b k body opts. on_store (PutObject server_s3 b k body opts)),
      GetObject = (\<lambda>b k. do {
        r \<leftarrow> on_store (GetObject server_s3 b k);
        ret (case r of Inl e \<Rightarrow> Inl e | Inr rd \<Rightarrow> Inr (on_store rd)) })\<rparr>"

definition answer :: "(gerr option \<Rightarrow> service_call) \<Rightarrow> (export_world, gerr option) state" where
  "answer call = State (\<lambda>w.
     let err = (case ew_answers w of [] \<Rightarrow> None | a # _ \<Rightarrow> a)
     in (err, w\<lparr>ew_calls := ew_calls w @ [call err], ew_answers := tl (ew_answers w)\<rparr>))"

lemma wp_on_store: "wp (on_store m) Q w = wp m (\<lambda>a s. Q a (w\<lparr>ew_store := s\<rparr>)) (ew_store w)"
  by (simp add: wp_def on_store_def split: prod.splits)

lemma on_store_silent: "silent ew_calls (on_store m)"
  by (simp add: silent_def wp_on_store)

lemma wp_answer:
  "wp (answer call) (\<lambda>err w'. ew_store w' = ew_store w \<and> ew_calls w' = ew_calls w @ [call err]) w"
  by (simp add: wp_def answer_def Let_def)

text \<open>A render origin that serves one page and any asset under \<open>/static/\<close>.\<close>

definition world_render :: "export_world render_client" where
  "world_render =
     \<lparr>rd_baseURL = ''http://origin'', rd_token = ''t'',
      rd_Do = (\<lambda>url hs. ret (Inr
        \<lparr>rsp_StatusCode = 200, rsp_ContentType = (if HasSuffix url ''/home'' then ''text/html'' else ''text/css''),
         rsp_Body = (\<lambda>n. ret (Inr (if HasSuffix url ''/home'' then ''page'' else ''a{}'')))\<rparr>)),
      rd_MaxHTMLBytes = 0, rd_MaxAssetBytes = 0, rd_NewRequest = (\<lambda>_. None), rd_Inject = ret [], rd_MediaType = id,
      rd_rand_Read = (\<lambda>n. ret (replicate n CHR ''x''))\<rparr>"

text \<open>A pipeline in this world, for any interleaving of the uploads.\<close>

definition world_pipeline :: "manifest_lib \<Rightarrow> upload_choice list \<Rightarrow> export_world pipeline" where
  "world_pipeline mlib schedule =
     \<lparr>pl_Render = world_render,
      pl_Transition = (\<lambda>d from to reason trace stage. answer (StatusCall d from to)),
      pl_SubmitArtifact = (\<lambda>d ptr. answer (SubmitCall d ptr)),
      pl_Store = \<lparr>s3_client = world_s3, s3_bucket = ''artifacts''\<rparr>,
      pl_EmitReady = (\<lambda>ev. answer (ReadyCall ev)),
      pl_BasePrefix = ''sites'', pl_Allow = [''/static/*''], pl_External = [], pl_UploadConcurrency = 2,
      pl_MaxTotalArtifactBytes = 100, pl_ExternalHTTP = None, pl_Metrics = None, pl_Now = None, pl_time_Now = ret 0,
      pl_hlib = sample_hlib, pl_mlib = mlib, pl_rand_Read = (\<lambda>n. ret (replicate n CHR ''x'')),
      pl_schedule = ret schedule, pl_uploadExpired = ret False, pl_fuel = 202\<rparr>"

lemma world_quiet: "silent view (pl_now (world_pipeline mlib schedule))"
  by (simp add: pl_now_def world_pipeline_def silent_ret)

interpretation world: export_env world_s3 "\<lambda>w. sv_objects (ew_store w)" "world_pipeline mlib schedule" ew_calls
  for mlib schedule
proof (unfold_locales, goal_cases)
  case (1 b k w)
  show ?case unfolding world_s3_def s3_client.simps wp_on_store by (simp add: server_s3.stat)
next
  case (2 b k body opts w)
  show ?case unfolding world_s3_def s3_client.simps wp_on_store by (rule wp_mono [OF server_s3.put]) auto
next
  case (3 b k w)
  show ?case unfolding world_s3_def s3_client.simps wp_bind wp_return wp_on_store
    by (rule wp_mono [OF server_s3.get]) (auto simp: wp_on_store split: sum.splits)
next
  case (7 b k w)
  show ?case unfolding world_s3_def s3_client.simps wp_bind wp_return wp_on_store
    by (rule wp_mono [OF wp_True]) (auto simp: on_store_silent split: sum.splits)
next
  case (8)
  show ?case
    by (simp add: silent_render_def world_pipeline_def world_render_def silent_response_def silent_ret)
next
  case (9)
  show ?case by (rule world_quiet)
next
  case (15 d ptr w)
  show ?case unfolding world_pipeline_def pipeline.simps by (rule wp_mono [OF wp_answer]) simp
next
  case (16 d st st' reason trace stage w)
  show ?case unfolding world_pipeline_def pipeline.simps by (rule wp_mono [OF wp_answer]) simp
next
  case (17 ev w)
  show ?case unfolding world_pipeline_def pipeline.simps by (rule wp_mono [OF wp_answer]) simp
qed (simp_all add: world_pipeline_def world_s3_def on_store_silent silent_ret)

section \<open>A sample run\<close>

definition world_job :: job where
  "world_job =
     \<lparr>job_Event = \<lparr>ev_EventID = ''e1'', ev_EventType = ''deployment.export.requested'', ev_DeploymentID = ''d1'', ev_TeamID = ''t1'',
        ev_SiteID = ''s1'', ev_PageID = ''p1'', ev_Slug = ''/home'', ev_Version = ''v1'', ev_RenderMode = ''fetch_route'',
        ev_TargetID = ''c1'', ev_Environment = ''production'', ev_RequestedBy = ''u'', ev_IdempotencyKey = ''k'', ev_CreatedAt = ''now''\<rparr>,
      job_Record = sample_rec,
      job_Msg = \<lparr>msg_ID = ''5-0'', msg_Payload = [], msg_Attempt = 0, msg_LastErrorCode = [], msg_TraceID = ''tr''\<rparr>,
      job_TraceID = ''tr''\<rparr>"

definition world_files :: "hfile list" where
  "world_files = [\<lparr>hf_Path = ''/home/index.html'', hf_Body = ''page'', hf_MimeType = ''text/html''\<rparr>,
     \<lparr>hf_Path = ''/static/app.css'', hf_Body = ''a{}'', hf_MimeType = ''text/css''\<rparr>]"

definition world_inputs :: "manifest_file_input list" where
  "world_inputs = [\<lparr>mfi_Path = ''/home/index.html'', mfi_StorageKey = ''sites/s1/deployments/d1/home/index.html'', mfi_SHA256Hex = ''68'',
       mfi_SizeBytes = 4, mfi_MimeType = ''text/html'', mfi_CacheControl = CacheControlHTML\<rparr>,
     \<lparr>mfi_Path = ''/static/app.css'', mfi_StorageKey = ''sites/s1/deployments/d1/static/app.css'', mfi_SHA256Hex = ''68'',
       mfi_SizeBytes = 3, mfi_MimeType = ''text/css'', mfi_CacheControl = CacheControlNonHashed\<rparr>]"

definition world_lib :: manifest_lib where
  "world_lib = sample_manifest_lib (manifest_of sample_rec ''sites/s1/deployments/d1'' ''/home/index.html'' ''/home'' world_inputs ''now'')"

definition world_start :: "gerr option list \<Rightarrow> export_world" where
  "world_start answers = \<lparr>ew_store = sample_bucket, ew_calls = [], ew_answers = answers\<rparr>"

definition world_export :: "(export_world, gerr option option) state" where
  "world_export = Export (world_pipeline world_lib [Feed, Feed, Finish 1]) world_job"

text \<open>Evaluation leaves the format of a time as it stands: the time is a variable where the simplifier meets it first.\<close>

declare format_RFC3339_def [code del]

lemma world_success:
  obtains w where "run_state world_export (world_start []) = (Some None, w)" "ew_calls w \<noteq> []"
proof -
  have "case run_state world_export (world_start []) of (r, w) \<Rightarrow> r = Some None \<and> ew_calls w \<noteq> []"
    by code_simp
  then show ?thesis using that by (auto split: prod.splits)
qed

text \<open>The manifest of the sample, and a store that holds it.\<close>

lemma world_objects:
  "\<exists>os. export_objects (world_pipeline world_lib []) ''sites/s1/deployments/d1'' world_files = Inr os \<and> map snd os = world_inputs"
proof -
  have "case export_objects (world_pipeline world_lib []) ''sites/s1/deployments/d1'' world_files of
      Inr os \<Rightarrow> map snd os = world_inputs | Inl _ \<Rightarrow> False" by code_simp
  then show ?thesis by (auto split: sum.splits)
qed

lemma world_manifest:
  "BuildManifest world_lib sample_rec ''sites/s1/deployments/d1'' ''/home/index.html'' ''/home'' world_inputs ''now'' =
     Inr (manifest_of sample_rec ''sites/s1/deployments/d1'' ''/home/index.html'' ''/home'' world_inputs ''now'', ''{}'' @ [CHR 0x0A], ''sha256-68'')"
  by code_simp

definition world_published :: export_world where
  "world_published = (world_start [])\<lparr>ew_store := sample_bucket\<lparr>sv_objects := (\<lambda>_.
     [''sites/s1/deployments/d1/artifact-manifest.json'' \<mapsto> \<lparr>st_Body = ''{}'' @ [CHR 0x0A], st_ContentType = ''application/json'', st_CacheControl = ''no-cache'', st_Meta = [(MetaContentSHA256, ''68'')]\<rparr>])\<rparr>\<rparr>"

lemma world_reemit:
  "case run_state (ReemitReady (world_pipeline world_lib []) (job_Record world_job) (job_TraceID world_job)) world_published of
     (r, w) \<Rightarrow> r = (True, None)"
  by code_simp

section \<open>Properties\<close>

text \<open>
  C8. Nothing is announced before it is stored. Whatever the store, the origin and the services answer: when an export has called
  the deployment service or the event stream at all, it did so in the order pointer, status, event, each call only after
  the one before it succeeded (or, for the status, found the deployment ready), and the pointer names the manifest of
  exactly the files of the bundle, whose object is in the store with the pointer's digest as its hash, and counts these
  files and their bytes, within the configured limit. If the upload budget did not expire and no harvested file has the path of the
  page or of the manifest, every file of the bundle is in the store under its key with its content hash.
\<close>

theorem Export_durable:
  assumes "export_env c objects p calls" "run_state (Export p job) w = (r, w')" "calls w' \<noteq> calls w"
  shows "\<exists>entry route html deps os ptr cs err.
    let files = \<lparr>hf_Path = entry, hf_Body = html, hf_MimeType = ''text/html''\<rparr> # deps in
    MapSlug (rec_Slug (job_Record job)) = Inr (entry, route) \<and> r = Some err \<and>
    export_objects p (export_base p (job_Record job)) files = Inr os \<and>
    calls w' = calls w @ cs \<and> service_run job ptr err cs \<and>
    published p job entry route (map snd os) (file_bytes files) ptr (objects w') \<and>
    (pl_MaxTotalArtifactBytes p > 0 \<longrightarrow> file_bytes files \<le> pl_MaxTotalArtifactBytes p) \<and>
    (in_budget p \<and> collision_free entry deps \<longrightarrow> (\<forall>f \<in> set files. file_stored p job (objects w') f))"
proof -
  note env = assms(1)
  have "export_env.export_post objects p calls job w r w'"
    using wp_run [OF export_env.Export_spec [OF env] assms(2)] by simp
  with assms(3) obtain err entry route html deps where r: "r = Some err" "MapSlug (rec_Slug (job_Record job)) = Inr (entry, route)"
      "distinct (map hf_Path deps)"
    and out: "export_env.export_outcome objects p calls job entry route
      (\<lparr>hf_Path = entry, hf_Body = html, hf_MimeType = ''text/html''\<rparr> # deps) w err w'"
    by (auto simp: export_env.export_post_def [OF env] split: option.splits)
  have "entry \<notin> hf_Path ` set deps" "\<forall>f \<in> set deps. hf_Path f \<noteq> ''/'' @ ManifestFilename" if "collision_free entry deps"
    using that by (auto simp: collision_free_def)
  with r(3) entry_not_manifest [OF r(2)] out assms(3) r(1,2) show ?thesis
    unfolding export_env.export_outcome_def [OF env] Let_def by fastforce
qed

theorem Export_durable_witness:
  "\<exists>w entry route html deps ptr cs. run_state world_export (world_start []) = (Some None, w) \<and>
     ew_calls w = cs \<and> service_run world_job ptr None cs \<and> ptr_TotalBytes ptr \<le> 100 \<and>
     ptr_TotalBytes ptr = file_bytes (\<lparr>hf_Path = entry, hf_Body = html, hf_MimeType = ''text/html''\<rparr> # deps) \<and>
     MapSlug ''/home'' = Inr (entry, route)"
proof -
  obtain w where run: "run_state world_export (world_start []) = (Some None, w)" "ew_calls w \<noteq> []"
    by (rule world_success)
  have limit: "pl_MaxTotalArtifactBytes (world_pipeline l s) = 100" for l s by (simp add: world_pipeline_def)
  have "ew_calls w \<noteq> ew_calls (world_start [])" using run(2) by (simp add: world_start_def)
  from Export_durable [OF world.export_env_axioms run(1) [unfolded world_export_def] this]
  obtain entry route html deps os ptr cs err where *: "MapSlug (rec_Slug (job_Record world_job)) = Inr (entry, route)"
      "Some None = Some err" "export_objects (world_pipeline world_lib [Feed, Feed, Finish 1])
        (export_base (world_pipeline world_lib [Feed, Feed, Finish 1]) (job_Record world_job))
        (\<lparr>hf_Path = entry, hf_Body = html, hf_MimeType = ''text/html''\<rparr> # deps) = Inr os"
      "ew_calls w = ew_calls (world_start []) @ cs" "service_run world_job ptr err cs"
      "published (world_pipeline world_lib [Feed, Feed, Finish 1]) world_job entry route (map snd os)
        (file_bytes (\<lparr>hf_Path = entry, hf_Body = html, hf_MimeType = ''text/html''\<rparr> # deps)) ptr (sv_objects (ew_store w))"
      "0 < (100 :: int) \<longrightarrow> file_bytes (\<lparr>hf_Path = entry, hf_Body = html, hf_MimeType = ''text/html''\<rparr> # deps) \<le> 100"
    unfolding Let_def limit by (elim exE conjE) (rule that, assumption+)
  have "ptr_TotalBytes ptr = file_bytes (\<lparr>hf_Path = entry, hf_Body = html, hf_MimeType = ''text/html''\<rparr> # deps)"
    using *(6) by (simp add: published_def)
  moreover have "ew_calls w = cs" "MapSlug ''/home'' = Inr (entry, route)" "service_run world_job ptr None cs"
    using *(1,2,4,5) by (simp_all add: world_start_def world_job_def sample_rec_def)
  moreover from *(7) calculation(1) have "ptr_TotalBytes ptr \<le> 100" by simp
  ultimately show ?thesis using run(1) by blast
qed

text \<open>
  C9. An export never loses the ready event. It returns without an error only if the pointer was accepted and either the ready
  event was written, after the status became (or already was) ARTIFACT_READY, or the deployment had reached another state in which
  nothing is to be done, and then nothing was written; and whenever writing the event fails it returns the
  ready-emit-pending error, on which the processor leaves the message pending.
\<close>

theorem Export_no_lost_event:
  assumes "export_env c objects p calls" "run_state (Export p job) w = (Some err, w')"
  shows "(err = None \<longrightarrow> (\<exists>ptr st. (\<exists>ev. calls w' = calls w @
        [SubmitCall (rec_DeploymentID (job_Record job)) ptr None, to_ready job st, ReadyCall ev None] \<and> announces job ptr ev \<and>
        (st = None \<or> AsStatusConflict st = Some DeploymentStatusArtifactReady)) \<or>
      (\<exists>current. calls w' = calls w @ [SubmitCall (rec_DeploymentID (job_Record job)) ptr None, to_ready job st] \<and>
        AsStatusConflict st = Some current \<and> NonActionable current \<and> current \<noteq> DeploymentStatusArtifactReady))) \<and>
    (\<forall>cs ev e. calls w' = calls w @ cs \<and> ReadyCall ev (Some e) \<in> set cs \<longrightarrow> err = Some (WrapE ReadyEmitPendingE))"
proof -
  note env = assms(1)
  have "export_env.export_post objects p calls job w (Some err) w'"
    using wp_run [OF export_env.Export_spec [OF env] assms(2)] by simp
  then consider "err \<noteq> None" "calls w' = calls w"
    | ptr cs where "calls w' = calls w @ cs" "service_run job ptr err cs"
    by (auto simp: export_env.export_post_def [OF env] export_env.export_outcome_def [OF env])
  then show ?thesis
  proof cases
    case (2 ptr cs)
    from 2(2) show ?thesis
      by (cases rule: service_runE) (use 2(1) in \<open>auto simp: to_ready_def split: if_splits\<close>)
  qed auto
qed

theorem Export_no_lost_event_witness:
  "\<exists>w ptr cs. run_state world_export (world_start []) = (Some None, w) \<and>
     ew_calls w = SubmitCall ''d1'' ptr None # cs"
proof -
  obtain w where run: "run_state world_export (world_start []) = (Some None, w)" "ew_calls w \<noteq> []"
    by (rule world_success)
  from Export_no_lost_event [OF world.export_env_axioms run(1) [unfolded world_export_def]] run(1) show ?thesis
    by (auto simp: world_start_def world_job_def sample_rec_def)
qed

text \<open>
  C10. A redelivered event is the event. When the object under the manifest's key holds the bytes of the manifest that
  an export built, and decoding gives back what was encoded, \<open>ReemitReady\<close> changes nothing in the store and either reports
  the store's error having written nothing, or writes exactly one ready event with the same digest, entry, number of files, number
  of bytes and keys as the export's pointer, and reports how that went.
\<close>

theorem ReemitReady_agrees:
  assumes "export_env c objects p calls" "run_state (ReemitReady p (job_Record job) (job_TraceID job)) w = (r, w')"
    and "export_objects p (export_base p (job_Record job)) files = Inr os"
    and "BuildManifest (pl_mlib p) (job_Record job) (export_base p (job_Record job)) entry route (map snd os) createdAt =
      Inr (m, encoded, digest)"
    and "objects w (s3_bucket (pl_Store p)) (manifest_key p (job_Record job)) = Some st" "st_Body st = encoded"
    and "manifest_Unmarshal (pl_mlib p) encoded = Inr m"
  shows "objects w' = objects w \<and>
    ((\<exists>e. r = (False, Some e)) \<and> calls w' = calls w \<or>
     (\<exists>ev err. r = (True, err) \<and> calls w' = calls w @ [ReadyCall ev err] \<and>
        announces job \<lparr>ptr_ManifestStorageKey = manifest_key p (job_Record job),
          ptr_ArtifactBasePath = export_base p (job_Record job), ptr_ManifestDigest = digest, ptr_Entry = entry,
          ptr_FilesCount = int (length files), ptr_TotalBytes = file_bytes files,
          ptr_Routes = [\<lparr>route_Path = route, route_Entry = entry\<rparr>]\<rparr> ev))"
  using wp_run [OF export_env.ReemitReady_spec [OF assms(1,3-7)] assms(2)] .

theorem ReemitReady_agrees_witness:
  "\<exists>w ev. run_state (ReemitReady (world_pipeline world_lib []) (job_Record world_job) (job_TraceID world_job)) world_published =
       ((True, None), w) \<and> ew_calls w = [ReadyCall ev None] \<and> rdy_ManifestDigest ev = ''sha256-68'' \<and> rdy_FilesCount ev = 2 \<and>
     rdy_TotalBytes ev = 7"
proof -
  let ?p = "world_pipeline world_lib []"
  obtain os where os: "export_objects ?p ''sites/s1/deployments/d1'' world_files = Inr os" "map snd os = world_inputs"
    using world_objects by blast
  obtain w where run: "run_state (ReemitReady ?p (job_Record world_job) (job_TraceID world_job)) world_published = ((True, None), w)"
    using world_reemit by (auto split: prod.splits)
  have base: "export_base ?p (job_Record world_job) = ''sites/s1/deployments/d1''" "job_Record world_job = sample_rec"
    by (simp_all add: export_base_def world_pipeline_def world_job_def sample_rec_def)
  have st: "sv_objects (ew_store world_published) (s3_bucket (pl_Store ?p)) (manifest_key ?p (job_Record world_job)) =
      Some \<lparr>st_Body = ''{}'' @ [CHR 0x0A], st_ContentType = ''application/json'', st_CacheControl = ''no-cache'', st_Meta = [(MetaContentSHA256, ''68'')]\<rparr>"
    unfolding manifest_key_def base(1) by (simp add: world_published_def ManifestFilename_def)
  have lib: "pl_mlib ?p = world_lib" by (simp add: world_pipeline_def)
  have built: "BuildManifest (pl_mlib ?p) (job_Record world_job) (export_base ?p (job_Record world_job)) ''/home/index.html'' ''/home''
      (map snd os) ''now'' = Inr (manifest_of sample_rec ''sites/s1/deployments/d1'' ''/home/index.html'' ''/home'' world_inputs ''now'',
        ''{}'' @ [CHR 0x0A], ''sha256-68'')"
    by (simp only: lib base(2) base(1) [unfolded base(2)] os(2) world_manifest)
  have "manifest_Unmarshal (pl_mlib ?p) (''{}'' @ [CHR 0x0A]) =
      Inr (manifest_of sample_rec ''sites/s1/deployments/d1'' ''/home/index.html'' ''/home'' world_inputs ''now'')"
    unfolding lib by (simp add: world_lib_def sample_manifest_lib_def)
  from ReemitReady_agrees [OF world.export_env_axioms run os(1) [folded base(1)] built st _ this]
  obtain ev where "ew_calls w = ew_calls world_published @ [ReadyCall ev None]" "rdy_ManifestDigest ev = ''sha256-68''"
      "rdy_FilesCount ev = int (length world_files)" "rdy_TotalBytes ev = file_bytes world_files"
    by (auto simp: announces_def)
  with run show ?thesis by (simp add: world_published_def world_start_def world_files_def file_bytes_def)
qed

end
