(* ===== verification/Worker_Rule.thy ===== *)
theory Worker_Rule
  imports Ack_Rule Export_World
begin

text \<open>
  The processor with the pipeline as its exporter: what a job that ends in success has left behind. \<open>keeps\<close> says
  that an operation preserves a predicate on the world; \<open>Handle\<close> keeps what its collaborators keep.
\<close>

section \<open>Operations that keep a predicate\<close>

definition keeps :: "('s \<Rightarrow> bool) \<Rightarrow> ('s, 'a) state \<Rightarrow> bool" where
  "keeps J m \<longleftrightarrow> (\<forall>s. J s \<longrightarrow> wp m (\<lambda>_. J) s)"

named_theorems keeps_intros \<open>rules that show a predicate kept\<close>

lemma keeps_ret [keeps_intros]: "keeps J (ret a)"
  by (simp add: keeps_def)

lemma keeps_bind [keeps_intros]: "keeps J m \<Longrightarrow> (\<And>a. keeps J (f a)) \<Longrightarrow> keeps J (m \<bind> f)"
  unfolding keeps_def wp_bind by (blast intro: wp_mono [of m])

lemma keeps_if [keeps_intros]: "(b \<Longrightarrow> keeps J m) \<Longrightarrow> (\<not> b \<Longrightarrow> keeps J m') \<Longrightarrow> keeps J (if b then m else m')"
  by simp

lemma keeps_option [keeps_intros]:
  "(r = None \<Longrightarrow> keeps J m) \<Longrightarrow> (\<And>b. r = Some b \<Longrightarrow> keeps J (g b)) \<Longrightarrow> keeps J (case r of None \<Rightarrow> m | Some b \<Rightarrow> g b)"
  by (cases r) auto

lemma keeps_sum [keeps_intros]:
  "(\<And>a. r = Inl a \<Longrightarrow> keeps J (f a)) \<Longrightarrow> (\<And>b. r = Inr b \<Longrightarrow> keeps J (g b)) \<Longrightarrow> keeps J (case r of Inl a \<Rightarrow> f a | Inr b \<Rightarrow> g b)"
  by (cases r) auto

lemma keeps_prod [keeps_intros]: "(\<And>a b. r = (a, b) \<Longrightarrow> keeps J (f a b)) \<Longrightarrow> keeps J (case r of (a, b) \<Rightarrow> f a b)"
  by (cases r) auto

text \<open>Collaborators that keep a predicate, the release of a lease included.\<close>

definition keeps_deps :: "('s \<Rightarrow> bool) \<Rightarrow> 's deps \<Rightarrow> bool" where
  "keeps_deps J d \<longleftrightarrow>
     (\<forall>ids. keeps J (Consumer_Ack d ids)) \<and> (\<forall>e. keeps J (DLQ_SendToDLQ d e)) \<and> (\<forall>e. keeps J (Retries_Schedule d e)) \<and>
     (\<forall>dep s. J s \<longrightarrow> wp (Locker_Acquire d dep) (\<lambda>r s'. J s' \<and> (\<forall>release. r = Inr release \<longrightarrow> keeps J release)) s) \<and>
     (\<forall>dep. keeps J (Deploy_Load d dep)) \<and> (\<forall>dep a b reason trace stage. keeps J (Deploy_Transition d dep a b reason trace stage)) \<and>
     (\<forall>job. keeps J (Exporter_Export d job)) \<and> (\<forall>f ev. FailedEmit d = Some f \<longrightarrow> keeps J (f ev)) \<and>
     (\<forall>f rec trace. ReadyRedeliver d = Some f \<longrightarrow> keeps J (f rec trace)) \<and> (\<forall>f m. Metrics d = Some f \<longrightarrow> keeps J (f m)) \<and>
     (\<forall>f h. Rand (Backoff d) = Some f \<longrightarrow> keeps J (f h)) \<and> (\<forall>f. Now d = Some f \<longrightarrow> keeps J f) \<and>
     (\<forall>n. keeps J (deps_rand_Read d n)) \<and> (\<forall>h. keeps J (deps_rand_Float64 d h)) \<and> keeps J (deps_time_Now d)"

lemma keeps_depsD [keeps_intros]:
  assumes "keeps_deps J d"
  shows "keeps J (Consumer_Ack d ids)" "keeps J (DLQ_SendToDLQ d e)" "keeps J (Retries_Schedule d env)"
    "keeps J (Deploy_Load d dep)" "keeps J (Deploy_Transition d dep a b reason trace stage)" "keeps J (Exporter_Export d job)"
    "keeps J (deps_rand_Read d n)" "keeps J (deps_rand_Float64 d h)" "keeps J (deps_time_Now d)"
  using assms by (simp_all add: keeps_deps_def)

lemma keeps_now [keeps_intros]: "keeps_deps J d \<Longrightarrow> keeps J (now_of d)"
  by (auto simp: now_of_def keeps_deps_def split: option.split)

lemma keeps_metric [keeps_intros]: "keeps_deps J d \<Longrightarrow> keeps J (metric d m)"
  by (auto simp: metric_def keeps_deps_def keeps_ret split: option.split)

lemma keeps_observe [keeps_intros]: "keeps_deps J d \<Longrightarrow> keeps J (observe_duration d start)"
  unfolding observe_duration_def
  by (intro keeps_intros) (simp_all add: keeps_deps_def keeps_now)

lemma keeps_ack [keeps_intros]: "keeps_deps J d \<Longrightarrow> keeps J (ack d msg)"
  unfolding ack_def by (intro keeps_intros)

lemma keeps_dlqEntry [keeps_intros]: "keeps_deps J d \<Longrightarrow> keeps J (dlqEntry d msg ce)"
  unfolding dlqEntry_def by (intro keeps_intros)

lemma keeps_emitFailed [keeps_intros]: "keeps_deps J d \<Longrightarrow> keeps J (emitFailed d ev ce attempt ex trace)"
  unfolding emitFailed_def BuildFailed_def NewEventID_def
  by (intro keeps_intros) (simp_all add: keeps_deps_def)

lemma keeps_casFailed [keeps_intros]: "keeps_deps J d \<Longrightarrow> keeps J (casFailed d dep rec trace ce)"
  unfolding casFailed_def by (intro keeps_intros)

lemma keeps_Delay [keeps_intros]: "keeps_deps J d \<Longrightarrow> keeps J (Delay (deps_rand_Float64 d) (Backoff d) n)"
  unfolding Delay_def Let_def
  by (intro keeps_intros) (auto simp: keeps_deps_def split: option.split)

lemma keeps_fail [keeps_intros]: "keeps_deps J d \<Longrightarrow> keeps J (fail d msg ev dep rec trace ce start)"
  unfolding fail_def fail_terminal_def exhausted_def scheduleRetry_def Let_def by (intro keeps_intros)

lemma keeps_handle_locked [keeps_intros]: "keeps_deps J d \<Longrightarrow> keeps J (handle_locked d msg ev rec trace start)"
  unfolding handle_locked_def handle_export_def by (intro keeps_intros)

lemma keeps_acquire_bind:
  assumes "keeps_deps J d" "\<And>e. keeps J (f (Inl e))" "\<And>release. keeps J release \<Longrightarrow> keeps J (f (Inr release))"
  shows "keeps J (Locker_Acquire d dep \<bind> f)"
  unfolding keeps_def wp_bind
proof (intro allI impI)
  fix s
  assume "J s"
  with assms(1) have "wp (Locker_Acquire d dep) (\<lambda>r s'. J s' \<and> (\<forall>release. r = Inr release \<longrightarrow> keeps J release)) s"
    by (simp add: keeps_deps_def)
  then show "wp (Locker_Acquire d dep) (\<lambda>a. wp (f a) (\<lambda>_. J)) s"
  proof (rule wp_mono)
    fix r :: "gerr + ('a, gerr option) state" and s'
    assume r: "J s' \<and> (\<forall>release. r = Inr release \<longrightarrow> keeps J release)"
    have "keeps J (f r)" using r assms(2,3) by (cases r) auto
    with r show "wp (f r) (\<lambda>_. J) s'" by (simp add: keeps_def)
  qed
qed

lemma keeps_handle_actionable [keeps_intros]: "keeps_deps J d \<Longrightarrow> keeps J (handle_actionable d msg ev rec trace start)"
  unfolding handle_actionable_def
  by (rule keeps_acquire_bind) (auto intro!: keeps_intros)

lemma keeps_Handle: "keeps_deps J d \<Longrightarrow> keeps J (Handle d msg)"
  unfolding Handle_def handle_event_def handle_invalid_def handle_non_actionable_def unparseableToDLQ_def newTraceID_def Let_def
  by (intro keeps_intros) (auto simp: keeps_deps_def split: if_splits)

section \<open>The pipeline as exporter\<close>

text \<open>
  The methods of the pipeline as the processor calls them. A harvest that does not end is ended by the deadline of the
  job's context.
\<close>

definition pipeline_Export :: "'w pipeline \<Rightarrow> job \<Rightarrow> ('w, gerr option) state" where
  "pipeline_Export p job = do {
     r \<leftarrow> Export p job;
     ret (case r of Some err \<Rightarrow> err | None \<Rightarrow> Some DeadlineExceededE)
   }"

definition pipeline_ReemitReady :: "'w pipeline \<Rightarrow> deployment_record \<Rightarrow> string \<Rightarrow> ('w, gerr + bool) state" where
  "pipeline_ReemitReady p rec traceID = do {
     (found, err) \<leftarrow> ReemitReady p rec traceID;
     ret (case err of Some e \<Rightarrow> Inl e | None \<Rightarrow> Inr found)
   }"

text \<open>What a successful export of a job leaves in the store and in the services.\<close>

definition job_delivered :: "'w pipeline \<Rightarrow> job \<Rightarrow> (string \<Rightarrow> string \<rightharpoonup> stored) \<Rightarrow> service_call list \<Rightarrow> bool" where
  "job_delivered p job objs cs \<longleftrightarrow>
     (\<exists>entry route html deps os ptr.
        let files = \<lparr>hf_Path = entry, hf_Body = html, hf_MimeType = ''text/html''\<rparr> # deps in
        MapSlug (rec_Slug (job_Record job)) = Inr (entry, route) \<and>
        export_objects p (export_base p (job_Record job)) files = Inr os \<and>
        published p job entry route (map snd os) (file_bytes files) ptr objs \<and>
        (in_budget p \<and> collision_free entry deps \<longrightarrow> (\<forall>f \<in> set files. file_stored p job objs f)) \<and>
        SubmitCall (rec_DeploymentID (job_Record job)) ptr None \<in> set cs \<and>
        ((\<exists>ev. ReadyCall ev None \<in> set cs \<and> announces job ptr ev) \<or>
         (\<exists>st current. to_ready job st \<in> set cs \<and> AsStatusConflict st = Some current \<and> NonActionable current \<and>
            current \<noteq> DeploymentStatusArtifactReady)))"

lemma job_delivered_mono: "job_delivered p job objs cs \<Longrightarrow> set cs \<subseteq> set cs' \<Longrightarrow> job_delivered p job objs cs'"
  unfolding job_delivered_def Let_def by blast

text \<open>Operations that leave the store alone and can only add to the calls.\<close>

definition leaves :: "('w \<Rightarrow> 'o) \<Rightarrow> ('w \<Rightarrow> 'c list) \<Rightarrow> ('w, 'a) state \<Rightarrow> bool" where
  "leaves objects calls m \<longleftrightarrow> (\<forall>w. wp m (\<lambda>_ w'. objects w' = objects w \<and> set (calls w) \<subseteq> set (calls w')) w)"

definition leaves_deps :: "('w \<Rightarrow> 'o) \<Rightarrow> ('w \<Rightarrow> 'c list) \<Rightarrow> 'w deps \<Rightarrow> bool" where
  "leaves_deps objects calls d \<longleftrightarrow>
     (\<forall>ids. leaves objects calls (Consumer_Ack d ids)) \<and> (\<forall>e. leaves objects calls (DLQ_SendToDLQ d e)) \<and>
     (\<forall>e. leaves objects calls (Retries_Schedule d e)) \<and>
     (\<forall>dep w. wp (Locker_Acquire d dep) (\<lambda>r w'. objects w' = objects w \<and> set (calls w) \<subseteq> set (calls w') \<and>
        (\<forall>release. r = Inr release \<longrightarrow> leaves objects calls release)) w) \<and>
     (\<forall>dep. leaves objects calls (Deploy_Load d dep)) \<and>
     (\<forall>dep a b reason trace stage. leaves objects calls (Deploy_Transition d dep a b reason trace stage)) \<and>
     (\<forall>f ev. FailedEmit d = Some f \<longrightarrow> leaves objects calls (f ev)) \<and>
     (\<forall>f m. Metrics d = Some f \<longrightarrow> leaves objects calls (f m)) \<and>
     (\<forall>f h. Rand (Backoff d) = Some f \<longrightarrow> leaves objects calls (f h)) \<and> (\<forall>f. Now d = Some f \<longrightarrow> leaves objects calls f) \<and>
     (\<forall>n. leaves objects calls (deps_rand_Read d n)) \<and> (\<forall>h. leaves objects calls (deps_rand_Float64 d h)) \<and>
     leaves objects calls (deps_time_Now d)"

text \<open>What is known along a run: as long as there was one export, a successful one has delivered.\<close>

definition one_delivery :: "'w pipeline \<Rightarrow> ('w \<Rightarrow> string \<Rightarrow> string \<rightharpoonup> stored) \<Rightarrow> ('w \<Rightarrow> service_call list) \<Rightarrow> 'w \<times> call list \<Rightarrow> bool" where
  "one_delivery p objects calls = (\<lambda>(w, tr). length (filter is_export tr) \<le> 1 \<longrightarrow>
     (\<forall>job. ExportC job None \<in> set tr \<longrightarrow> job_delivered p job (objects w) (calls w)))"

lemma one_delivery_step:
  "one_delivery p objects calls (w, tr) \<Longrightarrow> objects w' = objects w \<Longrightarrow> set (calls w) \<subseteq> set (calls w') \<Longrightarrow>
   one_delivery p objects calls (w', tr)"
  "one_delivery p objects calls (w, tr) \<Longrightarrow> objects w' = objects w \<Longrightarrow> set (calls w) \<subseteq> set (calls w') \<Longrightarrow> \<not> is_export c \<Longrightarrow>
   one_delivery p objects calls (w', tr @ [c])"
  by (auto simp: one_delivery_def intro: job_delivered_mono)

lemma wp_quiet: "wp (quiet m) Q (w, tr) = wp m (\<lambda>a w'. Q a (w', tr)) w"
  by (simp add: wp_def quiet_def split: prod.splits)

lemma wp_logged: "wp (logged c m) Q (w, tr) = wp m (\<lambda>a w'. Q a (w', tr @ [c a])) w"
  by (simp add: wp_def logged_def split: prod.splits)

lemma leavesD: "leaves objects calls m \<Longrightarrow> wp m (\<lambda>_ w'. objects w' = objects w \<and> set (calls w) \<subseteq> set (calls w')) w"
  by (simp add: leaves_def)

lemma keeps_quiet:
  assumes "leaves objects calls m"
  shows "keeps (one_delivery p objects calls) (quiet m)"
  unfolding keeps_def
proof clarify
  fix w tr
  assume "one_delivery p objects calls (w, tr)"
  then show "wp (quiet m) (\<lambda>_. one_delivery p objects calls) (w, tr)"
    unfolding wp_quiet by (intro wp_mono [OF leavesD [OF assms]]) (auto intro: one_delivery_step)
qed

lemma keeps_logged:
  assumes "leaves objects calls m" "\<And>a. \<not> is_export (c a)"
  shows "keeps (one_delivery p objects calls) (logged c m)"
  unfolding keeps_def
proof clarify
  fix w tr
  assume "one_delivery p objects calls (w, tr)"
  then show "wp (logged c m) (\<lambda>_. one_delivery p objects calls) (w, tr)"
    unfolding wp_logged by (intro wp_mono [OF leavesD [OF assms(1)]]) (use assms(2) in \<open>auto intro: one_delivery_step(2)\<close>)
qed

lemma collision_free_files:
  assumes "MapSlug slug = Inr (entry, route)" "distinct (map hf_Path deps)" "collision_free entry deps" "hf_Path page = entry"
  shows "distinct (map hf_Path (page # deps)) \<and> (\<forall>f \<in> set (page # deps). hf_Path f \<noteq> ''/'' @ ManifestFilename)"
  using assms(2-4) entry_not_manifest [OF assms(1)] by (auto simp: collision_free_def)

context export_env
begin

lemma pipeline_Export_delivers:
  "wp (pipeline_Export p job) (\<lambda>err w'. err = None \<longrightarrow> job_delivered p job (objects w') (calls w')) w"
  unfolding pipeline_Export_def wp_bind wp_return
proof (rule wp_mono [OF Export_spec], goal_cases)
  case (1 r w')
  show ?case
  proof (cases "r = Some None")
    case True
    with 1 obtain entry route html deps where slug: "MapSlug (rec_Slug (job_Record job)) = Inr (entry, route)"
      and deps: "distinct (map hf_Path deps)"
      and out: "export_outcome job entry route (\<lparr>hf_Path = entry, hf_Body = html, hf_MimeType = ''text/html''\<rparr> # deps) w None w'"
      by (auto simp: export_post_def)
    define files where "files = \<lparr>hf_Path = entry, hf_Body = html, hf_MimeType = ''text/html''\<rparr> # deps"
    from out obtain os ptr cs where os: "export_objects p (export_base p (job_Record job)) files = Inr os"
        "calls w' = calls w @ cs" "service_run job ptr None cs"
        "published p job entry route (map snd os) (file_bytes files) ptr (objects w')"
      and stored: "in_budget p \<and> distinct (map hf_Path files) \<and> (\<forall>f \<in> set files. hf_Path f \<noteq> ''/'' @ ManifestFilename) \<longrightarrow>
        (\<forall>f \<in> set files. file_stored p job (objects w') f)"
      unfolding files_def [symmetric] export_outcome_def by blast
    have apart: "distinct (map hf_Path files) \<and> (\<forall>f \<in> set files. hf_Path f \<noteq> ''/'' @ ManifestFilename)" if "collision_free entry deps"
      unfolding files_def by (rule collision_free_files [OF slug deps that]) simp
    have "SubmitCall (rec_DeploymentID (job_Record job)) ptr None \<in> set cs \<and>
        ((\<exists>ev. ReadyCall ev None \<in> set cs \<and> announces job ptr ev) \<or>
         (\<exists>st current. to_ready job st \<in> set cs \<and> AsStatusConflict st = Some current \<and> NonActionable current \<and>
            current \<noteq> DeploymentStatusArtifactReady))"
      using os(3) by (cases rule: service_runE) (auto split: if_splits)
    moreover have "in_budget p \<and> collision_free entry deps \<longrightarrow> (\<forall>f \<in> set files. file_stored p job (objects w') f)"
      using stored apart by blast
    moreover have "set cs \<subseteq> set (calls w')" using os(2) by simp
    ultimately have "job_delivered p job (objects w') cs"
      unfolding job_delivered_def Let_def using slug os(1,4) unfolding files_def by blast
    with \<open>set cs \<subseteq> set (calls w')\<close> show ?thesis by (blast intro: job_delivered_mono)
  qed (use 1 in \<open>auto split: option.splits\<close>)
qed

lemma pipeline_ReemitReady_leaves: "leaves objects calls (pipeline_ReemitReady p rec traceID)"
  unfolding leaves_def
proof
  fix w
  show "wp (pipeline_ReemitReady p rec traceID) (\<lambda>_ w'. objects w' = objects w \<and> set (calls w) \<subseteq> set (calls w')) w"
    unfolding pipeline_ReemitReady_def ReemitReady_def Let_def wp_bind
  proof (rule wp_mono [OF FetchIfExists_quiet], goal_cases)
    case (1 r w1)
    have "wp (pl_now p \<bind> (\<lambda>t. BuildReady (pl_rand_Read p) (inp t) \<bind> (\<lambda>ready. pl_EmitReady p ready \<bind> (\<lambda>err. ret (True, err)))))
        (\<lambda>_ w'. objects w' = objects w \<and> set (calls w) \<subseteq> set (calls w')) w1" for inp
      unfolding wp_bind wp_return
    proof (rule wp_mono [OF quiet [OF now_quiet]], rule wp_mono [OF quiet [OF BuildReady_quiet]], goal_cases)
      case (1 t w2 ev w3)
      show ?case by (rule wp_mono [OF emit]) (use 1 \<open>objects w1 = objects w \<and> _\<close> in auto)
    qed
    then show ?case using 1
      by (auto split: sum.splits prod.splits elim!: wp_mono)
  qed
qed

lemma keeps_export: "keeps (one_delivery p objects calls) (logged (ExportC job) (pipeline_Export p job))"
  unfolding keeps_def
proof clarify
  fix w tr
  show "wp (logged (ExportC job) (pipeline_Export p job)) (\<lambda>_. one_delivery p objects calls) (w, tr)"
    unfolding wp_logged
  proof (rule wp_mono [OF pipeline_Export_delivers], goal_cases)
    case (1 err w')
    have "ExportC job' r \<notin> set tr" if "length (filter is_export (tr @ [ExportC job err])) \<le> 1" for job' r
      using that by (auto simp: filter_empty_conv)
    with 1 show ?case by (auto simp: one_delivery_def)
  qed
qed

lemma traced_keeps:
  assumes "leaves_deps objects calls d" "Exporter_Export d = pipeline_Export p"
    and "ReadyRedeliver d = None \<or> ReadyRedeliver d = Some (pipeline_ReemitReady p)"
  shows "keeps_deps (one_delivery p objects calls) (traced d)"
proof -
  let ?J = "one_delivery p objects calls"
  have acquire: "wp (Locker_Acquire (traced d) dep) (\<lambda>r s'. ?J s' \<and> (\<forall>release. r = Inr release \<longrightarrow> keeps ?J release)) (w, tr)"
    if "?J (w, tr)" for dep w tr
  proof -
    have "wp (Locker_Acquire d dep) (\<lambda>r w'. objects w' = objects w \<and> set (calls w) \<subseteq> set (calls w') \<and>
         (\<forall>release. r = Inr release \<longrightarrow> leaves objects calls release)) w"
      using assms(1) by (simp add: leaves_deps_def)
    then show ?thesis
      unfolding traced_def deps.simps wp_bind wp_logged wp_return
    proof (rule wp_mono, goal_cases)
      case (1 r w1)
      then show ?case
        using that by (cases r) (auto intro: one_delivery_step(2) keeps_logged)
    qed
  qed
  show ?thesis
    unfolding keeps_deps_def
  proof (intro conjI allI impI, goal_cases)
    case (4 dep s)
    then show ?case using acquire by (cases s) auto
  next
    case (7 job)
    show ?case using keeps_export by (simp add: assms(2))
  qed (use assms in \<open>auto simp: traced_def quiet_policy_def leaves_deps_def intro!: keeps_logged keeps_quiet pipeline_ReemitReady_leaves\<close>)
qed

lemma success_delivered:
  assumes "leaves_deps objects calls d" "Exporter_Export d = pipeline_Export p"
    and "ReadyRedeliver d = None \<or> ReadyRedeliver d = Some (pipeline_ReemitReady p)"
    and "run_state (Handle (traced d) msg) (w, []) = (out, (w', cs))" "length (filter is_export cs) \<le> 1"
    and "ExportC job None \<in> set cs"
  shows "job_delivered p job (objects w') (calls w')"
proof -
  have "one_delivery p objects calls (w, [])" by (simp add: one_delivery_def)
  with keeps_Handle [OF traced_keeps [OF assms(1-3)], of msg]
  have "wp (Handle (traced d) msg) (\<lambda>_. one_delivery p objects calls) (w, [])" by (simp add: keeps_def)
  from wp_run [OF this assms(4)] assms(5,6) show ?thesis by (simp add: one_delivery_def)
qed

end

section \<open>Successful jobs\<close>

lemma failure_not_success: "failure_run b msg ev dep rec trace ce out cs \<Longrightarrow> out \<noteq> OutcomeSuccess"
  by (induction rule: failure_run.induct) auto

lemma success_calls:
  assumes "handle_run l b dry reemits msg OutcomeSuccess cs"
  obtains ev rec job where "ParseEvent l (msg_Payload msg) = Inr ev" "Reconcile rec ev = None" "Actionable (rec_Status rec)"
    "LoadC (ev_DeploymentID ev) (Inr rec) \<in> set cs"
    "job_Event job = ev" "job_Record job = rec\<lparr>rec_Status := DeploymentStatusExporting\<rparr>" "job_Msg job = msg"
    "ExportC job None \<in> set cs" "\<exists>r. AckC [msg_ID msg] r \<in> set cs" "length (filter is_export cs) \<le> 1"
  using assms
proof cases
  case (locked ev rec trace work r)
  have exported: "\<exists>job r. job_Event job = ev \<and> job_Record job = rec' \<and> job_Msg job = msg \<and> es = [ExportC job None, AckC [msg_ID msg] r]"
    if "export_run b msg ev rec' trace OutcomeSuccess es" for rec' es
    using that by cases (auto dest: failure_not_success)
  from locked(5) show ?thesis
  proof cases
    case (start_failed e cs)
    then show ?thesis using failure_not_success by blast
  next
    case (started es)
    from exported [OF started(4)] obtain job r where "job_Event job = ev" "job_Record job = rec\<lparr>rec_Status := DeploymentStatusExporting\<rparr>"
      "job_Msg job = msg" "es = [ExportC job None, AckC [msg_ID msg] r]" by blast
    with started locked show ?thesis by (intro that [of ev rec job]) (auto simp: start_call_def)
  next
    case resumed
    from exported [OF resumed(3)] obtain job r where "job_Event job = ev" "job_Record job = rec"
      "job_Msg job = msg" "work = [ExportC job None, AckC [msg_ID msg] r]" by blast
    moreover have "rec_Status rec = DeploymentStatusExporting" using locked(3) resumed(2) by (simp add: Actionable_def)
    ultimately show ?thesis using locked by (intro that [of ev rec job]) auto
  qed
qed (auto dest: failure_not_success)

section \<open>Properties\<close>

text \<open>
  C7. Success means delivered, from the message to the store. For a processor whose exporter is the pipeline, in any world
  in which the other collaborators leave the store alone: when \<open>Handle\<close> reports success, the message was a valid
  request, it was acknowledged, the deployment's record matched the request, and when \<open>Handle\<close> returns the manifest of the exported
  bundle is in the store under the digest that the deployment service accepted, with all files of the bundle if
  the upload budget did not expire and no path collides, and the ready event of exactly this pointer has been written (or the
  deployment had been taken over by a later status, in which case there is nothing to announce).
\<close>

theorem Handle_success_delivered:
  assumes "export_env c objects p calls" "leaves_deps objects calls d" "Exporter_Export d = pipeline_Export p"
    and "ReadyRedeliver d \<in> {None, Some (pipeline_ReemitReady p)}"
    and "run_state (Handle (traced d) msg) (w, []) = (OutcomeSuccess, (w', cs))"
  shows "\<exists>ev rec job r. ParseEvent (lib d) (msg_Payload msg) = Inr ev \<and> LoadC (ev_DeploymentID ev) (Inr rec) \<in> set cs \<and>
    Reconcile rec ev = None \<and> Actionable (rec_Status rec) \<and> AckC [msg_ID msg] r \<in> set cs \<and>
    job_Event job = ev \<and> job_Msg job = msg \<and> job_Record job = rec\<lparr>rec_Status := DeploymentStatusExporting\<rparr> \<and>
    job_delivered p job (objects w') (calls w')"
proof -
  have redeliver: "ReadyRedeliver d = None \<or> ReadyRedeliver d = Some (pipeline_ReemitReady p)" using assms(4) by simp
  obtain ev rec job where job: "ParseEvent (lib d) (msg_Payload msg) = Inr ev" "Reconcile rec ev = None" "Actionable (rec_Status rec)"
    "LoadC (ev_DeploymentID ev) (Inr rec) \<in> set cs"
    "job_Event job = ev" "job_Record job = rec\<lparr>rec_Status := DeploymentStatusExporting\<rparr>" "job_Msg job = msg"
    "ExportC job None \<in> set cs" "\<exists>r. AckC [msg_ID msg] r \<in> set cs" "length (filter is_export cs) \<le> 1"
    by (rule success_calls [OF Handle_logged [OF assms(5)]])
  from export_env.success_delivered [OF assms(1-3) redeliver assms(5) job(10,8)] job show ?thesis by blast
qed

text \<open>The collaborators of a worker in the executable world.\<close>

definition world_deps :: "export_world deps" where
  "world_deps =
     \<lparr>Consumer_Ack = (\<lambda>_. ret None), DLQ_SendToDLQ = (\<lambda>_. ret None), Retries_Schedule = (\<lambda>_. ret None),
      Locker_Acquire = (\<lambda>_. ret (Inr (ret None))), Deploy_Load = (\<lambda>_. ret (Inr (sample_record DeploymentStatusExportQueued))),
      Deploy_Transition = (\<lambda>d from to reason trace stage. answer (StatusCall d from to)),
      Exporter_Export = pipeline_Export (world_pipeline world_lib [Feed, Feed, Finish 1]),
      FailedEmit = None, ReadyRedeliver = Some (pipeline_ReemitReady (world_pipeline world_lib [Feed, Feed, Finish 1])),
      Metrics = None, Backoff = DefaultBackoff, WorkerID = ''w1'', DryRun = False, MaxRetries = 3, JobTimeout = 90 * Second,
      Now = Some (ret 0), lib = sample_lib, deps_rand_Read = (\<lambda>n. ret (replicate n CHR ''x'')),
      deps_rand_Float64 = (\<lambda>h. ret 0), deps_time_Now = ret 0\<rparr>"

lemma world_deps_leaves: "leaves_deps (\<lambda>w. sv_objects (ew_store w)) ew_calls world_deps"
proof -
  have "leaves (\<lambda>w. sv_objects (ew_store w)) ew_calls (answer call)" for call
    unfolding leaves_def by (intro allI wp_mono [OF wp_answer]) auto
  then show ?thesis by (simp add: leaves_deps_def world_deps_def leaves_def DefaultBackoff_def)
qed

lemma world_handled:
  obtains w cs where "run_state (Handle (traced world_deps) (sample_message ''request'' 0)) (world_start [], []) = (OutcomeSuccess, (w, cs))"
proof -
  have "fst (run_state (Handle (traced world_deps) (sample_message ''request'' 0)) (world_start [], [])) = OutcomeSuccess"
    by code_simp
  then show ?thesis using that by (metis prod.collapse)
qed

theorem Handle_success_delivered_witness:
  "\<exists>w cs job. run_state (Handle (traced world_deps) (sample_message ''request'' 0)) (world_start [], []) = (OutcomeSuccess, (w, cs)) \<and>
     job_delivered (world_pipeline world_lib [Feed, Feed, Finish 1]) job (sv_objects (ew_store w)) (ew_calls w)"
proof -
  obtain w cs where run: "run_state (Handle (traced world_deps) (sample_message ''request'' 0)) (world_start [], []) =
      (OutcomeSuccess, (w, cs))" by (rule world_handled)
  have "Exporter_Export world_deps = pipeline_Export (world_pipeline world_lib [Feed, Feed, Finish 1])"
    "ReadyRedeliver world_deps \<in> {None, Some (pipeline_ReemitReady (world_pipeline world_lib [Feed, Feed, Finish 1]))}"
    by (simp_all add: world_deps_def)
  from Handle_success_delivered [OF world.export_env_axioms world_deps_leaves this run] run show ?thesis by blast
qed

end
