(* ===== verification/Observed.thy ===== *)
theory Observed
  imports Protocol
begin

text \<open>
  Observation changes nothing: the processor with logged collaborators (\<open>traced\<close>) returns what the plain one returns and leaves
  the same world. So every fact about the log of a run is a fact about the run itself.
\<close>

text \<open>Results are related by \<open>R\<close>, because the release of a lease, a result of \<open>Acquire\<close>, is logged itself.\<close>

definition mirrors :: "('b \<Rightarrow> 'a \<Rightarrow> bool) \<Rightarrow> ('w \<times> call list, 'b) state \<Rightarrow> ('w, 'a) state \<Rightarrow> bool" where
  "mirrors R m' m \<longleftrightarrow> (\<forall>w tr. wp m' (\<lambda>b s. R b (fst (run_state m w)) \<and> fst s = snd (run_state m w)) (w, tr))"

named_theorems mirrors_intros \<open>rules that show an observed operation to mirror the plain one\<close>

lemma mirrors_ret [mirrors_intros]: "R b a \<Longrightarrow> mirrors R (ret b) (ret a)"
  by (simp add: mirrors_def)

lemma mirrors_bind:
  assumes "mirrors R m' m" "\<And>b a. R b a \<Longrightarrow> mirrors S (f' b) (f a)"
  shows "mirrors S (m' \<bind> f') (m \<bind> f)"
  unfolding mirrors_def wp_bind
proof (intro allI, rule wp_mono)
  fix w tr
  show "wp m' (\<lambda>b s. R b (fst (run_state m w)) \<and> fst s = snd (run_state m w)) (w, tr)" using assms(1) by (simp add: mirrors_def)
  fix b and s :: "'c \<times> call list"
  assume b: "R b (fst (run_state m w)) \<and> fst s = snd (run_state m w)"
  with assms(2) have "mirrors S (f' b) (f (fst (run_state m w)))" by blast
  then have "wp (f' b) (\<lambda>b s'. S b (fst (run_state (f (fst (run_state m w))) (fst s))) \<and>
      fst s' = snd (run_state (f (fst (run_state m w))) (fst s))) (fst s, snd s)"
    unfolding mirrors_def by blast
  with b show "wp (f' b) (\<lambda>b s. S b (fst (run_state (m \<bind> f) w)) \<and> fst s = snd (run_state (m \<bind> f) w)) s"
    by (cases s) (simp add: case_prod_unfold)
qed

lemma mirrors_bind_eq [mirrors_intros]:
  assumes "mirrors (=) m' m" "\<And>a. mirrors S (f' a) (f a)"
  shows "mirrors S (m' \<bind> f') (m \<bind> f)"
  by (rule mirrors_bind [OF assms(1)]) (use assms(2) in simp)

lemma mirrors_if [mirrors_intros]:
  "(b \<Longrightarrow> mirrors R m' m) \<Longrightarrow> (\<not> b \<Longrightarrow> mirrors R n' n) \<Longrightarrow> mirrors R (if b then m' else n') (if b then m else n)"
  by simp

lemma mirrors_option [mirrors_intros]:
  "mirrors R m' m \<Longrightarrow> (\<And>x. mirrors R (g' x) (g x)) \<Longrightarrow>
   mirrors R (case r of None \<Rightarrow> m' | Some x \<Rightarrow> g' x) (case r of None \<Rightarrow> m | Some x \<Rightarrow> g x)"
  by (cases r) simp_all

lemma mirrors_sum [mirrors_intros]:
  "(\<And>x. mirrors R (f' x) (f x)) \<Longrightarrow> (\<And>x. mirrors R (g' x) (g x)) \<Longrightarrow>
   mirrors R (case r of Inl x \<Rightarrow> f' x | Inr x \<Rightarrow> g' x) (case r of Inl x \<Rightarrow> f x | Inr x \<Rightarrow> g x)"
  by (cases r) simp_all

lemma mirrors_map_option [mirrors_intros]:
  "mirrors R m' m \<Longrightarrow> (\<And>x. r = Some x \<Longrightarrow> mirrors R (g' (h x)) (g x)) \<Longrightarrow>
   mirrors R (case map_option h r of None \<Rightarrow> m' | Some x \<Rightarrow> g' x) (case r of None \<Rightarrow> m | Some x \<Rightarrow> g x)"
  by (cases r) simp_all

lemma mirrors_quiet [mirrors_intros]: "mirrors (=) (quiet m) m"
  by (simp add: mirrors_def quiet_def wp_def split: prod.splits)

lemma mirrors_logged [mirrors_intros]: "mirrors (=) (logged c m) m"
  by (simp add: mirrors_def logged_def wp_def split: prod.splits)

lemma traced_fields [simp]:
  "Consumer_Ack (traced d) ids = logged (AckC ids) (Consumer_Ack d ids)"
  "DLQ_SendToDLQ (traced d) e = logged (DLQC e) (DLQ_SendToDLQ d e)"
  "Retries_Schedule (traced d) env = logged (ScheduleC env) (Retries_Schedule d env)"
  "Deploy_Load (traced d) dep = logged (LoadC dep) (Deploy_Load d dep)"
  "Deploy_Transition (traced d) dep a b reason trace stage =
     logged (TransitionC dep a b reason trace stage) (Deploy_Transition d dep a b reason trace stage)"
  "Exporter_Export (traced d) job = logged (ExportC job) (Exporter_Export d job)"
  "FailedEmit (traced d) = map_option (\<lambda>f ev. logged (EmitC ev) (f ev)) (FailedEmit d)"
  "ReadyRedeliver (traced d) = map_option (\<lambda>f rec trace. logged (ReemitC rec trace) (f rec trace)) (ReadyRedeliver d)"
  "Metrics (traced d) = map_option (\<lambda>f m. quiet (f m)) (Metrics d)"
  "Backoff (traced d) = quiet_policy (Backoff d)"
  "WorkerID (traced d) = WorkerID d" "DryRun (traced d) = DryRun d" "MaxRetries (traced d) = MaxRetries d"
  "Now (traced d) = map_option quiet (Now d)" "lib (traced d) = lib d"
  "deps_rand_Read (traced d) n = quiet (deps_rand_Read d n)"
  "deps_rand_Float64 (traced d) h = quiet (deps_rand_Float64 d h)"
  "deps_time_Now (traced d) = quiet (deps_time_Now d)"
  by (simp_all add: traced_def)

lemma mirrors_now [mirrors_intros]: "mirrors (=) (now_of (traced d)) (now_of d)"
  unfolding now_of_def traced_fields by (intro mirrors_intros)

lemma mirrors_metric [mirrors_intros]: "mirrors (=) (metric (traced d) m) (metric d m)"
  unfolding metric_def traced_fields by (intro mirrors_intros refl)

lemma mirrors_observe [mirrors_intros]: "mirrors (=) (observe_duration (traced d) start) (observe_duration d start)"
  unfolding observe_duration_def traced_fields by (intro mirrors_intros refl)

lemma mirrors_ack [mirrors_intros]: "mirrors (=) (ack (traced d) msg) (ack d msg)"
  unfolding ack_def traced_fields by (intro mirrors_intros refl)

lemma mirrors_dlqEntry [mirrors_intros]: "mirrors (=) (dlqEntry (traced d) msg ce) (dlqEntry d msg ce)"
  unfolding dlqEntry_def traced_fields by (intro mirrors_intros refl)

lemma mirrors_emitFailed [mirrors_intros]: "mirrors (=) (emitFailed (traced d) ev ce attempt ex trace) (emitFailed d ev ce attempt ex trace)"
  unfolding emitFailed_def BuildFailed_def NewEventID_def
  by (cases "FailedEmit d"; cases ev; simp) (intro mirrors_intros refl)+

lemma mirrors_casFailed [mirrors_intros]: "mirrors (=) (casFailed (traced d) dep rec trace ce) (casFailed d dep rec trace ce)"
  unfolding casFailed_def traced_fields by (intro mirrors_intros refl)

lemma backoff_ceiling_quiet: "backoff_ceiling (quiet_policy p) n = backoff_ceiling p n"
  by (simp add: backoff_ceiling_def quiet_policy_def Let_def)

lemma mirrors_Delay [mirrors_intros]:
  "mirrors (=) (Delay (\<lambda>h. quiet (rf h)) (quiet_policy p) n) (Delay rf p n)"
  unfolding Delay_def Let_def backoff_ceiling_quiet
  by (cases "Rand p") (simp_all add: quiet_policy_def mirrors_intros)

lemma mirrors_fail [mirrors_intros]: "mirrors (=) (fail (traced d) msg ev dep rec trace ce start) (fail d msg ev dep rec trace ce start)"
  unfolding fail_def fail_terminal_def exhausted_def scheduleRetry_def Let_def traced_fields
  by (intro mirrors_intros refl)

lemma mirrors_handle_locked [mirrors_intros]:
  "mirrors (=) (handle_locked (traced d) msg ev rec trace start) (handle_locked d msg ev rec trace start)"
  unfolding handle_locked_def handle_export_def traced_fields by (intro mirrors_intros refl)

lemma mirrors_acquire:
  "mirrors (rel_sum (=) (mirrors (=))) (Locker_Acquire (traced d) dep) (Locker_Acquire d dep)"
proof -
  have "rel_sum (=) (mirrors (=)) (map_sum id (\<lambda>release. logged (ReleaseC dep) release) r) r" for r :: "gerr + ('a, gerr option) state"
    by (cases r) (simp_all add: mirrors_logged)
  then show ?thesis
    by (simp add: traced_def mirrors_def logged_def wp_def split: prod.splits)
qed

lemma mirrors_handle_actionable [mirrors_intros]:
  "mirrors (=) (handle_actionable (traced d) msg ev rec trace start) (handle_actionable d msg ev rec trace start)"
  unfolding handle_actionable_def
proof (rule mirrors_bind [OF mirrors_acquire], elim rel_sum.cases, goal_cases)
  case (1 b a x y)
  then show ?case by simp (intro mirrors_intros impI conjI refl)
next
  case (2 b a x y)
  then show ?case by simp (intro mirrors_intros refl)
qed

lemma mirrors_non_actionable [mirrors_intros]:
  "mirrors (=) (handle_non_actionable (traced d) msg rec trace) (handle_non_actionable d msg rec trace)"
  unfolding handle_non_actionable_def
  by (cases "ReadyRedeliver d") (simp_all, (intro mirrors_intros impI conjI refl)+)

lemma mirrors_Handle: "mirrors (=) (Handle (traced d) msg) (Handle d msg)"
  unfolding Handle_def handle_event_def handle_invalid_def unparseableToDLQ_def newTraceID_def Let_def
    extractDeploymentID_def traced_fields
  by (intro mirrors_intros refl) 

text \<open>Every run of the plain processor has its log.\<close>

lemma Handle_observed:
  assumes "run_state (Handle d msg) w = (out, w')"
  obtains cs where "run_state (Handle (traced d) msg) (w, []) = (out, (w', cs))"
    "handle_run (lib d) (MaxRetries d) (DryRun d) (reemits_wired d) msg out cs"
proof -
  obtain out1 w1 cs where run: "run_state (Handle (traced d) msg) (w, []) = (out1, (w1, cs))" by (metis prod.collapse)
  have "wp (Handle (traced d) msg) (\<lambda>b s. b = fst (run_state (Handle d msg) w) \<and> fst s = snd (run_state (Handle d msg) w)) (w, [])"
    by (rule mirrors_Handle [unfolded mirrors_def, rule_format])
  from wp_run [OF this run] assms have "out1 = out" "w1 = w'" by simp_all
  with run Handle_logged [OF run] show ?thesis by (auto intro: that)
qed

end
