(* ===== verification/Dispatcher.thy ===== *)
theory Dispatcher
  imports Retry
begin

text \<open>
  The delayed-retry dispatcher, \<open>src/internal/queue/dispatcher.go\<close>, over the interfaces
  \<open>RetryStore\<close> and \<open>Publisher\<close>. The locale \<open>dispatch_env\<close> is what it relies on of them; the Redis
  store and driver provide it (\<open>redis_dispatch\<close>).
\<close>

section \<open>Operations\<close>

record 'w retry_store_ops =
  rs_Due :: "time \<Rightarrow> int \<Rightarrow> ('w, gerr + retry_envelope list) state"
  rs_Remove :: "string \<Rightarrow> ('w, gerr option) state"
  rs_OldestDueLag :: "time \<Rightarrow> ('w, gerr + (duration \<times> bool)) state"

text \<open>\<open>RetryDispatchLagMs\<close> is the gauge of \<open>Metrics\<close>, absent when \<open>Metrics\<close> is nil.\<close>

record 'w dispatcher =
  Store :: "'w retry_store_ops"
  Pub :: "outgoing_message \<Rightarrow> ('w, gerr + string) state"
  RetryDispatchLagMs :: "(int \<Rightarrow> ('w, unit) state) option"
  Interval :: duration
  Batch :: int
  time_Now :: "('w, time) state"

definition envelope_message :: "retry_envelope \<Rightarrow> outgoing_message" where
  "envelope_message env =
     \<lparr>out_Payload = env_Payload env, out_Attempt = env_Attempt env,
      out_LastErrorCode = error_code_string (env_LastErrorCode env), out_TraceID = env_TraceID env\<rparr>"

text \<open>The body of the loop of \<open>Tick\<close>: re-enqueue, and remove only after the re-enqueue succeeded.\<close>

definition dispatch_one :: "'w dispatcher \<Rightarrow> retry_envelope \<Rightarrow> ('w, unit) state" where
  "dispatch_one d env = do {
     res \<leftarrow> Pub d (envelope_message env);
     case res of
       Inl err \<Rightarrow> ret ()
     | Inr _ \<Rightarrow> do {
         _ \<leftarrow> rs_Remove (Store d) (env_RetryEnvelopeID env);
         ret ()
       }
   }"

definition report_lag :: "'w dispatcher \<Rightarrow> ('w, unit) state" where
  "report_lag d =
     (case RetryDispatchLagMs d of
        None \<Rightarrow> ret ()
      | Some set_gauge \<Rightarrow> do {
          now \<leftarrow> time_Now d;
          res \<leftarrow> rs_OldestDueLag (Store d) now;
          case res of
            Inl err \<Rightarrow> ret ()
          | Inr (lag, ok) \<Rightarrow> if ok then set_gauge (Milliseconds lag) else set_gauge 0
        })"

definition Tick :: "'w dispatcher \<Rightarrow> time \<Rightarrow> ('w, unit) state" where
  "Tick d now = do {
     let batch = (if Batch d \<le> 0 then 100 else Batch d);
     envs \<leftarrow> rs_Due (Store d) now batch;
     case envs of
       Inl err \<Rightarrow> ret ()
     | Inr envs \<Rightarrow> do {
         for_each envs (dispatch_one d);
         report_lag d
       }
   }"

text \<open>\<open>Run\<close> until the context is done: one \<open>Tick\<close> per tick of the timer that arrives before.\<close>

fun Run :: "'w dispatcher \<Rightarrow> time list \<Rightarrow> ('w, unit) state" where
  "Run d [] = ret ()"
| "Run d (now # ticks) = do { Tick d now; Run d ticks }"

section \<open>What the dispatcher relies on\<close>

text \<open>An envelope that was due at one of the times.\<close>

definition due_in :: "time list \<Rightarrow> retry_envelope \<Rightarrow> bool" where
  "due_in nows env = (\<exists>now \<in> set nows. env_NextAttemptAt env \<le> UnixMilli now)"

lemma due_in_append: "due_in (xs @ ys) env \<longleftrightarrow> due_in xs env \<or> due_in ys env"
  by (auto simp: due_in_def)


text \<open>
  Beside the contract of the store: a publish appends its message to the main stream, or reports
  an error; neither touches what the other is about. The clock and the gauge touch neither.
\<close>

locale dispatch_env = retry_store store_ok held stored schedule due remove
  for store_ok :: "'w \<Rightarrow> bool" and held and stored and schedule and due and remove +
  fixes published :: "'w \<Rightarrow> 'm list"
    and message_of :: "outgoing_message \<Rightarrow> 'm"
    and d :: "'w dispatcher"
  assumes due_op: "rs_Due (Store d) = due"
    and remove_op: "rs_Remove (Store d) = remove"
    and due_frame: "0 < n \<Longrightarrow> wp (due now n) (\<lambda>_ w'. published w' = published w) w"
    and remove_frame: "wp (remove i) (\<lambda>_ w'. published w' = published w) w"
    and publish_spec: "store_ok w \<Longrightarrow> wp (Pub d m) (\<lambda>res w'. store_ok w' \<and> held w' = held w \<and>
      (published w' = published w @ [message_of m] \<or> (\<exists>e. res = Inl e) \<and> published w' = published w)) w"
    and lag_frame: "store_ok w \<Longrightarrow>
      wp (rs_OldestDueLag (Store d) now) (\<lambda>_ w'. store_ok w' \<and> held w' = held w \<and> published w' = published w) w"
    and clock_frame: "store_ok w \<Longrightarrow>
      wp (time_Now d) (\<lambda>_ w'. store_ok w' \<and> held w' = held w \<and> published w' = published w) w"
    and gauge_frame: "RetryDispatchLagMs d = Some g \<Longrightarrow> store_ok w \<Longrightarrow>
      wp (g n) (\<lambda>_ w'. store_ok w' \<and> held w' = held w \<and> published w' = published w) w"
begin

text \<open>
  The state during passes at the times \<open>nows\<close> that began in \<open>w0\<close>: what was published since are messages of envelopes that
  were held and due; an envelope that was held is still held or was due and published; nothing new
  is held.
\<close>

definition pass_inv :: "'w \<Rightarrow> time list \<Rightarrow> 'w \<Rightarrow> bool" where
  "pass_inv w0 nows w \<longleftrightarrow> store_ok w \<and>
     (\<exists>new. published w = published w0 @ new \<and>
        (\<forall>m \<in> set new. \<exists>i env. held w0 i = Some env \<and> due_in nows env \<and>
           m = message_of (envelope_message env)) \<and>
        (\<forall>i env. held w0 i = Some env \<longrightarrow>
           held w i = Some env \<or>
           due_in nows env \<and> message_of (envelope_message env) \<in> set new)) \<and>
     (\<forall>i env. held w i = Some env \<longrightarrow> held w0 i = Some env)"

lemma pass_inv_start: "store_ok w \<Longrightarrow> pass_inv w nows w"
  by (simp add: pass_inv_def)

lemma pass_inv_frame:
  "pass_inv w0 nows w \<Longrightarrow> store_ok w' \<Longrightarrow> held w' = held w \<Longrightarrow> published w' = published w \<Longrightarrow>
   pass_inv w0 nows w'"
  by (simp add: pass_inv_def)

lemma pass_inv_trans:
  assumes "pass_inv w0 xs w1" "pass_inv w1 ys w2"
  shows "pass_inv w0 (xs @ ys) w2"
proof -
  from assms(1) obtain new1 where 1: "published w1 = published w0 @ new1"
    "\<forall>m \<in> set new1. \<exists>i env. held w0 i = Some env \<and> due_in xs env \<and> m = message_of (envelope_message env)"
    "\<forall>i env. held w0 i = Some env \<longrightarrow> held w1 i = Some env \<or>
       due_in xs env \<and> message_of (envelope_message env) \<in> set new1"
    "\<forall>i env. held w1 i = Some env \<longrightarrow> held w0 i = Some env"
    by (auto simp: pass_inv_def)
  from assms(2) obtain new2 where 2: "published w2 = published w1 @ new2"
    "\<forall>m \<in> set new2. \<exists>i env. held w1 i = Some env \<and> due_in ys env \<and> m = message_of (envelope_message env)"
    "\<forall>i env. held w1 i = Some env \<longrightarrow> held w2 i = Some env \<or>
       due_in ys env \<and> message_of (envelope_message env) \<in> set new2"
    "\<forall>i env. held w2 i = Some env \<longrightarrow> held w1 i = Some env" "store_ok w2"
    by (auto simp: pass_inv_def)
  have "\<exists>i env. held w0 i = Some env \<and> due_in (xs @ ys) env \<and> m = message_of (envelope_message env)"
    if "m \<in> set (new1 @ new2)" for m
    using that 1(2,4) 2(2) by (simp add: due_in_append) blast
  moreover have "held w2 i = Some env \<or> due_in (xs @ ys) env \<and> message_of (envelope_message env) \<in> set (new1 @ new2)"
    if "held w0 i = Some env" for i env
    using that 1(3) 2(3) by (simp add: due_in_append) blast
  ultimately show ?thesis
    unfolding pass_inv_def using 1(1,4) 2(1,4,5)
    by (intro conjI exI [of _ "new1 @ new2"]) auto
qed

lemma pass_inv_publish:
  assumes "pass_inv w0 nows w" "store_ok w'" "held w' = held w"
    and "published w' = published w @ [message_of (envelope_message env)]"
    and "held w0 i = Some env" "due_in nows env"
  shows "pass_inv w0 nows w'"
proof -
  from assms(1) obtain new where "published w = published w0 @ new"
    "\<forall>m \<in> set new. \<exists>i env. held w0 i = Some env \<and> due_in nows env \<and>
       m = message_of (envelope_message env)"
    "\<forall>i env. held w0 i = Some env \<longrightarrow> held w i = Some env \<or>
       due_in nows env \<and> message_of (envelope_message env) \<in> set new"
    by (auto simp: pass_inv_def)
  with assms show ?thesis
    unfolding pass_inv_def
    by (intro conjI exI [of _ "new @ [message_of (envelope_message env)]"]) auto
qed

lemma pass_inv_remove:
  assumes "pass_inv w0 nows w" "store_ok w'" "published w' = published w"
    and "held w' = (held w)(i := None) \<or> held w' = held w"
    and "held w0 i = Some env" "due_in nows env"
    and "message_of (envelope_message env) \<in> set (drop (length (published w0)) (published w))"
  shows "pass_inv w0 nows w'"
  using assms by (auto simp: pass_inv_def split: if_splits)

lemma dispatch_one_inv:
  assumes inv: "pass_inv w0 nows w"
    and env: "held w0 (env_RetryEnvelopeID env) = Some env" "due_in nows env"
  shows "wp (dispatch_one d env) (\<lambda>_. pass_inv w0 nows) w"
proof -
  have ok: "store_ok w" using inv by (simp add: pass_inv_def)
  obtain new where new: "published w = published w0 @ new" using inv by (auto simp: pass_inv_def)
  show ?thesis
    unfolding dispatch_one_def wp_bind
  proof (rule wp_mono [OF publish_spec [OF ok]], goal_cases)
    case (1 res w1)
    show ?case
    proof (cases res)
      case (Inl e)
      with 1 inv env pass_inv_publish [OF inv] show ?thesis
        by (auto intro: pass_inv_frame)
    next
      case (Inr x)
      with 1 have w1: "store_ok w1" "held w1 = held w"
        "published w1 = published w @ [message_of (envelope_message env)]"
        by auto
      have inv1: "pass_inv w0 nows w1"
        by (rule pass_inv_publish [OF inv w1]) (use env in auto)
      have "wp (remove (env_RetryEnvelopeID env)) (\<lambda>_ w'. pass_inv w0 nows w') w1"
      proof -
        have "wp (remove (env_RetryEnvelopeID env)) (\<lambda>err w'. (store_ok w' \<and>
            (held w' = (held w1)(env_RetryEnvelopeID env := None) \<or> err \<noteq> None \<and> held w' = held w1)) \<and>
            published w' = published w1) w1"
          by (intro wp_conj remove_spec remove_frame w1)
        then show ?thesis
          by (rule wp_mono) (rule pass_inv_remove [OF inv1 _ _ _ env], auto simp: w1 new)
      qed
      with Inr show ?thesis by (simp add: remove_op)
    qed
  qed
qed

lemma report_lag_inv: "pass_inv w0 nows w \<Longrightarrow> wp (report_lag d) (\<lambda>_. pass_inv w0 nows) w"
proof (cases "RetryDispatchLagMs d")
  case (Some g)
  assume inv: "pass_inv w0 nows w"
  have gauge: "wp (g n) (\<lambda>_. pass_inv w0 nows) w2" if "pass_inv w0 nows w2" for n w2
    using that by (intro wp_mono [OF gauge_frame [OF Some]]) (auto simp: pass_inv_def)
  have lag: "wp (rs_OldestDueLag (Store d) t) (\<lambda>_. pass_inv w0 nows) w2" if "pass_inv w0 nows w2" for t w2
    using that by (intro wp_mono [OF lag_frame]) (auto simp: pass_inv_def)
  have clock: "wp (time_Now d) (\<lambda>_. pass_inv w0 nows) w"
    using inv by (intro wp_mono [OF clock_frame]) (auto simp: pass_inv_def)
  show ?thesis
    unfolding report_lag_def Some option.case wp_bind
    by (rule wp_mono [OF clock], rule wp_mono [OF lag]) (auto split: sum.splits prod.splits intro: gauge)
qed (simp add: report_lag_def)

lemma Tick_inv:
  assumes ok: "store_ok w"
  shows "wp (Tick d now) (\<lambda>_. pass_inv w [now]) w"
proof -
  let ?batch = "if Batch d \<le> 0 then 100 else Batch d"
  have pos: "0 < ?batch" by simp
  have "wp (due now ?batch) (\<lambda>res w'. (store_ok w' \<and> held w' = held w \<and>
       (\<forall>envs. res = Inr envs \<longrightarrow>
          distinct (map env_RetryEnvelopeID envs) \<and> int (length envs) \<le> ?batch \<and>
          (\<forall>env \<in> set envs. held w (env_RetryEnvelopeID env) = Some env \<and> env_NextAttemptAt env \<le> UnixMilli now) \<and>
          (\<forall>i env. held w i = Some env \<longrightarrow> env_NextAttemptAt env \<le> UnixMilli now \<longrightarrow>
             env \<in> set envs \<or> int (length envs) = ?batch))) \<and> published w' = published w) w"
    by (rule wp_conj [OF due_spec [OF ok pos] due_frame [OF pos]])
  then show ?thesis
    unfolding Tick_def Let_def wp_bind due_op
  proof (rule wp_mono, goal_cases)
    case (1 res w1)
    have inv: "pass_inv w [now] w1"
      by (rule pass_inv_frame [OF pass_inv_start [OF ok]]) (use 1 in auto)
    show ?case
    proof (cases res)
      case (Inl e)
      with inv show ?thesis by simp
    next
      case (Inr envs)
      have "wp (for_each envs (dispatch_one d)) (\<lambda>_. pass_inv w [now]) w1"
        by (rule wp_for_each [where I = "pass_inv w [now]", OF inv]) (rule dispatch_one_inv, use 1 Inr in \<open>auto simp: due_in_def\<close>)
      then have "wp (for_each envs (dispatch_one d)) (\<lambda>_. wp (report_lag d) (\<lambda>_. pass_inv w [now])) w1"
        by (rule wp_mono) (rule report_lag_inv)
      then show ?thesis by (simp add: Inr)
    qed
  qed
qed

lemma Run_inv: "store_ok w \<Longrightarrow> wp (Run d ticks) (\<lambda>_. pass_inv w ticks) w"
proof (induction ticks arbitrary: w)
  case (Cons now ticks)
  have "wp (Tick d now) (\<lambda>_. wp (Run d ticks) (\<lambda>_. pass_inv w (now # ticks))) w"
  proof (rule wp_mono [OF Tick_inv [OF Cons.prems]])
    fix w1 :: 'w
    assume inv: "pass_inv w [now] w1"
    then have "wp (Run d ticks) (\<lambda>_. pass_inv w1 ticks) w1"
      by (intro Cons.IH) (simp add: pass_inv_def)
    then show "wp (Run d ticks) (\<lambda>_. pass_inv w (now # ticks)) w1"
      by (rule wp_mono) (use pass_inv_trans [OF inv] in simp)
  qed
  then show ?case by simp
qed (simp add: pass_inv_start)

end

section \<open>The dispatcher on Redis\<close>

text \<open>
  The dispatcher that \<open>run\<close> (\<open>src/cmd/export-worker/main.go\<close>) builds: the Redis retry store and
  the Redis driver on one client.
\<close>

definition redis_dispatcher ::
  "'w redis_driver \<Rightarrow> env_codec \<Rightarrow> (int \<Rightarrow> ('w, unit) state) option \<Rightarrow> duration \<Rightarrow> int \<Rightarrow> ('w, time) state \<Rightarrow> 'w dispatcher" where
  "redis_dispatcher drv c gauge interval batch clock =
     \<lparr>Store = \<lparr>rs_Due = Due (rdb drv) c, rs_Remove = Remove (rdb drv), rs_OldestDueLag = OldestDueLag (rdb drv)\<rparr>,
      Pub = Publish drv, RetryDispatchLagMs = gauge, Interval = interval, Batch = batch, time_Now = clock\<rparr>"

locale redis_dispatch = redis_store "rdb drv" view c compact
  for drv :: "'w redis_driver" and view and c and compact +
  fixes gauge :: "(int \<Rightarrow> ('w, unit) state) option"
    and clock :: "('w, time) state"
  assumes clock_view: "wp clock (\<lambda>_ w'. view w' = view w) w"
    and gauge_view: "gauge = Some g \<Longrightarrow> wp (g n) (\<lambda>_ w'. view w' = view w) w"
begin

lemma fold_streams: "streams (fold apply_cmd cmds v) = streams v"
proof (induction cmds arbitrary: v)
  case (Cons cmd cmds)
  then show ?case by (cases cmd) simp_all
qed simp

lemma tx_streams: "wp (TxPipeline_Exec (rdb drv) cmds) (\<lambda>_ w'. streams (view w') = streams (view w)) w"
  by (rule tx_cases) (simp_all add: fold_streams)

lemma cmd_streams: "wp (Cmd_Err (rdb drv) cmd1) (\<lambda>_ w'. streams (view w') = streams (view w)) w"
  by (rule wp_mono [OF cmd]) (cases cmd1, auto)

lemma Remove_streams: "wp (Remove (rdb drv) i) (\<lambda>_ w'. streams (view w') = streams (view w)) w"
  by (simp add: Remove_def tx_streams)

lemma cmd_streams_then:
  assumes "streams (view w) = s" "\<And>w'. streams (view w') = s \<Longrightarrow> Q w'"
  shows "wp (Cmd_Err (rdb drv) cmd1) (\<lambda>_. Q) w"
  by (rule wp_mono [OF cmd_streams]) (use assms in auto)

lemma due_collect_streams:
  "streams (view w) = s \<Longrightarrow> wp (due_collect (rdb drv) c xs) (\<lambda>_ w'. streams (view w') = s) w"
proof (induction xs arbitrary: w)
  case (Cons x xs)
  show ?case
    by (cases x, simp split: option.split)
      (intro conjI impI allI cmd_streams_then [of _ s] Cons.IH; simp add: Cons.prems)
qed simp

lemma Due_streams: "wp (Due (rdb drv) c now n) (\<lambda>_ w'. streams (view w') = streams (view w)) w" if "0 < n"
  unfolding Due_def wp_bind
  by (rule wp_mono [OF zrange [OF that]])
    (auto split: sum.splits intro!: wp_mono [OF hmget] due_collect_streams)

lemma Publish_spec:
  "wp (Publish drv m) (\<lambda>res w'. zsets (view w') = zsets (view w) \<and> hashes (view w') = hashes (view w) \<and>
     (map snd (streams (view w') StreamMain) = map snd (streams (view w) StreamMain) @ [publish_values m] \<or>
      (\<exists>e. res = Inl e) \<and> streams (view w') = streams (view w))) w"
  unfolding Publish_def wp_bind wp_return
  by (rule wp_mono [OF xadd]) (auto simp: wrap_res_def)

lemma OldestDueLag_view: "wp (OldestDueLag (rdb drv) now) (\<lambda>_ w'. view w' = view w) w"
  unfolding OldestDueLag_def wp_bind wp_return
  by (rule zrange_scores)

end

text \<open>Equal retry indexes and payloads hold the same envelopes.\<close>

lemma redis_held_cong:
  assumes "zsets v' = zsets v" "hashes v' = hashes v"
  shows "redis_held c v' = redis_held c v" "redis_store_ok c v' = redis_store_ok c v"
proof -
  show held: "redis_held c v' = redis_held c v"
    by (rule ext) (simp add: redis_held_def assms split: option.split)
  then show "redis_store_ok c v' = redis_store_ok c v"
    using assms by (simp add: redis_store_ok_def)
qed

sublocale redis_dispatch \<subseteq> de: dispatch_env
  "\<lambda>w. redis_store_ok c (view w)" "\<lambda>w. redis_held c (view w)"
  "\<lambda>env. env\<lparr>env_Payload := compact (env_Payload env)\<rparr>"
  "Schedule (rdb drv) c" "Due (rdb drv) c" "Remove (rdb drv)"
  "\<lambda>w. map snd (streams (view w) StreamMain)" publish_values
  "redis_dispatcher drv c gauge interval batch clock"
proof (unfold_locales, goal_cases)
  case (3 now n w)
  then show ?case by (intro wp_mono [OF Due_streams]) auto
next
  case (4 i w)
  show ?case by (rule wp_mono [OF Remove_streams]) simp
next
  case (5 w m)
  have "wp (Publish drv m) (\<lambda>res w'. redis_store_ok c (view w') \<and> redis_held c (view w') = redis_held c (view w) \<and>
      (map snd (streams (view w') StreamMain) = map snd (streams (view w) StreamMain) @ [publish_values m] \<or>
       (\<exists>e. res = Inl e) \<and> map snd (streams (view w') StreamMain) = map snd (streams (view w) StreamMain))) w"
  proof (rule wp_mono [OF Publish_spec], goal_cases)
    case (1 res w')
    then show ?case using redis_held_cong [of "view w'" "view w" c] 5 by auto
  qed
  then show ?case by (simp add: redis_dispatcher_def)
next
  case (6 w now)
  then show ?case
    by (simp add: redis_dispatcher_def) (rule wp_mono [OF OldestDueLag_view], simp)
next
  case (7 w)
  then show ?case
    by (simp add: redis_dispatcher_def) (rule wp_mono [OF clock_view], simp)
next
  case (8 g w n)
  then show ?case
    by (simp add: redis_dispatcher_def) (rule wp_mono [OF gauge_view], simp_all)
qed (simp_all add: redis_dispatcher_def)

context redis_dispatch
begin

lemmas Run_on_redis = de.Run_inv [unfolded de.pass_inv_def]

end

section \<open>Properties\<close>

text \<open>The driver, clock and gauge on the reference server.\<close>

definition server_driver :: "server redis_driver" where
  "server_driver = \<lparr>rdb = server_redis, consumer = ''worker-1''\<rparr>"

interpretation server_dispatch: redis_dispatch server_driver server_view line_codec id
  "Some (\<lambda>n. ret ())" "State (\<lambda>s. (srv_time s, s))"
proof -
  have "redis_store (rdb server_driver) server_view line_codec id"
    by (simp add: server_driver_def server.redis_store_axioms)
  then show "redis_dispatch server_driver server_view line_codec id
      (Some (\<lambda>n. ret ())) (State (\<lambda>s. (srv_time s, s)))"
    by (rule redis_dispatch.intro) (unfold_locales, auto simp: wp_def)
qed

text \<open>
  C11. The dispatcher loses no retry. Whatever ticks \<open>Run\<close> gets before it is stopped, and whichever
  Redis commands fail on the way, with or without having taken effect: an envelope that was in the
  store is still there, unchanged, or it was due at one of the ticks and its message was appended to
  the main stream; every message appended is that of an envelope that was in the store and due; and no
  envelope appears in the store.
\<close>

theorem Run_no_loss:
  assumes "redis_dispatch drv view c cmp gauge clock" "redis_store_ok c (view w)"
  shows "wp (Run (redis_dispatcher drv c gauge interval batch clock) ticks) (\<lambda>_ w'. redis_store_ok c (view w') \<and>
     (\<exists>new. map snd (streams (view w') StreamMain) = map snd (streams (view w) StreamMain) @ new \<and>
        (\<forall>m \<in> set new. \<exists>i env. redis_held c (view w) i = Some env \<and> due_in ticks env \<and>
           m = publish_values (envelope_message env)) \<and>
        (\<forall>i env. redis_held c (view w) i = Some env \<longrightarrow>
           redis_held c (view w') i = Some env \<or>
           due_in ticks env \<and> publish_values (envelope_message env) \<in> set new)) \<and>
     (\<forall>i env. redis_held c (view w') i = Some env \<longrightarrow> redis_held c (view w) i = Some env)) w"
  using redis_dispatch.Run_on_redis [OF assms] by simp

text \<open>Two ticks with a refused publish and a lost reply in the first: the envelope is published, twice.\<close>

definition witness_envelope :: retry_envelope where
  "witness_envelope =
     \<lparr>env_RetryEnvelopeID = EnvelopeID ''d1'' 2 ErrorCodeStorage5xx, env_DeploymentID = ''d1'', env_Attempt = 2,
      env_NextAttemptAt = 10, env_LastErrorCode = ErrorCodeStorage5xx, env_TraceID = ''t'', env_Payload = ''p''\<rparr>"

definition witness_server :: server where
  "witness_server =
     (snd (run_state (Schedule server_redis line_codec witness_envelope) empty_server))
       \<lparr>srv_faults := [Fine, Fine, Lost_Reply, Fine, Fine, Fine, Fine, Refused]\<rparr>"

theorem Run_no_loss_witness:
  "redis_held line_codec (server_view witness_server) (EnvelopeID ''d1'' 2 ErrorCodeStorage5xx) = Some witness_envelope \<and>
   (case run_state (Run (redis_dispatcher server_driver line_codec (Some (\<lambda>n. ret ())) Second 0
        (State (\<lambda>s. (srv_time s, s)))) [10 * Millisecond, 20 * Millisecond]) witness_server of
      (_, s) \<Rightarrow> redis_store_ok line_codec (server_view s) \<and> length (srv_streams s StreamMain) = 2)"
proof -
  let ?run = "Run (redis_dispatcher server_driver line_codec (Some (\<lambda>n. ret ())) Second 0
        (State (\<lambda>s. (srv_time s, s)))) [10 * Millisecond, 20 * Millisecond]"
  have held: "redis_held line_codec (server_view witness_server) (EnvelopeID ''d1'' 2 ErrorCodeStorage5xx) = Some witness_envelope"
    by code_simp
  have zset: "srv_zsets witness_server KeyRetryZSet = [(EnvelopeID ''d1'' 2 ErrorCodeStorage5xx, 10)]"
    by code_simp
  have "zsets (server_view witness_server) KeyRetryZSet = [EnvelopeID ''d1'' 2 ErrorCodeStorage5xx \<mapsto> 10]"
    by (simp add: server_view_def zset)
  moreover have "env_RetryEnvelopeID witness_envelope = EnvelopeID ''d1'' 2 ErrorCodeStorage5xx"
    "env_NextAttemptAt witness_envelope = 10"
    by (simp_all add: witness_envelope_def)
  ultimately have "redis_store_ok line_codec (server_view witness_server)"
    unfolding redis_store_ok_def using held by (simp only: fun_upd_apply option.distinct) (metis option.inject option.distinct(1))
  from Run_no_loss [OF server_dispatch.redis_dispatch_axioms this]
  have "wp ?run (\<lambda>_ w'. redis_store_ok line_codec (server_view w')) witness_server"
    by (rule wp_mono) blast
  moreover have "length (srv_streams (snd (run_state ?run witness_server)) StreamMain) = 2"
    by code_simp
  ultimately show ?thesis
    using held by (auto simp: wp_def split: prod.splits)
qed

end
