(* ===== verification/Trim.thy ===== *)
theory Trim
  imports Queue Redis_Server
begin

text \<open>
  Retention trimming, \<open>src/internal/queue/trim.go\<close>. The reads that bound a trim and the trim itself are
  separate commands, so other clients act in between: \<open>others_step\<close> says what they may do to the
  streams and to the consumer group, and the locale \<open>trim_env\<close> what the commands do among them.
\<close>

section \<open>Operations\<close>

definition minIDAt :: "time \<Rightarrow> string" where
  "minIDAt horizon = FormatInt (UnixMilli horizon) @ ''-0''"

definition parseStreamID :: "string \<Rightarrow> (nat \<times> nat) option" where
  "parseStreamID i =
     (case Cut i CHR ''-'' of
        (msPart, seqPart0, hasSeq) \<Rightarrow>
          let seqPart = (if \<not> hasSeq then ''0'' else seqPart0) in
          (case ParseUint msPart of
             None \<Rightarrow> None
           | Some m \<Rightarrow> (case ParseUint seqPart of None \<Rightarrow> None | Some s \<Rightarrow> Some (m, s))))"

definition minStreamID :: "string \<Rightarrow> string \<Rightarrow> string" where
  "minStreamID a b =
     (case parseStreamID a of
        None \<Rightarrow> b
      | Some (am, as) \<Rightarrow>
          (case parseStreamID b of
             None \<Rightarrow> a
           | Some (bm, bs) \<Rightarrow> if bm < am \<or> bm = am \<and> bs < as then b else a))"

text \<open>\<open>ms+1\<close> is on \<open>uint64\<close>.\<close>

definition nextStreamID :: "string \<Rightarrow> string" where
  "nextStreamID i =
     (case parseStreamID i of
        None \<Rightarrow> i
      | Some (ms, sq) \<Rightarrow>
          if sq = 2 ^ 64 - 1 then FormatUint ((ms + 1) mod 2 ^ 64) @ ''-0''
          else FormatUint ms @ ''-'' @ FormatUint (sq + 1))"

definition isNoStreamOrGroup :: "gerr option \<Rightarrow> bool" where
  "isNoStreamOrGroup err =
     (case err of
        None \<Rightarrow> False
      | Some e \<Rightarrow> Contains (Error_text e) ''no such key'' \<or> Contains (Error_text e) ''NOGROUP'')"

definition TrimStream :: "'w redis_driver \<Rightarrow> string \<Rightarrow> time \<Rightarrow> ('w, gerr + int) state" where
  "TrimStream d stream horizon = do {
     r \<leftarrow> XTrimMinID (rdb d) stream (minIDAt horizon);
     ret (wrap_res r)
   }"

text \<open>The loop over the groups, with \<open>minID\<close> and \<open>found\<close> as its state.\<close>

definition group_bound :: "string \<Rightarrow> x_group list \<Rightarrow> string \<times> bool" where
  "group_bound minID gs =
     foldl (\<lambda>(minID, found) g.
       if xg_Name g = ConsumerGroup then (minStreamID minID (nextStreamID (xg_LastDeliveredID g)), True)
       else (minID, found)) (minID, False) gs"

text \<open>The bound after the first read; \<open>None\<close> is a nil summary.\<close>

definition pending_bound :: "string \<Rightarrow> x_pending option \<Rightarrow> string" where
  "pending_bound minID pending =
     (case pending of
        None \<Rightarrow> minID
      | Some p \<Rightarrow> if xp_Count p > 0 \<and> xp_Lower p \<noteq> [] then minStreamID minID (xp_Lower p) else minID)"

text \<open>From the second read on.\<close>

definition TrimMain_from :: "'w redis_driver \<Rightarrow> string \<Rightarrow> ('w, gerr + int) state" where
  "TrimMain_from d minID = do {
     gs \<leftarrow> XInfoGroups (rdb d) StreamMain;
     case gs of
       Inl err \<Rightarrow> if isNoStreamOrGroup (Some err) then ret (Inr 0) else ret (Inl (WrapE err))
     | Inr gs \<Rightarrow>
         (case group_bound minID gs of
            (minID, found) \<Rightarrow>
              if \<not> found then ret (Inr 0)
              else do {
                r \<leftarrow> XTrimMinID (rdb d) StreamMain minID;
                ret (wrap_res r)
              })
   }"

definition TrimMain :: "'w redis_driver \<Rightarrow> time \<Rightarrow> ('w, gerr + int) state" where
  "TrimMain d horizon = do {
     let minID = minIDAt horizon;
     pending \<leftarrow> XPending (rdb d) StreamMain ConsumerGroup;
     case pending of
       Inl err \<Rightarrow>
         if \<not> errors_Is (Some err) RedisNilE
         then (if isNoStreamOrGroup (Some err) then ret (Inr 0) else ret (Inl (WrapE err)))
         else TrimMain_from d (pending_bound minID None)
     | Inr p \<Rightarrow> TrimMain_from d (pending_bound minID (Some p))
   }"

section \<open>Stream IDs\<close>

definition sid64 :: "stream_id \<Rightarrow> bool" where
  "sid64 i = (fst i < 2 ^ 64 \<and> snd i < 2 ^ 64)"

definition sid_min :: "stream_id \<Rightarrow> stream_id \<Rightarrow> stream_id" where
  "sid_min i j = (if sid_less j i then j else i)"

text \<open>The next ID; the ID after the very last one wraps to the first.\<close>

definition sid_next :: "stream_id \<Rightarrow> stream_id" where
  "sid_next i =
     (if snd i = 2 ^ 64 - 1 then ((fst i + 1) mod 2 ^ 64, 0) else (fst i, snd i + 1))"

lemma FormatUint_0: "FormatUint 0 = ''0''"
  by code_simp

lemma parseStreamID_print [simp]: "sid64 i \<Longrightarrow> parseStreamID (print_sid i) = Some i"
  by (simp add: parseStreamID_def print_sid_def sid64_def Cut_append)

lemma minStreamID_print: "sid64 i \<Longrightarrow> sid64 j \<Longrightarrow> minStreamID (print_sid i) (print_sid j) = print_sid (sid_min i j)"
  by (cases i; cases j) (auto simp: minStreamID_def sid_min_def)

lemma nextStreamID_print: "sid64 i \<Longrightarrow> nextStreamID (print_sid i) = print_sid (sid_next i)"
  by (cases i) (simp add: nextStreamID_def sid_next_def print_sid_def [of "(_, 0)"] print_sid_def [of "(_, Suc _)"]
    FormatUint_0)

lemma sid64_min [simp]: "sid64 i \<Longrightarrow> sid64 j \<Longrightarrow> sid64 (sid_min i j)"
  by (simp add: sid_min_def)

lemma sid64_next [simp]: "sid64 i \<Longrightarrow> sid64 (sid_next i)"
  by (auto simp: sid64_def sid_next_def)

lemma sid_less_min: "sid_less k (sid_min i j) \<longleftrightarrow> sid_less k i \<and> sid_less k j"
  by (cases i; cases j; cases k) (auto simp: sid_min_def)

lemma sid_less_next: "sid_less j (sid_next i) \<Longrightarrow> sid64 i \<Longrightarrow> sid64 j \<Longrightarrow> \<not> sid_less i j"
  by (cases i; cases j) (auto simp: sid_next_def sid64_def mod_Suc split: if_splits)

lemma sid_next_least:
  assumes "sid64 i" "sid64 j" "sid_less i j"
  shows "\<not> sid_less j (sid_next i)"
  using assms sid_less_next by blast

text \<open>A horizon after 1970 is the ID of its millisecond; one before is no ID at all.\<close>

lemma minIDAt_print: "0 \<le> UnixMilli t \<Longrightarrow> minIDAt t = print_sid (nat (UnixMilli t), 0)"
  by (simp add: minIDAt_def print_sid_def FormatInt_def FormatUint_0)

lemma minIDAt_negative: "UnixMilli t < 0 \<Longrightarrow> parseStreamID (minIDAt t) = None"
  by (simp add: minIDAt_def FormatInt_def parseStreamID_def ParseUint_def)

lemma print_sid_inject [simp]: "print_sid i = print_sid j \<longleftrightarrow> i = j"
proof
  assume "print_sid i = print_sid j"
  then have "Cut (print_sid i) CHR ''-'' = Cut (print_sid j) CHR ''-''" by simp
  then show "i = j" by (simp add: print_sid_def Cut_append prod_eq_iff)
qed simp

declare sid_less.simps [simp del] split_paired_All [simp del] split_paired_Ex [simp del]

section \<open>Other clients\<close>

definition main_group :: "redis_view \<Rightarrow> consumer_group option" where
  "main_group v = groups v StreamMain ConsumerGroup"

definition delivered :: "redis_view \<Rightarrow> stream_id \<Rightarrow> bool" where
  "delivered v i = (\<exists>g. main_group v = Some g \<and> \<not> sid_less (last_delivered g) i)"

definition pending_entry :: "redis_view \<Rightarrow> stream_id \<Rightarrow> bool" where
  "pending_entry v i = (\<exists>g. main_group v = Some g \<and> i \<in> set (pel g))"

definition ids_ok :: "redis_view \<Rightarrow> bool" where
  "ids_ok v = ((\<forall>key. \<forall>e \<in> set (streams v key). sid64 (fst e)) \<and>
     (\<forall>g. main_group v = Some g \<longrightarrow> sid64 (last_delivered g) \<and> (\<forall>i \<in> set (pel g). sid64 i)))"

text \<open>
  Other clients add entries and remove none; what was delivered stays delivered; what becomes pending
  was not delivered before; and IDs are 64-bit numbers.
\<close>

definition others_step :: "redis_view \<Rightarrow> redis_view \<Rightarrow> bool" where
  "others_step v v' =
     ((\<forall>key. set (streams v key) \<subseteq> set (streams v' key)) \<and>
      (\<forall>i. delivered v i \<longrightarrow> delivered v' i) \<and>
      (\<forall>i. pending_entry v' i \<longrightarrow> pending_entry v i \<or> \<not> delivered v i) \<and>
      (ids_ok v \<longrightarrow> ids_ok v'))"

lemma others_step_refl [simp]: "others_step v v"
  by (simp add: others_step_def)

lemma others_step_trans: "others_step u v \<Longrightarrow> others_step v w \<Longrightarrow> others_step u w"
  unfolding others_step_def by (meson subset_trans)

definition trim_view :: "string \<Rightarrow> stream_id \<Rightarrow> redis_view \<Rightarrow> redis_view" where
  "trim_view key i v =
     v\<lparr>streams := (streams v)(key := filter (\<lambda>e. \<not> sid_less (fst e) i) (streams v key))\<rparr>"

text \<open>
  What a call that trims leaves: delivered entries stay delivered, entries that are pending were pending
  or not delivered, and the entries that are gone satisfy \<open>P\<close>.
\<close>

definition trim_result :: "(stream_id \<times> fields \<Rightarrow> bool) \<Rightarrow> string \<Rightarrow> redis_view \<Rightarrow> redis_view \<Rightarrow> bool" where
  "trim_result P key v v' =
     ((\<forall>i. delivered v i \<longrightarrow> delivered v' i) \<and>
      (\<forall>i. pending_entry v' i \<longrightarrow> pending_entry v i \<or> \<not> delivered v i) \<and>
      (\<forall>e \<in> set (streams v key) - set (streams v' key). P e))"

lemma trim_result_before: "others_step u v \<Longrightarrow> trim_result P key v w \<Longrightarrow> trim_result P key u w"
  unfolding others_step_def trim_result_def by blast

lemma trim_result_after: "trim_result P key u v \<Longrightarrow> others_step v w \<Longrightarrow> trim_result P key u w"
  unfolding others_step_def trim_result_def by blast

lemma others_trim_result: "others_step v w \<Longrightarrow> trim_result P key v w"
  unfolding others_step_def trim_result_def by blast

text \<open>The ID that a bound string denotes, if it denotes one.\<close>

definition denotes :: "string \<Rightarrow> stream_id option \<Rightarrow> bool" where
  "denotes str B = (case B of None \<Rightarrow> parseStreamID str = None | Some i \<Rightarrow> str = print_sid i \<and> sid64 i)"

lemma denotes_min:
  assumes "denotes a B" "sid64 j"
  shows "\<exists>k. denotes (minStreamID a (print_sid j)) (Some k) \<and>
    (\<forall>i. sid_less i k \<longrightarrow> sid_less i j \<and> (\<forall>b. B = Some b \<longrightarrow> sid_less i b))"
proof (cases B)
  case None
  with assms show ?thesis by (auto simp: denotes_def minStreamID_def)
next
  case (Some b)
  with assms show ?thesis
    by (intro exI [of _ "sid_min b j"]) (auto simp: denotes_def minStreamID_print sid_less_min)
qed

lemma denotes_horizon:
  "\<exists>B. denotes (minIDAt t) B \<and>
     (0 \<le> UnixMilli t \<longrightarrow> UnixMilli t < 2 ^ 64 \<longrightarrow> B = Some (nat (UnixMilli t), 0))"
proof (cases "0 \<le> UnixMilli t \<and> UnixMilli t < 2 ^ 64")
  case True
  then have "denotes (minIDAt t) (Some (nat (UnixMilli t), 0))"
    by (auto simp: denotes_def minIDAt_print sid64_def)
  then show ?thesis by blast
next
  case False
  have "parseStreamID (print_sid (nat (UnixMilli t), 0)) = None" if "2 ^ 64 \<le> UnixMilli t"
  proof -
    have "\<not> nat (UnixMilli t) < 2 ^ 64" using that by simp
    then have "ParseUint (FormatUint (nat (UnixMilli t))) = None" by (simp add: ParseUint_def del: not_less)
    then show ?thesis by (simp add: parseStreamID_def print_sid_def Cut_append)
  qed
  with False have "denotes (minIDAt t) None"
    using minIDAt_negative [of t] minIDAt_print [of t] by (auto simp: denotes_def not_le)
  with False show ?thesis by blast
qed

lemma group_bound_append:
  "group_bound m (gs @ [g]) =
     (if xg_Name g = ConsumerGroup
      then (minStreamID (fst (group_bound m gs)) (nextStreamID (xg_LastDeliveredID g)), True)
      else group_bound m gs)"
  by (simp add: group_bound_def split: prod.splits)

lemma group_bound_found: "snd (group_bound m gs) \<longleftrightarrow> (\<exists>x \<in> set gs. xg_Name x = ConsumerGroup)"
  by (induction gs rule: rev_induct) (auto simp: group_bound_append, auto simp: group_bound_def)

lemma group_bound_sound:
  assumes "denotes m B" "sid64 ld"
    and "\<forall>x \<in> set gs. xg_Name x = ConsumerGroup \<longrightarrow> xg_LastDeliveredID x = print_sid ld"
    and "group_bound m gs = (b, True)"
  shows "\<exists>k. b = print_sid k \<and> sid64 k \<and> (\<forall>j. sid_less j k \<longrightarrow> sid_less j (sid_next ld) \<and> (\<forall>i. B = Some i \<longrightarrow> sid_less j i))"
proof -
  have "\<exists>C. denotes (fst (group_bound m gs)) C \<and>
      (if snd (group_bound m gs) then (\<exists>k. C = Some k \<and>
         (\<forall>j. sid_less j k \<longrightarrow> sid_less j (sid_next ld) \<and> (\<forall>i. B = Some i \<longrightarrow> sid_less j i))) else C = B)"
    using assms(3)
  proof (induction gs rule: rev_induct)
    case Nil
    show ?case using assms(1) by (simp add: group_bound_def)
  next
    case (snoc g gs)
    then obtain C where C: "denotes (fst (group_bound m gs)) C"
      "if snd (group_bound m gs) then (\<exists>k. C = Some k \<and>
         (\<forall>j. sid_less j k \<longrightarrow> sid_less j (sid_next ld) \<and> (\<forall>i. B = Some i \<longrightarrow> sid_less j i))) else C = B"
      by auto
    show ?case
    proof (cases "xg_Name g = ConsumerGroup")
      case True
      have step: "group_bound m (gs @ [g]) =
          (minStreamID (fst (group_bound m gs)) (print_sid (sid_next ld)), True)"
        using snoc.prems True assms(2) by (simp add: nextStreamID_print group_bound_append)
      obtain k where k: "denotes (minStreamID (fst (group_bound m gs)) (print_sid (sid_next ld))) (Some k)"
        "\<And>i. sid_less i k \<Longrightarrow> sid_less i (sid_next ld) \<and> (\<forall>b. C = Some b \<longrightarrow> sid_less i b)"
        using denotes_min [OF C(1), of "sid_next ld"] assms(2) by auto
      have "\<forall>b. B = Some b \<longrightarrow> sid_less i b" if "\<forall>b. C = Some b \<longrightarrow> sid_less i b" for i
      proof (cases "snd (group_bound m gs)")
        case True
        then have "\<exists>k. C = Some k \<and> (\<forall>j. sid_less j k \<longrightarrow>
            sid_less j (sid_next ld) \<and> (\<forall>i. B = Some i \<longrightarrow> sid_less j i))"
          using C(2) by (simp only: if_True)
        with that show ?thesis by blast
      next
        case False
        with C(2) that show ?thesis by (simp only: if_False)
      qed
      with k(2) have "\<exists>k'. Some k = Some k' \<and> (\<forall>j. sid_less j k' \<longrightarrow>
          sid_less j (sid_next ld) \<and> (\<forall>i. B = Some i \<longrightarrow> sid_less j i))"
        by blast
      with k(1) show ?thesis
        unfolding step fst_conv snd_conv if_True by blast
    qed (use C in \<open>auto simp: group_bound_append\<close>)
  qed
  with assms(4) show ?thesis by (auto simp: denotes_def)
qed

locale trim_env =
  fixes r :: "'w redis" and view :: "'w \<Rightarrow> redis_view"
  assumes xpending: "ids_ok (view w) \<Longrightarrow> wp (XPending r StreamMain ConsumerGroup) (\<lambda>res w'.
      \<exists>w1. others_step (view w) (view w1) \<and> others_step (view w1) (view w') \<and>
        (\<forall>e. res = Inl e \<longrightarrow> errors_Is (Some e) RedisNilE \<longrightarrow> (\<forall>i. \<not> pending_entry (view w1) i)) \<and>
        (\<forall>p. res = Inr p \<longrightarrow>
           (xp_Count p \<le> 0 \<or> xp_Lower p = []) \<and> (\<forall>i. \<not> pending_entry (view w1) i) \<or>
           (\<exists>lo. xp_Count p > 0 \<and> xp_Lower p = print_sid lo \<and> sid64 lo \<and>
              (\<forall>i. pending_entry (view w1) i \<longrightarrow> \<not> sid_less i lo)))) w"
    and xinfo: "ids_ok (view w) \<Longrightarrow> wp (XInfoGroups r StreamMain) (\<lambda>res w'.
      \<exists>w1. others_step (view w) (view w1) \<and> others_step (view w1) (view w') \<and>
        (\<forall>gs x. res = Inr gs \<longrightarrow> x \<in> set gs \<longrightarrow> xg_Name x = ConsumerGroup \<longrightarrow>
           (\<exists>g. main_group (view w1) = Some g \<and> xg_LastDeliveredID x = print_sid (last_delivered g)))) w"
    and xtrim: "ids_ok (view w) \<Longrightarrow> wp (XTrimMinID r key minid) (\<lambda>res w'.
      \<exists>w1 w2. others_step (view w) (view w1) \<and> others_step (view w2) (view w') \<and>
        ((\<exists>e. res = Inl e) \<and> view w2 = view w1 \<or>
         (\<exists>i. parseStreamID minid = Some i \<and> view w2 = trim_view key i (view w1)))) w"
begin

lemma trim_to:
  assumes ok: "ids_ok (view w)" and b: "sid64 b"
  shows "wp (XTrimMinID r key (print_sid b)) (\<lambda>_ w'.
    trim_result (\<lambda>e. sid_less (fst e) b) key (view w) (view w')) w"
proof (rule wp_mono [OF xtrim [OF ok]], clarify, goal_cases)
  case (1 res w' w1 w2)
  have "trim_result (\<lambda>e. sid_less (fst e) b) key (view w1) (view w2)"
    using 1(3) b by (auto simp: trim_result_def trim_view_def delivered_def pending_entry_def main_group_def)
  then show ?case
    using 1(1,2) trim_result_before trim_result_after by blast
qed

lemma TrimMain_from_result:
  assumes ok: "ids_ok (view w)" and den: "denotes m B" and d: "rdb d = r"
  shows "wp (TrimMain_from d m) (\<lambda>_ w'. trim_result
      (\<lambda>e. delivered (view w') (fst e) \<and> (\<forall>b. B = Some b \<longrightarrow> sid_less (fst e) b))
      StreamMain (view w) (view w')) w"
  unfolding TrimMain_from_def wp_bind d
proof (rule wp_mono [OF xinfo [OF ok]], elim exE conjE, goal_cases)
  case (1 res w2 w1)
  have others: "others_step (view w) (view w2)" by (rule others_step_trans [OF 1(1,2)])
  have ok1: "ids_ok (view w1)" using 1(1) ok by (simp add: others_step_def)
  have ok2: "ids_ok (view w2)" using others ok by (simp add: others_step_def)
  show ?case
  proof (cases "\<exists>gs b. res = Inr gs \<and> group_bound m gs = (b, True)")
    case True
    then obtain gs b where gs: "res = Inr gs" "group_bound m gs = (b, True)" by blast
    with 1(3) have names: "\<forall>x \<in> set gs. xg_Name x = ConsumerGroup \<longrightarrow>
        (\<exists>g. main_group (view w1) = Some g \<and> xg_LastDeliveredID x = print_sid (last_delivered g))"
      by blast
    obtain x where "x \<in> set gs" "xg_Name x = ConsumerGroup"
      using gs(2) group_bound_found [of m gs] by auto
    with names obtain g where g: "main_group (view w1) = Some g" by blast
    with ok1 have "sid64 (last_delivered g)" by (simp add: ids_ok_def)
    moreover have "\<forall>x \<in> set gs. xg_Name x = ConsumerGroup \<longrightarrow> xg_LastDeliveredID x = print_sid (last_delivered g)"
      using names g by auto
    ultimately obtain k where k: "b = print_sid k" "sid64 k"
      "\<And>j. sid_less j k \<Longrightarrow> sid_less j (sid_next (last_delivered g)) \<and> (\<forall>i. B = Some i \<longrightarrow> sid_less j i)"
      using group_bound_sound [OF den _ _ gs(2)] by metis
    have "trim_result (\<lambda>e. delivered (view w') (fst e) \<and> (\<forall>b. B = Some b \<longrightarrow> sid_less (fst e) b))
        StreamMain (view w) (view w')"
      if "trim_result (\<lambda>e. sid_less (fst e) k) StreamMain (view w2) (view w')" for w'
    proof -
      have "delivered (view w') (fst e)" if "e \<in> set (streams (view w2) StreamMain)" "sid_less (fst e) k" for e
      proof -
        have "\<not> sid_less (last_delivered g) (fst e)"
          using k(3) [OF that(2)] ok2 that(1) \<open>sid64 (last_delivered g)\<close>
          by (intro sid_less_next) (auto simp: ids_ok_def)
        then have "delivered (view w1) (fst e)" using g by (simp add: delivered_def)
        with 1(2) \<open>trim_result _ _ (view w2) (view w')\<close> show ?thesis
          by (simp add: others_step_def trim_result_def)
      qed
      with that k(3) have "trim_result (\<lambda>e. delivered (view w') (fst e) \<and> (\<forall>b. B = Some b \<longrightarrow> sid_less (fst e) b))
          StreamMain (view w2) (view w')"
        unfolding trim_result_def by blast
      with others show ?thesis by (rule trim_result_before)
    qed
    then show ?thesis
      by (simp add: gs k(1)) (rule wp_mono [OF trim_to [OF ok2 k(2)]], simp)
  next
    case False
    then show ?thesis
      using others by (auto split: sum.splits prod.splits simp: others_trim_result)
  qed
qed

end

text \<open>The bound after the first read, taken at \<open>w1\<close>.\<close>

lemma pending_bound_sound:
  assumes "case p of
       None \<Rightarrow> \<forall>i. \<not> pending_entry v i
     | Some p \<Rightarrow> (xp_Count p \<le> 0 \<or> xp_Lower p = []) \<and> (\<forall>i. \<not> pending_entry v i) \<or>
         (\<exists>lo. xp_Count p > 0 \<and> xp_Lower p = print_sid lo \<and> sid64 lo \<and>
            (\<forall>i. pending_entry v i \<longrightarrow> \<not> sid_less i lo))"
  shows "\<exists>B. denotes (pending_bound (minIDAt horizon) p) B \<and>
    (\<forall>i. (\<forall>b. B = Some b \<longrightarrow> sid_less i b) \<longrightarrow> \<not> pending_entry v i \<and>
       (0 \<le> UnixMilli horizon \<longrightarrow> UnixMilli horizon < 2 ^ 64 \<longrightarrow> int (fst i) < UnixMilli horizon))"
proof -
  obtain H where H: "denotes (minIDAt horizon) H"
    "0 \<le> UnixMilli horizon \<longrightarrow> UnixMilli horizon < 2 ^ 64 \<longrightarrow> H = Some (nat (UnixMilli horizon), 0)"
    using denotes_horizon by blast
  then have old: "0 \<le> UnixMilli horizon \<longrightarrow> UnixMilli horizon < 2 ^ 64 \<longrightarrow> int (fst i) < UnixMilli horizon"
    if "\<forall>b. H = Some b \<longrightarrow> sid_less i b" for i
    using that by (cases i) (auto simp: sid_less.simps)
  show ?thesis
  proof (cases "\<forall>i. \<not> pending_entry v i")
    case True
    show ?thesis
    proof (cases "pending_bound (minIDAt horizon) p = minIDAt horizon")
      case False
      then obtain q lo where "p = Some q" "xp_Lower q = print_sid lo" "sid64 lo" "xp_Count q > 0"
        using assms by (auto simp: pending_bound_def split: option.splits if_splits)
      then have "pending_bound (minIDAt horizon) p = minStreamID (minIDAt horizon) (print_sid lo)"
        using False by (auto simp: pending_bound_def split: if_splits)
      with denotes_min [OF H(1) \<open>sid64 lo\<close>] True old show ?thesis by metis
    qed (use H(1) True old in auto)
  next
    case False
    then obtain q lo where q: "p = Some q" "xp_Lower q = print_sid lo" "sid64 lo" "xp_Count q > 0"
      "\<forall>i. pending_entry v i \<longrightarrow> \<not> sid_less i lo"
      using assms by (auto split: option.splits)
    then have "pending_bound (minIDAt horizon) p = minStreamID (minIDAt horizon) (print_sid lo)"
      by (simp add: pending_bound_def print_sid_def)
    with denotes_min [OF H(1) \<open>sid64 lo\<close>] q(5) old show ?thesis by metis
  qed
qed

context trim_env
begin

lemma TrimMain_result:
  assumes ok: "ids_ok (view w)" and d: "rdb d = r"
  shows "wp (TrimMain d horizon) (\<lambda>_ w'. trim_result (\<lambda>e. delivered (view w') (fst e) \<and>
       (pending_entry (view w') (fst e) \<longrightarrow> \<not> delivered (view w) (fst e)) \<and>
       (0 \<le> UnixMilli horizon \<longrightarrow> UnixMilli horizon < 2 ^ 64 \<longrightarrow> int (fst (fst e)) < UnixMilli horizon))
     StreamMain (view w) (view w')) w"
  unfolding TrimMain_def Let_def wp_bind d
proof (rule wp_mono [OF xpending [OF ok]], elim exE conjE, goal_cases)
  case (1 res w2 w1)
  have others: "others_step (view w) (view w2)" by (rule others_step_trans [OF 1(1,2)])
  have ok2: "ids_ok (view w2)" using others ok by (simp add: others_step_def)
  have run: "wp (TrimMain_from d (pending_bound (minIDAt horizon) p)) (\<lambda>_ w'. trim_result (\<lambda>e. delivered (view w') (fst e) \<and>
       (pending_entry (view w') (fst e) \<longrightarrow> \<not> delivered (view w) (fst e)) \<and>
       (0 \<le> UnixMilli horizon \<longrightarrow> UnixMilli horizon < 2 ^ 64 \<longrightarrow> int (fst (fst e)) < UnixMilli horizon))
     StreamMain (view w) (view w')) w2"
    if p: "case p of None \<Rightarrow> \<forall>i. \<not> pending_entry (view w1) i
      | Some p \<Rightarrow> (xp_Count p \<le> 0 \<or> xp_Lower p = []) \<and> (\<forall>i. \<not> pending_entry (view w1) i) \<or>
         (\<exists>lo. xp_Count p > 0 \<and> xp_Lower p = print_sid lo \<and> sid64 lo \<and>
            (\<forall>i. pending_entry (view w1) i \<longrightarrow> \<not> sid_less i lo))" for p
  proof -
    obtain B where B: "denotes (pending_bound (minIDAt horizon) p) B"
      "\<forall>i. (\<forall>b. B = Some b \<longrightarrow> sid_less i b) \<longrightarrow> \<not> pending_entry (view w1) i \<and>
         (0 \<le> UnixMilli horizon \<longrightarrow> UnixMilli horizon < 2 ^ 64 \<longrightarrow> int (fst i) < UnixMilli horizon)"
      using pending_bound_sound [OF p, of horizon] by (elim exE conjE)
    show ?thesis
    proof (rule wp_mono [OF TrimMain_from_result [OF ok2 B(1) d]], goal_cases)
      case (1 _ w')
      let ?P = "\<lambda>e. delivered (view w') (fst e) \<and> (\<forall>b. B = Some b \<longrightarrow> sid_less (fst e) b)"
      have from1: "trim_result ?P StreamMain (view w1) (view w')"
        using \<open>others_step (view w1) (view w2)\<close> 1 by (rule trim_result_before)
      then have "trim_result ?P StreamMain (view w) (view w')"
        using \<open>others_step (view w) (view w1)\<close> trim_result_before by blast
      moreover have "\<not> delivered (view w) i" if "pending_entry (view w') i" "\<not> pending_entry (view w1) i" for i
        using from1 \<open>others_step (view w) (view w1)\<close> that unfolding trim_result_def others_step_def by blast
      ultimately show ?case
        using B(2) unfolding trim_result_def by blast
    qed
  qed
  show ?case
  proof (cases res)
    case (Inl e)
    then show ?thesis
      using 1(3) run [of None] others by (auto simp: others_trim_result)
  next
    case (Inr p)
    then show ?thesis using 1(4) run [of "Some p"] by simp
  qed
qed

lemma TrimStream_result:
  assumes ok: "ids_ok (view w)" and d: "rdb d = r" and hz: "0 \<le> UnixMilli horizon" "UnixMilli horizon < 2 ^ 64"
  shows "wp (TrimStream d stream horizon) (\<lambda>res w'.
    trim_result (\<lambda>e. int (fst (fst e)) < UnixMilli horizon) stream (view w) (view w')) w"
  unfolding TrimStream_def wp_bind wp_return minIDAt_print [OF hz(1)] d
proof (rule wp_mono [OF trim_to [OF ok]], goal_cases)
  case 1
  show ?case using hz by (auto simp: sid64_def)
next
  case (2 _ w')
  moreover have "int (fst i) < UnixMilli horizon" if "sid_less i (nat (UnixMilli horizon), 0)" for i
    using that hz by (cases i) (auto simp: sid_less.simps)
  ultimately show ?case by (auto simp: trim_result_def)
qed

end

section \<open>The reference server among other clients\<close>

text \<open>Before each command of the worker, the next action of the other clients takes effect.\<close>

datatype other_action =
    Deliver nat
  | Acknowledge "string list"
  | Append fields

fun other_apply :: "other_action \<Rightarrow> server \<Rightarrow> server" where
  "other_apply (Deliver n) s = snd (srv_XReadGroup ConsumerGroup StreamMain (int n) s)"
| "other_apply (Acknowledge ids) s = snd (srv_XAck StreamMain ConsumerGroup ids s)"
| "other_apply (Append vals) s = snd (srv_XAdd StreamMain vals s)"

definition interleave :: "(server, 'a) state \<Rightarrow> (server \<times> other_action list, 'a) state" where
  "interleave op = State (\<lambda>(s, acts).
     case acts of
       [] \<Rightarrow> (case run_state op s of (a, s') \<Rightarrow> (a, (s', [])))
     | act # acts \<Rightarrow> (case run_state op (other_apply act s) of (a, s') \<Rightarrow> (a, (s', acts))))"

definition shared_redis :: "(server \<times> other_action list) redis" where
  "shared_redis =
     \<lparr>XAdd = (\<lambda>key vals. interleave (XAdd server_redis key vals)),
      XReadGroup = (\<lambda>g co key count block. interleave (XReadGroup server_redis g co key count block)),
      XAck = (\<lambda>key g ids. interleave (XAck server_redis key g ids)),
      XAutoClaim = (\<lambda>key g co idle start count. interleave (XAutoClaim server_redis key g co idle start count)),
      XPending = (\<lambda>key g. interleave (XPending server_redis key g)),
      XInfoGroups = (\<lambda>key. interleave (XInfoGroups server_redis key)),
      XTrimMinID = (\<lambda>key minid. interleave (XTrimMinID server_redis key minid)),
      XGroupCreateMkStream = (\<lambda>key g start. interleave (XGroupCreateMkStream server_redis key g start)),
      TxPipeline_Exec = (\<lambda>cmds. interleave (TxPipeline_Exec server_redis cmds)),
      Cmd_Err = (\<lambda>cmd. interleave (Cmd_Err server_redis cmd)),
      ZRangeByScore = (\<lambda>key mx count. interleave (ZRangeByScore server_redis key mx count)),
      HMGet = (\<lambda>key fs. interleave (HMGet server_redis key fs)),
      ZRangeWithScores = (\<lambda>key a b. interleave (ZRangeWithScores server_redis key a b)),
      SetNX = (\<lambda>key v ttl. interleave (SetNX server_redis key v ttl)),
      lua_get = (\<lambda>key. interleave (lua_get server_redis key)),
      lua_pexpire = (\<lambda>key ms. interleave (lua_pexpire server_redis key ms)),
      lua_del = (\<lambda>key. interleave (lua_del server_redis key)),
      Eval = (\<lambda>script. do { x \<leftarrow> script; ret (Inr x) })\<rparr>"

definition shared_view :: "server \<times> other_action list \<Rightarrow> redis_view" where
  "shared_view w = server_view (fst w)"

lemma main_group_server: "main_group (server_view s) = map_of (srv_groups s StreamMain) ConsumerGroup"
  by (simp add: main_group_def server_view_def)

lemma map_of_update:
  "map_of (map (\<lambda>(n, x). (n, if n = g then f x else x)) xs) k =
     (if k = g then map_option f (map_of xs k) else map_of xs k)"
  by (induction xs) auto

lemma main_group_update:
  "main_group (server_view (srv_group_update StreamMain ConsumerGroup f s)) =
     map_option f (main_group (server_view s))"
  by (simp add: main_group_server srv_group_update_def map_of_update)

lemma streams_group_update [simp]:
  "streams (server_view (srv_group_update key g f s)) = streams (server_view s)"
  by (simp add: server_view_def srv_group_update_def)

text \<open>An update of the group alone is a step of other clients, under what it does to the group.\<close>

lemma others_step_group:
  assumes "streams v' = streams v" "main_group v = Some g" "main_group v' = Some g'"
    and "\<not> sid_less (last_delivered g') (last_delivered g)"
    and "\<And>i. i \<in> set (pel g') \<Longrightarrow> i \<in> set (pel g) \<or> sid_less (last_delivered g) i"
    and "ids_ok v \<Longrightarrow> sid64 (last_delivered g')" "\<And>i. ids_ok v \<Longrightarrow> i \<in> set (pel g') \<Longrightarrow> sid64 i"
  shows "others_step v v'"
proof -
  have "delivered v' i" if "delivered v i" for i
    using that assms(2,3) sid_not_less_trans [OF assms(4)] by (simp add: delivered_def)
  moreover have "pending_entry v i \<or> \<not> delivered v i" if "pending_entry v' i" for i
    using that assms(2,3,5) by (simp add: delivered_def pending_entry_def)
  moreover have "ids_ok v'" if "ids_ok v"
    using assms(6,7) [OF that] that assms(1,3) by (simp add: ids_ok_def)
  ultimately show ?thesis using assms(1) unfolding others_step_def by simp
qed

lemma group_update_step:
  assumes "\<And>g. main_group (server_view s) = Some g \<Longrightarrow>
      \<not> sid_less (last_delivered (f g)) (last_delivered g) \<and>
      (\<forall>i \<in> set (pel (f g)). (i \<in> set (pel g) \<or> sid_less (last_delivered g) i) \<and> (ids_ok (server_view s) \<longrightarrow> sid64 i)) \<and>
      (ids_ok (server_view s) \<longrightarrow> sid64 (last_delivered (f g)))"
  shows "others_step (server_view s) (server_view (srv_group_update StreamMain ConsumerGroup f s))"
proof (cases "main_group (server_view s)")
  case None
  then show ?thesis
    by (simp add: others_step_def delivered_def pending_entry_def main_group_update ids_ok_def)
next
  case (Some g)
  show ?thesis
    by (rule others_step_group [OF _ Some, where g' = "f g"]) (use assms [OF Some] Some in \<open>auto simp: main_group_update\<close>)
qed

lemma other_apply_step: "others_step (server_view s) (server_view (other_apply act s))"
proof (cases act)
  case (Deliver n)
  show ?thesis
  proof (cases "map_of (srv_groups s StreamMain) ConsumerGroup")
    case (Some g)
    let ?es = "take n (filter (\<lambda>e. sid_less (last_delivered g) (fst e)) (srv_streams s StreamMain))"
    show ?thesis
    proof (cases "?es = []")
      case False
      have new: "sid_less (last_delivered g) (fst e)" "e \<in> set (srv_streams s StreamMain)" if "e \<in> set ?es" for e
        using that by (auto dest: in_set_takeD)
      have "others_step (server_view s) (server_view (srv_group_update StreamMain ConsumerGroup
          (\<lambda>x. x\<lparr>last_delivered := fst (last ?es), pel := pel x @ map fst ?es\<rparr>) s))"
      proof (rule group_update_step, goal_cases)
        case (1 x)
        then have x: "x = g" using Some by (simp add: main_group_server)
        have new_ok: "sid_less (last_delivered g) (fst e) \<and> (ids_ok (server_view s) \<longrightarrow> sid64 (fst e))"
          if "e \<in> set ?es" for e
          using new [OF that] by (auto simp: ids_ok_def server_view_def)
        have old_ok: "ids_ok (server_view s) \<longrightarrow> sid64 i" if "i \<in> set (pel g)" for i
          using 1 x that by (auto simp: ids_ok_def)
        have "(i \<in> set (pel g) \<or> sid_less (last_delivered g) i) \<and> (ids_ok (server_view s) \<longrightarrow> sid64 i)"
          if "i \<in> set (pel g @ map fst ?es)" for i
          using that new_ok old_ok unfolding set_append set_map by blast
        with new_ok [OF last_in_set [OF False]] show ?case
          unfolding x by (auto dest: sid_less_asym)
      qed
      with Some False Deliver show ?thesis
        by (simp add: srv_XReadGroup_def Let_def)
    qed (use Some Deliver in \<open>simp add: srv_XReadGroup_def Let_def\<close>)
  qed (use Deliver in \<open>simp add: srv_XReadGroup_def\<close>)
next
  case (Acknowledge ids)
  have "others_step (server_view s) (server_view (srv_group_update StreamMain ConsumerGroup
      (\<lambda>x. x\<lparr>pel := filter (\<lambda>i. print_sid i \<notin> set ids) (pel x)\<rparr>) s))"
    by (rule group_update_step) (auto simp: ids_ok_def)
  with Acknowledge show ?thesis by (simp add: srv_XAck_def)
next
  case (Append vals)
  then show ?thesis
    by (auto simp: others_step_def srv_XAdd_def Let_def delivered_def pending_entry_def main_group_def
        server_view_def ids_ok_def sid64_def)
qed

lemma wp_interleave:
  assumes "\<And>s acts. others_step (server_view (fst w)) (server_view s) \<Longrightarrow> wp op (\<lambda>a s'. Q a (s', acts)) s"
  shows "wp (interleave op) Q w"
proof (cases w)
  case (Pair s acts)
  show ?thesis
  proof (cases acts)
    case Nil
    with assms [of s "[]"] Pair show ?thesis
      by (simp add: wp_def interleave_def split: prod.splits)
  next
    case (Cons act acts')
    with assms [of "other_apply act s" acts'] Pair other_apply_step show ?thesis
      by (simp add: wp_def interleave_def split: prod.splits)
  qed
qed

text \<open>The smallest pending ID, as the server reports it.\<close>

lemma lowest_in: "lowest i is \<in> set (i # is)"
  by (induction "is") (auto simp: lowest_def)

lemma lowest_least: "j \<in> set (i # is) \<Longrightarrow> \<not> sid_less j (lowest i is)"
proof (induction "is")
  case (Cons a "is")
  have step: "lowest i (a # is) = (if sid_less a (lowest i is) then a else lowest i is)"
    by (simp add: lowest_def)
  show ?case
  proof (cases "j = a")
    case False
    then have "\<not> sid_less j (lowest i is)" using Cons by auto
    then show ?thesis unfolding step using sid_less_trans [of j a "lowest i is"] by (auto split: if_splits)
  qed (simp add: step)
qed (simp add: lowest_def)

lemma server_xpending:
  assumes "ids_ok (server_view s)"
  shows "wp (XPending server_redis StreamMain ConsumerGroup) (\<lambda>res s'.
      server_view s' = server_view s \<and> (\<forall>e. res = Inl e \<longrightarrow> \<not> errors_Is (Some e) RedisNilE) \<and>
      (\<forall>p. res = Inr p \<longrightarrow>
           (xp_Count p \<le> 0 \<or> xp_Lower p = []) \<and> (\<forall>i. \<not> pending_entry (server_view s) i) \<or>
           (\<exists>lo. xp_Count p > 0 \<and> xp_Lower p = print_sid lo \<and> sid64 lo \<and>
              (\<forall>i. pending_entry (server_view s) i \<longrightarrow> \<not> sid_less i lo)))) s"
  unfolding server_redis_def redis.simps
proof (rule wp_faulty, goal_cases)
  case (1 fs)
  show ?case
  proof (cases "map_of (srv_groups s StreamMain) ConsumerGroup")
    case None
    then show ?thesis by (simp add: srv_XPending_def errors_Is_def)
  next
    case (Some g)
    then have g: "main_group (server_view s) = Some g" by (simp add: main_group_server)
    show ?thesis
    proof (cases "pel g")
      case Nil
      with Some g show ?thesis by (simp add: srv_XPending_def errors_Is_def pending_entry_def)
    next
      case (Cons i "is")
      have "lowest i (pel g) \<in> set (pel g)" using lowest_in [of i "pel g"] Cons by auto
      then have "sid64 (lowest i (pel g))" using assms g by (auto simp: ids_ok_def)
      have "\<not> sid_less j (lowest i (pel g))" if "pending_entry (server_view s) j" for j
        using that g by (intro lowest_least) (simp add: pending_entry_def)
      with \<open>sid64 (lowest i (pel g))\<close> have "\<exists>lo. print_sid (lowest i (pel g)) = print_sid lo \<and> sid64 lo \<and>
          (\<forall>j. pending_entry (server_view s) j \<longrightarrow> \<not> sid_less j lo)"
        by blast
      with Some Cons show ?thesis by (simp add: srv_XPending_def errors_Is_def)
    qed
  qed
qed (simp add: errors_Is_def)

lemma server_xinfo:
  "wp (XInfoGroups server_redis StreamMain) (\<lambda>res s'. server_view s' = server_view s \<and>
      (\<forall>gs x. res = Inr gs \<longrightarrow> x \<in> set gs \<longrightarrow> xg_Name x = ConsumerGroup \<longrightarrow>
         (\<exists>g. main_group (server_view s) = Some g \<and> xg_LastDeliveredID x = print_sid (last_delivered g)))) s"
  unfolding server_redis_def redis.simps
proof (rule wp_faulty, goal_cases)
  case (1 fs)
  have "map_of (srv_groups s StreamMain) n = Some (the (map_of (srv_groups s StreamMain) n))"
    if "(n, x) \<in> set (srv_groups s StreamMain)" for n x
    using weak_map_of_SomeI [OF that] by auto
  then show ?case
    by (auto simp: srv_XInfoGroups_def main_group_server split: prod.splits) blast+
qed simp

lemma srv_parse_sid: "srv_parse_sid str = parseStreamID str"
  by (auto simp: srv_parse_sid_def parseStreamID_def ParseUint_def is_digit_def digits_val_def digit_val_def
      split: prod.splits option.splits)

lemma server_xtrim:
  "wp (XTrimMinID server_redis key minid) (\<lambda>res s'. (\<exists>e. res = Inl e) \<and> server_view s' = server_view s \<or>
      (\<exists>i. parseStreamID minid = Some i \<and> server_view s' = trim_view key i (server_view s))) s"
  unfolding server_redis_def redis.simps
  by (rule wp_faulty)
    (auto simp: srv_XTrimMinID_def srv_parse_sid Let_def trim_view_def server_view_def split: option.splits)

interpretation shared: trim_env shared_redis shared_view
proof (unfold_locales, goal_cases)
  case (1 w)
  show ?case
    unfolding shared_redis_def redis.simps
  proof (rule wp_interleave, goal_cases)
    case (1 s acts)
    then have "ids_ok (server_view s)" using \<open>ids_ok (shared_view w)\<close> by (simp add: others_step_def shared_view_def)
    then show ?case
      by (rule wp_mono [OF server_xpending]) (rule exI [of _ "(s, acts)"], use 1 in \<open>simp add: shared_view_def\<close>)
  qed
next
  case (2 w)
  show ?case
    unfolding shared_redis_def redis.simps
  proof (rule wp_interleave, goal_cases)
    case (1 s acts)
    show ?case
      by (rule wp_mono [OF server_xinfo]) (rule exI [of _ "(s, acts)"], use 1 in \<open>simp add: shared_view_def\<close>)
  qed
next
  case (3 w key minid)
  show ?case
    unfolding shared_redis_def redis.simps
  proof (rule wp_interleave, goal_cases)
    case (1 s acts)
    show ?case
    proof (rule wp_mono [OF server_xtrim], goal_cases)
      case (1 res s')
      with \<open>others_step _ (server_view s)\<close> show ?case
        by (intro exI [of _ "(s, acts)"] exI [of _ "(s', acts)"]) (auto simp: shared_view_def)
    qed
  qed
qed

section \<open>Properties\<close>

text \<open>
  C18. Trimming the main stream among other clients. On any Redis whose other clients add, deliver and
  acknowledge entries at any moment between the three commands of \<open>TrimMain\<close>, and whichever of these
  commands fail: an entry that the call removes had been delivered to the group, is older than the
  horizon (for horizons that stream IDs can express), and is not pending, unless it had not yet been delivered
  when the call began.
\<close>

theorem TrimMain_ack_safe:
  assumes "trim_env r view" "rdb d = r" "ids_ok (view w)"
  shows "wp (TrimMain d horizon) (\<lambda>_ w'.
    \<forall>e \<in> set (streams (view w) StreamMain) - set (streams (view w') StreamMain).
      delivered (view w') (fst e) \<and>
      (pending_entry (view w') (fst e) \<longrightarrow> \<not> delivered (view w) (fst e)) \<and>
      (0 \<le> UnixMilli horizon \<longrightarrow> UnixMilli horizon < 2 ^ 64 \<longrightarrow> int (fst (fst e)) < UnixMilli horizon)) w"
  by (rule wp_mono [OF trim_env.TrimMain_result [OF assms(1,3,2)]]) (simp add: trim_result_def)

text \<open>A stream with an entry that is done, one that is pending and one that is not delivered, all old.\<close>

definition trim_server :: server where
  "trim_server = empty_server
     \<lparr>srv_streams := (\<lambda>_. [])(StreamMain := [((1, 0), []), ((2, 0), []), ((3, 0), [])]),
      srv_groups := (\<lambda>_. [])(StreamMain := [(ConsumerGroup, \<lparr>last_delivered = (2, 0), pel = [(2, 0)]\<rparr>)])\<rparr>"

definition shared_driver :: "(server \<times> other_action list) redis_driver" where
  "shared_driver = \<lparr>rdb = shared_redis, consumer = ''worker-1''\<rparr>"

lemma trim_server_ids_ok: "ids_ok (shared_view (trim_server, acts))"
  by (simp add: shared_view_def ids_ok_def main_group_server sid64_def)
    (simp add: trim_server_def server_view_def empty_server_def)

theorem TrimMain_ack_safe_witness:
  "case run_state (TrimMain shared_driver (100 * Millisecond)) (trim_server, []) of
     (res, w') \<Rightarrow> res = Inr 1 \<and> map fst (srv_streams (fst w') StreamMain) = [(2, 0), (3, 0)] \<and>
       delivered (shared_view w') (1, 0)"
proof -
  let ?m = "TrimMain shared_driver (100 * Millisecond)"
  obtain res w' where run: "run_state ?m (trim_server, []) = (res, w')" by fastforce
  have "fst (run_state ?m (trim_server, [])) = Inr 1"
    "map fst (srv_streams (fst (snd (run_state ?m (trim_server, [])))) StreamMain) = [(2, 0), (3, 0)]"
    by code_simp+
  then have res: "res = Inr 1" "map fst (srv_streams (fst w') StreamMain) = [(2, 0), (3, 0)]"
    by (simp_all add: run)
  have "wp ?m (\<lambda>_ w'. \<forall>e \<in> set (streams (shared_view (trim_server, [])) StreamMain) -
      set (streams (shared_view w') StreamMain). delivered (shared_view w') (fst e)) (trim_server, [])"
    by (rule wp_mono [OF TrimMain_ack_safe [OF shared.trim_env_axioms _ trim_server_ids_ok]])
      (simp_all add: shared_driver_def)
  from wp_run [OF this run] have "\<forall>e \<in> set (srv_streams trim_server StreamMain) -
      set (srv_streams (fst w') StreamMain). delivered (shared_view w') (fst e)"
    by (simp add: shared_view_def server_view_def)
  moreover have "((1, 0), []) \<in> set (srv_streams trim_server StreamMain)"
    by (simp add: trim_server_def)
  moreover have "((1, 0), []) \<notin> set (srv_streams (fst w') StreamMain)"
  proof
    assume "((1, 0), []) \<in> set (srv_streams (fst w') StreamMain)"
    then have "fst ((1, 0), [] :: fields) \<in> set (map fst (srv_streams (fst w') StreamMain))" by force
    then show False unfolding res by simp
  qed
  ultimately show ?thesis using run res by force
qed

text \<open>
  C39. The exception in that guarantee is real, and general. \<open>TrimMain\<close> reads the oldest pending entry and the last delivered ID with two commands, and what
  is delivered in between is covered by neither bound. On any stream in ID order with nothing pending, when other workers are delivered entries between the two
  reads, all of them older than the horizon, the call removes every one of them from the stream while it is pending and unacknowledged: the comment that such an
  entry is never trimmed, no matter how old, does not hold.
\<close>

theorem TrimMain_race:
  assumes "srv_faults s = []" "srv_groups s StreamMain = [(ConsumerGroup, g)]" "pel g = []"
    and ok: "ids_ok (server_view s)" and order: "sorted_wrt (\<lambda>a b. sid_less (fst a) (fst b)) (srv_streams s StreamMain)"
    and new: "new = take n (filter (\<lambda>e. sid_less (last_delivered g) (fst e)) (srv_streams s StreamMain))"
    and old: "\<forall>e \<in> set new. int (fst (fst e)) < UnixMilli horizon" "UnixMilli horizon < 2 ^ 64"
    and run: "run_state (TrimMain shared_driver horizon) (s, [Deliver 0, Deliver n]) = (res, w')"
  shows "\<forall>e \<in> set new. e \<notin> set (streams (shared_view w') StreamMain) \<and> pending_entry (shared_view w') (fst e)"
proof (cases "new = []")
  case False
  define l where "l = fst (last new)"
  have new_in: "e \<in> set (srv_streams s StreamMain)" if "e \<in> set new" for e
    using that unfolding new by (auto dest: in_set_takeD)
  have sid: "sid64 (fst e)" if "e \<in> set new" for e
    using ok new_in [OF that] by (auto simp: ids_ok_def server_view_def)
  have last: "last new \<in> set new" using False by simp
  define h where "h = (nat (UnixMilli horizon), 0 :: nat)"
  have h: "minIDAt horizon = print_sid h" "sid64 h"
    using old last by (auto simp: h_def minIDAt_print sid64_def)
  have "sorted_wrt (\<lambda>a b. sid_less (fst a) (fst b)) new"
    unfolding new by (rule sorted_wrt_take) (rule sorted_wrt_filter [OF order])
  then have upto: "\<not> sid_less l (fst e)" if "e \<in> set new" for e
    using that False unfolding l_def
    by (induction new rule: rev_induct) (auto simp: sorted_wrt_append dest: sid_less_asym)
  have below: "sid_less (fst e) (sid_min h (sid_next l))" if "e \<in> set new" for e
  proof -
    have "sid_less (fst e) h" using that old by (cases "fst e") (auto simp: h_def sid_less.simps)
    moreover have "int (fst l) < UnixMilli horizon" using old(1) last by (simp add: l_def)
    then have "Suc (fst l) < 2 ^ 64" using old(2) by simp
    then have "sid_less (fst e) (sid_next l)"
      using upto [OF that] sid [OF that]
      by (cases "fst e"; cases l) (auto simp: sid_next_def sid_less.simps sid64_def)
    ultimately show ?thesis by (simp add: sid_less_min)
  qed
  let ?g = "g\<lparr>last_delivered := l, pel := map fst new\<rparr>"
  let ?s = "s\<lparr>srv_groups := (srv_groups s)(StreamMain := [(ConsumerGroup, ?g)])\<rparr>"
  have deliver: "other_apply (Deliver 0) s = s" "other_apply (Deliver n) s = ?s"
    using assms(2,3) False by (auto simp: srv_XReadGroup_def srv_group_update_def new [symmetric] l_def Let_def)
  have bound: "minStreamID (print_sid h) (nextStreamID (print_sid l)) = print_sid (sid_min h (sid_next l))"
    using h(2) sid [OF last] by (simp add: l_def nextStreamID_print minStreamID_print)
  have "w' = (?s\<lparr>srv_streams := (srv_streams s)(StreamMain :=
      filter (\<lambda>e. \<not> sid_less (fst e) (sid_min h (sid_next l))) (srv_streams s StreamMain))\<rparr>, [])"
    using run assms(1-3) deliver h sid [OF last]
    by (auto simp: TrimMain_def TrimMain_from_def Let_def run_state_bind shared_driver_def shared_redis_def interleave_def
        server_redis_def faulty_def srv_XPending_def srv_XInfoGroups_def srv_XTrimMinID_def pending_bound_def group_bound_def
        bound srv_parse_sid l_def [symmetric] simp del: other_apply.simps)
  with below show ?thesis
    by (auto simp: shared_view_def server_view_def pending_entry_def main_group_def)
qed simp

text \<open>Two old entries, of which the first is done and the second waits.\<close>

definition raced_server :: server where
  "raced_server = trim_server\<lparr>srv_streams := (\<lambda>_. [])(StreamMain := [((2, 0), []), ((3, 0), [])]),
     srv_groups := (\<lambda>_. [])(StreamMain := [(ConsumerGroup, \<lparr>last_delivered = (2, 0), pel = []\<rparr>)])\<rparr>"

theorem TrimMain_race_witness:
  "\<exists>res w'. run_state (TrimMain shared_driver (100 * Millisecond)) (raced_server, [Deliver 0, Deliver 1]) = (res, w') \<and>
     ((3, 0), []) \<notin> set (streams (shared_view w') StreamMain) \<and> pending_entry (shared_view w') (3, 0)"
proof -
  let ?new = "take 1 (filter (\<lambda>e. sid_less (2, 0) (fst e)) (srv_streams raced_server StreamMain))"
  obtain res w' where run: "run_state (TrimMain shared_driver (100 * Millisecond)) (raced_server, [Deliver 0, Deliver 1]) = (res, w')"
    by fastforce
  have new: "?new = [((3, 0), [])]" by code_simp
  have horizon: "UnixMilli (100 * Millisecond) = 100" by code_simp
  have race: "\<forall>e \<in> set ?new. e \<notin> set (streams (shared_view w') StreamMain) \<and> pending_entry (shared_view w') (fst e)"
    by (rule TrimMain_race [OF _ _ _ _ _ _ _ _ run, where g = "\<lparr>last_delivered = (2, 0), pel = []\<rparr>"])
      (simp_all add: new horizon,
       simp_all add: raced_server_def trim_server_def empty_server_def ids_ok_def main_group_def server_view_def sid64_def sid_less.simps)
  from race [unfolded new] run show ?thesis by auto
qed

text \<open>
  Retention of the other streams. For a horizon that stream IDs can express, \<open>TrimStream\<close> removes no
  entry at or after the horizon, whatever other clients do meanwhile, and leaves what the group has been
  delivered as it is.
\<close>

theorem TrimStream_keeps_recent:
  assumes "trim_env r view" "rdb d = r" "ids_ok (view w)" "0 \<le> UnixMilli horizon" "UnixMilli horizon < 2 ^ 64"
  shows "wp (TrimStream d stream horizon) (\<lambda>_ w'.
    (\<forall>e \<in> set (streams (view w) stream). UnixMilli horizon \<le> int (fst (fst e)) \<longrightarrow> e \<in> set (streams (view w') stream)) \<and>
    (\<forall>i. delivered (view w) i \<longrightarrow> delivered (view w') i)) w"
  by (rule wp_mono [OF trim_env.TrimStream_result [OF assms(1,3,2,4,5)]]) (force simp: trim_result_def)

theorem TrimStream_keeps_recent_witness:
  "case run_state (TrimStream shared_driver StreamMain (2 * Millisecond)) (trim_server, []) of
     (res, w') \<Rightarrow> res = Inr 1 \<and> ((2, 0), []) \<in> set (srv_streams (fst w') StreamMain)"
proof -
  let ?m = "TrimStream shared_driver StreamMain (2 * Millisecond)"
  have "wp ?m (\<lambda>_ w'. \<forall>e \<in> set (streams (shared_view (trim_server, [])) StreamMain).
      UnixMilli (2 * Millisecond) \<le> int (fst (fst e)) \<longrightarrow> e \<in> set (streams (shared_view w') StreamMain)) (trim_server, [])"
    by (rule wp_mono [OF TrimStream_keeps_recent [OF shared.trim_env_axioms _ trim_server_ids_ok]])
      (simp_all add: shared_driver_def UnixMilli_def Millisecond_def)
  then have "wp ?m (\<lambda>_ w'. ((2, 0), []) \<in> set (srv_streams (fst w') StreamMain)) (trim_server, [])"
    by (rule wp_mono)
      (simp add: shared_view_def server_view_def trim_server_def UnixMilli_def Millisecond_def)
  moreover have "fst (run_state ?m (trim_server, [])) = Inr 1"
    by code_simp
  ultimately show ?thesis by (auto simp: wp_def split: prod.splits)
qed

text \<open>
  The stream ID arithmetic: printing and parsing an ID round-trips; \<open>minStreamID\<close> of two IDs is the
  smaller of them; and \<open>nextStreamID\<close> of any ID but the last is the smallest ID above it, across the
  overflow of the sequence number.
\<close>

theorem stream_id_arithmetic:
  assumes "sid64 i" "sid64 j"
  shows "parseStreamID (print_sid i) = Some i \<and>
    (\<exists>k. parseStreamID (minStreamID (print_sid i) (print_sid j)) = Some k \<and> k \<in> {i, j} \<and>
       \<not> sid_less i k \<and> \<not> sid_less j k) \<and>
    (i \<noteq> (2 ^ 64 - 1, 2 ^ 64 - 1) \<longrightarrow>
      (\<exists>n. parseStreamID (nextStreamID (print_sid i)) = Some n \<and> sid_less i n \<and> (sid_less i j \<longrightarrow> \<not> sid_less j n)))"
proof (intro conjI impI)
  show "parseStreamID (print_sid i) = Some i" using assms by simp
  show "\<exists>k. parseStreamID (minStreamID (print_sid i) (print_sid j)) = Some k \<and> k \<in> {i, j} \<and>
      \<not> sid_less i k \<and> \<not> sid_less j k"
    using assms by (intro exI [of _ "sid_min i j"])
      (auto simp: minStreamID_print sid_min_def dest: sid_less_asym)
  assume "i \<noteq> (2 ^ 64 - 1, 2 ^ 64 - 1)"
  then have "sid_less i (sid_next i)"
    using assms(1) by (cases i) (auto simp: sid_next_def sid_less.simps sid64_def)
  then show "\<exists>n. parseStreamID (nextStreamID (print_sid i)) = Some n \<and> sid_less i n \<and> (sid_less i j \<longrightarrow> \<not> sid_less j n)"
    using assms sid_next_least by (intro exI [of _ "sid_next i"]) (simp add: nextStreamID_print)
qed

theorem stream_id_arithmetic_witness:
  "parseStreamID (nextStreamID ''7-18446744073709551615'') = Some (8, 0) \<and>
   (\<exists>n. parseStreamID (nextStreamID (print_sid (7, 2 ^ 64 - 1))) = Some n \<and> sid_less (7, 2 ^ 64 - 1) n)"
proof
  show "parseStreamID (nextStreamID ''7-18446744073709551615'') = Some (8, 0)"
    by code_simp
  have "sid64 (7, 2 ^ 64 - 1)" by (simp add: sid64_def)
  from stream_id_arithmetic [OF this this]
  show "\<exists>n. parseStreamID (nextStreamID (print_sid (7, 2 ^ 64 - 1))) = Some n \<and> sid_less (7, 2 ^ 64 - 1) n"
    by auto
qed

end
