(* ===== verification/Delivery.thy ===== *)
theory Delivery
  imports Worker_Rule Observed Dispatcher Trim
begin

text \<open>
  What one message of the processor does to the jobs in the queue. A job is a deployment that waits for its export; it is kept in Redis, as an entry
  of the main stream that is not acknowledged or as an envelope of the retry store. \<open>queue_redis\<close> states what the driver relies on of
  Redis; \<open>Handle_conserves\<close> shows on every such Redis that \<open>Handle\<close> loses no job: the job of the acknowledged message is
  finished, or it is in the retry store.
\<close>

declare split_paired_All [simp del] split_paired_Ex [simp del]

section \<open>Jobs\<close>

text \<open>The deployment a payload is about, as the processor reads it.\<close>

definition job_of :: "event_lib \<Rightarrow> string \<Rightarrow> string" where
  "job_of l payload =
     (case ParseEvent l payload of Inr ev \<Rightarrow> ev_DeploymentID ev | Inl _ \<Rightarrow> Unmarshal_deploymentID l payload)"

text \<open>The message that an entry of the main stream is delivered as.\<close>

definition entry_msg :: "stream_id \<times> fields \<Rightarrow> message" where
  "entry_msg e = fromXMessage \<lparr>xm_ID = print_sid (fst e), xm_Values = snd e\<rparr>"

text \<open>
  An entry waits as long as it is in the stream and not delivered, or delivered and not acknowledged. A job is alive while an
  entry for it waits or the retry store holds an envelope for it.
\<close>

definition waiting :: "redis_view \<Rightarrow> stream_id \<times> fields \<Rightarrow> bool" where
  "waiting v e \<longleftrightarrow> e \<in> set (streams v StreamMain) \<and> (delivered v (fst e) \<longrightarrow> pending_entry v (fst e))"

definition alive :: "event_lib \<Rightarrow> env_codec \<Rightarrow> redis_view \<Rightarrow> string \<Rightarrow> bool" where
  "alive l c v dep \<longleftrightarrow> (\<exists>e. waiting v e \<and> job_of l (msg_Payload (entry_msg e)) = dep) \<or>
     (\<exists>i env. redis_held c v i = Some env \<and> job_of l (env_Payload env) = dep)"

text \<open>The outcomes that end a job; the others leave it alive.\<close>

definition finished :: "outcome set" where
  "finished = {OutcomeSuccess, OutcomeDryRun, OutcomeAckedTerminal, OutcomeDLQ, OutcomeFailedTerminal, OutcomeStopSafe}"

section \<open>What a run says\<close>

text \<open>From the specification of a run: which job a scheduled retry is for, and what the outcome has handed over.\<close>

lemma failure_job: "failure_run b msg ev dep rec trace ce out cs \<Longrightarrow> ScheduleC env r \<in> set cs \<Longrightarrow> env_DeploymentID env = dep"
  by (drule (1) failure_run_calls) (auto simp: failure_call_def envelope_of_def)

lemma export_job: "export_run b msg ev rec trace out cs \<Longrightarrow> ScheduleC env r \<in> set cs \<Longrightarrow> env_DeploymentID env = ev_DeploymentID ev"
  by (erule export_run.cases) (auto dest: failure_job)

lemma locked_job: "locked_run b dry msg ev rec trace out cs \<Longrightarrow> ScheduleC env r \<in> set cs \<Longrightarrow> env_DeploymentID env = ev_DeploymentID ev"
  by (erule locked_run.cases) (auto dest: failure_job export_job simp: start_call_def)

lemma scheduled_job:
  "handle_run l b dry reemits msg out cs \<Longrightarrow> ScheduleC env r \<in> set cs \<Longrightarrow> env_DeploymentID env = job_of l (msg_Payload msg)"
  by (erule handle_run.cases) (auto dest: failure_job locked_job simp: job_of_def)

lemma failure_handed_over:
  "failure_run b msg ev dep rec trace ce out cs \<Longrightarrow>
   (out = OutcomeRetryScheduled \<longrightarrow> (\<exists>env. ScheduleC env None \<in> set cs)) \<and>
   (out = OutcomeDLQ \<longrightarrow> (\<exists>e. DLQC e None \<in> set cs \<and> dlq_Payload e = msg_Payload msg))"
  by (erule failure_run.cases) (auto simp: dead_letter_of_def)

lemma export_handed_over:
  "export_run b msg ev rec trace out cs \<Longrightarrow>
   (out = OutcomeRetryScheduled \<longrightarrow> (\<exists>env. ScheduleC env None \<in> set cs)) \<and>
   (out = OutcomeDLQ \<longrightarrow> (\<exists>e. DLQC e None \<in> set cs \<and> dlq_Payload e = msg_Payload msg))"
  by (erule export_run.cases) (auto dest: failure_handed_over)

lemma locked_handed_over:
  "locked_run b dry msg ev rec trace out cs \<Longrightarrow>
   (out = OutcomeRetryScheduled \<longrightarrow> (\<exists>env. ScheduleC env None \<in> set cs)) \<and>
   (out = OutcomeDLQ \<longrightarrow> (\<exists>e. DLQC e None \<in> set cs \<and> dlq_Payload e = msg_Payload msg))"
  by (erule locked_run.cases) (auto dest: failure_handed_over export_handed_over)

lemma handed_over:
  "handle_run l b dry reemits msg out cs \<Longrightarrow>
   (out = OutcomeRetryScheduled \<longrightarrow> (\<exists>env. ScheduleC env None \<in> set cs)) \<and>
   (out = OutcomeDLQ \<longrightarrow> (\<exists>e. DLQC e None \<in> set cs \<and> dlq_Payload e = msg_Payload msg))"
  by (erule handle_run.cases) (auto dest: failure_handed_over locked_handed_over simp: dead_letter_of_def)

lemma acked_ids: "handle_run l b dry reemits msg out cs \<Longrightarrow> ids \<in> set (acks cs) \<Longrightarrow> ids = [msg_ID msg]"
  by (drule handle_one_ack) (auto simp: one_ack_def)

lemma acked_outcome: "handle_run l b dry reemits msg out cs \<Longrightarrow> acks cs \<noteq> [] \<Longrightarrow> out \<in> insert OutcomeRetryScheduled finished"
  by (frule handle_acks) (auto simp: finished_def acking_def split: if_splits)

section \<open>The queue\<close>

text \<open>A main stream with increasing 64-bit IDs and with its group, and what delivery and acknowledgement do to the group.\<close>

definition group_ok :: "redis_view \<Rightarrow> bool" where
  "group_ok v \<longleftrightarrow> (\<exists>g. main_group v = Some g \<and> (\<forall>i \<in> set (pel g). \<not> sid_less (last_delivered g) i))"

definition queue_ok :: "redis_view \<Rightarrow> bool" where
  "queue_ok v \<longleftrightarrow> ids_ok v \<and> group_ok v \<and> sorted_wrt sid_less (map fst (streams v StreamMain))"

lemma group_ok_cong: "main_group v' = main_group v \<Longrightarrow> group_ok v' = group_ok v"
  by (simp add: group_ok_def)

lemma pending_delivered: "queue_ok v \<Longrightarrow> pending_entry v i \<Longrightarrow> delivered v i"
  by (auto simp: queue_ok_def group_ok_def pending_entry_def delivered_def)

definition undelivered :: "redis_view \<Rightarrow> (stream_id \<times> fields) list" where
  "undelivered v = filter (\<lambda>e. \<not> delivered v (fst e)) (streams v StreamMain)"

definition set_group :: "(consumer_group \<Rightarrow> consumer_group) \<Rightarrow> redis_view \<Rightarrow> redis_view" where
  "set_group f v = v\<lparr>groups := (groups v)(StreamMain := (groups v StreamMain)(ConsumerGroup := map_option f (main_group v)))\<rparr>"

definition deliver_view :: "(stream_id \<times> fields) list \<Rightarrow> redis_view \<Rightarrow> redis_view" where
  "deliver_view es = set_group (\<lambda>g. g\<lparr>last_delivered := fst (last es), pel := pel g @ map fst es\<rparr>)"

definition drop_view :: "(stream_id \<Rightarrow> bool) \<Rightarrow> redis_view \<Rightarrow> redis_view" where
  "drop_view gone = set_group (\<lambda>g. g\<lparr>pel := filter (\<lambda>i. \<not> gone i) (pel g)\<rparr>)"

lemma set_group_simps [simp]:
  "main_group (set_group f v) = map_option f (main_group v)" "streams (set_group f v) = streams v"
  "zsets (set_group f v) = zsets v" "hashes (set_group f v) = hashes v"
  by (simp_all add: set_group_def main_group_def)

lemma drop_view_simps [simp]:
  "delivered (drop_view gone v) = delivered v" "streams (drop_view gone v) = streams v"
  "zsets (drop_view gone v) = zsets v" "hashes (drop_view gone v) = hashes v"
  "pending_entry (drop_view gone v) i \<longleftrightarrow> pending_entry v i \<and> \<not> gone i"
  by (auto simp: drop_view_def delivered_def pending_entry_def fun_eq_iff)

lemma queue_ok_drop [simp]: "queue_ok v \<Longrightarrow> queue_ok (drop_view gone v)"
  by (auto simp: queue_ok_def group_ok_def ids_ok_def drop_view_def)

lemma sorted_ids_distinct: "sorted_wrt sid_less xs \<Longrightarrow> distinct xs"
  by (induction xs) auto

lemma queue_ok_unique:
  assumes "queue_ok v" "e \<in> set (streams v StreamMain)" "e' \<in> set (streams v StreamMain)" "fst e = fst e'"
  shows "e = e'"
proof -
  have "distinct (map fst (streams v StreamMain))"
    using assms(1) sorted_ids_distinct by (auto simp: queue_ok_def)
  with assms(2-4) show ?thesis by (auto simp: distinct_map inj_on_def)
qed

lemma deliver_waiting:
  assumes "queue_ok v" "prefix es (undelivered v)" "es \<noteq> []"
  shows "queue_ok (deliver_view es v)" "waiting v e \<Longrightarrow> waiting (deliver_view es v) e"
    "e \<in> set es \<Longrightarrow> e \<in> set (streams v StreamMain)"
proof -
  let ?u = "undelivered v" and ?v = "deliver_view es v"
  have sorted: "sorted_wrt sid_less (map fst ?u)"
    using assms(1) by (auto simp: queue_ok_def undelivered_def sorted_wrt_map intro: sorted_wrt_filter)
  obtain zs where u: "?u = es @ zs" using assms(2) by (auto simp: prefix_def)
  have es: "e \<in> set (streams v StreamMain)" if "e \<in> set es" for e
    using that u by (metis Un_iff filter_is_subset set_append subsetD undelivered_def)
  then show "e \<in> set es \<Longrightarrow> e \<in> set (streams v StreamMain)" .
  have last: "last es \<in> set es" using assms(3) by simp
  have es64: "\<forall>i \<in> set (map fst es). sid64 i"
    using assms(1) es unfolding queue_ok_def ids_ok_def set_map by blast
  then have "sid64 (fst (last es))" using last by simp
  have "group_ok ?v"
  proof -
    obtain g where g: "main_group v = Some g" "\<forall>i \<in> set (pel g). \<not> sid_less (last_delivered g) i"
      using assms(1) by (auto simp: queue_ok_def group_ok_def)
    have "last es \<in> set ?u" using last u by simp
    then have new: "sid_less (last_delivered g) (fst (last es))" using g(1) by (auto simp: undelivered_def delivered_def)
    have "\<not> sid_less (fst (last es)) (fst e)" if "e \<in> set es" for e
    proof -
      have "sorted_wrt sid_less (map fst es)" using sorted u by (simp add: sorted_wrt_append)
      then have "e = last es \<or> sid_less (fst e) (fst (last es))"
        using that by (cases es rule: rev_cases) (auto simp: sorted_wrt_append)
      then show ?thesis using sid_less_trans [of "fst e" "fst (last es)" "fst e"] by auto
    qed
    moreover have "\<not> sid_less (fst (last es)) i" if "i \<in> set (pel g)" for i
      using that g(2) new sid_less_trans by blast
    ultimately show ?thesis by (auto simp: group_ok_def deliver_view_def g(1))
  qed
  with es64 \<open>sid64 (fst (last es))\<close> assms(1) show "queue_ok ?v"
    by (cases "main_group v") (simp_all add: queue_ok_def ids_ok_def deliver_view_def ball_Un)
  assume w: "waiting v e"
  show "waiting ?v e"
  proof (cases "main_group v")
    case None
    with w show ?thesis by (simp add: waiting_def delivered_def deliver_view_def)
  next
    case (Some g)
    have old: "pending_entry ?v i" if "pending_entry v i" for i
      using that Some by (simp add: pending_entry_def deliver_view_def)
    show ?thesis
    proof (cases "delivered v (fst e)")
      case True
      with w old show ?thesis by (auto simp: waiting_def deliver_view_def)
    next
      case False
      then have "e \<in> set es \<or> e \<in> set zs" using w by (simp add: waiting_def flip: Un_iff set_append u) (simp add: undelivered_def)
      then show ?thesis
      proof
        assume "e \<in> set es"
        then have "pending_entry ?v (fst e)" using Some by (simp add: pending_entry_def deliver_view_def)
        with w show ?thesis by (simp add: waiting_def deliver_view_def)
      next
        assume "e \<in> set zs"
        then have "sid_less (fst (last es)) (fst e)"
          using sorted u last by (simp add: sorted_wrt_append)
        with Some w show ?thesis by (simp add: waiting_def delivered_def deliver_view_def)
      qed
    qed
  qed
qed

text \<open>
  The documented behaviour of the commands of the queue, for one client at a time. \<open>XADD\<close> gives an ID above all
  earlier ones; \<open>XREADGROUP\<close> delivers the next undelivered entries, which become pending, also when the reply is lost; \<open>XACK\<close> removes
  from the pending entries exactly those it names, or nothing when it fails; \<open>XAUTOCLAIM\<close> returns pending entries and drops at
  most pending IDs that are no longer in the stream; the commands of the lock touch none of this.
\<close>

locale queue_redis = redis_store r view c compact
  for r :: "'w redis" and view and c and compact +
  assumes xadd_ids: "queue_ok (view w) \<Longrightarrow> wp (XAdd r key vals) (\<lambda>_ w'. queue_ok (view w') \<and>
      (\<forall>e \<in> set (streams (view w') StreamMain) - set (streams (view w) StreamMain). \<not> delivered (view w) (fst e))) w"
    and xread: "queue_ok (view w) \<Longrightarrow> wp (XReadGroup r ConsumerGroup consumer1 StreamMain n block) (\<lambda>res w'.
      \<exists>es. prefix es (undelivered (view w)) \<and> view w' = (if es = [] then view w else deliver_view es (view w)) \<and>
        (\<forall>ss. res = Inr ss \<longrightarrow> map fromXMessage (concat (map snd ss)) = map entry_msg es)) w"
    and xack: "wp (XAck r StreamMain ConsumerGroup ids) (\<lambda>err w'.
      view w' = drop_view (\<lambda>i. print_sid i \<in> set ids) (view w) \<or> err \<noteq> None \<and> view w' = view w) w"
    and xclaim: "wp (XAutoClaim r StreamMain ConsumerGroup consumer1 idle start n) (\<lambda>res w'.
      (\<exists>gone. (\<forall>e \<in> set (streams (view w) StreamMain). \<not> gone (fst e)) \<and> view w' = drop_view gone (view w)) \<and>
      (\<forall>ms. res = Inr ms \<longrightarrow> (\<exists>es. map fromXMessage ms = map entry_msg es \<and>
         (\<forall>e \<in> set es. e \<in> set (streams (view w) StreamMain) \<and> pending_entry (view w) (fst e))))) w"
    and xpending_reply: "ids_ok (view w) \<Longrightarrow> wp (XPending r StreamMain ConsumerGroup) (\<lambda>res w'. view w' = view w \<and>
        (\<forall>e. res = Inl e \<longrightarrow> errors_Is (Some e) RedisNilE \<longrightarrow> (\<forall>i. \<not> pending_entry (view w) i)) \<and>
        (\<forall>p. res = Inr p \<longrightarrow>
           (xp_Count p \<le> 0 \<or> xp_Lower p = []) \<and> (\<forall>i. \<not> pending_entry (view w) i) \<or>
           (\<exists>lo. xp_Count p > 0 \<and> xp_Lower p = print_sid lo \<and> sid64 lo \<and>
              (\<forall>i. pending_entry (view w) i \<longrightarrow> \<not> sid_less i lo)))) w"
    and xinfo_reply: "wp (XInfoGroups r StreamMain) (\<lambda>res w'. view w' = view w \<and>
        (\<forall>gs x. res = Inr gs \<longrightarrow> x \<in> set gs \<longrightarrow> xg_Name x = ConsumerGroup \<longrightarrow>
           (\<exists>g. main_group (view w) = Some g \<and> xg_LastDeliveredID x = print_sid (last_delivered g)))) w"
    and xtrim_effect: "wp (XTrimMinID r key minid) (\<lambda>res w'. (\<exists>e. res = Inl e) \<and> view w' = view w \<or>
         (\<exists>i. parseStreamID minid = Some i \<and> view w' = trim_view key i (view w))) w"
    and lock_silent: "silent view (SetNX r key v ttl1)" "silent view (lua_get r key)" "silent view (lua_pexpire r key ms)"
      "silent view (lua_del r key)"
    and eval_silent: "silent view script \<Longrightarrow> silent view (Eval r script)"

sublocale queue_redis \<subseteq> te: trim_env r view
proof (unfold_locales, goal_cases)
  case (1 w)
  show ?case by (rule wp_mono [OF xpending_reply [OF 1]]) (rule exI [of _ w], simp)
next
  case (2 w)
  show ?case by (rule wp_mono [OF xinfo_reply]) (rule exI [of _ w], simp)
next
  case (3 w key minid)
  show ?case
  proof (rule wp_mono [OF xtrim_effect], goal_cases)
    case (1 res w')
    then show ?case by (intro exI [of _ w] exI [of _ w']) auto
  qed
qed

section \<open>The reference server\<close>

text \<open>The executable server behaves so: its next ID is above the stream and above what any group was delivered.\<close>

lemma foldr_top:
  "\<not> sid_less (foldr (\<lambda>g t. if sid_less t (last_delivered (snd g)) then last_delivered (snd g) else t) gs t0) t0 \<and>
   (\<forall>g \<in> set gs. \<not> sid_less (foldr (\<lambda>g t. if sid_less t (last_delivered (snd g)) then last_delivered (snd g) else t) gs t0) (last_delivered (snd g)))"
proof (induction gs)
  case (Cons g gs)
  let ?t = "foldr (\<lambda>g t. if sid_less t (last_delivered (snd g)) then last_delivered (snd g) else t) gs t0"
  show ?case
  proof (cases "sid_less ?t (last_delivered (snd g))")
    case True
    have "\<not> sid_less (last_delivered (snd g)) x" if "\<not> sid_less ?t x" for x
      using that True sid_less_trans by blast
    with Cons.IH True show ?thesis by auto
  qed (use Cons.IH in simp)
qed simp

lemma top_less_next: "sid_less (top_sid s key) (next_sid s key)"
  by (cases "top_sid s key") (auto simp: next_sid_def Let_def sid_less.simps)

lemma next_sid_above:
  assumes "\<not> sid_less (top_sid s key) i"
  shows "sid_less i (next_sid s key)"
  using assms top_less_next [of s key] sid_less_linear [of i "top_sid s key"] sid_less_trans by blast

lemma next_sid_last:
  assumes "sorted_wrt sid_less (map fst (srv_streams s key))" "e \<in> set (srv_streams s key)"
  shows "sid_less (fst e) (next_sid s key)"
proof (cases "srv_streams s key" rule: rev_cases)
  case Nil
  with assms(2) show ?thesis by simp
next
  case (snoc ys y)
  then have "fst e = fst y \<or> sid_less (fst e) (fst y)" using assms by (auto simp: sorted_wrt_append)
  moreover have "(case srv_streams s key of [] \<Rightarrow> (0, 0) | es \<Rightarrow> fst (last es)) = fst y"
    using snoc by (cases ys) simp_all
  then have "\<not> sid_less (top_sid s key) (fst y)"
    using foldr_top [of "srv_groups s key" "fst y"] unfolding top_sid_def by simp
  ultimately show ?thesis
    using next_sid_above [of s key "fst y"] sid_less_trans [of "fst e" "fst y" "next_sid s key"] by auto
qed

lemma next_sid_fresh: "\<not> delivered (server_view s) (next_sid s StreamMain)"
proof
  assume "delivered (server_view s) (next_sid s StreamMain)"
  then obtain g where g: "map_of (srv_groups s StreamMain) ConsumerGroup = Some g" "\<not> sid_less (last_delivered g) (next_sid s StreamMain)"
    by (auto simp: delivered_def main_group_server)
  then have "(ConsumerGroup, g) \<in> set (srv_groups s StreamMain)" by (simp add: map_of_SomeD)
  then have "\<not> sid_less (top_sid s StreamMain) (last_delivered g)"
    using foldr_top by (fastforce simp: top_sid_def)
  with g(2) next_sid_above show False by blast
qed

lemma server_xadd_ids:
  assumes "queue_ok (server_view s)"
  shows "wp (XAdd server_redis key vals) (\<lambda>_ w'. queue_ok (server_view w') \<and>
      (\<forall>e \<in> set (streams (server_view w') StreamMain) - set (streams (server_view s) StreamMain). \<not> delivered (server_view s) (fst e))) s"
  unfolding server_redis_def redis.simps
proof (rule wp_faulty, goal_cases)
  case (1 fs)
  let ?s = "s\<lparr>srv_faults := fs\<rparr>"
  have ok: "queue_ok (server_view ?s)" using assms by simp
  have n: "next_sid ?s = next_sid s" by (simp add: next_sid_def top_sid_def fun_eq_iff)
  have above: "sid_less (fst e) (next_sid s StreamMain)" if "e \<in> set (srv_streams s StreamMain)" for e
    using assms that next_sid_last by (simp add: queue_ok_def server_view_def)
  then show ?case
    using ok next_sid_fresh [of s]
    by (auto simp: srv_XAdd_def Let_def n queue_ok_def group_ok_def ids_ok_def server_view_def main_group_def sorted_wrt_append sid64_def)
qed (use assms in simp_all)

lemma server_view_group: "server_view (srv_group_update StreamMain ConsumerGroup f s) = set_group f (server_view s)"
  by (auto simp: server_view_def srv_group_update_def set_group_def main_group_def map_of_update fun_eq_iff)

lemma fromXMessage_srv [simp]: "fromXMessage (srv_message e) = entry_msg e" "fromXMessage \<circ> srv_message = entry_msg"
  by (simp_all add: entry_msg_def srv_message_def fun_eq_iff)

lemma server_xread:
  "wp (XReadGroup server_redis ConsumerGroup consumer1 StreamMain n block) (\<lambda>res w'.
      \<exists>es. prefix es (undelivered (server_view s)) \<and> server_view w' = (if es = [] then server_view s else deliver_view es (server_view s)) \<and>
        (\<forall>ss. res = Inr ss \<longrightarrow> map fromXMessage (concat (map snd ss)) = map entry_msg es)) s"
  unfolding server_redis_def redis.simps
proof (rule wp_faulty, goal_cases)
  case (1 fs)
  show ?case
  proof (cases "map_of (srv_groups s StreamMain) ConsumerGroup")
    case (Some g)
    then have g: "main_group (server_view s) = Some g" by (simp add: main_group_server)
    have u: "filter (\<lambda>e. sid_less (last_delivered g) (fst e)) (srv_streams s StreamMain) = undelivered (server_view s)"
      unfolding undelivered_def by (simp add: delivered_def g) (simp add: server_view_def)
    let ?es = "take (nat n) (undelivered (server_view s))"
    show ?thesis
    proof (cases "?es = []")
      case True
      with Some show ?thesis by (simp add: srv_XReadGroup_def u Let_def) (rule exI [of _ "[]"], simp)
    next
      case False
      define es where "es = ?es"
      obtain s' where op: "srv_XReadGroup ConsumerGroup StreamMain n (s\<lparr>srv_faults := fs\<rparr>) = (Inr [(StreamMain, map srv_message es)], s')"
          and s': "server_view s' = deliver_view es (server_view s)"
        using Some False by (simp add: srv_XReadGroup_def u Let_def server_view_group deliver_view_def es_def)
      have "prefix es (undelivered (server_view s))" "es \<noteq> []" using False by (simp_all add: es_def take_is_prefix)
      then show ?thesis
        unfolding op prod.case s' by (intro conjI allI exI [of _ es]) auto
    qed
  qed (simp add: srv_XReadGroup_def, rule exI [of _ "[]"], simp)
qed (rule exI [of _ "[]"], simp)

lemma server_xack:
  "wp (XAck server_redis StreamMain ConsumerGroup ids) (\<lambda>err w'.
      server_view w' = drop_view (\<lambda>i. print_sid i \<in> set ids) (server_view s) \<or> err \<noteq> None \<and> server_view w' = server_view s) s"
  unfolding server_redis_def redis.simps err_only_def wp_bind wp_return
  by (rule wp_faulty) (simp_all add: srv_XAck_def server_view_group drop_view_def)

lemma drop_nothing: "drop_view (\<lambda>_. False) v = v"
  by (cases v) (simp add: drop_view_def set_group_def main_group_def fun_upd_idem option.map_ident)

lemma server_xclaim:
  "wp (XAutoClaim server_redis StreamMain ConsumerGroup consumer1 idle start n) (\<lambda>res w'.
      (\<exists>gone. (\<forall>e \<in> set (streams (server_view s) StreamMain). \<not> gone (fst e)) \<and> server_view w' = drop_view gone (server_view s)) \<and>
      (\<forall>ms. res = Inr ms \<longrightarrow> (\<exists>es. map fromXMessage ms = map entry_msg es \<and>
         (\<forall>e \<in> set es. e \<in> set (streams (server_view s) StreamMain) \<and> pending_entry (server_view s) (fst e))))) s"
proof -
  have same: "\<exists>gone. (\<forall>e \<in> set (streams v StreamMain). \<not> gone (fst e)) \<and> v = drop_view gone v" for v
    by (rule exI [of _ "\<lambda>_. False"]) (simp add: drop_nothing)
  have claimed: "\<exists>es. map fromXMessage (map srv_message es') = map entry_msg es \<and>
      (\<forall>e \<in> set es. e \<in> set (streams (server_view s) StreamMain) \<and> pending_entry (server_view s) (fst e))"
    if "es' = take m (filter (\<lambda>e. fst e \<in> set (pel g)) (srv_streams s StreamMain))" "map_of (srv_groups s StreamMain) ConsumerGroup = Some g"
    for es' m g
  proof (rule exI [of _ es'], intro conjI ballI)
    fix e
    assume "e \<in> set es'"
    then have "e \<in> set (filter (\<lambda>e. fst e \<in> set (pel g)) (srv_streams s StreamMain))" using that(1) in_set_takeD by fast
    then show "e \<in> set (streams (server_view s) StreamMain)" "pending_entry (server_view s) (fst e)"
      using that(2) by (simp_all add: server_view_def pending_entry_def main_group_def)
  qed simp
  show ?thesis
    unfolding server_redis_def redis.simps
  proof (rule wp_faulty, goal_cases)
    case (1 fs)
    show ?case
    proof (cases "map_of (srv_groups s StreamMain) ConsumerGroup")
      case None
      then show ?thesis using same by (simp add: srv_XAutoClaim_def)
    next
      case (Some g)
      then show ?thesis using same claimed [OF refl Some] by (simp add: srv_XAutoClaim_def del: map_map)
    qed
  qed (use same in simp)
qed

lemma server_silent:
  "silent server_view (SetNX server_redis key v ttl1)" "silent server_view (lua_get server_redis key)"
  "silent server_view (lua_pexpire server_redis key ms)" "silent server_view (lua_del server_redis key)"
  "silent server_view script \<Longrightarrow> silent server_view (Eval server_redis script)"
proof -
  have keys: "server_view (s\<lparr>srv_keys := ks\<rparr>) = server_view s" for s ks by (simp add: server_view_def)
  show "silent server_view (SetNX server_redis key v ttl1)"
    unfolding silent_def server_redis_def redis.simps
    by (intro allI, rule wp_faulty) (simp_all add: srv_SetNX_def keys)
  show "silent server_view (lua_get server_redis key)" "silent server_view (lua_pexpire server_redis key ms)"
      "silent server_view (lua_del server_redis key)"
    by (simp_all add: silent_def server_redis_def wp_def srv_pexpire_def srv_del_def keys split: option.split)
  assume "silent server_view script"
  then have "server_view (snd (run_state script s)) = server_view s" for s
    by (simp add: silent_def wp_def case_prod_unfold)
  then show "silent server_view (Eval server_redis script)"
    unfolding silent_def server_redis_def redis.simps
    by (intro allI, intro wp_faulty) (simp_all add: case_prod_unfold)
qed

interpretation server_queue: queue_redis server_redis server_view line_codec id
proof (rule queue_redis.intro [OF server.redis_store_axioms], unfold_locales, goal_cases)
  case (1 w key vals)
  then show ?case by (rule server_xadd_ids)
next
  case (2 w consumer1 n block)
  show ?case by (rule server_xread)
next
  case (3 ids w)
  show ?case by (rule server_xack)
next
  case (4 consumer1 idle start n w)
  show ?case by (rule server_xclaim)
next
  case (5 w)
  show ?case by (rule wp_mono [OF server_xpending [OF 5]]) simp
next
  case (6 w)
  show ?case by (rule server_xinfo)
next
  case (7 key minid w)
  show ?case by (rule server_xtrim)
qed (fact server_silent)+

section \<open>Collaborators beside the queue\<close>

definition calm :: "redis_view \<Rightarrow> redis_view \<Rightarrow> bool" where
  "calm v v' \<longleftrightarrow> main_group v' = main_group v \<and> streams v' StreamMain = streams v StreamMain \<and> zsets v' = zsets v \<and>
     hashes v' = hashes v \<and> (queue_ok v \<longrightarrow> queue_ok v') \<and> set (streams v StreamDLQ) \<subseteq> set (streams v' StreamDLQ)"

definition calms :: "('w \<Rightarrow> redis_view) \<Rightarrow> ('w, 'a) state \<Rightarrow> bool" where
  "calms view m \<longleftrightarrow> (\<forall>w. wp m (\<lambda>_ w'. calm (view w) (view w')) w)"

lemma calm_refl [simp]: "calm v v"
  by (simp add: calm_def)

lemma calm_trans: "calm u v \<Longrightarrow> calm v w \<Longrightarrow> calm u w"
  by (auto simp: calm_def)

lemma calm_same: "calm v v' \<Longrightarrow> delivered v' = delivered v \<and> pending_entry v' = pending_entry v"
  by (simp add: calm_def delivered_def pending_entry_def fun_eq_iff)

text \<open>The collaborators that are not the queue leave it alone; they may append to other streams.\<close>

definition calm_deps :: "('w \<Rightarrow> redis_view) \<Rightarrow> 'w deps \<Rightarrow> bool" where
  "calm_deps view d \<longleftrightarrow>
     (\<forall>dep w. wp (Locker_Acquire d dep) (\<lambda>r w'. calm (view w) (view w') \<and> (\<forall>release. r = Inr release \<longrightarrow> calms view release)) w) \<and>
     (\<forall>dep. calms view (Deploy_Load d dep)) \<and> (\<forall>dep a b reason trace stage. calms view (Deploy_Transition d dep a b reason trace stage)) \<and>
     (\<forall>job. calms view (Exporter_Export d job)) \<and> (\<forall>f ev. FailedEmit d = Some f \<longrightarrow> calms view (f ev)) \<and>
     (\<forall>f rec trace. ReadyRedeliver d = Some f \<longrightarrow> calms view (f rec trace)) \<and> (\<forall>f m. Metrics d = Some f \<longrightarrow> calms view (f m)) \<and>
     (\<forall>f h. Rand (Backoff d) = Some f \<longrightarrow> calms view (f h)) \<and> (\<forall>f. Now d = Some f \<longrightarrow> calms view f) \<and>
     (\<forall>n. calms view (deps_rand_Read d n)) \<and> (\<forall>h. calms view (deps_rand_Float64 d h)) \<and> calms view (deps_time_Now d)"

text \<open>A processor whose queue, dead letters and retries are those of a driver.\<close>

definition queue_wired :: "'w redis_driver \<Rightarrow> env_codec \<Rightarrow> ('w \<Rightarrow> redis_view) \<Rightarrow> 'w deps \<Rightarrow> bool" where
  "queue_wired drv c view d \<longleftrightarrow> Consumer_Ack d = Ack drv \<and> DLQ_SendToDLQ d = SendToDLQ drv \<and>
     Retries_Schedule d = Schedule (rdb drv) c \<and> calm_deps view d"

section \<open>The account of one message\<close>

definition store_keyed :: "event_lib \<Rightarrow> env_codec \<Rightarrow> redis_view \<Rightarrow> bool" where
  "store_keyed l c v \<longleftrightarrow> (\<forall>i env. redis_held c v i = Some env \<longrightarrow>
     i = EnvelopeID (job_of l (env_Payload env)) (env_Attempt env) (env_LastErrorCode env))"

definition sane :: "event_lib \<Rightarrow> env_codec \<Rightarrow> redis_view \<Rightarrow> bool" where
  "sane l c v \<longleftrightarrow> queue_ok v \<and> redis_store_ok c v \<and> store_keyed l c v"

definition from_stream :: "redis_view \<Rightarrow> message \<Rightarrow> bool" where
  "from_stream v msg \<longleftrightarrow> (\<forall>e \<in> set (streams v StreamMain). print_sid (fst e) = msg_ID msg \<longrightarrow> entry_msg e = msg)"

text \<open>
  What is known of the queue after the calls \<open>tr\<close> that began in \<open>v0\<close>: pending entries are pending or acknowledged, the
  store has lost no key and holds what was there or was scheduled, and dead letters that were accepted are there.
\<close>

definition queue_acct :: "redis_view \<Rightarrow> redis_view \<Rightarrow> call list \<Rightarrow> bool" where
  "queue_acct v0 v tr \<longleftrightarrow> queue_ok v \<and> streams v StreamMain = streams v0 StreamMain \<and> delivered v = delivered v0 \<and>
     (\<forall>i. pending_entry v0 i \<longrightarrow> pending_entry v i \<or> (\<exists>ids \<in> set (acks tr). print_sid i \<in> set ids))"

definition store_acct :: "env_codec \<Rightarrow> (string \<Rightarrow> string) \<Rightarrow> redis_view \<Rightarrow> redis_view \<Rightarrow> call list \<Rightarrow> bool" where
  "store_acct c cmp v0 v tr \<longleftrightarrow> redis_store_ok c v \<and>
     (\<forall>i env. redis_held c v i = Some env \<longrightarrow> redis_held c v0 i = Some env \<or>
        (\<exists>e x. ScheduleC e x \<in> set tr \<and> env_RetryEnvelopeID e = i \<and> env = e\<lparr>env_Payload := cmp (env_Payload e)\<rparr>)) \<and>
     (\<forall>i. redis_held c v0 i \<noteq> None \<longrightarrow> redis_held c v i \<noteq> None) \<and>
     (\<forall>e. ScheduleC e None \<in> set tr \<longrightarrow> redis_held c v (env_RetryEnvelopeID e) \<noteq> None)"

definition dlq_acct :: "redis_view \<Rightarrow> call list \<Rightarrow> bool" where
  "dlq_acct v tr \<longleftrightarrow> (\<forall>e. DLQC e None \<in> set tr \<longrightarrow> dlq_values e \<in> snd ` set (streams v StreamDLQ))"

lemma queue_acct_step:
  assumes "queue_acct v0 v tr" "queue_ok v'" "streams v' StreamMain = streams v StreamMain" "delivered v' = delivered v"
    and "\<And>i. pending_entry v i \<Longrightarrow> pending_entry v' i \<or> (\<exists>ids \<in> set (acks ys). print_sid i \<in> set ids)"
  shows "queue_acct v0 v' (tr @ ys)"
  using assms unfolding queue_acct_def acks_append set_append by (metis Un_iff)

lemma store_acct_frame:
  assumes "store_acct c cmp v0 v tr" "redis_held c v' = redis_held c v" "redis_store_ok c v'" "\<And>e. ScheduleC e None \<notin> set ys"
  shows "store_acct c cmp v0 v' (tr @ ys)"
  using assms unfolding store_acct_def set_append by (metis Un_iff)

lemma store_acct_schedule:
  assumes "store_acct c cmp v0 v tr" "redis_store_ok c v'"
    and "redis_held c v' = (redis_held c v)(env_RetryEnvelopeID e \<mapsto> e\<lparr>env_Payload := cmp (env_Payload e)\<rparr>)"
  shows "store_acct c cmp v0 v' (tr @ [ScheduleC e err])"
  using assms(1,2) unfolding store_acct_def assms(3) by (auto split: if_splits)

lemma dlq_acct_step:
  assumes "dlq_acct v tr" "set (streams v StreamDLQ) \<subseteq> set (streams v' StreamDLQ)"
    and "\<And>e. DLQC e None \<in> set ys \<Longrightarrow> dlq_values e \<in> snd ` set (streams v' StreamDLQ)"
  shows "dlq_acct v' (tr @ ys)"
  using assms unfolding dlq_acct_def set_append by blast

locale job_queue = queue_redis r view c compact
  for r :: "'w redis" and view and c and compact +
  fixes l :: event_lib
  assumes compact_job: "job_of l (compact p) = job_of l p"
begin

definition acct :: "redis_view \<Rightarrow> 'w \<times> call list \<Rightarrow> bool" where
  "acct v0 = (\<lambda>(w, tr). queue_acct v0 (view w) tr \<and> store_acct c compact v0 (view w) tr \<and> dlq_acct (view w) tr)"

lemma acct_calm:
  assumes "acct v0 (w, tr)" "calm (view w) (view w')" "\<And>e x. ScheduleC e x \<notin> set ys" "\<And>e x. DLQC e x \<notin> set ys"
  shows "acct v0 (w', tr @ ys)"
proof -
  have held: "redis_held c (view w') = redis_held c (view w)" "redis_store_ok c (view w') = redis_store_ok c (view w)"
    using redis_held_cong [of "view w'" "view w" c] assms(2) by (simp_all add: calm_def)
  have "queue_acct v0 (view w') (tr @ ys)"
    by (rule queue_acct_step [of _ "view w"]) (use assms(1,2) calm_same [OF assms(2)] in \<open>auto simp: acct_def calm_def queue_acct_def\<close>)
  moreover have "store_acct c compact v0 (view w') (tr @ ys)"
    by (rule store_acct_frame [OF _ held(1)]) (use assms(1,3) held(2) in \<open>auto simp: acct_def store_acct_def\<close>)
  moreover have "dlq_acct (view w') (tr @ ys)"
    by (rule dlq_acct_step [of "view w"]) (use assms(1,2,4) in \<open>auto simp: acct_def calm_def\<close>)
  ultimately show ?thesis by (simp add: acct_def)
qed

lemma keeps_acct_quiet: "calms view m \<Longrightarrow> keeps (acct v0) (quiet m)"
  unfolding keeps_def
proof clarify
  fix w tr
  assume "calms view m" "acct v0 (w, tr)"
  then show "wp (quiet m) (\<lambda>_. acct v0) (w, tr)"
    unfolding wp_quiet calms_def using acct_calm [of v0 w tr _ "[]"] by (auto elim!: wp_mono allE [of _ w])
qed

lemma keeps_acct_logged:
  assumes "calms view m" "\<And>a e x. y a \<noteq> ScheduleC e x" "\<And>a e x. y a \<noteq> DLQC e x"
  shows "keeps (acct v0) (logged y m)"
  unfolding keeps_def
proof clarify
  fix w tr
  assume acct: "acct v0 (w, tr)"
  show "wp (logged y m) (\<lambda>_. acct v0) (w, tr)"
    unfolding wp_logged
    by (rule wp_mono [OF assms(1) [unfolded calms_def, rule_format]]) (rule acct_calm [OF acct], simp_all, (metis assms(2,3))+)
qed

lemma keeps_acct_ack:
  assumes "rdb drv = r"
  shows "keeps (acct v0) (logged (AckC ids) (Ack drv ids))"
  unfolding keeps_def
proof clarify
  fix w tr
  assume acct: "acct v0 (w, tr)"
  have step: "acct v0 (w', tr @ [AckC ids a])" if "view w' = drop_view (\<lambda>i. print_sid i \<in> set ids) (view w) \<or> view w' = view w" for w' a
  proof -
    have held: "redis_held c (view w') = redis_held c (view w)" "redis_store_ok c (view w') = redis_store_ok c (view w)"
      using redis_held_cong [of "view w'" "view w" c] that by auto
    have "queue_acct v0 (view w') (tr @ [AckC ids a])"
      by (rule queue_acct_step [of _ "view w"]) (use acct that in \<open>auto simp: acct_def queue_acct_def\<close>)
    moreover have "store_acct c compact v0 (view w') (tr @ [AckC ids a])"
      by (rule store_acct_frame [OF _ held(1)]) (use acct held(2) in \<open>auto simp: acct_def store_acct_def\<close>)
    moreover have "dlq_acct (view w') (tr @ [AckC ids a])"
      by (rule dlq_acct_step [of "view w"]) (use acct that in \<open>auto simp: acct_def\<close>)
    ultimately show ?thesis by (simp add: acct_def)
  qed
  show "wp (logged (AckC ids) (Ack drv ids)) (\<lambda>_. acct v0) (w, tr)"
  proof (cases "ids = []")
    case False
    then show ?thesis
      unfolding wp_logged Ack_def assms by simp (rule wp_mono [OF xack], auto intro: step)
  next
    case True
    with step [of w None] show ?thesis by (simp add: wp_logged Ack_def)
  qed
qed

lemma keeps_acct_dlq:
  assumes "rdb drv = r"
  shows "keeps (acct v0) (logged (DLQC e) (SendToDLQ drv e))"
  unfolding keeps_def
proof clarify
  fix w tr
  assume acct: "acct v0 (w, tr)"
  then have ok: "queue_ok (view w)" by (simp add: acct_def queue_acct_def)
  show "wp (logged (DLQC e) (SendToDLQ drv e)) (\<lambda>_. acct v0) (w, tr)"
    unfolding wp_logged SendToDLQ_def assms wp_bind wp_return
  proof (rule wp_mono [OF wp_conj [OF xadd xadd_ids [OF ok]]], goal_cases)
    case (1 res w')
    let ?err = "case res of Inl err \<Rightarrow> Some (WrapE err) | Inr _ \<Rightarrow> None"
    have apart: "StreamDLQ \<noteq> StreamMain" by (simp add: StreamDLQ_def StreamMain_def)
    then have calm: "calm (view w) (view w')" using 1 by (auto simp: calm_def main_group_def)
    have "dlq_values e \<in> snd ` set (streams (view w') StreamDLQ)" if "?err = None"
      using 1 that by (cases res) (auto simp: image_iff)
    then have "dlq_acct (view w') (tr @ [DLQC e ?err])"
      by (intro dlq_acct_step [of "view w"]) (use acct calm in \<open>auto simp: acct_def calm_def\<close>)
    moreover have "acct v0 (w', tr @ [])" by (rule acct_calm [OF acct calm]) simp_all
    moreover have "queue_acct v0 (view w') (tr @ [DLQC e ?err])"
      by (rule queue_acct_step [of _ "view w'"]) (use \<open>acct v0 (w', tr @ [])\<close> in \<open>auto simp: acct_def queue_acct_def\<close>)
    moreover have "store_acct c compact v0 (view w') (tr @ [DLQC e ?err])"
      by (rule store_acct_frame [of _ _ _ "view w'"]) (use \<open>acct v0 (w', tr @ [])\<close> in \<open>auto simp: acct_def store_acct_def\<close>)
    ultimately show ?case by (simp add: acct_def)
  qed
qed

lemma keeps_acct_schedule: "keeps (acct v0) (logged (ScheduleC e) (Schedule r c e))"
  unfolding keeps_def
proof clarify
  fix w tr
  assume acct: "acct v0 (w, tr)"
  then have ok: "redis_store_ok c (view w)" by (simp add: acct_def store_acct_def)
  have frame: "wp (Schedule r c e) (\<lambda>_ w'. main_group (view w') = main_group (view w) \<and> streams (view w') = streams (view w)) w"
    unfolding Schedule_def by (auto split: sum.splits intro!: tx_cases simp: main_group_def)
  show "wp (logged (ScheduleC e) (Schedule r c e)) (\<lambda>_. acct v0) (w, tr)"
    unfolding wp_logged
  proof (rule wp_mono [OF wp_conj [OF Schedule_spec [OF ok] frame]], elim conjE, goal_cases)
    case (1 err w')
    have same: "queue_ok (view w')" "delivered (view w') = delivered (view w)" "pending_entry (view w') = pending_entry (view w)"
      using acct 1(3,4) group_ok_cong [OF 1(3)]
      by (auto simp: acct_def queue_acct_def queue_ok_def ids_ok_def delivered_def pending_entry_def fun_eq_iff)
    have "queue_acct v0 (view w') (tr @ [ScheduleC e err])"
      by (rule queue_acct_step [of _ "view w"]) (use acct same 1(4) in \<open>auto simp: acct_def\<close>)
    moreover have "store_acct c compact v0 (view w') (tr @ [ScheduleC e err])"
      using 1(2)
    proof
      assume "redis_held c (view w') = (redis_held c (view w))(env_RetryEnvelopeID e \<mapsto> e\<lparr>env_Payload := compact (env_Payload e)\<rparr>)"
      with 1(1) acct show ?thesis by (intro store_acct_schedule) (simp_all add: acct_def)
    next
      assume "err \<noteq> None \<and> redis_held c (view w') = redis_held c (view w)"
      with 1(1) acct show ?thesis by (intro store_acct_frame) (auto simp: acct_def)
    qed
    moreover have "dlq_acct (view w') (tr @ [ScheduleC e err])"
      by (rule dlq_acct_step [of "view w"]) (use acct 1(4) in \<open>auto simp: acct_def\<close>)
    ultimately show ?case by (simp add: acct_def)
  qed
qed

lemma keeps_acct_deps:
  assumes "queue_wired drv c view d" "rdb drv = r"
  shows "keeps_deps (acct v0) (traced d)"
proof -
  have calm: "calm_deps view d" using assms(1) by (simp add: queue_wired_def)
  have queue: "Consumer_Ack d = Ack drv" "DLQ_SendToDLQ d = SendToDLQ drv" "Retries_Schedule d = Schedule r c"
    using assms by (simp_all add: queue_wired_def)
  have lock: "wp (Locker_Acquire (traced d) dep) (\<lambda>x s'. acct v0 s' \<and> (\<forall>release. x = Inr release \<longrightarrow> keeps (acct v0) release)) s"
    if "acct v0 s" for dep s
  proof (cases s)
    case (Pair w tr)
    have acq: "wp (Locker_Acquire d dep) (\<lambda>r w'. calm (view w) (view w') \<and> (\<forall>release. r = Inr release \<longrightarrow> calms view release)) w"
      using calm by (simp add: calm_deps_def)
    have after: "acct v0 (w', tr @ [AcquireC dep (lease_error x)])" if "calm (view w) (view w')" for w' and x :: "gerr + ('w, gerr option) state"
      using \<open>acct v0 s\<close> Pair that by (intro acct_calm) auto
    show ?thesis
      unfolding traced_def deps.simps wp_bind wp_return Pair wp_logged
      by (rule wp_mono [OF acq]) (auto simp: after map_sum_def split: sum.splits intro!: keeps_acct_logged)
  qed
  show ?thesis
    unfolding keeps_deps_def
    using calm lock
    by (auto simp: queue calm_deps_def quiet_policy_def keeps_acct_ack [OF assms(2)] keeps_acct_dlq [OF assms(2)] keeps_acct_schedule
        intro!: keeps_acct_quiet keeps_acct_logged)
qed

lemma Handle_acct:
  assumes "queue_wired drv c view d" "rdb drv = r" "lib d = l" "sane l c (view w)"
    and "run_state (Handle d msg) w = (out, w')"
  obtains cs where "handle_run l (MaxRetries d) (DryRun d) (reemits_wired d) msg out cs"
    "queue_acct (view w) (view w') cs" "store_acct c compact (view w) (view w') cs" "dlq_acct (view w') cs"
proof -
  from Handle_observed [OF assms(5)] obtain cs where run: "run_state (Handle (traced d) msg) (w, []) = (out, (w', cs))"
    "handle_run l (MaxRetries d) (DryRun d) (reemits_wired d) msg out cs"
    using assms(3) by metis
  have "acct (view w) (w, [])"
    using assms(4) by (simp add: acct_def sane_def queue_acct_def store_acct_def dlq_acct_def)
  with keeps_Handle [OF keeps_acct_deps [OF assms(1,2)]] have "wp (Handle (traced d) msg) (\<lambda>_. acct (view w)) (w, [])"
    unfolding keeps_def by blast
  from wp_run [OF this run(1)] run(2) show ?thesis by (auto simp: acct_def intro: that)
qed

text \<open>The jobs of a store whose envelopes are keyed by their job.\<close>

lemma store_acct_keyed:
  assumes "handle_run l b dry reemits msg out cs" "store_acct c compact v v' cs" "store_keyed l c v"
  shows "store_keyed l c v'"
  unfolding store_keyed_def
proof (intro allI impI)
  fix i env
  assume "redis_held c v' i = Some env"
  with assms(2) consider "redis_held c v i = Some env"
    | e x where "ScheduleC e x \<in> set cs" "env_RetryEnvelopeID e = i" "env = e\<lparr>env_Payload := compact (env_Payload e)\<rparr>"
    unfolding store_acct_def by blast
  then show "i = EnvelopeID (job_of l (env_Payload env)) (env_Attempt env) (env_LastErrorCode env)"
  proof cases
    case 1
    with assms(3) show ?thesis by (simp add: store_keyed_def)
  next
    case (2 e x)
    with scheduled_envelope [OF assms(1) 2(1)] scheduled_job [OF assms(1) 2(1)] show ?thesis by (simp add: compact_job)
  qed
qed

lemma keyed_job:
  "store_keyed l c v \<Longrightarrow> redis_held c v (EnvelopeID dep n code) \<noteq> None \<Longrightarrow> alive l c v dep"
  by (force simp: store_keyed_def alive_def)

lemma Handle_conserves:
  assumes "queue_wired drv c view d" "rdb drv = r" "lib d = l" "sane l c (view w)" "from_stream (view w) msg"
  shows "wp (Handle d msg) (\<lambda>out w'. sane l c (view w') \<and> streams (view w') StreamMain = streams (view w) StreamMain \<and>
     delivered (view w') = delivered (view w) \<and>
     (\<forall>dep. alive l c (view w) dep \<longrightarrow> alive l c (view w') dep \<or> out \<in> finished \<and> job_of l (msg_Payload msg) = dep) \<and>
     (out = OutcomeDLQ \<longrightarrow> (\<exists>e \<in> set (streams (view w') StreamDLQ). map_of (snd e) ''payload'' = Some (msg_Payload msg)))) w"
proof -
  obtain out w' where run: "run_state (Handle d msg) w = (out, w')" by fastforce
  obtain cs where cs: "handle_run l (MaxRetries d) (DryRun d) (reemits_wired d) msg out cs"
    and q: "queue_acct (view w) (view w') cs" and s: "store_acct c compact (view w) (view w') cs" and dl: "dlq_acct (view w') cs"
    by (rule Handle_acct [OF assms(1-4) run])
  let ?v = "view w" and ?v' = "view w'"
  have keyed: "store_keyed l c ?v" "store_keyed l c ?v'"
    using assms(4) store_acct_keyed [OF cs s] by (simp_all add: sane_def)
  have sane: "sane l c ?v'" using q s keyed by (simp add: sane_def queue_acct_def store_acct_def)
  have stream: "streams ?v' StreamMain = streams ?v StreamMain" "delivered ?v' = delivered ?v" using q by (simp_all add: queue_acct_def)
  have held: "alive l c ?v' dep" if "redis_held c ?v i = Some env" "job_of l (env_Payload env) = dep" for i env dep
    using that s keyed keyed_job [OF keyed(2)] unfolding store_acct_def store_keyed_def by (metis option.distinct(1))
  have acked: "alive l c ?v' dep \<or> out \<in> finished \<and> job_of l (msg_Payload msg) = dep"
    if e: "e \<in> set (streams ?v StreamMain)" "job_of l (msg_Payload (entry_msg e)) = dep"
      and ids: "ids \<in> set (acks cs)" "print_sid (fst e) \<in> set ids" for e dep ids
  proof -
    have "print_sid (fst e) = msg_ID msg" using acked_ids [OF cs ids(1)] ids(2) by simp
    then have dep: "job_of l (msg_Payload msg) = dep" using assms(5) e by (auto simp: from_stream_def)
    have "acks cs \<noteq> []" using ids(1) by auto
    then consider "out \<in> finished" | "out = OutcomeRetryScheduled" using acked_outcome [OF cs] by blast
    then show ?thesis
    proof cases
      case 2
      then obtain env where env: "ScheduleC env None \<in> set cs" using handed_over [OF cs] by blast
      then have "redis_held c ?v' (env_RetryEnvelopeID env) \<noteq> None" using s by (simp add: store_acct_def)
      with scheduled_envelope [OF cs env] scheduled_job [OF cs env] dep keyed_job [OF keyed(2)] show ?thesis by metis
    qed (simp add: dep)
  qed
  have conserve: "alive l c ?v' dep \<or> out \<in> finished \<and> job_of l (msg_Payload msg) = dep" if "alive l c ?v dep" for dep
    using that unfolding alive_def [of l c ?v]
  proof (elim disjE exE conjE)
    fix e
    assume e: "waiting ?v e" "job_of l (msg_Payload (entry_msg e)) = dep"
    show ?thesis
    proof (cases "waiting ?v' e")
      case True
      with e(2) show ?thesis by (auto simp: alive_def)
    next
      case False
      then obtain ids where "ids \<in> set (acks cs)" "print_sid (fst e) \<in> set ids"
        using e(1) q by (auto simp: waiting_def queue_acct_def)
      then show ?thesis using acked e unfolding waiting_def by blast
    qed
  qed (use held in blast)
  have dead: "\<exists>e \<in> set (streams ?v' StreamDLQ). map_of (snd e) ''payload'' = Some (msg_Payload msg)" if dlq: "out = OutcomeDLQ"
  proof -
    obtain x where x: "DLQC x None \<in> set cs" "dlq_Payload x = msg_Payload msg" using dlq handed_over [OF cs] by blast
    then obtain e where "e \<in> set (streams ?v' StreamDLQ)" "snd e = dlq_values x" using dl unfolding dlq_acct_def by fastforce
    with x(2) show ?thesis by (intro bexI [of _ e]) (simp_all add: dlq_values_def)
  qed
  show ?thesis
    unfolding wp_def run prod.case using sane stream conserve dead by blast
qed

end

end
