(* ===== verification/Config.thy ===== *)
theory Config
  imports Harvest
begin

text \<open>
  Configuration, \<open>src/internal/config/config.go\<close>: reading the environment with defaults, collecting every problem, and the
  guards against the demo application and dry runs in deployed environments. A problem is data instead of its text. The
  URL parser is the parameter \<open>parse\<close>.
\<close>

section \<open>Data\<close>

definition EnvLocal :: string where "EnvLocal = ''local''"
definition EnvDevelopment :: string where "EnvDevelopment = ''development''"
definition EnvStaging :: string where "EnvStaging = ''staging''"
definition EnvProduction :: string where "EnvProduction = ''production''"

definition demoHostDenylist :: "string list" where
  "demoHostDenylist = [''demo'', ''apps-demo'', ''demo.local'', ''localhost'', ''127.0.0.1'', ''::1'']"

record config =
  cfg_WorkerName :: string
  cfg_WorkerConcurrency :: int
  cfg_QueueDriver :: string
  cfg_RedisURL :: string
  cfg_KafkaBrokers :: string
  cfg_RenderOriginURL :: string
  cfg_RenderTimeout :: duration
  cfg_UploadTimeout :: duration
  cfg_DeploymentServiceURL :: string
  cfg_AssetServiceURL :: string
  cfg_InternalServiceToken :: string
  cfg_ArtifactStorageDriver :: string
  cfg_ArtifactBucket :: string
  cfg_ArtifactBasePrefix :: string
  cfg_S3Endpoint :: string
  cfg_S3Region :: string
  cfg_S3AccessKey :: string
  cfg_S3SecretKey :: string
  cfg_DependencyAllowlist :: "string list"
  cfg_ExternalAssetAllowlist :: "string list"
  cfg_MaxRenderHTMLBytes :: int
  cfg_MaxRenderAssetBytes :: int
  cfg_MaxTotalArtifactBytes :: int
  cfg_StreamMainRetention :: duration
  cfg_StreamDLQRetention :: duration
  cfg_StreamReadyRetention :: duration
  cfg_StreamFailedRetention :: duration
  cfg_HealthPort :: int
  cfg_MetricsPort :: int
  cfg_LogLevel :: string
  cfg_OTELEndpoint :: string
  cfg_Environment :: string
  cfg_WorkerDryRun :: bool

datatype problem =
    Required string
  | NotInteger string string
  | NotMilliseconds string string
  | NotBoolean string string
  | NotBytes string string
  | NotRetention string string
  | BadEnvironment string
  | RedisURLRequired
  | KafkaNotImplemented
  | BadQueueDriver string
  | BadStorageDriver string
  | BadConcurrency int
  | InvalidOrigin string
  | DemoOrigin string
  | DenylistedOrigin string
  | InvalidAssetURL string
  | DryRunDeployed string

type_synonym environment = "string \<Rightarrow> string option"

section \<open>Reading variables\<close>

text \<open>Each reader returns the value and the problems it adds.\<close>

definition env_get :: "environment \<Rightarrow> string \<Rightarrow> string \<Rightarrow> string" where
  "env_get lookup key def =
     (case lookup key of
        Some v \<Rightarrow> if TrimSpace v \<noteq> [] then TrimSpace v else def
      | None \<Rightarrow> def)"

definition env_require :: "environment \<Rightarrow> string \<Rightarrow> string \<times> problem list" where
  "env_require lookup key = (let v = env_get lookup key [] in (v, if v = [] then [Required key] else []))"

definition intVal :: "environment \<Rightarrow> string \<Rightarrow> int \<Rightarrow> int \<times> problem list" where
  "intVal lookup key def =
     (let raw = env_get lookup key [] in
      if raw = [] then (def, [])
      else case ParseInt raw of
             None \<Rightarrow> (def, [NotInteger key raw])
           | Some n \<Rightarrow> (n, []))"

definition msVal :: "environment \<Rightarrow> string \<Rightarrow> duration \<Rightarrow> duration \<times> problem list" where
  "msVal lookup key def =
     (let raw = env_get lookup key [] in
      if raw = [] then (def, [])
      else case ParseInt raw of
             None \<Rightarrow> (def, [NotMilliseconds key raw])
           | Some n \<Rightarrow> if n \<le> 0 then (def, [NotMilliseconds key raw]) else (int64 (n * Millisecond), []))"

definition ParseBool :: "string \<Rightarrow> bool option" where
  "ParseBool s =
     (if s \<in> {''1'', ''t'', ''T'', ''TRUE'', ''true'', ''True''} then Some True
      else if s \<in> {''0'', ''f'', ''F'', ''FALSE'', ''false'', ''False''} then Some False
      else None)"

definition boolVal :: "environment \<Rightarrow> string \<Rightarrow> bool \<Rightarrow> bool \<times> problem list" where
  "boolVal lookup key def =
     (let raw = env_get lookup key [] in
      if raw = [] then (def, [])
      else case ParseBool raw of
             None \<Rightarrow> (def, [NotBoolean key raw])
           | Some b \<Rightarrow> (b, []))"

definition bytesVal :: "environment \<Rightarrow> string \<Rightarrow> int \<Rightarrow> int \<times> problem list" where
  "bytesVal lookup key def =
     (let raw = env_get lookup key [] in
      if raw = [] then (def, [])
      else case ParseInt raw of
             None \<Rightarrow> (def, [NotBytes key raw])
           | Some n \<Rightarrow> if n \<le> 0 then (def, [NotBytes key raw]) else (n, []))"

definition retentionVal :: "environment \<Rightarrow> string \<Rightarrow> duration \<Rightarrow> duration \<times> problem list" where
  "retentionVal lookup key def =
     (let raw = env_get lookup key [] in
      if raw = [] then (def, [])
      else case ParseInt raw of
             None \<Rightarrow> (def, [NotRetention key raw])
           | Some n \<Rightarrow> if n < 0 then (def, [NotRetention key raw]) else (int64 (n * Millisecond), []))"

definition listVal :: "environment \<Rightarrow> string \<Rightarrow> string list \<Rightarrow> string list" where
  "listVal lookup key def =
     (let raw = env_get lookup key [] in
      if raw = [] then def
      else filter (\<lambda>p. p \<noteq> []) (map TrimSpace (Split raw CHR '','')))"

section \<open>Guards\<close>

definition LocalDev :: "config \<Rightarrow> bool" where
  "LocalDev c \<longleftrightarrow> cfg_Environment c = EnvLocal \<or> cfg_Environment c = EnvDevelopment"

fun names_demo :: "string list \<Rightarrow> bool" where
  "names_demo (a # b # segs) = (a = ''apps'' \<and> b = ''demo'' \<or> names_demo (b # segs))"
| "names_demo _ = False"

text \<open>An absolute URL: it parses, with a scheme and a host.\<close>

definition absolute_url :: "(string \<Rightarrow> url option) \<Rightarrow> string \<Rightarrow> url option" where
  "absolute_url parse target =
     (case parse target of
        None \<Rightarrow> None
      | Some u \<Rightarrow> if u_Scheme u = [] \<or> u_Host u = [] then None else Some u)"

definition demoGuard :: "(string \<Rightarrow> url option) \<Rightarrow> string \<Rightarrow> bool \<Rightarrow> problem option" where
  "demoGuard parse target localDev =
     (case absolute_url parse target of
        None \<Rightarrow> Some (InvalidOrigin target)
      | Some u \<Rightarrow>
          if names_demo (Split (Trim (u_Path u) CHR ''/'') CHR ''/'')
          then (if localDev then None else Some (DemoOrigin target))
          else if \<not> localDev \<and> u_Hostname u \<in> set demoHostDenylist then Some (DenylistedOrigin (u_Hostname u))
          else None)"

section \<open>Load\<close>

definition Hour :: duration where "Hour = 60 * Minute"

definition config_fields :: "environment \<Rightarrow> config" where
  "config_fields lookup =
     \<lparr>cfg_WorkerName = env_get lookup ''WORKER_NAME'' ''anvilkit-export-worker'',
      cfg_WorkerConcurrency = fst (intVal lookup ''WORKER_CONCURRENCY'' 4),
      cfg_QueueDriver = fst (env_require lookup ''QUEUE_DRIVER''),
      cfg_RedisURL = env_get lookup ''REDIS_URL'' [],
      cfg_KafkaBrokers = env_get lookup ''KAFKA_BROKERS'' [],
      cfg_RenderOriginURL = fst (env_require lookup ''RENDER_ORIGIN_URL''),
      cfg_RenderTimeout = fst (msVal lookup ''RENDER_TIMEOUT_MS'' (15 * Second)),
      cfg_UploadTimeout = fst (msVal lookup ''UPLOAD_TIMEOUT_MS'' (60 * Second)),
      cfg_DeploymentServiceURL = fst (env_require lookup ''DEPLOYMENT_SERVICE_URL''),
      cfg_AssetServiceURL = env_get lookup ''ASSET_SERVICE_URL'' [],
      cfg_InternalServiceToken = fst (env_require lookup ''INTERNAL_SERVICE_TOKEN''),
      cfg_ArtifactStorageDriver = fst (env_require lookup ''ARTIFACT_STORAGE_DRIVER''),
      cfg_ArtifactBucket = fst (env_require lookup ''ARTIFACT_BUCKET''),
      cfg_ArtifactBasePrefix = env_get lookup ''ARTIFACT_BASE_PREFIX'' ''sites'',
      cfg_S3Endpoint = fst (env_require lookup ''S3_ENDPOINT''),
      cfg_S3Region = env_get lookup ''S3_REGION'' ''us-east-1'',
      cfg_S3AccessKey = fst (env_require lookup ''S3_ACCESS_KEY''),
      cfg_S3SecretKey = fst (env_require lookup ''S3_SECRET_KEY''),
      cfg_DependencyAllowlist = listVal lookup ''DEPENDENCY_ALLOWLIST''
        [''/_next/static/*'', ''/assets/*'', ''/fonts/*'', ''/component-styles.css''],
      cfg_ExternalAssetAllowlist = listVal lookup ''EXTERNAL_ASSET_ALLOWLIST'' [],
      cfg_MaxRenderHTMLBytes = fst (bytesVal lookup ''MAX_RENDER_HTML_BYTES'' (10 * 2 ^ 20)),
      cfg_MaxRenderAssetBytes = fst (bytesVal lookup ''MAX_RENDER_ASSET_BYTES'' (25 * 2 ^ 20)),
      cfg_MaxTotalArtifactBytes = fst (bytesVal lookup ''MAX_TOTAL_ARTIFACT_BYTES'' (512 * 2 ^ 20)),
      cfg_StreamMainRetention = fst (retentionVal lookup ''STREAM_MAIN_RETENTION_MS'' (72 * Hour)),
      cfg_StreamDLQRetention = fst (retentionVal lookup ''STREAM_DLQ_RETENTION_MS'' (7 * 24 * Hour)),
      cfg_StreamReadyRetention = fst (retentionVal lookup ''STREAM_READY_RETENTION_MS'' (7 * 24 * Hour)),
      cfg_StreamFailedRetention = fst (retentionVal lookup ''STREAM_FAILED_RETENTION_MS'' (7 * 24 * Hour)),
      cfg_HealthPort = fst (intVal lookup ''HEALTH_PORT'' 8081),
      cfg_MetricsPort = fst (intVal lookup ''METRICS_PORT'' 9091),
      cfg_LogLevel = env_get lookup ''LOG_LEVEL'' ''info'',
      cfg_OTELEndpoint = env_get lookup ''OTEL_EXPORTER_OTLP_ENDPOINT'' [],
      cfg_Environment = fst (env_require lookup ''ENVIRONMENT''),
      cfg_WorkerDryRun = fst (boolVal lookup ''WORKER_DRY_RUN'' False)\<rparr>"

text \<open>The problems of the readers, in the order in which the fields are evaluated.\<close>

definition field_problems :: "environment \<Rightarrow> problem list" where
  "field_problems lookup = concat
     [snd (intVal lookup ''WORKER_CONCURRENCY'' 4), snd (env_require lookup ''QUEUE_DRIVER''),
      snd (env_require lookup ''RENDER_ORIGIN_URL''), snd (msVal lookup ''RENDER_TIMEOUT_MS'' (15 * Second)),
      snd (msVal lookup ''UPLOAD_TIMEOUT_MS'' (60 * Second)), snd (env_require lookup ''DEPLOYMENT_SERVICE_URL''),
      snd (env_require lookup ''INTERNAL_SERVICE_TOKEN''), snd (env_require lookup ''ARTIFACT_STORAGE_DRIVER''),
      snd (env_require lookup ''ARTIFACT_BUCKET''), snd (env_require lookup ''S3_ENDPOINT''),
      snd (env_require lookup ''S3_ACCESS_KEY''), snd (env_require lookup ''S3_SECRET_KEY''),
      snd (bytesVal lookup ''MAX_RENDER_HTML_BYTES'' (10 * 2 ^ 20)), snd (bytesVal lookup ''MAX_RENDER_ASSET_BYTES'' (25 * 2 ^ 20)),
      snd (bytesVal lookup ''MAX_TOTAL_ARTIFACT_BYTES'' (512 * 2 ^ 20)),
      snd (retentionVal lookup ''STREAM_MAIN_RETENTION_MS'' (72 * Hour)),
      snd (retentionVal lookup ''STREAM_DLQ_RETENTION_MS'' (7 * 24 * Hour)),
      snd (retentionVal lookup ''STREAM_READY_RETENTION_MS'' (7 * 24 * Hour)),
      snd (retentionVal lookup ''STREAM_FAILED_RETENTION_MS'' (7 * 24 * Hour)),
      snd (intVal lookup ''HEALTH_PORT'' 8081), snd (intVal lookup ''METRICS_PORT'' 9091),
      snd (env_require lookup ''ENVIRONMENT''), snd (boolVal lookup ''WORKER_DRY_RUN'' False)]"

definition environment_problems :: "config \<Rightarrow> problem list" where
  "environment_problems c =
     (if cfg_Environment c \<in> {[], EnvLocal, EnvDevelopment, EnvStaging, EnvProduction} then []
      else [BadEnvironment (cfg_Environment c)])"

definition queue_problems :: "config \<Rightarrow> problem list" where
  "queue_problems c =
     (if cfg_QueueDriver c = [] then []
      else if cfg_QueueDriver c = ''redis'' then (if cfg_RedisURL c = [] then [RedisURLRequired] else [])
      else if cfg_QueueDriver c = ''kafka'' then [KafkaNotImplemented]
      else [BadQueueDriver (cfg_QueueDriver c)])"

definition check_problems :: "(string \<Rightarrow> url option) \<Rightarrow> config \<Rightarrow> problem list" where
  "check_problems parse c = concat
     [environment_problems c, queue_problems c,
      if cfg_ArtifactStorageDriver c \<noteq> [] \<and> cfg_ArtifactStorageDriver c \<noteq> ''s3''
      then [BadStorageDriver (cfg_ArtifactStorageDriver c)] else [],
      if cfg_WorkerConcurrency c < 1 \<or> cfg_WorkerConcurrency c > 64 then [BadConcurrency (cfg_WorkerConcurrency c)] else [],
      if cfg_RenderOriginURL c \<noteq> []
      then (case demoGuard parse (cfg_RenderOriginURL c) (LocalDev c) of Some guardErr \<Rightarrow> [guardErr] | None \<Rightarrow> []) else [],
      if cfg_AssetServiceURL c \<noteq> [] \<and> absolute_url parse (cfg_AssetServiceURL c) = None
      then [InvalidAssetURL (cfg_AssetServiceURL c)] else [],
      if cfg_WorkerDryRun c \<and> \<not> LocalDev c then [DryRunDeployed (cfg_Environment c)] else []]"

definition Load_config :: "(string \<Rightarrow> url option) \<Rightarrow> environment \<Rightarrow> problem list + config" where
  "Load_config parse lookup =
     (let c = config_fields lookup;
          problems = field_problems lookup @ check_problems parse c
      in if problems \<noteq> [] then Inl problems else Inr c)"

section \<open>Specification\<close>

text \<open>Every numeric and boolean variable that is set can be read, in its range.\<close>

definition readable :: "environment \<Rightarrow> bool" where
  "readable lookup \<longleftrightarrow>
     (\<forall>key \<in> {''WORKER_CONCURRENCY'', ''HEALTH_PORT'', ''METRICS_PORT''}.
        env_get lookup key [] = [] \<or> ParseInt (env_get lookup key []) \<noteq> None) \<and>
     (\<forall>key \<in> {''RENDER_TIMEOUT_MS'', ''UPLOAD_TIMEOUT_MS'', ''MAX_RENDER_HTML_BYTES'', ''MAX_RENDER_ASSET_BYTES'', ''MAX_TOTAL_ARTIFACT_BYTES''}.
        env_get lookup key [] = [] \<or> (\<exists>n > 0. ParseInt (env_get lookup key []) = Some n)) \<and>
     (\<forall>key \<in> {''STREAM_MAIN_RETENTION_MS'', ''STREAM_DLQ_RETENTION_MS'', ''STREAM_READY_RETENTION_MS'', ''STREAM_FAILED_RETENTION_MS''}.
        env_get lookup key [] = [] \<or> (\<exists>n \<ge> 0. ParseInt (env_get lookup key []) = Some n)) \<and>
     (env_get lookup ''WORKER_DRY_RUN'' [] = [] \<or> ParseBool (env_get lookup ''WORKER_DRY_RUN'' []) \<noteq> None)"

text \<open>The render origin of a deployed worker is not the demo application and not a loopback host.\<close>

definition origin_ok :: "(string \<Rightarrow> url option) \<Rightarrow> bool \<Rightarrow> string \<Rightarrow> bool" where
  "origin_ok parse localDev target \<longleftrightarrow>
     (\<exists>u. parse target = Some u \<and> u_Scheme u \<noteq> [] \<and> u_Host u \<noteq> [] \<and>
        (localDev \<or> u_Hostname u \<notin> set demoHostDenylist \<and>
          \<not> (\<exists>pre post. Split (Trim (u_Path u) CHR ''/'') CHR ''/'' = pre @ ''apps'' # ''demo'' # post)))"

definition config_valid :: "(string \<Rightarrow> url option) \<Rightarrow> config \<Rightarrow> bool" where
  "config_valid parse c \<longleftrightarrow>
     cfg_Environment c \<in> {EnvLocal, EnvDevelopment, EnvStaging, EnvProduction} \<and>
     cfg_QueueDriver c = ''redis'' \<and> cfg_RedisURL c \<noteq> [] \<and> cfg_ArtifactStorageDriver c = ''s3'' \<and>
     cfg_DeploymentServiceURL c \<noteq> [] \<and> cfg_InternalServiceToken c \<noteq> [] \<and> cfg_ArtifactBucket c \<noteq> [] \<and>
     cfg_S3Endpoint c \<noteq> [] \<and> cfg_S3AccessKey c \<noteq> [] \<and> cfg_S3SecretKey c \<noteq> [] \<and>
     1 \<le> cfg_WorkerConcurrency c \<and> cfg_WorkerConcurrency c \<le> 64 \<and>
     cfg_RenderOriginURL c \<noteq> [] \<and> origin_ok parse (LocalDev c) (cfg_RenderOriginURL c) \<and>
     (cfg_AssetServiceURL c = [] \<or> absolute_url parse (cfg_AssetServiceURL c) \<noteq> None) \<and>
     (cfg_WorkerDryRun c \<longrightarrow> LocalDev c)"

section \<open>Facts\<close>

lemma names_demo_iff: "names_demo segs \<longleftrightarrow> (\<exists>pre post. segs = pre @ ''apps'' # ''demo'' # post)"
proof (induction segs rule: names_demo.induct)
  case (1 a b segs)
  have "(\<exists>pre post. a # b # segs = pre @ ''apps'' # ''demo'' # post) \<longleftrightarrow>
      a = ''apps'' \<and> b = ''demo'' \<or> (\<exists>pre post. b # segs = pre @ ''apps'' # ''demo'' # post)"
    by (auto simp: Cons_eq_append_conv)
  with 1 show ?case by simp
qed (auto simp: Cons_eq_append_conv)

lemma demoGuard_None: "demoGuard parse target localDev = None \<longleftrightarrow> origin_ok parse localDev target"
  by (auto simp: demoGuard_def origin_ok_def absolute_url_def names_demo_iff split: option.splits)

lemma reader_problems:
  "snd (env_require lookup key) = [] \<longleftrightarrow> fst (env_require lookup key) \<noteq> []"
  "snd (intVal lookup key def) = [] \<longleftrightarrow> env_get lookup key [] = [] \<or> ParseInt (env_get lookup key []) \<noteq> None"
  "snd (msVal lookup key def) = [] \<longleftrightarrow> env_get lookup key [] = [] \<or> (\<exists>n > 0. ParseInt (env_get lookup key []) = Some n)"
  "snd (bytesVal lookup key n0) = [] \<longleftrightarrow> env_get lookup key [] = [] \<or> (\<exists>n > 0. ParseInt (env_get lookup key []) = Some n)"
  "snd (retentionVal lookup key def) = [] \<longleftrightarrow> env_get lookup key [] = [] \<or> (\<exists>n \<ge> 0. ParseInt (env_get lookup key []) = Some n)"
  "snd (boolVal lookup key b) = [] \<longleftrightarrow> env_get lookup key [] = [] \<or> ParseBool (env_get lookup key []) \<noteq> None"
  by (auto simp: env_require_def intVal_def msVal_def bytesVal_def retentionVal_def boolVal_def Let_def split: option.splits if_splits)

lemma bytesVal_pos: "0 < n0 \<Longrightarrow> 0 < fst (bytesVal lookup key n0)"
  by (auto simp: bytesVal_def Let_def split: option.splits)

lemma field_problems_Nil:
  "field_problems lookup = [] \<longleftrightarrow> readable lookup \<and> (\<forall>key \<in> {''QUEUE_DRIVER'', ''RENDER_ORIGIN_URL'', ''DEPLOYMENT_SERVICE_URL'',
     ''INTERNAL_SERVICE_TOKEN'', ''ARTIFACT_STORAGE_DRIVER'', ''ARTIFACT_BUCKET'', ''S3_ENDPOINT'', ''S3_ACCESS_KEY'', ''S3_SECRET_KEY'',
     ''ENVIRONMENT''}. fst (env_require lookup key) \<noteq> [])"
  unfolding field_problems_def concat_eq_Nil_conv list.set ball_simps reader_problems readable_def by argo

lemma check_problems_Nil:
  assumes "cfg_Environment c \<noteq> []" "cfg_QueueDriver c \<noteq> []" "cfg_ArtifactStorageDriver c \<noteq> []" "cfg_RenderOriginURL c \<noteq> []"
  shows "check_problems parse c = [] \<longleftrightarrow>
    cfg_Environment c \<in> {EnvLocal, EnvDevelopment, EnvStaging, EnvProduction} \<and>
    cfg_QueueDriver c = ''redis'' \<and> cfg_RedisURL c \<noteq> [] \<and> cfg_ArtifactStorageDriver c = ''s3'' \<and>
    1 \<le> cfg_WorkerConcurrency c \<and> cfg_WorkerConcurrency c \<le> 64 \<and> origin_ok parse (LocalDev c) (cfg_RenderOriginURL c) \<and>
    (cfg_AssetServiceURL c = [] \<or> absolute_url parse (cfg_AssetServiceURL c) \<noteq> None) \<and>
    (cfg_WorkerDryRun c \<longrightarrow> LocalDev c)"
  using assms
  by (auto simp: check_problems_def environment_problems_def queue_problems_def demoGuard_None [symmetric] split: option.splits if_splits)

section \<open>Properties\<close>

text \<open>
  C29. The configuration is checked completely. \<open>Load\<close> accepts an environment exactly when every variable that is set can be
  read and the resulting configuration is valid: known environment, Redis and S3 as drivers, all required values present,
  1 to 64 consumers, an absolute render origin that in a deployed environment has no \<open>apps/demo\<close> in its path and is no host of the
  denylist, and no dry run outside local development. What it returns then has positive size limits.
\<close>

theorem Load_exact:
  "Load_config parse lookup = Inr c \<longleftrightarrow> c = config_fields lookup \<and> readable lookup \<and> config_valid parse c \<and>
     0 < cfg_MaxRenderHTMLBytes c \<and> 0 < cfg_MaxRenderAssetBytes c \<and> 0 < cfg_MaxTotalArtifactBytes c"
proof -
  define c' where "c' = config_fields lookup"
  have pos: "0 < cfg_MaxRenderHTMLBytes c'" "0 < cfg_MaxRenderAssetBytes c'" "0 < cfg_MaxTotalArtifactBytes c'"
    by (simp_all add: c'_def config_fields_def bytesVal_pos)
  have fields: "field_problems lookup = [] \<longleftrightarrow> readable lookup \<and> cfg_QueueDriver c' \<noteq> [] \<and> cfg_RenderOriginURL c' \<noteq> [] \<and>
      cfg_DeploymentServiceURL c' \<noteq> [] \<and> cfg_InternalServiceToken c' \<noteq> [] \<and> cfg_ArtifactStorageDriver c' \<noteq> [] \<and>
      cfg_ArtifactBucket c' \<noteq> [] \<and> cfg_S3Endpoint c' \<noteq> [] \<and> cfg_S3AccessKey c' \<noteq> [] \<and> cfg_S3SecretKey c' \<noteq> [] \<and>
      cfg_Environment c' \<noteq> []"
    unfolding field_problems_Nil by (simp add: c'_def config_fields_def)
  have "field_problems lookup = [] \<and> check_problems parse c' = [] \<longleftrightarrow> readable lookup \<and> config_valid parse c'"
  proof (cases "cfg_Environment c' \<noteq> [] \<and> cfg_QueueDriver c' \<noteq> [] \<and> cfg_ArtifactStorageDriver c' \<noteq> [] \<and> cfg_RenderOriginURL c' \<noteq> []")
    case True
    then have "check_problems parse c' = [] \<longleftrightarrow>
      cfg_Environment c' \<in> {EnvLocal, EnvDevelopment, EnvStaging, EnvProduction} \<and>
      cfg_QueueDriver c' = ''redis'' \<and> cfg_RedisURL c' \<noteq> [] \<and> cfg_ArtifactStorageDriver c' = ''s3'' \<and>
      1 \<le> cfg_WorkerConcurrency c' \<and> cfg_WorkerConcurrency c' \<le> 64 \<and> origin_ok parse (LocalDev c') (cfg_RenderOriginURL c') \<and>
      (cfg_AssetServiceURL c' = [] \<or> absolute_url parse (cfg_AssetServiceURL c') \<noteq> None) \<and>
      (cfg_WorkerDryRun c' \<longrightarrow> LocalDev c')"
      by (intro check_problems_Nil) simp_all
    with True fields show ?thesis unfolding config_valid_def by (simp only: conj_ac simp_thms)
  next
    case False
    then have "\<not> config_valid parse c'"
      by (auto simp: config_valid_def EnvLocal_def EnvDevelopment_def EnvStaging_def EnvProduction_def)
    with False fields show ?thesis by blast
  qed
  then show ?thesis
    using pos by (auto simp: Load_config_def Let_def c'_def [symmetric])
qed

text \<open>An environment for a deployed worker, and a parser for the URLs in it.\<close>

definition deployed_env :: environment where
  "deployed_env = map_of [(''QUEUE_DRIVER'', ''redis''), (''REDIS_URL'', ''redis://r''), (''RENDER_ORIGIN_URL'', ''http://LOCALHOST''),
     (''DEPLOYMENT_SERVICE_URL'', ''http://ds''), (''INTERNAL_SERVICE_TOKEN'', ''t''), (''ARTIFACT_STORAGE_DRIVER'', ''s3''),
     (''ARTIFACT_BUCKET'', ''b''), (''S3_ENDPOINT'', ''http://s3''), (''S3_ACCESS_KEY'', ''k''), (''S3_SECRET_KEY'', ''s''),
     (''ENVIRONMENT'', '' production ''), (''STREAM_DLQ_RETENTION_MS'', ''18446744073710'')]"

definition host_parse :: "string \<Rightarrow> url option" where
  "host_parse s = (if HasPrefix s ''http://'' then
     Some \<lparr>u_Scheme = ''http'', u_HasUser = False, u_Host = drop 7 s, u_Hostname = drop 7 s, u_Port = [], u_Path = [],
       u_EscapedPath = [], u_String = s\<rparr> else None)"

lemma deployed_accepted: "Load_config host_parse deployed_env = Inr (config_fields deployed_env)"
proof -
  have "field_problems deployed_env = []" by code_simp
  moreover have "check_problems host_parse (config_fields deployed_env) = []" by code_simp
  ultimately show ?thesis by (simp add: Load_config_def)
qed

text \<open>
  Two values pass that should not. A deployed worker starts with the loopback host as its render origin when the name is
  written in capitals, since the denylist is compared byte by byte; and a retention of more than 584 years, given in
  milliseconds, is accepted and wraps around to less than half a millisecond, so that the next trim empties the dead-letter stream.
\<close>

theorem Load_gaps:
  "case Load_config host_parse deployed_env of
     Inl _ \<Rightarrow> False
   | Inr c \<Rightarrow> cfg_Environment c = EnvProduction \<and> map_option u_Hostname (host_parse (cfg_RenderOriginURL c)) = Some ''LOCALHOST'' \<and>
       0 < cfg_StreamDLQRetention c \<and> 2 * cfg_StreamDLQRetention c < Millisecond"
proof -
  let ?c = "config_fields deployed_env"
  have "cfg_Environment ?c = EnvProduction" "cfg_StreamDLQRetention ?c = 448384" by code_simp+
  moreover have "map_option u_Hostname (host_parse (cfg_RenderOriginURL ?c)) = Some ''LOCALHOST''" by code_simp
  ultimately show ?thesis by (simp add: deployed_accepted Millisecond_def)
qed

end
