(* ===== verification/Obs.thy ===== *)
theory Obs
  imports Prelude Go_Path
begin

text \<open>
  Logging and probes, \<open>src/internal/obs/logger.go\<close> and \<open>src/internal/obs/opsserver.go\<close>: the redaction of secrets in log
  records and the lifecycle state behind the readiness probe. The JSON output of a record is not modelled.
\<close>

section \<open>Redaction\<close>

text \<open>\<open>strings.ReplaceAll\<close> for a non-empty \<open>old\<close>: occurrences from the left, none overlapping.\<close>

function ReplaceAll :: "string \<Rightarrow> string \<Rightarrow> string \<Rightarrow> string" where
  "ReplaceAll [] old new = []"
| "ReplaceAll (c # s) old new =
     (if old \<noteq> [] \<and> prefix old (c # s) then new @ ReplaceAll (drop (length old) (c # s)) old new
      else c # ReplaceAll s old new)"
  by pat_completeness auto
termination
  by (relation "measure (\<lambda>(s, _, _). length s)") auto

definition redacted :: string where
  "redacted = ''[REDACTED]''"

text \<open>
  Attribute values by their kind; \<open>OtherV\<close> stands for numbers, booleans, times and durations. There is no value that computes itself when it is logged
  (\<open>slog.LogValuer\<close>): no type of the repository is one, and the handler would pass it through unredacted.
\<close>

datatype slog_value =
    StringV string
  | GroupV "(string \<times> slog_value) list"
  | ErrorV string  \<comment> \<open>an \<open>any\<close> that is an error, by its text\<close>
  | AnyV string  \<comment> \<open>any other \<open>any\<close>\<close>
  | OtherV string

record slog_record =
  sr_Message :: string
  sr_Attrs :: "(string \<times> slog_value) list"

text \<open>The levels of \<open>slog\<close>.\<close>

datatype slog_level = LevelDebug | LevelInfo | LevelWarn | LevelError

fun level_value :: "slog_level \<Rightarrow> int" where
  "level_value LevelDebug = - 4"
| "level_value LevelInfo = 0"
| "level_value LevelWarn = 4"
| "level_value LevelError = 8"

text \<open>The inner handler is its level, its attributes and the groups that are open in it, the innermost first, each with its attributes.\<close>

record redacting_handler =
  rh_level :: slog_level
  rh_attrs :: "(string \<times> slog_value) list"
  rh_groups :: "(string \<times> (string \<times> slog_value) list) list"
  rh_secrets :: "string list"

definition redact :: "string list \<Rightarrow> string \<Rightarrow> string" where
  "redact secrets s = foldl (\<lambda>s secret. ReplaceAll s secret redacted) s secrets"

fun redact_value :: "string list \<Rightarrow> slog_value \<Rightarrow> slog_value" where
  "redact_value secrets (StringV s) = StringV (redact secrets s)"
| "redact_value secrets (GroupV attrs) = GroupV (map (\<lambda>(k, v). (k, redact_value secrets v)) attrs)"
| "redact_value secrets (ErrorV s) = StringV (redact secrets s)"
| "redact_value secrets (AnyV x) = AnyV x"
| "redact_value secrets (OtherV x) = OtherV x"

definition redactAttr :: "string list \<Rightarrow> string \<times> slog_value \<Rightarrow> string \<times> slog_value" where
  "redactAttr secrets a = (fst a, redact_value secrets (snd a))"

text \<open>\<open>Handler.WithAttrs\<close> of the inner handler: attributes go to the innermost open group.\<close>

definition add_attrs :: "redacting_handler \<Rightarrow> (string \<times> slog_value) list \<Rightarrow> redacting_handler" where
  "add_attrs h attrs =
     (case rh_groups h of
        [] \<Rightarrow> h\<lparr>rh_attrs := rh_attrs h @ attrs\<rparr>
      | (name, xs) # groups \<Rightarrow> h\<lparr>rh_groups := (name, xs @ attrs) # groups\<rparr>)"

text \<open>What is written: each open group is an attribute of the one around it; an empty group is left out.\<close>

fun close_groups :: "(string \<times> slog_value) list \<Rightarrow> (string \<times> (string \<times> slog_value) list) list \<Rightarrow> (string \<times> slog_value) list" where
  "close_groups inner [] = inner"
| "close_groups inner ((name, xs) # groups) =
     close_groups (if xs @ inner = [] then [] else [(name, GroupV (xs @ inner))]) groups"

definition handler_Enabled :: "redacting_handler \<Rightarrow> slog_level \<Rightarrow> bool" where
  "handler_Enabled h level \<longleftrightarrow> level_value level \<ge> level_value (rh_level h)"

definition handler_Handle :: "redacting_handler \<Rightarrow> slog_record \<Rightarrow> slog_record" where
  "handler_Handle h r =
     \<lparr>sr_Message = redact (rh_secrets h) (sr_Message r),
      sr_Attrs = rh_attrs h @ close_groups (map (redactAttr (rh_secrets h)) (sr_Attrs r)) (rh_groups h)\<rparr>"

definition WithAttrs :: "redacting_handler \<Rightarrow> (string \<times> slog_value) list \<Rightarrow> redacting_handler" where
  "WithAttrs h attrs = add_attrs h (map (redactAttr (rh_secrets h)) attrs)"

definition WithGroup :: "redacting_handler \<Rightarrow> string \<Rightarrow> redacting_handler" where
  "WithGroup h name = (if name = [] then h else h\<lparr>rh_groups := (name, []) # rh_groups h\<rparr>)"

text \<open>A logger derived step by step.\<close>

datatype log_step = With "(string \<times> slog_value) list" | Group string

fun derive :: "redacting_handler \<Rightarrow> log_step \<Rightarrow> redacting_handler" where
  "derive h (With attrs) = WithAttrs h attrs"
| "derive h (Group name) = WithGroup h name"

definition NewLogger :: "(string \<Rightarrow> string) \<Rightarrow> string \<Rightarrow> string \<Rightarrow> string list \<Rightarrow> redacting_handler" where
  "NewLogger unicode_lower level workerID secrets =
     (let lower = ToLower unicode_lower level;
          lvl = (if lower = ''debug'' then LevelDebug
                 else if lower = ''warn'' \<or> lower = ''warning'' then LevelWarn
                 else if lower = ''error'' then LevelError
                 else LevelInfo);
          filtered = filter (\<lambda>s. s \<noteq> []) secrets
      in WithAttrs \<lparr>rh_level = lvl, rh_attrs = [], rh_groups = [], rh_secrets = filtered\<rparr> [(''workerId'', StringV workerID)])"

record job_fields =
  jf_TraceID :: string
  jf_EventID :: string
  jf_DeploymentID :: string
  jf_TeamID :: string
  jf_SiteID :: string
  jf_PageID :: string
  jf_Slug :: string
  jf_Version :: string
  jf_Environment :: string
  jf_RenderMode :: string
  jf_Attempt :: int

definition JobLogger :: "redacting_handler \<Rightarrow> job_fields \<Rightarrow> redacting_handler" where
  "JobLogger base f = WithAttrs base
     [(''traceId'', StringV (jf_TraceID f)), (''eventId'', StringV (jf_EventID f)), (''deploymentId'', StringV (jf_DeploymentID f)),
      (''teamId'', StringV (jf_TeamID f)), (''siteId'', StringV (jf_SiteID f)), (''pageId'', StringV (jf_PageID f)),
      (''slug'', StringV (jf_Slug f)), (''version'', StringV (jf_Version f)), (''environment'', StringV (jf_Environment f)),
      (''renderMode'', StringV (jf_RenderMode f)), (''attempt'', OtherV (FormatInt (jf_Attempt f)))]"

section \<open>Lifecycle\<close>

definition StateStarting :: int where "StateStarting = 0"
definition StateReady :: int where "StateReady = 1"
definition StateDraining :: int where "StateDraining = 2"
definition StateStopped :: int where "StateStopped = 3"

definition Lifecycle_Ready :: "int \<Rightarrow> bool" where
  "Lifecycle_Ready state \<longleftrightarrow> state = StateReady"

definition stateName :: "int \<Rightarrow> string" where
  "stateName s =
     (if s = StateStarting then ''STARTING''
      else if s = StateReady then ''READY''
      else if s = StateDraining then ''DRAINING''
      else ''STOPPED'')"

text \<open>The readiness probe: the status code and the value of \<open>status\<close> in the body.\<close>

definition readyz :: "int \<Rightarrow> int \<times> string" where
  "readyz state = (if Lifecycle_Ready state then (200, ''ok'') else (503, stateName state))"

section \<open>Facts\<close>

text \<open>A secret that can be told apart from the mark.\<close>

definition plain_secret :: "string \<Rightarrow> bool" where
  "plain_secret s \<longleftrightarrow> s \<noteq> [] \<and> CHR ''['' \<notin> set s \<and> CHR '']'' \<notin> set s \<and> \<not> Contains ''REDACTED'' s"

lemma Contains_sublist: "Contains s p \<longleftrightarrow> sublist p s"
  by (induction s) (auto simp: sublist_Cons_right)

lemma redacted_prefix:
  assumes "CHR ''['' \<notin> set t" "prefix t (ReplaceAll s old redacted)"
  shows "prefix t s"
  using assms
proof (induction s old redacted arbitrary: t rule: ReplaceAll.induct)
  case (2 c s old)
  show ?case
  proof (cases "old \<noteq> [] \<and> prefix old (c # s)")
    case True
    with 2(3,4) show ?thesis by (cases t) (auto simp: redacted_def)
  next
    case False
    with 2(2) [of "tl t"] 2(3,4) show ?thesis by (cases t) auto
  qed
qed simp

lemma mark_split:
  assumes "plain_secret t" "sublist t (redacted @ u)"
  shows "sublist t u"
proof -
  have "\<not> sublist t redacted"
  proof
    assume "sublist t redacted"
    then obtain p q where pq: "''[REDACTED]'' = p @ t @ q" by (auto simp: sublist_def redacted_def)
    have "hd t \<noteq> CHR ''['' " using assms(1) by (cases t) (auto simp: plain_secret_def)
    with pq assms(1) obtain p' where "p = CHR ''['' # p'" by (cases p; cases t) (auto simp: plain_secret_def)
    with pq have pq': "''REDACTED]'' = p' @ t @ q" by simp
    have "last t \<noteq> CHR '']''" using assms(1) by (metis last_in_set plain_secret_def)
    with pq' assms(1) have "q \<noteq> []" by (auto simp: plain_secret_def dest: arg_cong [where f = last])
    then obtain q' x where "q = q' @ [x]" by (metis append_butlast_last_id)
    then have "''REDACTED'' = p' @ t @ q'" using arg_cong [OF pq', of butlast] by (simp add: butlast_append)
    then show False using assms(1) by (auto simp: plain_secret_def Contains_sublist sublist_def)
  qed
  moreover have "t2 = t" if "t = t1 @ t2" "suffix t1 redacted" for t1 t2
    using that assms(1) by (cases t1 rule: rev_cases) (auto simp: plain_secret_def redacted_def suffix_def dest: arg_cong [where f = last])
  ultimately show ?thesis
    using assms(2) unfolding sublist_append by (metis prefix_imp_sublist)
qed

lemma redacted_sublist:
  assumes "plain_secret t" "sublist t (ReplaceAll s old redacted)"
  shows "sublist t s \<and> t \<noteq> old"
  using assms(2)
proof (induction s old redacted rule: ReplaceAll.induct)
  case (1 old)
  then show ?case using assms(1) by (simp add: plain_secret_def)
next
  case (2 c s old)
  show ?case
  proof (cases "old \<noteq> [] \<and> prefix old (c # s)")
    case True
    then have "sublist t (redacted @ ReplaceAll (drop (length old) (c # s)) old redacted)" using 2(3) by simp
    from mark_split [OF assms(1) this] 2(1) [OF True] have "sublist t (drop (length old) (c # s)) \<and> t \<noteq> old" by blast
    then show ?thesis using sublist_order.order.trans [OF _ sublist_drop] by blast
  next
    case False
    then have "prefix t (c # ReplaceAll s old redacted) \<or> sublist t (ReplaceAll s old redacted)"
      using 2(3) by (simp only: ReplaceAll.simps if_False sublist_Cons_right)
    then show ?thesis
    proof
      assume "prefix t (c # ReplaceAll s old redacted)"
      then have "prefix t (ReplaceAll (c # s) old redacted)" using False by auto
      then have "prefix t (c # s)" by (rule redacted_prefix [rotated]) (use assms(1) in \<open>simp add: plain_secret_def\<close>)
      with False assms(1) show ?thesis by (auto simp: plain_secret_def)
    next
      assume "sublist t (ReplaceAll s old redacted)"
      from 2(2) [OF False this] show ?thesis by (auto simp: sublist_Cons_right)
    qed
  qed
qed

lemma redact_sublist: "plain_secret t \<Longrightarrow> sublist t (redact secrets s) \<Longrightarrow> sublist t s \<and> t \<notin> set secrets"
proof (induction secrets arbitrary: s)
  case (Cons x xs)
  then show ?case using redacted_sublist [of t s x] by (auto simp: redact_def)
qed (simp add: redact_def)

text \<open>The texts in a value: everything that is written as a string.\<close>

fun value_texts :: "slog_value \<Rightarrow> string set" where
  "value_texts (StringV s) = {s}"
| "value_texts (GroupV attrs) = \<Union> (set (map (value_texts \<circ> snd) attrs))"
| "value_texts (ErrorV s) = {s}"
| "value_texts (AnyV x) = {}"
| "value_texts (OtherV x) = {}"

lemma redact_value_texts: "value_texts (redact_value secrets v) = redact secrets ` value_texts v"
proof (induction v)
  case (GroupV attrs)
  then show ?case by (force simp: case_prod_beta image_UN intro!: SUP_cong)
qed simp_all

text \<open>A logger whose attributes have been redacted.\<close>

definition clean_attrs :: "string list \<Rightarrow> (string \<times> slog_value) list \<Rightarrow> bool" where
  "clean_attrs fs attrs \<longleftrightarrow> (\<forall>a \<in> set attrs. value_texts (snd a) \<subseteq> range (redact fs))"

definition clean_handler :: "string list \<Rightarrow> redacting_handler \<Rightarrow> bool" where
  "clean_handler fs h \<longleftrightarrow> rh_secrets h = fs \<and> clean_attrs fs (rh_attrs h) \<and> (\<forall>g \<in> set (rh_groups h). clean_attrs fs (snd g))"

lemma clean_redacted: "clean_attrs fs (map (redactAttr fs) attrs)"
  by (auto simp: clean_attrs_def redactAttr_def redact_value_texts)

lemma clean_append [simp]: "clean_attrs fs (xs @ ys) \<longleftrightarrow> clean_attrs fs xs \<and> clean_attrs fs ys"
  by (auto simp: clean_attrs_def)

lemma clean_close: "clean_attrs fs inner \<Longrightarrow> \<forall>g \<in> set groups. clean_attrs fs (snd g) \<Longrightarrow> clean_attrs fs (close_groups inner groups)"
proof (induction inner groups rule: close_groups.induct)
  case (2 inner name xs groups)
  have "clean_attrs fs (if xs @ inner = [] then [] else [(name, GroupV (xs @ inner))])"
    using 2(2,3) by (auto simp: clean_attrs_def)
  with 2 show ?case by simp
qed simp

lemma derive_clean: "clean_handler fs h \<Longrightarrow> clean_handler fs (derive h step)"
  by (cases step; cases "rh_groups h")
    (auto simp: clean_handler_def WithAttrs_def WithGroup_def add_attrs_def clean_redacted clean_attrs_def [of _ "[]"])

lemma derive_all_clean: "clean_handler fs h \<Longrightarrow> clean_handler fs (foldl derive h steps)"
  by (induction steps arbitrary: h) (simp_all add: derive_clean)

section \<open>Properties\<close>

text \<open>
  C33. Secrets do not reach the log. For any logger made by \<open>NewLogger\<close> and given further attributes and groups in any order, and any record: if a secret has no
  square bracket and is not a part of the word REDACTED, it occurs neither in the message nor in any string or error text of the record
  that is written, nested groups and the attributes of the logger included.
\<close>

theorem secrets_redacted:
  assumes "secret \<in> set secrets" "plain_secret secret"
    and "out = handler_Handle (foldl derive (NewLogger unicode_lower level workerID secrets) steps) r"
    and "text = sr_Message out \<or> (\<exists>k v. (k, v) \<in> set (sr_Attrs out) \<and> text \<in> value_texts v)"
  shows "\<not> Contains text secret"
proof -
  let ?h = "foldl derive (NewLogger unicode_lower level workerID secrets) steps"
  define fs where "fs = filter (\<lambda>s. s \<noteq> []) secrets"
  have "clean_handler fs \<lparr>rh_level = lvl, rh_attrs = [], rh_groups = [], rh_secrets = fs\<rparr>" for lvl
    by (simp add: clean_handler_def clean_attrs_def)
  from derive_clean [OF this, of _ "With [(''workerId'', StringV workerID)]"] have "clean_handler fs (NewLogger unicode_lower level workerID secrets)"
    by (simp add: NewLogger_def Let_def fs_def)
  then have h: "clean_handler fs ?h" by (rule derive_all_clean)
  then have "clean_attrs fs (sr_Attrs out)"
    using clean_close [OF clean_redacted, of "rh_groups ?h" fs] by (simp add: assms(3) handler_Handle_def clean_handler_def)
  moreover have "sr_Message out \<in> range (redact fs)" using h by (simp add: assms(3) handler_Handle_def clean_handler_def)
  ultimately have "text \<in> range (redact fs)" using assms(4) by (fastforce simp: clean_attrs_def)
  moreover have "secret \<in> set fs" using assms(1,2) by (simp add: fs_def plain_secret_def)
  ultimately show ?thesis using redact_sublist [OF assms(2)] by (auto simp: Contains_sublist)
qed

theorem secrets_redacted_witness:
  "\<not> Contains ''token=[REDACTED];'' ''tok1''"
proof -
  let ?r = "\<lparr>sr_Message = ''m'', sr_Attrs = [(''err'', ErrorV ''token=tok1;'')]\<rparr>"
  let ?out = "handler_Handle (foldl derive (NewLogger id ''info'' ''w1'' [''tok1'', []]) [Group ''g'']) ?r"
  have attrs: "sr_Attrs ?out = [(''workerId'', StringV ''w1''), (''g'', GroupV [(''err'', StringV ''token=[REDACTED];'')])]"
    by code_simp
  have "(''g'', GroupV [(''err'', StringV ''token=[REDACTED];'')]) \<in> set (sr_Attrs ?out) \<and>
      ''token=[REDACTED];'' \<in> value_texts (GroupV [(''err'', StringV ''token=[REDACTED];'')])" unfolding attrs by simp
  then have "''token=[REDACTED];'' = sr_Message ?out \<or>
      (\<exists>k v. (k, v) \<in> set (sr_Attrs ?out) \<and> ''token=[REDACTED];'' \<in> value_texts v)" by blast
  moreover have "''tok1'' \<in> set [''tok1'', []]" "plain_secret ''tok1''" by (simp_all add: plain_secret_def)
  ultimately show ?thesis using secrets_redacted [OF _ _ refl] by blast
qed

end
