(* ===== verification/Lock.thy ===== *)
theory Lock
  imports Redis_Server
begin

text \<open>
  The per-deployment lock, \<open>src/internal/lock/lock.go\<close>. The two scripts are programs over the commands
  that they call. The heartbeat goroutine is \<open>heartbeat\<close>, over what happens while it waits for each of
  the ticks that come before it is stopped; \<open>lock_step\<close> is the relation of all workers' lock
  operations and of time.
\<close>

section \<open>Operations\<close>

definition KeyPrefix :: string where
  "KeyPrefix = ''lock:deployment:''"

definition renewScript :: "'w redis \<Rightarrow> string \<Rightarrow> string \<Rightarrow> int \<Rightarrow> ('w, int) state" where
  "renewScript r key owner ms = do {
     v \<leftarrow> lua_get r key;
     if v = Some owner then lua_pexpire r key ms else ret 0
   }"

definition releaseScript :: "'w redis \<Rightarrow> string \<Rightarrow> string \<Rightarrow> ('w, int) state" where
  "releaseScript r key owner = do {
     v \<leftarrow> lua_get r key;
     if v = Some owner then lua_del r key else ret 0
   }"

definition TTLFor :: "duration \<Rightarrow> duration \<Rightarrow> duration" where
  "TTLFor renderTimeout uploadTimeout =
     (let ttl = int64 (int64 (renderTimeout + uploadTimeout) + 60 * Second)
      in if ttl < 90 * Second then 90 * Second else ttl)"

record 'w locker =
  lk_rdb :: "'w redis"
  lk_workerID :: string
  lk_ttl :: duration
  lk_heartbeatEvery :: duration

text \<open>Division of durations truncates towards zero.\<close>

definition third_of :: "duration \<Rightarrow> duration" where
  "third_of d = (if d < 0 then - ((- d) div 3) else d div 3)"

definition NewLocker :: "'w redis \<Rightarrow> string \<Rightarrow> duration \<Rightarrow> 'w locker" where
  "NewLocker r workerID ttl =
     \<lparr>lk_rdb = r, lk_workerID = workerID, lk_ttl = ttl, lk_heartbeatEvery = third_of ttl\<rparr>"

record 'w lease =
  le_locker :: "'w locker"
  le_key :: string

definition Acquire :: "'w locker \<Rightarrow> string \<Rightarrow> ('w, gerr + 'w lease) state" where
  "Acquire l deploymentID = do {
     let key = KeyPrefix @ deploymentID;
     ok \<leftarrow> SetNX (lk_rdb l) key (lk_workerID l) (lk_ttl l);
     ret (case ok of
            Inl err \<Rightarrow> Inl (WrapE err)
          | Inr ok \<Rightarrow> if \<not> ok then Inl LockConflictE else Inr \<lparr>le_locker = l, le_key = key\<rparr>)
   }"

definition heartbeat_period :: "'w lease \<Rightarrow> duration" where
  "heartbeat_period le =
     (if lk_heartbeatEvery (le_locker le) \<le> 0 then third_of (lk_ttl (le_locker le)) else lk_heartbeatEvery (le_locker le))"

text \<open>What the goroutine does at a tick; \<open>True\<close> when the lease is lost.\<close>

definition heartbeat_tick :: "'w lease \<Rightarrow> ('w, bool) state" where
  "heartbeat_tick le = do {
     let l = le_locker le;
     renewed \<leftarrow> Eval (lk_rdb l) (renewScript (lk_rdb l) (le_key le) (lk_workerID l) (Milliseconds (lk_ttl l)));
     ret (renewed = Inr 0)
   }"

fun heartbeat :: "'w lease \<Rightarrow> ('w, unit) state list \<Rightarrow> ('w, bool) state" where
  "heartbeat le [] = ret False"
| "heartbeat le (wait # waits) = do {
     wait;
     lost \<leftarrow> heartbeat_tick le;
     if lost then ret True else heartbeat le waits
   }"

definition Release :: "'w lease \<Rightarrow> ('w, gerr option) state" where
  "Release le = do {
     let l = le_locker le;
     r \<leftarrow> Eval (lk_rdb l) (releaseScript (lk_rdb l) (le_key le) (lk_workerID l));
     ret (case r of
            Inl err \<Rightarrow> if \<not> errors_Is (Some err) RedisNilE then Some (WrapE err) else None
          | Inr _ \<Rightarrow> None)
   }"

section \<open>What the lock relies on of Redis\<close>

text \<open>
  \<open>lock_of w key\<close> is the value and the expiry of a key. A key past its expiry is absent. A script runs
  as a whole, or not at all when it reports an error, possibly after it has run.
\<close>

definition live :: "time \<Rightarrow> (string \<times> time) option \<Rightarrow> string option" where
  "live t e = (case e of None \<Rightarrow> None | Some (v, expiry) \<Rightarrow> if t < expiry then Some v else None)"

locale lock_env =
  fixes r :: "'w redis" and now :: "'w \<Rightarrow> time" and lock_of :: "'w \<Rightarrow> string \<rightharpoonup> string \<times> time"
    and elapse :: "duration \<Rightarrow> 'w \<Rightarrow> 'w"
  assumes setnx: "wp (SetNX r key v ttl1) (\<lambda>res w'. now w' = now w \<and>
      (res = Inr False \<longrightarrow> live (now w) (lock_of w key) \<noteq> None) \<and>
      (if res = Inr True \<or> (\<exists>e. res = Inl e) \<and> lock_of w' \<noteq> lock_of w
       then live (now w) (lock_of w key) = None \<and> lock_of w' = (lock_of w)(key \<mapsto> (v, now w + ttl1))
       else lock_of w' = lock_of w)) w"
    and eval: "wp (Eval r script) (\<lambda>res w'.
      (\<exists>w0 x. now w0 = now w \<and> lock_of w0 = lock_of w \<and> run_state script w0 = (x, w') \<and>
         (res = Inr x \<or> (\<exists>e. res = Inl e))) \<or>
      (\<exists>e. res = Inl e \<and> \<not> errors_Is (Some e) RedisNilE) \<and> now w' = now w \<and> lock_of w' = lock_of w) w"
    and get: "wp (lua_get r key) (\<lambda>v w'. v = live (now w) (lock_of w key) \<and>
      now w' = now w \<and> lock_of w' = lock_of w) w"
    and pexpire: "live (now w) (lock_of w key) = Some v \<Longrightarrow> wp (lua_pexpire r key ms) (\<lambda>n w'. n = 1 \<and>
      now w' = now w \<and> lock_of w' = (lock_of w)(key \<mapsto> (v, now w + ms * Millisecond))) w"
    and del: "live (now w) (lock_of w key) = Some v \<Longrightarrow> wp (lua_del r key) (\<lambda>n w'. n = 1 \<and>
      now w' = now w \<and> lock_of w' = (lock_of w)(key := None)) w"
    and elapse: "now (elapse d w) = now w + d" "lock_of (elapse d w) = lock_of w"
begin

text \<open>The scripts touch the key only when its live value is the owner.\<close>

lemma renewScript_spec:
  "wp (renewScript r key owner ms) (\<lambda>n w'. now w' = now w \<and>
     (if live (now w) (lock_of w key) = Some owner
      then n = 1 \<and> lock_of w' = (lock_of w)(key \<mapsto> (owner, now w + ms * Millisecond))
      else n = 0 \<and> lock_of w' = lock_of w)) w"
  unfolding renewScript_def wp_bind
proof (rule wp_mono [OF get], goal_cases)
  case (1 v w1)
  then show ?case
    by (auto intro!: wp_mono [OF pexpire, of w1])
qed

lemma releaseScript_spec:
  "wp (releaseScript r key owner) (\<lambda>n w'. now w' = now w \<and>
     (if live (now w) (lock_of w key) = Some owner
      then n = 1 \<and> lock_of w' = (lock_of w)(key := None) else n = 0 \<and> lock_of w' = lock_of w)) w"
  unfolding releaseScript_def wp_bind
proof (rule wp_mono [OF get], goal_cases)
  case (1 v w1)
  then show ?case
    by (auto intro!: wp_mono [OF del, of w1])
qed

lemma heartbeat_tick_spec:
  assumes "lk_rdb (le_locker le) = r"
  shows "wp (heartbeat_tick le) (\<lambda>lost w'. now w' = now w \<and>
     (if live (now w) (lock_of w (le_key le)) = Some (lk_workerID (le_locker le))
      then \<not> lost \<and> (lock_of w' = lock_of w \<or> lock_of w' = (lock_of w)(le_key le \<mapsto>
        (lk_workerID (le_locker le), now w + Milliseconds (lk_ttl (le_locker le)) * Millisecond)))
      else lock_of w' = lock_of w)) w"
  unfolding heartbeat_tick_def Let_def assms wp_bind wp_return
  by (rule wp_mono [OF eval]) (auto dest: wp_run [OF renewScript_spec] split: if_splits)

lemma Release_spec:
  assumes "lk_rdb (le_locker le) = r"
  shows "wp (Release le) (\<lambda>err w'. now w' = now w \<and>
     (if live (now w) (lock_of w (le_key le)) = Some (lk_workerID (le_locker le))
      then lock_of w' = (lock_of w)(le_key le := None) \<or> err \<noteq> None \<and> lock_of w' = lock_of w
      else lock_of w' = lock_of w)) w"
  unfolding Release_def Let_def assms wp_bind wp_return
  by (rule wp_mono [OF eval]) (auto dest: wp_run [OF releaseScript_spec] split: if_splits)

end

section \<open>The lock operations of a set of workers\<close>

text \<open>
  One step: any worker tries to acquire a lock, its heartbeat ticks for a lease, or it releases a lease, with any outcome; or time passes. \<open>T\<close> is the TTL
  of each worker's locker, and \<open>R\<close> says which worker may release which key.
\<close>

inductive lock_step :: "'w redis \<Rightarrow> (duration \<Rightarrow> 'w \<Rightarrow> 'w) \<Rightarrow> (string \<Rightarrow> duration) \<Rightarrow> (string \<Rightarrow> string \<Rightarrow> bool) \<Rightarrow> 'w \<Rightarrow> 'w \<Rightarrow> bool"
  for r elapse T R where
  acquire: "run_state (Acquire (NewLocker r v (T v)) dep) s = (res, s') \<Longrightarrow> lock_step r elapse T R s s'"
| tick: "le_locker le = NewLocker r v (T v) \<Longrightarrow> run_state (heartbeat_tick le) s = (lost, s') \<Longrightarrow> lock_step r elapse T R s s'"
| release: "R v (le_key le) \<Longrightarrow> le_locker le = NewLocker r v (T v) \<Longrightarrow> run_state (Release le) s = (err, s') \<Longrightarrow>
    lock_step r elapse T R s s'"
| pass: "0 \<le> d \<Longrightarrow> lock_step r elapse T R s (elapse d s)"

text \<open>A TTL in whole milliseconds, as the renewal sets it.\<close>

definition whole_ms :: "duration \<Rightarrow> duration" where
  "whole_ms t = Milliseconds t * Millisecond"

lemma whole_ms_le: "0 < whole_ms t \<Longrightarrow> whole_ms t \<le> t"
  unfolding whole_ms_def Milliseconds_def Millisecond_def by (auto split: if_splits)

lemma NewLocker_simps [simp]:
  "lk_rdb (NewLocker r v t) = r" "lk_workerID (NewLocker r v t) = v" "lk_ttl (NewLocker r v t) = t"
  by (simp_all add: NewLocker_def)

lemma live_Some: "t < expiry \<Longrightarrow> live t (Some (v, expiry)) = Some v"
  by (simp add: live_def)

context lock_env
begin

lemma Acquire_spec:
  "wp (Acquire (NewLocker r v t) dep) (\<lambda>res w'. now w' = now w \<and>
     (res = Inl LockConflictE \<longrightarrow> live (now w) (lock_of w (KeyPrefix @ dep)) \<noteq> None) \<and>
     (\<forall>le. res = Inr le \<longrightarrow> le = \<lparr>le_locker = NewLocker r v t, le_key = KeyPrefix @ dep\<rparr> \<and>
        lock_of w' (KeyPrefix @ dep) = Some (v, now w + t)) \<and>
     (lock_of w' = lock_of w \<or>
      live (now w) (lock_of w (KeyPrefix @ dep)) = None \<and>
      lock_of w' = (lock_of w)(KeyPrefix @ dep \<mapsto> (v, now w + t)))) w"
  unfolding Acquire_def Let_def wp_bind wp_return NewLocker_simps
  by (rule wp_mono [OF setnx]) (auto split: sum.splits if_splits)

text \<open>
  A live lock stays its owner's under any step but a release by the owner: the expiry stays, or it is renewed to a full TTL from now.
\<close>

lemma step_time: "lock_step r elapse T R w w' \<Longrightarrow> now w \<le> now w'"
  by (erule lock_step.cases)
    (auto simp: elapse dest: wp_run [OF Acquire_spec] wp_run [OF heartbeat_tick_spec, rotated]
      wp_run [OF Release_spec, rotated])

lemma step_keeps:
  assumes "lock_step r elapse T R w w'" "lock_of w key = Some (v, expiry)" "\<not> R v key" "now w < expiry"
  shows "lock_of w' key = Some (v, expiry) \<or> lock_of w' key = Some (v, now w + whole_ms (T v))"
proof -
  have owner: "live (now w) (lock_of w key) = Some v" using assms(2,4) by (simp add: live_Some)
  show ?thesis
    using assms(1)
  proof cases
    case (acquire u dep res)
    from wp_run [OF Acquire_spec acquire] owner assms(2) show ?thesis by (auto split: if_splits)
  next
    case (tick le u lost)
    then have "lk_rdb (le_locker le) = r" by simp
    from wp_run [OF heartbeat_tick_spec [OF this] tick(2)] owner assms(2) tick(1) show ?thesis
      by (cases "le_key le = key") (auto simp: whole_ms_def split: if_splits)
  next
    case (release u le err)
    then have "lk_rdb (le_locker le) = r" by simp
    from wp_run [OF Release_spec [OF this] release(3)] owner assms(2,3) release(1,2) show ?thesis
      by (cases "le_key le = key") (auto split: if_splits)
  next
    case (pass d)
    then show ?thesis using assms(2) by (simp add: elapse)
  qed
qed

lemma steps_keep:
  assumes "(lock_step r elapse T R)\<^sup>*\<^sup>* w w'" "lock_of w key = Some (v, expiry)" "\<not> R v key"
    and "now w + whole_ms (T v) \<le> expiry" "now w' < now w + whole_ms (T v)"
  shows "now w \<le> now w' \<and> (\<exists>e \<ge> now w + whole_ms (T v). lock_of w' key = Some (v, e))"
  using assms(1,5)
proof (induction rule: rtranclp_induct)
  case base
  show ?case using assms(2,4) by auto
next
  case (step w1 w2)
  note time = step_time [OF step.hyps(2)]
  with step obtain e where e: "now w \<le> now w1" "now w + whole_ms (T v) \<le> e" "lock_of w1 key = Some (v, e)" by force
  with time step.prems step_keeps [OF step.hyps(2) e(3) assms(3)] show ?case by force
qed

end

section \<open>The lock on the reference server\<close>

definition server_elapse :: "duration \<Rightarrow> server \<Rightarrow> server" where
  "server_elapse d s = s\<lparr>srv_time := srv_time s + d\<rparr>"

lemma srv_get_live: "srv_get key s = live (srv_time s) (srv_keys s key)"
  by (simp add: srv_get_def live_def split: option.splits)

interpretation server_lock: lock_env server_redis srv_time srv_keys server_elapse
proof (unfold_locales, goal_cases)
  case (1 key v ttl1 w)
  show ?case
    unfolding server_redis_def redis.simps
    by (rule wp_faulty) (auto simp: srv_SetNX_def srv_get_live)
next
  case (2 script w)
  have keep: "srv_time (w\<lparr>srv_faults := fs\<rparr>) = srv_time w" "srv_keys (w\<lparr>srv_faults := fs\<rparr>) = srv_keys w" for fs
    by simp_all
  show ?case
    unfolding server_redis_def redis.simps
  proof (rule wp_faulty, goal_cases)
    case (1 fs)
    obtain x w' where "run_state script (w\<lparr>srv_faults := fs\<rparr>) = (x, w')" by fastforce
    then have "\<exists>w0. srv_time w0 = srv_time w \<and> srv_keys w0 = srv_keys w \<and> run_state script w0 = (x, w')"
      using keep [of fs] by blast
    with \<open>run_state script (w\<lparr>srv_faults := fs\<rparr>) = (x, w')\<close> show ?case by simp blast
  qed (simp add: errors_Is_def)
next
  case (3 key w)
  show ?case by (simp add: server_redis_def wp_def srv_get_live)
next
  case (4 w key v ms)
  then show ?case by (simp add: server_redis_def wp_def srv_pexpire_def srv_get_live)
next
  case (5 w key v)
  then show ?case by (simp add: server_redis_def wp_def srv_del_def srv_get_live)
qed (simp_all add: server_elapse_def)

section \<open>Properties\<close>

text \<open>
  C16. Mutual exclusion until the TTL. On any Redis with the documented behaviour: once worker \<open>v\<close> has acquired the lock of a deployment, then after any
  sequence of lock operations of all workers, \<open>v\<close> itself included (acquisitions, heartbeats and releases, successful or not), in which \<open>v\<close> releases no
  lease of this deployment, and any passage of time short of the TTL in whole milliseconds, the lock is still that of \<open>v\<close>, it does not expire before that
  TTL, and no acquisition by any worker succeeds.
\<close>

theorem lock_exclusive:
  assumes "lock_env r now lock_of elapse"
    and "run_state (Acquire (NewLocker r v (T v)) dep) w0 = (Inr le, w1)"
    and "(lock_step r elapse T R)\<^sup>*\<^sup>* w1 w2" "\<not> R v (le_key le)" "now w2 < now w0 + whole_ms (T v)"
  shows "(\<exists>e \<ge> now w0 + whole_ms (T v). lock_of w2 (le_key le) = Some (v, e)) \<and>
    wp (Acquire (NewLocker r u t) dep) (\<lambda>res _. \<exists>e. res = Inl e) w2"
proof -
  note spec = wp_run [OF lock_env.Acquire_spec [OF assms(1)] assms(2)]
  then have key: "le_key le = KeyPrefix @ dep" and w1: "now w1 = now w0" "lock_of w1 (KeyPrefix @ dep) = Some (v, now w0 + T v)"
    by auto
  have "now w1 \<le> now w2"
    using assms(3) by (induction rule: rtranclp_induct) (auto dest: lock_env.step_time [OF assms(1)])
  with assms(5) w1 have "whole_ms (T v) \<le> T v" by (intro whole_ms_le) simp
  with lock_env.steps_keep [OF assms(1,3) w1(2)] assms(4,5) w1(1) key
  obtain e where kept: "now w0 + whole_ms (T v) \<le> e" "lock_of w2 (KeyPrefix @ dep) = Some (v, e)" by auto
  have "wp (Acquire (NewLocker r u t) dep) (\<lambda>res _. \<exists>e. res = Inl e) w2"
    unfolding Acquire_def Let_def wp_bind wp_return NewLocker_simps
    by (rule wp_mono [OF lock_env.setnx [OF assms(1)]])
      (use kept assms(5) in \<open>auto simp: live_Some split: sum.splits if_splits\<close>)
  with kept key show ?thesis by auto
qed

theorem lock_exclusive_witness:
  "\<exists>le s1. run_state (Acquire (NewLocker server_redis ''w1'' (90 * Second)) ''d1'') empty_server = (Inr le, s1) \<and>
     (\<exists>e \<ge> 90 * Second. srv_keys (server_elapse (89 * Second) s1) (le_key le) = Some (''w1'', e))"
proof -
  obtain res s1 where run: "run_state (Acquire (NewLocker server_redis ''w1'' ((\<lambda>_. 90 * Second) ''w1'')) ''d1'') empty_server = (res, s1)"
    by fastforce
  have "\<not> isl (fst (run_state (Acquire (NewLocker server_redis ''w1'' (90 * Second)) ''d1'') empty_server))"
    "srv_time (snd (run_state (Acquire (NewLocker server_redis ''w1'' (90 * Second)) ''d1'') empty_server)) = 0"
    by code_simp+
  then obtain le where res: "res = Inr le" "srv_time s1 = 0" using run by (cases res) auto
  have ttl: "whole_ms (90 * Second) = 90 * Second" by code_simp
  have "(lock_step server_redis server_elapse (\<lambda>_. 90 * Second) (\<lambda>u _. u = ''w2''))\<^sup>*\<^sup>* s1 (server_elapse (89 * Second) s1)"
    by (rule r_into_rtranclp, rule lock_step.pass) (simp add: Second_def Millisecond_def)
  from lock_exclusive [OF server_lock.lock_env_axioms run [unfolded res(1)] this]
  have "\<exists>e \<ge> 90 * Second. srv_keys (server_elapse (89 * Second) s1) (le_key le) = Some (''w1'', e)"
    by (simp add: server_elapse_def res(2) ttl) (simp add: empty_server_def Second_def Millisecond_def)
  with run res(1) show ?thesis by auto
qed



text \<open>
  The TTL is at least 90 seconds whatever the configured timeouts, an \<open>int64\<close> overflow of their sum
  included; it covers both timeouts and the minute of slack when their sum does not overflow; and the
  heartbeat period is positive (the ticker does not panic) and fits three times into the TTL.
\<close>

theorem TTLFor_covers_job:
  fixes renderTimeout uploadTimeout :: duration
  shows "90 * Second \<le> TTLFor renderTimeout uploadTimeout \<and>
    (0 \<le> renderTimeout \<longrightarrow> 0 \<le> uploadTimeout \<longrightarrow> renderTimeout + uploadTimeout + 60 * Second < 2 ^ 63 \<longrightarrow>
       renderTimeout + uploadTimeout + 60 * Second \<le> TTLFor renderTimeout uploadTimeout) \<and>
    (let le = \<lparr>le_locker = NewLocker r w (TTLFor renderTimeout uploadTimeout), le_key = key\<rparr>
     in 0 < heartbeat_period le \<and> 3 * heartbeat_period le \<le> TTLFor renderTimeout uploadTimeout)"
proof -
  have ge: "90 * Second \<le> TTLFor renderTimeout uploadTimeout" by (simp add: TTLFor_def Let_def)
  have "int64 (int64 (renderTimeout + uploadTimeout) + 60 * Second) = renderTimeout + uploadTimeout + 60 * Second"
    if "0 \<le> renderTimeout" "0 \<le> uploadTimeout" "renderTimeout + uploadTimeout + 60 * Second < 2 ^ 63"
    using that by (simp add: int64_id Second_def Millisecond_def)
  then have "0 \<le> renderTimeout \<longrightarrow> 0 \<le> uploadTimeout \<longrightarrow> renderTimeout + uploadTimeout + 60 * Second < 2 ^ 63 \<longrightarrow>
      renderTimeout + uploadTimeout + 60 * Second \<le> TTLFor renderTimeout uploadTimeout"
    by (auto simp: TTLFor_def Let_def)
  moreover have "0 < third_of t \<and> 3 * third_of t \<le> t" if "90 * Second \<le> t" for t
    using that unfolding third_of_def Second_def Millisecond_def by presburger
  ultimately show ?thesis
    using ge by (simp add: Let_def heartbeat_period_def NewLocker_def)
qed

theorem TTLFor_covers_job_witness:
  "TTLFor (30 * Second) (20 * Second) = 110 * Second \<and> 90 * Second \<le> TTLFor (2 ^ 62) (2 ^ 62)"
  using TTLFor_covers_job [of "2 ^ 62" "2 ^ 62"] by (auto simp: TTLFor_def Second_def Millisecond_def int64_def)

text \<open>
  The owner check is by worker, not by lease. When a lease expires and its own worker acquires the lock
  again for another delivery of the deployment, the release of the old lease deletes the lock of the new
  one, which is live, and a second worker acquires the deployment at once.
\<close>

theorem lock_same_worker_release:
  "case run_state (do {
       le1 \<leftarrow> Acquire (NewLocker server_redis ''w1'' (90 * Second)) ''d1'';
       State (\<lambda>s. ((), server_elapse (100 * Second) s));
       le2 \<leftarrow> Acquire (NewLocker server_redis ''w1'' (90 * Second)) ''d1'';
       err \<leftarrow> Release (case le1 of Inr le \<Rightarrow> le | Inl _ \<Rightarrow> \<lparr>le_locker = NewLocker server_redis ''w1'' 0, le_key = []\<rparr>);
       le3 \<leftarrow> Acquire (NewLocker server_redis ''w2'' (90 * Second)) ''d1'';
       ret (isl le1 \<or> isl le2, err, isl le3)
     }) empty_server of
   ((failed, err, failed3), s) \<Rightarrow> \<not> failed \<and> err = None \<and> \<not> failed3 \<and> srv_time s = 100 * Second"
  by code_simp

end
