(* ===== verification/Worker_Main.thy ===== *)
theory Worker_Main
  imports Worker_Rule Config Obs Dispatcher Trim Lock
begin

text \<open>
  The process, \<open>run\<close> in \<open>src/cmd/export-worker/main.go\<close>: checks at boot, the wiring of the components from the
  configuration, and a round of the goroutines that trim and measure. The running process is \<open>Process\<close>.
\<close>

section \<open>What the process is given\<close>

text \<open>
  Clients, transports, codecs, clock and random source. A transport depends on its timeout; \<open>pf_schedule\<close> on the upload budget.
\<close>

record 'w platform =
  pf_redis_ParseURL :: "string \<Rightarrow> gerr + 'w redis"
  pf_Ping :: "'w redis \<Rightarrow> ('w, gerr option) state"
  pf_S3_Parse :: "string \<Rightarrow> (string \<times> string) option"
  pf_minio_New :: "string \<Rightarrow> bool \<Rightarrow> string \<Rightarrow> string \<Rightarrow> string \<Rightarrow> gerr + 'w s3_client"
  pf_ds_http :: "duration \<Rightarrow> 'w http_client"
  pf_ds_codec :: ds_codec
  pf_render_Do :: "duration \<Rightarrow> string \<Rightarrow> (string \<times> string) list \<Rightarrow> ('w, gerr + 'w http_response) state"
  pf_NewRequest :: "string \<Rightarrow> gerr option"
  pf_Inject :: "('w, (string \<times> string) list) state"
  pf_MediaType :: "string \<Rightarrow> string"
  pf_external_Do :: "duration \<Rightarrow> string \<Rightarrow> ('w, gerr + 'w http_response) state"
  pf_env_codec :: env_codec
  pf_event_lib :: event_lib
  pf_hlib :: harvest_lib
  pf_mlib :: manifest_lib
  pf_rand_Read :: "'w rand_reader"
  pf_rand_Float64 :: "'w scaler"
  pf_time_Now :: "('w, time) state"
  pf_schedule :: "duration \<Rightarrow> ('w, upload_choice list) state"
  pf_uploadExpired :: "duration \<Rightarrow> ('w, bool) state"
  pf_fuel :: nat
  pf_metric :: "metric \<Rightarrow> ('w, unit) state"
  pf_export_metric :: "export_metric \<Rightarrow> ('w, unit) state"
  pf_RetryDispatchLagMs :: "int \<Rightarrow> ('w, unit) state"
  pf_QueuePending :: "int \<Rightarrow> ('w, unit) state"
  pf_StreamTrimmedTotal :: "string \<Rightarrow> int \<Rightarrow> ('w, unit) state"

section \<open>Wiring\<close>

definition randomSuffix :: "'w platform \<Rightarrow> ('w, string) state" where
  "randomSuffix pf = do {
     b \<leftarrow> pf_rand_Read pf 4;
     ret (hex_EncodeToString b)
   }"

definition worker_id :: "config \<Rightarrow> string \<Rightarrow> string \<Rightarrow> string" where
  "worker_id cfg hostname sfx = cfg_WorkerName cfg @ ''-'' @ hostname @ ''-'' @ sfx"

definition deployment_New :: "'w platform \<Rightarrow> string \<Rightarrow> string \<Rightarrow> duration \<Rightarrow> 'w ds_client" where
  "deployment_New pf baseURL token timeout =
     \<lparr>BaseURL = baseURL, Token = token, HTTPClient = pf_ds_http pf timeout, codec = pf_ds_codec pf\<rparr>"

definition render_New :: "'w platform \<Rightarrow> string \<Rightarrow> string \<Rightarrow> duration \<Rightarrow> 'w render_client" where
  "render_New pf baseURL token timeout =
     \<lparr>rd_baseURL = TrimRight baseURL CHR ''/'', rd_token = token, rd_Do = pf_render_Do pf timeout, rd_MaxHTMLBytes = 0,
      rd_MaxAssetBytes = 0, rd_NewRequest = pf_NewRequest pf, rd_Inject = pf_Inject pf, rd_MediaType = pf_MediaType pf,
      rd_rand_Read = pf_rand_Read pf\<rparr>"

definition externalHTTPClient :: "'w platform \<Rightarrow> config \<Rightarrow> 'w ext_http option" where
  "externalHTTPClient pf cfg =
     (if cfg_ExternalAssetAllowlist cfg = [] then None
      else Some \<lparr>ext_NewRequest = pf_NewRequest pf, ext_Do = pf_external_Do pf (30 * Second)\<rparr>)"

definition run_deploy :: "'w platform \<Rightarrow> config \<Rightarrow> 'w ds_client" where
  "run_deploy pf cfg = deployment_New pf (cfg_DeploymentServiceURL cfg) (cfg_InternalServiceToken cfg) (10 * Second)"

definition run_emitter :: "'w platform \<Rightarrow> 'w redis_driver \<Rightarrow> 'w emitter" where
  "run_emitter pf driver =
     \<lparr>em_Append = AppendOutcome driver, em_json = ml_json (pf_mlib pf), em_regexp = ml_regexp (pf_mlib pf)\<rparr>"

definition run_pipeline :: "'w platform \<Rightarrow> config \<Rightarrow> 'w s3_store \<Rightarrow> 'w redis_driver \<Rightarrow> 'w pipeline" where
  "run_pipeline pf cfg store driver =
     (let deploy = run_deploy pf cfg;
          renderClient = (render_New pf (cfg_RenderOriginURL cfg) (cfg_InternalServiceToken cfg) (cfg_RenderTimeout cfg))
            \<lparr>rd_MaxHTMLBytes := cfg_MaxRenderHTMLBytes cfg, rd_MaxAssetBytes := cfg_MaxRenderAssetBytes cfg\<rparr>
      in \<lparr>pl_Render = renderClient, pl_Transition = Transition deploy, pl_SubmitArtifact = SubmitArtifact deploy,
          pl_Store = store, pl_EmitReady = EmitReady (run_emitter pf driver), pl_BasePrefix = cfg_ArtifactBasePrefix cfg,
          pl_Allow = cfg_DependencyAllowlist cfg, pl_External = cfg_ExternalAssetAllowlist cfg, pl_UploadConcurrency = 8,
          pl_MaxTotalArtifactBytes = cfg_MaxTotalArtifactBytes cfg, pl_ExternalHTTP = externalHTTPClient pf cfg,
          pl_Metrics = Some (pf_export_metric pf), pl_Now = None, pl_time_Now = pf_time_Now pf, pl_hlib = pf_hlib pf,
          pl_mlib = pf_mlib pf, pl_rand_Read = pf_rand_Read pf, pl_schedule = pf_schedule pf (cfg_UploadTimeout cfg),
          pl_uploadExpired = pf_uploadExpired pf (cfg_UploadTimeout cfg), pl_fuel = pf_fuel pf\<rparr>)"

text \<open>The adapter from the locker to the processor's view of it: a lease is its release.\<close>

definition redisLocks_Acquire :: "'w locker \<Rightarrow> string \<Rightarrow> ('w, gerr + ('w, gerr option) state) state" where
  "redisLocks_Acquire l deploymentID = do {
     lease \<leftarrow> Acquire l deploymentID;
     ret (case lease of Inl err \<Rightarrow> Inl err | Inr lease \<Rightarrow> Inr (Release lease))
   }"

definition Unimplemented_Export :: "job \<Rightarrow> ('w, gerr option) state" where
  "Unimplemented_Export job = ret (Some PipelineUnimplementedE)"

definition lockTTL :: "config \<Rightarrow> duration" where
  "lockTTL cfg = TTLFor (cfg_RenderTimeout cfg) (cfg_UploadTimeout cfg)"

definition run_processor :: "'w platform \<Rightarrow> config \<Rightarrow> 'w s3_store \<Rightarrow> 'w redis_driver \<Rightarrow> 'w deps" where
  "run_processor pf cfg store driver =
     (let pipeline = run_pipeline pf cfg store driver; deploy = run_deploy pf cfg;
          locker = NewLocker (rdb driver) (consumer driver) (lockTTL cfg)
      in New \<lparr>Consumer_Ack = Ack driver, DLQ_SendToDLQ = SendToDLQ driver, Retries_Schedule = Schedule (rdb driver) (pf_env_codec pf),
        Locker_Acquire = redisLocks_Acquire locker, Deploy_Load = Load deploy, Deploy_Transition = Transition deploy,
        Exporter_Export = (if cfg_WorkerDryRun cfg then Unimplemented_Export else pipeline_Export pipeline),
        FailedEmit = Some (EmitFailed (run_emitter pf driver)),
        ReadyRedeliver = (if cfg_WorkerDryRun cfg then None else Some (pipeline_ReemitReady pipeline)),
        Metrics = Some (pf_metric pf), Backoff = \<lparr>Base = 0, Max = 0, Rand = None\<rparr>, WorkerID = consumer driver,
        DryRun = cfg_WorkerDryRun cfg, MaxRetries = 0, JobTimeout = lockTTL cfg, Now = None, lib = pf_event_lib pf,
        deps_rand_Read = pf_rand_Read pf, deps_rand_Float64 = pf_rand_Float64 pf, deps_time_Now = pf_time_Now pf\<rparr>)"

section \<open>Boot\<close>

text \<open>The hard dependencies, in order; the first that fails ends the process.\<close>

definition run_boot :: "'w platform \<Rightarrow> config \<Rightarrow> string \<Rightarrow> ('w, gerr + 'w s3_store \<times> 'w redis_driver) state" where
  "run_boot pf cfg workerID =
     (case pf_redis_ParseURL pf (cfg_RedisURL cfg) of
        Inl err \<Rightarrow> ret (Inl (WrapE err))
      | Inr r \<Rightarrow> do {
          err \<leftarrow> pf_Ping pf r;
          case err of
            Some e \<Rightarrow> ret (Inl (WrapE e))
          | None \<Rightarrow>
              (case NewS3 (pf_S3_Parse pf) (pf_minio_New pf) (cfg_S3Endpoint cfg) (cfg_S3Region cfg) (cfg_S3AccessKey cfg)
                      (cfg_S3SecretKey cfg) (cfg_ArtifactBucket cfg) of
                 Inl err \<Rightarrow> ret (Inl err)
               | Inr store \<Rightarrow> do {
                   err \<leftarrow> EnsureBucket store;
                   case err of
                     Some e \<Rightarrow> ret (Inl (WrapE e))
                   | None \<Rightarrow> do {
                       let driver = \<lparr>rdb = r, consumer = workerID\<rparr>;
                       err \<leftarrow> EnsureGroup driver;
                       ret (case err of Some e \<Rightarrow> Inl e | None \<Rightarrow> Inr (store, driver))
                     }
                 })
        })"

section \<open>Rounds\<close>

definition run_dispatcher :: "'w platform \<Rightarrow> 'w redis_driver \<Rightarrow> 'w dispatcher" where
  "run_dispatcher pf driver =
     redis_dispatcher driver (pf_env_codec pf) (Some (pf_RetryDispatchLagMs pf)) 0 0 (pf_time_Now pf)"

definition pending_round :: "'w platform \<Rightarrow> 'w redis_driver \<Rightarrow> ('w, unit) state" where
  "pending_round pf driver = do {
     n \<leftarrow> PendingCount driver;
     case n of Inr n \<Rightarrow> pf_QueuePending pf n | Inl err \<Rightarrow> ret ()
   }"

record trim_target =
  tgt_stream :: string
  tgt_retention :: duration
  tgt_main :: bool

definition trim_targets :: "config \<Rightarrow> trim_target list" where
  "trim_targets cfg =
     [\<lparr>tgt_stream = StreamMain, tgt_retention = cfg_StreamMainRetention cfg, tgt_main = True\<rparr>,
      \<lparr>tgt_stream = StreamDLQ, tgt_retention = cfg_StreamDLQRetention cfg, tgt_main = False\<rparr>,
      \<lparr>tgt_stream = StreamArtifactReady, tgt_retention = cfg_StreamReadyRetention cfg, tgt_main = False\<rparr>,
      \<lparr>tgt_stream = StreamExportFailed, tgt_retention = cfg_StreamFailedRetention cfg, tgt_main = False\<rparr>]"

definition trim_one :: "'w platform \<Rightarrow> 'w redis_driver \<Rightarrow> trim_target \<Rightarrow> ('w, unit) state" where
  "trim_one pf driver tgt =
     (if tgt_retention tgt \<le> 0 then ret ()
      else do {
        now \<leftarrow> pf_time_Now pf;
        let horizon = now - tgt_retention tgt;
        trimmed \<leftarrow> (if tgt_main tgt then TrimMain driver horizon else TrimStream driver (tgt_stream tgt) horizon);
        case trimmed of
          Inl err \<Rightarrow> ret ()
        | Inr trimmed \<Rightarrow> if trimmed > 0 then pf_StreamTrimmedTotal pf (tgt_stream tgt) trimmed else ret ()
      })"

definition trim_round :: "'w platform \<Rightarrow> config \<Rightarrow> 'w redis_driver \<Rightarrow> ('w, unit) state" where
  "trim_round pf cfg driver = for_each (trim_targets cfg) (trim_one pf driver)"

section \<open>Facts\<close>

lemma failure_calls_dry:
  assumes "handle_run l b True reemits msg out cs" "c \<in> set cs"
  shows "\<not> is_export c" "c \<noteq> TransitionC dep DeploymentStatusExportQueued DeploymentStatusExporting reason trace stage err"
proof -
  have work: "\<not> is_export c \<and> c \<noteq> TransitionC dep DeploymentStatusExportQueued DeploymentStatusExporting reason trace stage err"
    using assms(1)
  proof (cases rule: handle_run_cases)
    case (unlocked dep' rec)
    then show ?thesis using assms(2) by (fastforce simp: failure_call_def)
  next
    case (under_lock ev rec trace' work r)
    from under_lock(4) have "\<exists>r. work = [AckC [msg_ID msg] r]" by cases simp_all
    with under_lock(1) assms(2) show ?thesis by auto
  qed
  then show "\<not> is_export c" "c \<noteq> TransitionC dep DeploymentStatusExportQueued DeploymentStatusExporting reason trace stage err"
    by simp_all
qed

lemma TTLFor_least: "90 * Second \<le> TTLFor a b"
  by (simp add: TTLFor_def Let_def)

section \<open>Properties\<close>

text \<open>
  C30. A worker that starts is wired as the properties assume. From every environment that \<open>Load\<close> accepts, the processor that \<open>run\<close>
  builds has three retries, the default backoff and a job timeout of at least 90 seconds that is also the lock's lifetime;
  its pipeline has a limit on the bundle, so that every harvest ends, and mirrors external assets only if an allowlist is set; and outside
  local development it is no dry run: its exporter and its re-emission of the ready event are the pipeline.
\<close>

theorem worker_wired:
  assumes "Load_config parse lookup = Inr cfg" "d = run_processor pf cfg store driver" "p = run_pipeline pf cfg store driver"
  shows "MaxRetries d = 3 \<and> Backoff d = DefaultBackoff \<and> JobTimeout d = lockTTL cfg \<and> 90 * Second \<le> JobTimeout d \<and>
    pl_MaxTotalArtifactBytes p > 0 \<and> (pl_ExternalHTTP p = None \<longleftrightarrow> pl_External p = []) \<and>
    (LocalDev cfg \<or> \<not> DryRun d \<and> Exporter_Export d = pipeline_Export p \<and> ReadyRedeliver d = Some (pipeline_ReemitReady p))"
proof -
  have cfg: "cfg = config_fields lookup" "check_problems parse cfg = []"
    using assms(1) by (auto simp: Load_config_def Let_def split: if_splits)
  have dry: "cfg_WorkerDryRun cfg \<longrightarrow> LocalDev cfg"
    using cfg(2) by (auto simp: check_problems_def split: if_splits)
  have limit: "0 < cfg_MaxTotalArtifactBytes cfg"
    by (simp add: cfg(1) config_fields_def bytesVal_pos)
  have "0 < lockTTL cfg" "90 * Second \<le> lockTTL cfg"
    using TTLFor_least [of "cfg_RenderTimeout cfg" "cfg_UploadTimeout cfg"]
    by (simp_all add: lockTTL_def Second_def Millisecond_def)
  then show ?thesis
    using dry limit
    by (auto simp: assms(2,3) run_processor_def run_pipeline_def New_def Let_def DefaultBackoff_def externalHTTPClient_def Second_def
        Millisecond_def)
qed

text \<open>A platform with the executable Redis server on which nothing else answers.\<close>

definition server_platform :: "server platform" where
  "server_platform =
     \<lparr>pf_redis_ParseURL = (\<lambda>_. Inr server_redis), pf_Ping = (\<lambda>_. ret None), pf_S3_Parse = (\<lambda>s. Some (s, ''http'')),
      pf_minio_New = (\<lambda>_ _ _ _ _. Inl (TextE ''none'')), pf_ds_http = (\<lambda>_. \<lparr>http_Do = (\<lambda>_ _ _ _. ret (Inl (TextE ''none'')))\<rparr>),
      pf_ds_codec = \<lparr>enc_StatusUpdate = (\<lambda>_. []), enc_Pointer = (\<lambda>_. []), dec_Record = (\<lambda>_. Inl (TextE ''none'')),
        dec_StatusConflict = (\<lambda>_. Inl (TextE ''none''))\<rparr>,
      pf_render_Do = (\<lambda>_ _ _. ret (Inl (TextE ''none''))), pf_NewRequest = (\<lambda>_. None), pf_Inject = ret [], pf_MediaType = id,
      pf_external_Do = (\<lambda>_ _. ret (Inl (TextE ''none''))), pf_env_codec = line_codec, pf_event_lib = sample_lib, pf_hlib = sample_hlib,
      pf_mlib = world_lib, pf_rand_Read = (\<lambda>n. ret (replicate n CHR ''x'')), pf_rand_Float64 = (\<lambda>h. ret 0),
      pf_time_Now = State (\<lambda>s. (srv_time s, s)), pf_schedule = (\<lambda>_. ret []), pf_uploadExpired = (\<lambda>_. ret False), pf_fuel = 0,
      pf_metric = (\<lambda>_. ret ()), pf_export_metric = (\<lambda>_. ret ()), pf_RetryDispatchLagMs = (\<lambda>_. ret ()),
      pf_QueuePending = (\<lambda>_. ret ()), pf_StreamTrimmedTotal = (\<lambda>_ _. ret ())\<rparr>"

definition closed_store :: "server s3_store" where
  "closed_store =
     \<lparr>s3_client = \<lparr>BucketExists = (\<lambda>_. ret (Inr False)), StatObject = (\<lambda>_ _. ret (Inl (StorageE 403))),
        PutObject = (\<lambda>_ _ _ _. ret (Some (StorageE 403))), GetObject = (\<lambda>_ _. ret (Inl (StorageE 403)))\<rparr>, s3_bucket = ''b''\<rparr>"

theorem worker_wired_witness:
  "MaxRetries (run_processor server_platform (config_fields deployed_env) closed_store server_driver) = 3 \<and>
   \<not> DryRun (run_processor server_platform (config_fields deployed_env) closed_store server_driver)"
proof -
  have "cfg_Environment (config_fields deployed_env) = EnvProduction" by code_simp
  then have "\<not> LocalDev (config_fields deployed_env)"
    by (simp add: LocalDev_def EnvProduction_def EnvLocal_def EnvDevelopment_def)
  with worker_wired [OF deployed_accepted refl refl, of server_platform closed_store server_driver] show ?thesis by blast
qed

text \<open>
  What a dry run does not do, and what it does. A processor in dry-run mode never exports and never moves a deployment to EXPORTING.
  But it is not without status writes: for a request whose version does not match the record, it moves the record to EXPORT_FAILED
  and emits the failure event.
\<close>

theorem dry_run_limits:
  "(DryRun d \<and> run_state (Handle (traced d) msg) (w, []) = (out, (w', cs)) \<and> c \<in> set cs \<longrightarrow> \<not> is_export c \<and>
     (\<forall>dep reason trace stage err. c \<noteq> TransitionC dep DeploymentStatusExportQueued DeploymentStatusExporting reason trace stage err)) \<and>
   (case run_state (Handle (traced ((sample_deps (Inr (sample_record DeploymentStatusExportQueued\<lparr>rec_Version := ''v2''\<rparr>)) None None)
       \<lparr>DryRun := True\<rparr>)) (sample_message ''request'' 0)) ((), []) of
     (out', (_, cs')) \<Rightarrow> out' = OutcomeFailedTerminal \<and>
       (\<exists>c' \<in> set cs'. case c' of TransitionC dep from to _ _ _ None \<Rightarrow> dep = ''d1'' \<and> to = DeploymentStatusExportFailed | _ \<Rightarrow> False))"
proof (intro conjI impI)
  assume "DryRun d \<and> run_state (Handle (traced d) msg) (w, []) = (out, (w', cs)) \<and> c \<in> set cs"
  then have "handle_run (lib d) (MaxRetries d) True (reemits_wired d) msg out cs" "c \<in> set cs"
    using Handle_logged [of d msg w out w' cs] by auto
  from failure_calls_dry [OF this] show "\<not> is_export c"
    "\<forall>dep reason trace stage err. c \<noteq> TransitionC dep DeploymentStatusExportQueued DeploymentStatusExporting reason trace stage err"
    by auto
next
  show "case run_state (Handle (traced ((sample_deps (Inr (sample_record DeploymentStatusExportQueued\<lparr>rec_Version := ''v2''\<rparr>)) None None)
       \<lparr>DryRun := True\<rparr>)) (sample_message ''request'' 0)) ((), []) of
     (out', (_, cs')) \<Rightarrow> out' = OutcomeFailedTerminal \<and>
       (\<exists>c' \<in> set cs'. case c' of TransitionC dep from to _ _ _ None \<Rightarrow> dep = ''d1'' \<and> to = DeploymentStatusExportFailed | _ \<Rightarrow> False)"
    by code_simp
qed

theorem dry_run_limits_witness:
  "list_all (\<lambda>c. \<not> is_export c) (snd (snd (run_state (Handle (traced
     ((sample_deps (Inr (sample_record DeploymentStatusExportQueued)) None None)\<lparr>DryRun := True\<rparr>)) (sample_message ''request'' 0)) ((), []))))"
proof -
  let ?d = "(sample_deps (Inr (sample_record DeploymentStatusExportQueued)) None None)\<lparr>DryRun := True\<rparr>"
  obtain out w' cs where run: "run_state (Handle (traced ?d) (sample_message ''request'' 0)) ((), []) = (out, (w', cs))"
    by (metis prod.collapse)
  have "DryRun ?d" by simp
  then have "\<not> is_export c" if "c \<in> set cs" for c
    using dry_run_limits [of ?d "sample_message ''request'' 0" "()" out w' cs c] run that by blast
  with run show ?thesis by (simp add: list_all_iff)
qed

end
