(* ===== verification/Ops.thy ===== *)
theory Ops
  imports Obs Errclass
begin

text \<open>
  The internal operations server, \<open>src/internal/obs/opsserver.go\<close>: the routes of the health and the metrics port over the lifecycle
  state, what \<open>Start\<close> reports, and \<open>Shutdown\<close>. Sockets and the exposition format are not modelled: a server is its address, its
  handler and its timeout, and the handler of \<open>promhttp\<close> is a parameter.
\<close>

section \<open>Handlers\<close>

record ops_response =
  or_Status :: int
  or_ContentType :: string
  or_Body :: string

text \<open>The requests of a probe: the method, and a path without empty or dot segments (the others are redirected to their clean form).\<close>

record ops_request =
  oq_Method :: string
  oq_Path :: string

type_synonym ops_handler = "ops_request \<Rightarrow> ops_response"

text \<open>
  \<open>http.ServeMux\<close> with patterns of the form \<open>GET /path\<close>: such a pattern also takes HEAD; another method on a known path is
  405, an unknown path 404.
\<close>

definition text_response :: "int \<Rightarrow> string \<Rightarrow> ops_response" where
  "text_response code body = \<lparr>or_Status = code, or_ContentType = ''text/plain; charset=utf-8'', or_Body = body @ [CHR 0x0A]\<rparr>"

definition ServeMux :: "(string \<times> ops_handler) list \<Rightarrow> ops_handler" where
  "ServeMux routes r =
     (case map_of routes (oq_Path r) of
        None \<Rightarrow> text_response 404 ''404 page not found''
      | Some handler \<Rightarrow>
          if oq_Method r = ''GET'' \<or> oq_Method r = ''HEAD'' then handler r
          else text_response 405 ''Method Not Allowed'')"

definition json_response :: "int \<Rightarrow> string \<Rightarrow> ops_response" where
  "json_response code status =
     \<lparr>or_Status = code, or_ContentType = ''application/json'',
      or_Body = ''{'' @ [CHR 0x22] @ ''status'' @ [CHR 0x22] @ '':'' @ [CHR 0x22] @ status @ [CHR 0x22] @ ''}''\<rparr>"

definition healthz_handler :: ops_handler where
  "healthz_handler r = json_response 200 ''ok''"

definition readyz_handler :: "int \<Rightarrow> ops_handler" where
  "readyz_handler lc r = (case readyz lc of (code, status) \<Rightarrow> json_response code status)"

text \<open>The handler of the health port, by the value of the lifecycle when the request arrives.\<close>

definition healthMux :: "int \<Rightarrow> ops_handler" where
  "healthMux lc = ServeMux [(''/healthz'', healthz_handler), (''/readyz'', readyz_handler lc)]"

definition metricsMux :: "ops_handler \<Rightarrow> ops_handler" where
  "metricsMux promhttp = ServeMux [(''/metrics'', promhttp)]"

section \<open>Server\<close>

record http_server =
  hs_Addr :: string
  hs_Handler :: "int \<Rightarrow> ops_handler"
  hs_ReadHeaderTimeout :: duration

record ops_server =
  os_health :: http_server
  os_metrics :: http_server

definition NewOpsServer :: "int \<Rightarrow> int \<Rightarrow> ops_handler \<Rightarrow> ops_server" where
  "NewOpsServer healthPort metricsPort promhttp =
     \<lparr>os_health = \<lparr>hs_Addr = '':'' @ FormatInt healthPort, hs_Handler = healthMux, hs_ReadHeaderTimeout = 5 * Second\<rparr>,
      os_metrics = \<lparr>hs_Addr = '':'' @ FormatInt metricsPort, hs_Handler = (\<lambda>lc. metricsMux promhttp), hs_ReadHeaderTimeout = 5 * Second\<rparr>\<rparr>"

text \<open>\<open>http.ErrServerClosed\<close>, and what the goroutine of a server sends on the channel of \<open>Start\<close> when \<open>ListenAndServe\<close> returns \<open>err\<close>.\<close>

definition ErrServerClosed :: gerr where
  "ErrServerClosed = TextE ''http: Server closed''"

definition Start_report :: "gerr option \<Rightarrow> gerr option" where
  "Start_report err = (case err of None \<Rightarrow> None | Some e \<Rightarrow> if e \<noteq> ErrServerClosed then Some (WrapE e) else None)"

definition Ops_Shutdown :: "('w, gerr option) state \<Rightarrow> ('w, gerr option) state \<Rightarrow> ('w, gerr option) state" where
  "Ops_Shutdown health metrics = do {
     healthErr \<leftarrow> health;
     metricsErr \<leftarrow> metrics;
     ret (if healthErr \<noteq> None then healthErr else metricsErr)
   }"

definition Handlers :: "ops_server \<Rightarrow> (int \<Rightarrow> ops_handler) \<times> (int \<Rightarrow> ops_handler)" where
  "Handlers s = (hs_Handler (os_health s), hs_Handler (os_metrics s))"

section \<open>Facts\<close>

lemma healthMux_routes:
  "oq_Method r = ''GET'' \<Longrightarrow> oq_Path r = ''/healthz'' \<Longrightarrow> or_Status (healthMux lc r) = 200"
  "oq_Method r = ''GET'' \<Longrightarrow> oq_Path r = ''/readyz'' \<Longrightarrow> or_Status (healthMux lc r) = (if lc = StateReady then 200 else 503)"
  by (simp_all add: healthMux_def ServeMux_def healthz_handler_def readyz_handler_def readyz_def Lifecycle_Ready_def json_response_def)

end
