(* ===== verification/Process.thy ===== *)
theory Process
  imports Worker_Main Ops "HOL-Library.Multiset"
begin

text \<open>
  The running process, the second half of \<open>run\<close> in \<open>src/cmd/export-worker/main.go\<close>: the goroutines that it starts, the root context that a
  signal ends, the lifecycle behind the readiness probe, and the two ways out. A step of the process is one move of one goroutine or of
  \<open>run\<close> itself; a fetch, a reclaim, the handling of a message and a round of the other goroutines are one move each, run on the outside
  world, which others may change between moves. This grain is that of the life cycle, which is what is shown here: which goroutines run, what they have in
  hand and when the process is out. What other workers can do inside such a move, between its calls and Redis commands, is the subject of \<open>Interleaving\<close>.
\<close>

declare split_paired_All [simp del] split_paired_Ex [simp del]

section \<open>The goroutines\<close>

text \<open>
  What a process keeps after boot. The Redis client takes the context of a call: \<open>mb_redis m ctx_done\<close> is the client for calls whose
  context is, when they begin, done or not.
\<close>

record 'w member =
  mb_platform :: "'w platform"
  mb_config :: config
  mb_store :: "'w s3_store"
  mb_redis :: "bool \<Rightarrow> 'w redis"
  mb_id :: string

definition mb_driver :: "'w member \<Rightarrow> bool \<Rightarrow> 'w redis_driver" where
  "mb_driver m ctx_done = \<lparr>rdb = mb_redis m ctx_done, consumer = mb_id m\<rparr>"

text \<open>The processor runs under \<open>drainCtx\<close>, which a signal does not end.\<close>

definition mb_processor :: "'w member \<Rightarrow> 'w deps" where
  "mb_processor m = run_processor (mb_platform m) (mb_config m) (mb_store m) (mb_driver m False)"

datatype role = Dispatch | Recover | Retention | Gauge | Consume

text \<open>The goroutines in the order in which they are started.\<close>

definition roles :: "config \<Rightarrow> role list" where
  "roles cfg = [Dispatch, Recover, Retention, Gauge] @ replicate (nat (cfg_WorkerConcurrency cfg)) Consume"

text \<open>
  Where a goroutine is: at the \<open>select\<close> at the top of its loop, before a call, in a call that began with the root context done or not,
  handling the messages it has, asleep after a failed fetch, or returned.
\<close>

datatype goroutine = AtTop | AtCall | InCall bool | Handling "message list" | Sleeping | Returned

text \<open>
  The end of a call: where the goroutine goes on, with the messages it was given. \<open>root_done\<close> is the root context when the call
  returns, \<open>b\<close> when it began.
\<close>

fun routine_call :: "'w member \<Rightarrow> bool \<Rightarrow> bool \<Rightarrow> role \<Rightarrow> ('w, goroutine \<times> message list) state" where
  "routine_call m root_done b Dispatch = do {
     now \<leftarrow> pf_time_Now (mb_platform m);
     Tick (run_dispatcher (mb_platform m) (mb_driver m b)) now;
     ret (AtTop, [])
   }"
| "routine_call m root_done b Recover = do {
     let minIdle = int64 (lockTTL (mb_config m) + 30 * Second);
     msgs \<leftarrow> Reclaim (mb_driver m b) minIdle 16;
     ret (case msgs of Inl err \<Rightarrow> (AtTop, []) | Inr msgs \<Rightarrow> (Handling msgs, msgs))
   }"
| "routine_call m root_done b Retention = do {
     trim_round (mb_platform m) (mb_config m) (mb_driver m b);
     ret (AtTop, [])
   }"
| "routine_call m root_done b Gauge = do {
     pending_round (mb_platform m) (mb_driver m b);
     ret (AtTop, [])
   }"
| "routine_call m root_done b Consume = do {
     msgs \<leftarrow> Fetch (mb_driver m b) 1 (2 * Second);
     ret (case msgs of
            Inl err \<Rightarrow> (if root_done then Returned else Sleeping, [])
          | Inr msgs \<Rightarrow> (Handling msgs, msgs))
   }"

text \<open>
  One move of a goroutine, not a tick of its timer: where it goes on, the messages it took and those it handled. \<open>None\<close> means that it has
  to wait, or has returned.
\<close>

fun routine_step :: "'w member \<Rightarrow> bool \<Rightarrow> role \<Rightarrow> goroutine \<Rightarrow>
    ('w, (goroutine \<times> message list \<times> (message \<times> outcome) list) option) state" where
  "routine_step m root_done r AtTop =
     ret (if root_done then Some (Returned, [], [])
          else if r = Consume then Some (AtCall, [], [])
          else None)"
| "routine_step m root_done r AtCall = ret (Some (InCall root_done, [], []))"
| "routine_step m root_done r (InCall b) = do {
     res \<leftarrow> routine_call m root_done b r;
     ret (Some (fst res, snd res, []))
   }"
| "routine_step m root_done r (Handling []) = ret (Some (AtTop, [], []))"
| "routine_step m root_done r (Handling (msg # msgs)) = do {
     out \<leftarrow> Handle (mb_processor m) msg;
     ret (Some (Handling msgs, [], [(msg, out)]))
   }"
| "routine_step m root_done r Sleeping = ret (Some (AtTop, [], []))"
| "routine_step m root_done r Returned = ret None"

section \<open>The process\<close>

text \<open>Where \<open>run\<close> is: starting goroutines, at its \<open>select\<close>, in \<open>wg.Wait\<close> after a signal or after an error of a probe server, after it, or out.\<close>

datatype main_at = Spawning | Selecting | Draining | Failing gerr | Stopping | Exited "gerr option"

text \<open>\<open>pr_taken\<close> and \<open>pr_handled\<close> record the messages that the goroutines were given and those that were handled, with their outcomes.\<close>

record proc =
  pr_main :: main_at
  pr_lifecycle :: int
  pr_root_done :: bool
  pr_serving :: "bool \<times> bool"  \<comment> \<open>the health and the metrics server have not returned\<close>
  pr_ops_errs :: "gerr list"  \<comment> \<open>the channel of \<open>ops.Start\<close>\<close>
  pr_routines :: "(role \<times> goroutine) list"
  pr_taken :: "message list"
  pr_handled :: "(message \<times> outcome) list"

definition proc_start :: proc where
  "proc_start = \<lparr>pr_main = Spawning, pr_lifecycle = StateStarting, pr_root_done = False, pr_serving = (True, True), pr_ops_errs = [],
     pr_routines = [], pr_taken = [], pr_handled = []\<rparr>"

text \<open>
  The events: SIGTERM or SIGINT; a probe server returns from \<open>ListenAndServe\<close> (the health server, or the metrics server); \<open>run\<close> moves on; its \<open>select\<close> takes
  an error of a probe server; the ticker of a goroutine fires and its \<open>select\<close> takes it; a goroutine moves on.
\<close>

datatype event = Signal | Server_Returns bool "gerr option" | Main | Main_Ops | Ticker nat | Go nat

definition all_returned :: "proc \<Rightarrow> bool" where
  "all_returned p \<longleftrightarrow> list_all (\<lambda>g. snd g = Returned) (pr_routines p)"

fun is_exited :: "main_at \<Rightarrow> bool" where
  "is_exited (Exited r) = True"
| "is_exited _ = False"

definition main_step :: "config \<Rightarrow> proc \<Rightarrow> proc option" where
  "main_step cfg p =
     (case pr_main p of
        Spawning \<Rightarrow>
          if length (pr_routines p) < length (roles cfg)
          then Some (p\<lparr>pr_routines := pr_routines p @ [(roles cfg ! length (pr_routines p), AtTop)]\<rparr>)
          else Some (p\<lparr>pr_lifecycle := StateReady, pr_main := Selecting\<rparr>)
      | Selecting \<Rightarrow> if pr_root_done p then Some (p\<lparr>pr_lifecycle := StateDraining, pr_main := Draining\<rparr>) else None
      | Draining \<Rightarrow> if all_returned p then Some (p\<lparr>pr_lifecycle := StateStopped, pr_main := Stopping\<rparr>) else None
      | Failing err \<Rightarrow> if all_returned p then Some (p\<lparr>pr_main := Exited (Some err)\<rparr>) else None
      | Stopping \<Rightarrow> Some (p\<lparr>pr_main := Exited None\<rparr>)
      | Exited r \<Rightarrow> None)"

definition main_ops_step :: "proc \<Rightarrow> proc option" where
  "main_ops_step p =
     (case (pr_main p, pr_ops_errs p) of
        (Selecting, err # errs) \<Rightarrow> Some (p\<lparr>pr_ops_errs := errs, pr_root_done := True, pr_main := Failing err\<rparr>)
      | _ \<Rightarrow> None)"

text \<open>The channel has room for two errors: the send never blocks.\<close>

definition server_returns :: "bool \<Rightarrow> gerr option \<Rightarrow> proc \<Rightarrow> proc option" where
  "server_returns health err p =
     (if (if health then fst (pr_serving p) else snd (pr_serving p)) \<and> length (pr_ops_errs p) < 2
      then Some (p\<lparr>pr_serving := (if health then (False, snd (pr_serving p)) else (fst (pr_serving p), False)),
                   pr_ops_errs := pr_ops_errs p @ (case Start_report err of None \<Rightarrow> [] | Some e \<Rightarrow> [e])\<rparr>)
      else None)"

definition ticker_fires :: "nat \<Rightarrow> proc \<Rightarrow> proc option" where
  "ticker_fires i p =
     (if i < length (pr_routines p) \<and> snd (pr_routines p ! i) = AtTop \<and> fst (pr_routines p ! i) \<noteq> Consume
      then Some (p\<lparr>pr_routines := (pr_routines p)[i := (fst (pr_routines p ! i), AtCall)]\<rparr>)
      else None)"

definition go_step :: "'w member \<Rightarrow> nat \<Rightarrow> proc \<Rightarrow> ('w, proc option) state" where
  "go_step m i p =
     (if i < length (pr_routines p) then do {
        let (r, g) = pr_routines p ! i;
        res \<leftarrow> routine_step m (pr_root_done p) r g;
        ret (case res of
               None \<Rightarrow> None
             | Some (g', ms, hs) \<Rightarrow>
                 Some (p\<lparr>pr_routines := (pr_routines p)[i := (r, g')], pr_taken := pr_taken p @ ms, pr_handled := pr_handled p @ hs\<rparr>))
      } else ret None)"

fun proc_step :: "'w member \<Rightarrow> event \<Rightarrow> proc \<Rightarrow> ('w, proc option) state" where
  "proc_step m Signal p = ret (if is_exited (pr_main p) then None else Some (p\<lparr>pr_root_done := True\<rparr>))"
| "proc_step m (Server_Returns health err) p = ret (if is_exited (pr_main p) then None else server_returns health err p)"
| "proc_step m Main p = ret (main_step (mb_config m) p)"
| "proc_step m Main_Ops p = ret (main_ops_step p)"
| "proc_step m (Ticker i) p = ret (if is_exited (pr_main p) then None else ticker_fires i p)"
| "proc_step m (Go i) p = (if is_exited (pr_main p) then ret None else go_step m i p)"

text \<open>A schedule of events.\<close>

fun proc_exec :: "'w member \<Rightarrow> event list \<Rightarrow> proc \<Rightarrow> ('w, proc option) state" where
  "proc_exec m [] p = ret (Some p)"
| "proc_exec m (e # es) p = do {
     res \<leftarrow> proc_step m e p;
     case res of None \<Rightarrow> ret None | Some p' \<Rightarrow> proc_exec m es p'
   }"

text \<open>The states that follow, in a world that others change as they like between two steps.\<close>

inductive proc_steps :: "'w member \<Rightarrow> proc \<Rightarrow> proc \<Rightarrow> bool" for m p where
  here: "proc_steps m p p"
| after: "proc_steps m p p' \<Longrightarrow> run_state (proc_step m e p') w = (Some p'', w') \<Longrightarrow> proc_steps m p p''"

section \<open>Invariant\<close>

text \<open>The messages a goroutine has and has not handled.\<close>

fun queued :: "goroutine \<Rightarrow> message list" where
  "queued (Handling msgs) = msgs"
| "queued _ = []"

definition in_hand :: "proc \<Rightarrow> message multiset" where
  "in_hand p = (\<Sum>g \<leftarrow> pr_routines p. mset (queued (snd g)))"

text \<open>What the probe shows at each place of \<open>run\<close>.\<close>

fun main_lifecycle :: "main_at \<Rightarrow> int" where
  "main_lifecycle Spawning = StateStarting"
| "main_lifecycle Selecting = StateReady"
| "main_lifecycle Draining = StateDraining"
| "main_lifecycle (Failing err) = StateReady"
| "main_lifecycle Stopping = StateStopped"
| "main_lifecycle (Exited None) = StateStopped"
| "main_lifecycle (Exited (Some err)) = StateReady"

fun is_over :: "main_at \<Rightarrow> bool" where
  "is_over Stopping = True"
| "is_over (Exited r) = True"
| "is_over _ = False"

text \<open>Each server sends at most one error.\<close>

definition channel_room :: "proc \<Rightarrow> bool" where
  "channel_room p \<longleftrightarrow> length (pr_ops_errs p) + of_bool (fst (pr_serving p)) + of_bool (snd (pr_serving p)) \<le> 2"

definition proc_ok :: "config \<Rightarrow> proc \<Rightarrow> bool" where
  "proc_ok cfg p \<longleftrightarrow>
     mset (pr_taken p) = mset (map fst (pr_handled p)) + in_hand p \<and>
     pr_lifecycle p = main_lifecycle (pr_main p) \<and>
     (is_over (pr_main p) \<longrightarrow> all_returned p) \<and>
     (pr_main p \<notin> {Spawning, Selecting} \<longrightarrow> pr_root_done p) \<and>
     map fst (pr_routines p) = take (length (pr_routines p)) (roles cfg) \<and>
     (pr_main p \<noteq> Spawning \<longrightarrow> length (pr_routines p) = length (roles cfg)) \<and>
     channel_room p"

lemma sum_list_update_mset:
  fixes f :: "'a \<Rightarrow> 'b multiset"
  assumes "i < length xs" "f y + A = f (xs ! i) + B"
  shows "(\<Sum>x \<leftarrow> xs[i := y]. f x) + A = (\<Sum>x \<leftarrow> xs. f x) + B"
  using assms
proof (induction xs arbitrary: i)
  case (Cons x xs)
  show ?case
  proof (cases i)
    case 0
    with Cons.prems(2) show ?thesis by (simp add: ac_simps)
  next
    case (Suc j)
    with Cons.prems Cons.IH [of j] show ?thesis by (simp add: ac_simps)
  qed
qed simp

text \<open>A move of a goroutine: what it has in hand afterwards is what it had and took, less what it handled.\<close>

lemma routine_step_hand:
  assumes "run_state (routine_step m done r g) w = (Some (g', ms, hs), w')"
  shows "mset (queued g') + mset (map fst hs) = mset (queued g) + mset ms"
proof (cases g)
  case (InCall b)
  then show ?thesis
    using assms by (cases r) (auto simp: run_state_bind split: prod.splits sum.splits if_splits)
next
  case (Handling msgs)
  then show ?thesis using assms by (cases msgs) (auto simp: run_state_bind split: prod.splits)
qed (use assms in \<open>auto split: if_splits\<close>)

lemma go_stepE:
  assumes "run_state (go_step m i p) w = (Some p', w')"
  obtains g' ms hs where "i < length (pr_routines p)"
    "run_state (routine_step m (pr_root_done p) (fst (pr_routines p ! i)) (snd (pr_routines p ! i))) w = (Some (g', ms, hs), w')"
    "p' = p\<lparr>pr_routines := (pr_routines p)[i := (fst (pr_routines p ! i), g')], pr_taken := pr_taken p @ ms,
       pr_handled := pr_handled p @ hs\<rparr>"
proof -
  let ?g = "pr_routines p ! i"
  obtain res w1 where res: "run_state (routine_step m (pr_root_done p) (fst ?g) (snd ?g)) w = (res, w1)" by fastforce
  show ?thesis
  proof (cases "i < length (pr_routines p)")
    case True
    with assms res obtain g' ms hs where "res = Some (g', ms, hs)"
      by (cases res) (auto simp: go_step_def run_state_bind Let_def case_prod_unfold)
    with assms True res show ?thesis
      by (intro that [of g' ms hs]) (simp_all add: go_step_def run_state_bind Let_def case_prod_unfold)
  qed (use assms in \<open>simp add: go_step_def\<close>)
qed


lemma in_hand_go:
  assumes "i < length (pr_routines p)" "mset (queued g') + mset (map fst hs) = mset (queued (snd (pr_routines p ! i))) + mset ms"
  shows "in_hand (p\<lparr>pr_routines := (pr_routines p)[i := (r, g')]\<rparr>) + mset (map fst hs) = in_hand p + mset ms"
  using sum_list_update_mset [OF assms(1), of "\<lambda>g. mset (queued (snd g))" "(r, g')"] assms(2) by (simp add: in_hand_def)

lemma in_hand_simps [simp]:
  "in_hand (p\<lparr>pr_main := a\<rparr>) = in_hand p" "in_hand (p\<lparr>pr_lifecycle := b\<rparr>) = in_hand p" "in_hand (p\<lparr>pr_root_done := c\<rparr>) = in_hand p"
  "in_hand (p\<lparr>pr_serving := d\<rparr>) = in_hand p" "in_hand (p\<lparr>pr_ops_errs := e\<rparr>) = in_hand p" "in_hand (p\<lparr>pr_taken := t\<rparr>) = in_hand p"
  "in_hand (p\<lparr>pr_handled := h\<rparr>) = in_hand p"
  by (simp_all add: in_hand_def)

lemma all_returned_simps [simp]:
  "all_returned (p\<lparr>pr_main := a\<rparr>) = all_returned p" "all_returned (p\<lparr>pr_lifecycle := b\<rparr>) = all_returned p"
  "all_returned (p\<lparr>pr_root_done := c\<rparr>) = all_returned p" "all_returned (p\<lparr>pr_serving := d\<rparr>) = all_returned p"
  "all_returned (p\<lparr>pr_ops_errs := e\<rparr>) = all_returned p"
  by (simp_all add: all_returned_def)

lemma channel_room_simps [simp]:
  "channel_room (p\<lparr>pr_main := a\<rparr>) = channel_room p" "channel_room (p\<lparr>pr_lifecycle := b\<rparr>) = channel_room p"
  "channel_room (p\<lparr>pr_root_done := c\<rparr>) = channel_room p" "channel_room (p\<lparr>pr_routines := rs\<rparr>) = channel_room p"
  "channel_room (p\<lparr>pr_taken := t\<rparr>) = channel_room p" "channel_room (p\<lparr>pr_handled := h\<rparr>) = channel_room p"
  by (simp_all add: channel_room_def)

lemma returned_empty: "all_returned p \<Longrightarrow> in_hand p = {#}"
proof -
  have "\<forall>g \<in> set gs. snd g = Returned \<Longrightarrow> (\<Sum>g \<leftarrow> gs. mset (queued (snd g))) = {#}" for gs :: "(role \<times> goroutine) list"
    by (induction gs) auto
  then show "all_returned p \<Longrightarrow> in_hand p = {#}" by (simp add: all_returned_def in_hand_def list_all_iff)
qed

lemma returned_stuck: "all_returned p \<Longrightarrow> i < length (pr_routines p) \<Longrightarrow> snd (pr_routines p ! i) = Returned"
  by (simp add: all_returned_def list_all_length)

lemma fst_update: "i < length xs \<Longrightarrow> map fst (xs[i := (fst (xs ! i), y)]) = map fst xs"
  by (simp add: map_update list_update_same_conv)

lemma proc_ok_start: "proc_ok cfg proc_start"
  by (simp add: proc_ok_def proc_start_def in_hand_def channel_room_def)

lemma proc_ok_go:
  assumes "proc_ok (mb_config m) p" "run_state (go_step m i p) w = (Some p', w')"
  shows "proc_ok (mb_config m) p'"
proof -
  obtain g' ms hs where i: "i < length (pr_routines p)"
    and step: "run_state (routine_step m (pr_root_done p) (fst (pr_routines p ! i)) (snd (pr_routines p ! i))) w = (Some (g', ms, hs), w')"
    and p': "p' = p\<lparr>pr_routines := (pr_routines p)[i := (fst (pr_routines p ! i), g')], pr_taken := pr_taken p @ ms,
       pr_handled := pr_handled p @ hs\<rparr>"
    by (rule go_stepE [OF assms(2)])
  have moving: "\<not> all_returned p" using step returned_stuck [OF _ i] by auto
  have "mset (pr_taken p') = mset (map fst (pr_handled p')) + in_hand p'"
    using in_hand_go [OF i routine_step_hand [OF step], of "fst (pr_routines p ! i)"] assms(1)
    by (simp add: p' proc_ok_def ac_simps)
  moreover have "map fst (pr_routines p') = map fst (pr_routines p)" by (simp add: p' fst_update i)
  ultimately show ?thesis
    using assms(1) moving by (simp add: proc_ok_def) (simp add: p')
qed

lemma proc_ok_step:
  assumes "proc_ok (mb_config m) p" "run_state (proc_step m e p) w = (Some p', w')"
  shows "proc_ok (mb_config m) p'"
proof (cases e)
  case Main
  let ?n = "length (pr_routines p)"
  show ?thesis
  proof (cases "pr_main p = Spawning \<and> ?n < length (roles (mb_config m))")
    case True
    then show ?thesis using assms Main
      by (auto simp: main_step_def proc_ok_def in_hand_def take_Suc_conv_app_nth)
  next
    case False
    have "length (map fst (pr_routines p)) = length (take ?n (roles (mb_config m)))" using assms(1) by (simp add: proc_ok_def)
    then have "?n \<le> length (roles (mb_config m))" by simp
    with False show ?thesis using assms Main
      by (auto simp: main_step_def proc_ok_def split: main_at.splits if_splits)
  qed
next
  case (Go i)
  then show ?thesis using assms proc_ok_go by (auto split: if_splits)
next
  case (Ticker i)
  then have i: "i < length (pr_routines p)" "snd (pr_routines p ! i) = AtTop"
    and p': "p' = p\<lparr>pr_routines := (pr_routines p)[i := (fst (pr_routines p ! i), AtCall)]\<rparr>"
    using assms(2) by (auto simp: ticker_fires_def split: if_splits)
  have "in_hand p' = in_hand p"
    using in_hand_go [OF i(1), of AtCall "[]" "[]" "fst (pr_routines p ! i)"] i(2) by (simp add: p')
  moreover have "\<not> all_returned p" using returned_stuck [OF _ i(1)] i(2) by auto
  moreover have "map fst (pr_routines p') = map fst (pr_routines p)" by (simp add: p' fst_update i)
  ultimately show ?thesis using assms(1) by (simp add: proc_ok_def) (simp add: p')
next
  case (Server_Returns health err)
  let ?x = "if health then (False, snd (pr_serving p)) else (fst (pr_serving p), False)"
  let ?y = "pr_ops_errs p @ (case Start_report err of None \<Rightarrow> [] | Some e \<Rightarrow> [e])"
  have guard: "if health then fst (pr_serving p) else snd (pr_serving p)" and p': "p' = p\<lparr>pr_serving := ?x, pr_ops_errs := ?y\<rparr>"
    using assms(2) Server_Returns by (simp_all add: server_returns_def split: if_splits)
  have "length ?y \<le> Suc (length (pr_ops_errs p))" by (cases "Start_report err") simp_all
  then have "channel_room p'" using assms(1) guard by (auto simp: proc_ok_def channel_room_def p' split: if_splits)
  then show ?thesis using assms(1) by (simp add: proc_ok_def p')
next
  case Main_Ops
  then show ?thesis using assms
    by (auto simp: proc_ok_def main_ops_step_def channel_room_def split: main_at.splits list.splits)
qed (use assms in \<open>auto simp: proc_ok_def split: if_splits\<close>)

lemma proc_ok_steps: "proc_steps m p p' \<Longrightarrow> proc_ok (mb_config m) p \<Longrightarrow> proc_ok (mb_config m) p'"
  by (induction rule: proc_steps.induct) (auto intro: proc_ok_step)


section \<open>Termination of the drain\<close>

text \<open>
  The moves that the process makes by itself, tickers apart. Once the root context is done each of them brings \<open>run\<close> or a goroutine
  nearer to its end, or works off a message.
\<close>

fun own_move :: "event \<Rightarrow> bool" where
  "own_move Main = True"
| "own_move Main_Ops = True"
| "own_move (Go i) = True"
| "own_move _ = False"

fun stage_rank :: "goroutine \<Rightarrow> nat" where
  "stage_rank AtCall = 5"
| "stage_rank (InCall b) = 4"
| "stage_rank (Handling msgs) = 3"
| "stage_rank Sleeping = 2"
| "stage_rank AtTop = 1"
| "stage_rank Returned = 0"

definition main_rank :: "config \<Rightarrow> proc \<Rightarrow> nat" where
  "main_rank cfg p =
     (case pr_main p of Spawning \<Rightarrow> 4 + (length (roles cfg) - length (pr_routines p)) | Selecting \<Rightarrow> 3 | Draining \<Rightarrow> 2
      | Failing err \<Rightarrow> 1 | Stopping \<Rightarrow> 1 | Exited r \<Rightarrow> 0)"

definition stage_sum :: "proc \<Rightarrow> nat" where
  "stage_sum p = (\<Sum>g \<leftarrow> pr_routines p. stage_rank (snd g))"

definition drain_order :: "config \<Rightarrow> (proc \<times> proc) set" where
  "drain_order cfg = main_rank cfg <*mlex*> stage_sum <*mlex*> measure (\<lambda>p. size (in_hand p))"

lemma drain_order_wf: "wf (drain_order cfg)"
  by (simp add: drain_order_def wf_mlex)

lemma sum_list_update_less:
  fixes f :: "'a \<Rightarrow> nat"
  shows "i < length xs \<Longrightarrow> f y < f (xs ! i) \<Longrightarrow> (\<Sum>x \<leftarrow> xs[i := y]. f x) < (\<Sum>x \<leftarrow> xs. f x)"
    and "i < length xs \<Longrightarrow> f y = f (xs ! i) \<Longrightarrow> (\<Sum>x \<leftarrow> xs[i := y]. f x) = (\<Sum>x \<leftarrow> xs. f x)"
  by (induction xs arbitrary: i) (auto simp: nth_Cons' split: nat.splits)

lemma routine_step_stage:
  assumes "run_state (routine_step m True r g) w = (Some (g', ms, hs), w')"
  shows "stage_rank g' < stage_rank g \<or> stage_rank g' = stage_rank g \<and> ms = [] \<and> hs \<noteq> []"
proof (cases g)
  case (InCall b)
  then show ?thesis using assms by (cases r) (auto simp: run_state_bind split: prod.splits sum.splits)
next
  case (Handling msgs)
  then show ?thesis using assms by (cases msgs) (auto simp: run_state_bind split: prod.splits)
qed (use assms in auto)

lemma own_move_decreases:
  assumes "pr_root_done p" "own_move e" "run_state (proc_step m e p) w = (Some p', w')"
  shows "(p', p) \<in> drain_order (mb_config m)"
proof (cases e)
  case (Go i)
  then have "run_state (go_step m i p) w = (Some p', w')" using assms(3) by (auto split: if_splits)
  then obtain g' ms hs where i: "i < length (pr_routines p)"
    and step: "run_state (routine_step m True (fst (pr_routines p ! i)) (snd (pr_routines p ! i))) w = (Some (g', ms, hs), w')"
    and p': "p' = p\<lparr>pr_routines := (pr_routines p)[i := (fst (pr_routines p ! i), g')], pr_taken := pr_taken p @ ms,
       pr_handled := pr_handled p @ hs\<rparr>"
    using assms(1) by (elim go_stepE) simp
  have main: "main_rank (mb_config m) p' = main_rank (mb_config m) p"
    by (cases "pr_main p") (simp_all add: main_rank_def p')
  let ?gs = "pr_routines p"
  from routine_step_stage [OF step] show ?thesis
  proof
    assume "stage_rank g' < stage_rank (snd (?gs ! i))"
    then have "stage_sum p' < stage_sum p"
      using sum_list_update_less(1) [OF i, of "\<lambda>g. stage_rank (snd g)" "(fst (?gs ! i), g')"] by (simp add: stage_sum_def p')
    with main show ?thesis by (simp add: drain_order_def mlex_less mlex_leq)
  next
    assume same: "stage_rank g' = stage_rank (snd (?gs ! i)) \<and> ms = [] \<and> hs \<noteq> []"
    then have "stage_sum p' = stage_sum p"
      using sum_list_update_less(2) [OF i, of "\<lambda>g. stage_rank (snd g)" "(fst (?gs ! i), g')"] by (simp add: stage_sum_def p')
    moreover have "in_hand p' + mset (map fst hs) = in_hand p + mset ms"
      using in_hand_go [OF i routine_step_hand [OF step], of "fst (?gs ! i)"] by (simp add: p')
    then have "size (in_hand p') + length hs = size (in_hand p)" using same by (metis add.right_neutral length_map mset_zero_iff size_mset size_union)
    then have "size (in_hand p') < size (in_hand p)" using same by (metis add_diff_cancel_left' length_greater_0_conv less_add_same_cancel1)
    ultimately show ?thesis using main by (simp add: drain_order_def mlex_less mlex_leq)
  qed
qed (use assms in \<open>auto simp: main_step_def main_ops_step_def drain_order_def main_rank_def
      intro!: mlex_less split: main_at.splits if_splits list.splits\<close>)

lemma own_move_enabled:
  assumes "pr_root_done p" "\<not> is_exited (pr_main p)"
  shows "\<exists>e. own_move e \<and> (\<forall>w. \<exists>p' w'. run_state (proc_step m e p) w = (Some p', w'))"
proof (cases "all_returned p")
  case True
  then show ?thesis using assms by (intro exI [of _ Main]) (cases "pr_main p", auto simp: main_step_def)
next
  case False
  then obtain i where i: "i < length (pr_routines p)" "snd (pr_routines p ! i) \<noteq> Returned"
    by (auto simp: all_returned_def list_all_length)
  obtain r g where g: "pr_routines p ! i = (r, g)" by fastforce
  have "\<exists>x w'. run_state (routine_step m True r g) w = (Some x, w')" for w
  proof (cases g)
    case (Handling msgs)
    then show ?thesis by (cases msgs) (auto simp: run_state_bind case_prod_unfold)
  qed (use i(2) g in \<open>auto simp: run_state_bind case_prod_unfold\<close>)
  then have "\<exists>p' w'. run_state (proc_step m (Go i) p) w = (Some p', w')" for w
    using assms i(1) g by (elim meta_allE [of _ w] exE) (simp add: go_step_def run_state_bind case_prod_unfold)
  then show ?thesis by (intro exI [of _ "Go i"]) simp
qed


section \<open>Calls under a done context\<close>

text \<open>What the shutdown relies on of the Redis client: a command whose context is done when it begins is refused.\<close>

definition obeys_context :: "'w member \<Rightarrow> bool" where
  "obeys_context m \<longleftrightarrow>
     (\<forall>grp cons key n block w. isl (fst (run_state (XReadGroup (mb_redis m True) grp cons key n block) w))) \<and>
     (\<forall>key grp cons idle start n w. isl (fst (run_state (XAutoClaim (mb_redis m True) key grp cons idle start n) w)))"

definition late_call :: "goroutine \<Rightarrow> bool" where
  "late_call g \<longleftrightarrow> g = InCall False"

lemma late_step:
  assumes "obeys_context m" "run_state (routine_step m True r g) w = (Some (g', ms, hs), w')" "\<not> late_call g"
  shows "ms = [] \<and> \<not> late_call g'"
proof (cases g)
  case (InCall b)
  then have "b" using assms(3) by (cases b) (simp_all add: late_call_def)
  moreover have "fst (run_state (Fetch (mb_driver m True) n block) w) = Inr msgs \<Longrightarrow> msgs = []"
      "fst (run_state (Reclaim (mb_driver m True) idle n) w) = Inr msgs \<Longrightarrow> msgs = []" for n block idle msgs
    using assms(1) by (auto simp: obeys_context_def Fetch_def Reclaim_def mb_driver_def run_state_bind case_prod_unfold isl_def
        split: sum.splits if_splits) (metis Inl_Inr_False)+
  ultimately show ?thesis
    using assms(2) InCall by (cases r) (auto simp: late_call_def run_state_bind Let_def case_prod_unfold split: sum.splits)
next
  case (Handling msgs)
  then show ?thesis using assms by (cases msgs) (auto simp: late_call_def run_state_bind split: prod.splits)
qed (use assms in \<open>auto simp: late_call_def\<close>)


lemma list_all_update: "list_all P xs \<Longrightarrow> P y \<Longrightarrow> list_all P (xs[i := y])"
  by (auto simp: list_all_iff dest: set_update_subset_insert [THEN subsetD])

lemma late_proc_step:
  assumes "obeys_context m" "run_state (proc_step m e p) w = (Some p', w')" "pr_root_done p"
    and "list_all (\<lambda>g. \<not> late_call (snd g)) (pr_routines p)"
  shows "pr_taken p' = pr_taken p \<and> pr_root_done p' \<and> list_all (\<lambda>g. \<not> late_call (snd g)) (pr_routines p')"
proof (cases e)
  case (Go i)
  then have "run_state (go_step m i p) w = (Some p', w')" using assms(2) by (auto split: if_splits)
  then obtain g' ms hs where i: "i < length (pr_routines p)"
    and step: "run_state (routine_step m True (fst (pr_routines p ! i)) (snd (pr_routines p ! i))) w = (Some (g', ms, hs), w')"
    and p': "p' = p\<lparr>pr_routines := (pr_routines p)[i := (fst (pr_routines p ! i), g')], pr_taken := pr_taken p @ ms,
       pr_handled := pr_handled p @ hs\<rparr>"
    using assms(3) by (elim go_stepE) simp
  have "\<not> late_call (snd (pr_routines p ! i))" using assms(4) i by (simp add: list_all_length)
  from late_step [OF assms(1) step this] show ?thesis using assms(3,4) by (simp add: p' list_all_update)
next
  case Main
  then show ?thesis using assms by (auto simp: main_step_def late_call_def split: main_at.splits if_splits)
next
  case (Ticker i)
  then show ?thesis using assms by (auto simp: ticker_fires_def late_call_def split: if_splits intro!: list_all_update)
qed (use assms in \<open>auto simp: server_returns_def main_ops_step_def split: if_splits main_at.splits list.splits\<close>)

section \<open>Properties\<close>

text \<open>
  C12. The drain is complete. Whatever the order in which the goroutines move, whatever Redis answers, and whether the process ends on a signal
  or on an error of a probe server: when \<open>run\<close> is out, all its goroutines have returned, and the messages that were handled are
  exactly those that a fetch or a reclaim gave to the process, with their multiplicity; none is dropped on the way out.
\<close>

theorem drain_complete:
  assumes "proc_steps m proc_start p" "pr_main p = Exited r"
  shows "all_returned p \<and> mset (map fst (pr_handled p)) = mset (pr_taken p) \<and>
    map fst (pr_routines p) = [Dispatch, Recover, Retention, Gauge] @ replicate (nat (cfg_WorkerConcurrency (mb_config m))) Consume"
proof -
  have ok: "proc_ok (mb_config m) p" by (rule proc_ok_steps [OF assms(1) proc_ok_start])
  then have "all_returned p" using assms(2) by (simp add: proc_ok_def)
  with ok assms(2) show ?thesis by (simp add: proc_ok_def returned_empty roles_def)
qed

text \<open>A client for calls whose context is done, and a worker on the reference server with one request in its stream.\<close>

definition refusing :: "'w redis \<Rightarrow> 'w redis" where
  "refusing r = (let err = TextE ''context canceled'' in r
     \<lparr>XAdd := (\<lambda>_ _. ret (Inl err)), XReadGroup := (\<lambda>_ _ _ _ _. ret (Inl err)), XAck := (\<lambda>_ _ _. ret (Some err)),
      XAutoClaim := (\<lambda>_ _ _ _ _ _. ret (Inl err)), XPending := (\<lambda>_ _. ret (Inl err)), XInfoGroups := (\<lambda>_. ret (Inl err)),
      XTrimMinID := (\<lambda>_ _. ret (Inl err)), XGroupCreateMkStream := (\<lambda>_ _ _. ret (Some err)), TxPipeline_Exec := (\<lambda>_. ret (Some err)),
      Cmd_Err := (\<lambda>_. ret (Some err)), ZRangeByScore := (\<lambda>_ _ _. ret (Inl err)), HMGet := (\<lambda>_ _. ret (Inl err)),
      ZRangeWithScores := (\<lambda>_ _ _. ret (Inl err)), SetNX := (\<lambda>_ _ _. ret (Inl err)), Eval := (\<lambda>_. ret (Inl err))\<rparr>)"

definition request_server :: server where
  "request_server = empty_server
     \<lparr>srv_streams := (\<lambda>_. [])(StreamMain := [((5, 0), [(''payload'', ''request''), (''attempt'', ''1'')])]),
      srv_groups := (\<lambda>_. [])(StreamMain := [(ConsumerGroup, \<lparr>last_delivered = (0, 0), pel = []\<rparr>)])\<rparr>"

definition server_member :: "server member" where
  "server_member = \<lparr>mb_platform = server_platform, mb_config = config_fields deployed_env, mb_store = closed_store,
     mb_redis = (\<lambda>ctx_done. if ctx_done then refusing server_redis else server_redis), mb_id = ''worker-1''\<rparr>"

text \<open>The signal comes while a consumer is in its fetch.\<close>

definition drain_schedule :: "event list" where
  "drain_schedule = replicate 9 Main @ [Go 4, Go 4, Ticker 1, Signal, Main, Go 4, Go 4, Go 4, Go 1, Go 1] @ map Go [0, 1, 2, 3, 4, 5, 6, 7] @ [Main, Main]"

lemma proc_exec_steps: "run_state (proc_exec m es p) w = (Some p', w') \<Longrightarrow> proc_steps m q p \<Longrightarrow> proc_steps m q p'"
proof (induction es arbitrary: p w)
  case (Cons e es)
  obtain res w1 where res: "run_state (proc_step m e p) w = (res, w1)" by fastforce
  with Cons.prems(1) obtain p1 where p1: "res = Some p1" "run_state (proc_exec m es p1) w1 = (Some p', w')"
    by (cases res) (auto simp: run_state_bind)
  from Cons.IH [OF p1(2)] proc_steps.after [OF Cons.prems(2)] res p1(1) show ?case by blast
qed simp

lemma drained:
  "case run_state (proc_exec server_member drain_schedule proc_start) request_server of
     (None, _) \<Rightarrow> False
   | (Some p, _) \<Rightarrow> pr_main p = Exited None \<and> map snd (pr_handled p) = [OutcomeRetryScheduled] \<and> length (pr_taken p) = 1"
  by code_simp


lemma drained_run:
  obtains p w where "run_state (proc_exec server_member drain_schedule proc_start) request_server = (Some p, w)"
    "proc_steps server_member proc_start p" "pr_main p = Exited None" "map snd (pr_handled p) = [OutcomeRetryScheduled]"
proof -
  obtain res w where run: "run_state (proc_exec server_member drain_schedule proc_start) request_server = (res, w)" by fastforce
  with drained obtain p where p: "res = Some p" "pr_main p = Exited None" "map snd (pr_handled p) = [OutcomeRetryScheduled]"
    by (cases res) auto
  have run': "run_state (proc_exec server_member drain_schedule proc_start) request_server = (Some p, w)" using run p(1) by simp
  from that [OF run' proc_exec_steps [OF run' proc_steps.here] p(2,3)] show ?thesis .
qed

theorem drain_complete_witness:
  "case run_state (proc_exec server_member drain_schedule proc_start) request_server of
     (Some p, _) \<Rightarrow> all_returned p \<and> size (mset (pr_taken p)) = 1
   | _ \<Rightarrow> False"
proof -
  obtain p w where run: "run_state (proc_exec server_member drain_schedule proc_start) request_server = (Some p, w)"
    and p: "proc_steps server_member proc_start p" "pr_main p = Exited None" "map snd (pr_handled p) = [OutcomeRetryScheduled]"
    by (rule drained_run)
  have "all_returned p \<and> mset (map fst (pr_handled p)) = mset (pr_taken p)" using drain_complete [OF p(1,2)] by blast
  moreover have "length (pr_handled p) = 1" using arg_cong [OF p(3), of length] by simp
  ultimately have "all_returned p" "size (mset (pr_taken p)) = 1" by (metis length_map size_mset)+
  then show ?thesis using run by simp
qed

text \<open>
  C15. What the probes say of the running process. The liveness probe always passes. The readiness probe passes exactly while \<open>run\<close> waits in its
  \<open>select\<close>, with all goroutines started, and on the way out after an error of a probe server; it answers 503 before, and from the moment on
  which \<open>run\<close> sees the signal. STOPPED is shown only when all goroutines have returned. So after an error of the metrics
  server the worker reports READY while it no longer consumes.
\<close>

theorem readiness_probe:
  assumes "proc_steps m proc_start p"
  shows "or_Status (healthMux (pr_lifecycle p) \<lparr>oq_Method = ''GET'', oq_Path = ''/healthz''\<rparr>) = 200 \<and>
    or_Status (healthMux (pr_lifecycle p) \<lparr>oq_Method = ''GET'', oq_Path = ''/readyz''\<rparr>) =
      (if pr_main p = Selecting \<or> (\<exists>err. pr_main p = Failing err \<or> pr_main p = Exited (Some err)) then 200 else 503) \<and>
    (pr_lifecycle p = StateReady \<longrightarrow> length (pr_routines p) = 4 + nat (cfg_WorkerConcurrency (mb_config m))) \<and>
    (pr_lifecycle p = StateStopped \<longrightarrow> all_returned p)"
proof -
  have ok: "proc_ok (mb_config m) p" by (rule proc_ok_steps [OF assms proc_ok_start])
  have names: "StateStarting \<noteq> StateReady" "StateDraining \<noteq> StateReady" "StateStopped \<noteq> StateReady" "StateStarting \<noteq> StateStopped"
      "StateDraining \<noteq> StateStopped" "StateReady \<noteq> StateStopped"
    by (simp_all add: StateStarting_def StateReady_def StateDraining_def StateStopped_def)
  have "pr_lifecycle p = StateReady \<longleftrightarrow> pr_main p = Selecting \<or> (\<exists>err. pr_main p = Failing err \<or> pr_main p = Exited (Some err))"
      "pr_lifecycle p = StateStopped \<longleftrightarrow> pr_main p = Stopping \<or> pr_main p = Exited None"
    using ok names by (cases "pr_main p" rule: main_lifecycle.cases; simp add: proc_ok_def)+
  with ok show ?thesis by (auto simp: proc_ok_def healthMux_routes roles_def)
qed

theorem readiness_probe_witness:
  "case run_state (proc_exec server_member (replicate 9 Main @ [Server_Returns False (Some (TextE ''bind'')), Main_Ops]) proc_start) request_server of
     (Some p, _) \<Rightarrow> pr_main p = Failing (WrapE (TextE ''bind'')) \<and>
       or_Status (healthMux (pr_lifecycle p) \<lparr>oq_Method = ''GET'', oq_Path = ''/readyz''\<rparr>) = 200
   | _ \<Rightarrow> False"
proof -
  let ?run = "run_state (proc_exec server_member (replicate 9 Main @ [Server_Returns False (Some (TextE ''bind'')), Main_Ops]) proc_start) request_server"
  have "map_option pr_main (fst ?run) = Some (Failing (WrapE (TextE ''bind'')))" by code_simp
  then obtain p w where p: "?run = (Some p, w)" "pr_main p = Failing (WrapE (TextE ''bind''))" by (cases ?run) auto
  from readiness_probe [OF proc_exec_steps [OF p(1) proc_steps.here]] p show ?thesis by simp
qed

text \<open>
  C13. The drain ends. Once the root context is done, the moves of \<open>run\<close> and of the goroutines cannot go on for ever as long as no further tick
  is taken, whatever Redis and the other services answer and however many messages a last fetch returned; and as long as \<open>run\<close> is not out, one
  of them can move. So every such sequence of moves ends with the exit of the process.
\<close>

theorem drain_ends:
  "wf {(p', p). pr_root_done p \<and> (\<exists>e w w'. own_move e \<and> run_state (proc_step m e p) w = (Some p', w'))} \<and>
   (pr_root_done p \<and> \<not> is_exited (pr_main p) \<longrightarrow>
      (\<exists>e. own_move e \<and> (\<forall>w. \<exists>p' w'. run_state (proc_step m e p) w = (Some p', w'))))"
proof
  show "wf {(p', p). pr_root_done p \<and> (\<exists>e w w'. own_move e \<and> run_state (proc_step m e p) w = (Some p', w'))}"
    by (rule wf_subset [OF drain_order_wf [of "mb_config m"]]) (auto intro: own_move_decreases)
qed (use own_move_enabled in blast)

theorem drain_ends_witness:
  "\<exists>e p' w'. own_move e \<and> run_state (proc_step server_member e (proc_start\<lparr>pr_main := Selecting, pr_root_done := True\<rparr>)) request_server = (Some p', w')"
  using drain_ends [of server_member "proc_start\<lparr>pr_main := Selecting, pr_root_done := True\<rparr>"] by fastforce

text \<open>
  C14. No new work after the signal. If the Redis client refuses a fetch or a reclaim whose context is already done, then a worker whose root context is done
  and that is in no call begun before takes no further message: also when a ticker fires once more and the \<open>select\<close> of its goroutine prefers it
  to the done context.
\<close>

theorem drain_takes_nothing:
  assumes "obeys_context m" "pr_root_done p" "list_all (\<lambda>g. snd g \<noteq> InCall False) (pr_routines p)" "proc_steps m p p'"
  shows "pr_taken p' = pr_taken p"
proof -
  have "pr_taken p' = pr_taken p \<and> pr_root_done p' \<and> list_all (\<lambda>g. \<not> late_call (snd g)) (pr_routines p')"
    using assms(4)
  proof induction
    case here
    then show ?case using assms(2,3) by (simp add: late_call_def)
  next
    case (after p' e w p'' w')
    with late_proc_step [OF assms(1) after.hyps(2)] show ?case by simp
  qed
  then show ?thesis by blast
qed

theorem drain_takes_nothing_witness:
  "case run_state (proc_exec server_member [Signal, Ticker 0, Go 0, Go 0] (proc_start\<lparr>pr_main := Selecting, pr_root_done := True,
       pr_routines := [(Recover, AtTop)]\<rparr>)) request_server of
     (Some p, _) \<Rightarrow> pr_taken p = [] | _ \<Rightarrow> False"
proof -
  let ?p = "proc_start\<lparr>pr_main := Selecting, pr_root_done := True, pr_routines := [(Recover, AtTop)]\<rparr>"
  let ?run = "run_state (proc_exec server_member [Signal, Ticker 0, Go 0, Go 0] ?p) request_server"
  have "map_option pr_main (fst ?run) = Some Selecting" by code_simp
  then obtain p w where p: "?run = (Some p, w)" by (cases ?run) auto
  have "obeys_context server_member" by (simp add: obeys_context_def server_member_def refusing_def Let_def)
  from drain_takes_nothing [OF this, of ?p p] proc_exec_steps [OF p proc_steps.here] p show ?thesis by (simp add: proc_start_def)
qed

end
