(* ===== verification/Export_Frame.thy ===== *)
theory Export_Frame
  imports Worker_Rule
begin

text \<open>
  What the pipeline leaves alone. A pipeline whose transports, store and libraries are silent about a part of the world touches it only through the ready
  event and the metrics, and it updates its counters only with amounts that are not negative. So a predicate on that
  part that these two keep is kept by \<open>Export\<close> and \<open>ReemitReady\<close>.
\<close>

lemma silent_keeps: "silent view m \<Longrightarrow> keeps (\<lambda>w. J (view w)) m"
  unfolding silent_def keeps_def by (metis (mono_tags, lifting) wp_mono)

lemma keeps_for_each: "(\<And>x. keeps J (f x)) \<Longrightarrow> keeps J (for_each xs f)"
  unfolding keeps_def by (auto intro: wp_for_each)

definition quiet_store :: "('w \<Rightarrow> 'v) \<Rightarrow> 'w s3_store \<Rightarrow> bool" where
  "quiet_store view store \<longleftrightarrow> (\<forall>b k. silent view (StatObject (s3_client store) b k)) \<and>
     (\<forall>b k body opts. silent view (PutObject (s3_client store) b k body opts)) \<and>
     (\<forall>b k w. wp (GetObject (s3_client store) b k) (\<lambda>res w'. view w' = view w \<and> (\<forall>rd. res = Inr rd \<longrightarrow> silent view rd)) w)"

definition silent_pipeline :: "('w \<Rightarrow> 'v) \<Rightarrow> 'w pipeline \<Rightarrow> bool" where
  "silent_pipeline view p \<longleftrightarrow> silent_render view (pl_Render p) \<and>
     (\<forall>http u. pl_ExternalHTTP p = Some http \<longrightarrow> silent_response view (ext_Do http u)) \<and> quiet_store view (pl_Store p) \<and>
     (\<forall>dep a b reason trace stage. silent view (pl_Transition p dep a b reason trace stage)) \<and>
     (\<forall>dep ptr. silent view (pl_SubmitArtifact p dep ptr)) \<and> silent view (pl_now p) \<and> (\<forall>n. silent view (pl_rand_Read p n)) \<and>
     silent view (pl_schedule p) \<and> silent view (pl_uploadExpired p)"

lemma silent_FetchIfExists: "quiet_store view store \<Longrightarrow> silent view (FetchIfExists store key)"
  unfolding silent_def FetchIfExists_def wp_bind
proof (intro allI, goal_cases)
  case (1 w)
  then have "wp (GetObject (s3_client store) (s3_bucket store) key) (\<lambda>res w'. view w' = view w \<and> (\<forall>rd. res = Inr rd \<longrightarrow> silent view rd)) w"
    by (simp add: quiet_store_def)
  then show ?case
  proof (rule wp_mono)
    fix res :: "gerr + ('a, gerr + string) state" and w'
    assume res: "view w' = view w \<and> (\<forall>rd. res = Inr rd \<longrightarrow> silent view rd)"
    show "wp (case res of Inl err \<Rightarrow> ret (Inl (classifyStorage err)) | Inr obj \<Rightarrow> obj \<bind> (\<lambda>buf. ret
        (case buf of Inl err \<Rightarrow> if errors_As minio_status (Some err) = Some 404 then Inr ([], False) else Inl (classifyStorage err)
         | Inr bytes \<Rightarrow> Inr (bytes, True)))) (\<lambda>_ w'. view w' = view w) w'"
      using res silentD [of view _ w'] by (cases res) auto
  qed
qed

lemma silent_pipelineD:
  assumes "silent_pipeline view p"
  shows "silent view (FetchPage (pl_Render p) slug pn)" "silent view (harvest_Run (harvester_of p pn) n html)"
    "silent view (UploadAll (pl_Store p) sched objs k)" "silent view (EnsureUploaded (pl_Store p) obj)"
    "silent view (FetchIfExists (pl_Store p) key)" "silent view (pl_now p)" "silent view (pl_schedule p)" "silent view (pl_uploadExpired p)"
    "silent view (pl_rand_Read p i)" "silent view (pl_Transition p dep a b reason trace stage)" "silent view (pl_SubmitArtifact p dep ptr)"
proof -
  have render: "silent_render view (pl_Render p)" and store: "quiet_store view (pl_Store p)"
    using assms by (simp_all add: silent_pipeline_def)
  show "silent view (FetchPage (pl_Render p) slug pn)" by (intro silent_intros render)
  show "silent view (harvest_Run (harvester_of p pn) n html)"
    by (rule silent_harvest) (use assms silent_externalFetcher [of p _ view] in
      \<open>auto simp: harvester_of_def silent_FetchAsset [OF render] silent_pipeline_def\<close>)
  show up: "silent view (EnsureUploaded (pl_Store p) obj)" for obj
    using store by (intro silent_intros) (simp_all add: quiet_store_def)
  show "silent view (UploadAll (pl_Store p) sched objs k)" by (intro silent_intros up)
  show "silent view (FetchIfExists (pl_Store p) key)" by (rule silent_FetchIfExists [OF store])
qed (use assms in \<open>simp_all add: silent_pipeline_def\<close>)

text \<open>A counter that is given a negative amount panics; the pipeline never does that.\<close>

fun fine_metric :: "export_metric \<Rightarrow> bool" where
  "fine_metric (ArtifactBytesTotal n) = (n \<ge> 0)"
| "fine_metric (ArtifactFilesTotal n) = (n \<ge> 0)"
| "fine_metric _ = True"

lemma pipeline_keeps:
  assumes "silent_pipeline view p" "\<And>ev. keeps (\<lambda>w. J (view w)) (pl_EmitReady p ev)"
    and "\<And>f m. pl_Metrics p = Some f \<Longrightarrow> fine_metric m \<Longrightarrow> keeps (\<lambda>w. J (view w)) (f m)"
  shows "keeps (\<lambda>w. J (view w)) (pipeline_Export p job)" "keeps (\<lambda>w. J (view w)) (pipeline_ReemitReady p rec trace)"
proof -
  note quiet = silent_pipelineD [OF assms(1), THEN silent_keeps]
  have build: "keeps (\<lambda>w. J (view w)) (BuildReady (pl_rand_Read p) inp)" for inp
    unfolding BuildReady_def NewEventID_def by (intro keeps_intros quiet)
  have submit: "keeps (\<lambda>w. J (view w)) (export_submit p job ptr)" for ptr
    unfolding export_submit_def casReady_def export_emit_def by (intro keeps_intros quiet assms(2) build)
  have manifest: "keeps (\<lambda>w. J (view w)) (export_manifest p job entry route files total)" for entry route files total
    unfolding export_manifest_def manifestCreatedAt_def Let_def by (intro keeps_intros quiet submit)
  have since: "keeps (\<lambda>w. J (view w)) (observe_since p mk start)" if "\<And>n. fine_metric (mk n)" for mk start
    unfolding observe_since_def using assms(3) that
    by (cases "pl_Metrics p") (auto intro!: keeps_intros quiet)
  have counters: "keeps (\<lambda>w. J (view w)) (case pl_Metrics p of None \<Rightarrow> ret ()
      | Some f \<Rightarrow> do { f (ArtifactBytesTotal (file_bytes files)); f (ArtifactFilesTotal (int k)) })" for files k
    using assms(3) by (cases "pl_Metrics p") (auto intro!: keeps_intros simp: file_bytes_def)
  have upload: "keeps (\<lambda>w. J (view w)) (export_upload p job entry route files)" for entry route files
    unfolding export_upload_def Let_def by (intro keeps_intros quiet manifest counters since) simp
  have harvest: "keeps (\<lambda>w. J (view w)) (export_harvest p job entry route pn html)" for entry route pn html
    unfolding export_harvest_def by (intro keeps_intros quiet upload since) simp
  show "keeps (\<lambda>w. J (view w)) (pipeline_Export p job)"
    unfolding pipeline_Export_def Export_def Let_def by (intro keeps_intros quiet harvest since) simp
  show "keeps (\<lambda>w. J (view w)) (pipeline_ReemitReady p rec trace)"
    unfolding pipeline_ReemitReady_def ReemitReady_def Let_def by (intro keeps_intros quiet build assms(2))
qed

end
