(* ===== verification/Moves.thy ===== *)
theory Moves
  imports Delivery Process Export_Frame
begin

text \<open>
  What the moves of a worker process do to the jobs in Redis, each move by itself: the wiring of \<open>run\<close> is shown to satisfy what \<open>Delivery\<close> asks of a
  processor, and a move of a goroutine that no other client disturbs is shown to conserve jobs and to leave the messages that other goroutines hold as they
  are. The calls that are a single Redis command are steps of \<open>Interleaving\<close> as they are here; handlers, dispatcher passes and trims are taken apart there into
  their calls and commands, with the other workers in between.
\<close>

declare split_paired_All [simp del] split_paired_Ex [simp del]

section \<open>Messages in hand\<close>

text \<open>
  A message that a goroutine holds: its ID was delivered, and if the stream still has an entry with this ID, it is this message. This stays so as long as
  delivered IDs stay delivered and are not given to new entries.
\<close>

definition in_stream :: "redis_view \<Rightarrow> message \<Rightarrow> bool" where
  "in_stream v m \<longleftrightarrow> (\<exists>i. print_sid i = msg_ID m \<and> delivered v i \<and> (\<forall>e \<in> set (streams v StreamMain). fst e = i \<longrightarrow> entry_msg e = m))"

definition advances :: "redis_view \<Rightarrow> redis_view \<Rightarrow> bool" where
  "advances v v' \<longleftrightarrow> (\<forall>i. delivered v i \<longrightarrow> delivered v' i) \<and>
     (\<forall>e \<in> set (streams v' StreamMain). delivered v (fst e) \<longrightarrow> e \<in> set (streams v StreamMain))"

lemma advances_refl: "advances v v"
  by (simp add: advances_def)

lemma advances_trans: "advances u v \<Longrightarrow> advances v w \<Longrightarrow> advances u w"
  by (auto simp: advances_def)

lemma in_stream_advances: "in_stream v m \<Longrightarrow> advances v v' \<Longrightarrow> in_stream v' m"
  unfolding in_stream_def advances_def by metis

lemma in_stream_from: "in_stream v m \<Longrightarrow> from_stream v m"
  unfolding in_stream_def from_stream_def by (metis print_sid_inject)

lemma entry_in_stream:
  assumes "queue_ok v" "e \<in> set (streams v StreamMain)" "delivered v (fst e)"
  shows "in_stream v (entry_msg e)"
  unfolding in_stream_def
proof (rule exI [of _ "fst e"], intro conjI ballI impI)
  fix e'
  assume "e' \<in> set (streams v StreamMain)" "fst e' = fst e"
  from queue_ok_unique [OF assms(1) this(1) assms(2) this(2)] show "entry_msg e' = entry_msg e" by simp
qed (simp_all add: assms(3) entry_msg_def fromXMessage_def Let_def)

section \<open>Moves\<close>

text \<open>
  After a move: the state is sound and has advanced, and every job that was alive is alive or was finished by one of the messages
  handled.
\<close>

definition conserved :: "event_lib \<Rightarrow> env_codec \<Rightarrow> redis_view \<Rightarrow> (message \<times> outcome) list \<Rightarrow> redis_view \<Rightarrow> bool" where
  "conserved l c v hs v' \<longleftrightarrow> sane l c v' \<and> advances v v' \<and> (\<forall>dep. alive l c v dep \<longrightarrow> alive l c v' dep \<or>
     (\<exists>h \<in> set hs. snd h \<in> finished \<and> job_of l (msg_Payload (fst h)) = dep))"

lemma conserved_refl: "sane l c v \<Longrightarrow> conserved l c v [] v"
  by (simp add: conserved_def advances_refl)

lemma conserved_trans: "conserved l c u hs v \<Longrightarrow> conserved l c v hs' w \<Longrightarrow> conserved l c u (hs @ hs') w"
  unfolding conserved_def set_append using advances_trans by blast

text \<open>The moves beside handling and dispatch leave the retry store as it is, and every entry that waits.\<close>

definition kept :: "redis_view \<Rightarrow> redis_view \<Rightarrow> bool" where
  "kept v v' \<longleftrightarrow> queue_ok v' \<and> zsets v' = zsets v \<and> hashes v' = hashes v \<and> (\<forall>e. waiting v e \<longrightarrow> waiting v' e) \<and> advances v v'"

lemma kept_refl: "queue_ok v \<Longrightarrow> kept v v"
  by (simp add: kept_def advances_refl)

lemma kept_trans: "kept u v \<Longrightarrow> kept v w \<Longrightarrow> kept u w"
  unfolding kept_def using advances_trans by metis

lemma kept_sane:
  assumes "sane l c v" "kept v v'"
  shows "redis_held c v' = redis_held c v" "sane l c v'"
proof -
  have held: "redis_held c v' = redis_held c v" "redis_store_ok c v' = redis_store_ok c v"
    using redis_held_cong [of v' v c] assms(2) by (simp_all add: kept_def)
  then show "redis_held c v' = redis_held c v" "sane l c v'" using assms by (simp_all add: sane_def store_keyed_def kept_def)
qed

lemma kept_conserved:
  assumes "sane l c v" "kept v v'"
  shows "conserved l c v [] v'"
  using kept_sane [OF assms] assms(2) unfolding conserved_def alive_def kept_def by (simp, blast)

lemma deliver_advances:
  assumes "queue_ok v" "prefix es (undelivered v)" "es \<noteq> []"
  shows "advances v (deliver_view es v)" "e \<in> set es \<Longrightarrow> delivered (deliver_view es v) (fst e)"
proof -
  obtain g where g: "main_group v = Some g" using assms(1) by (auto simp: queue_ok_def group_ok_def)
  have "last es \<in> set (undelivered v)" using assms(2,3) by (auto simp: prefix_def)
  then have "sid_less (last_delivered g) (fst (last es))" using g by (auto simp: undelivered_def delivered_def)
  then have "\<not> sid_less (fst (last es)) i" if "\<not> sid_less (last_delivered g) i" for i using that sid_less_trans by blast
  then show "advances v (deliver_view es v)"
    by (auto simp: advances_def delivered_def deliver_view_def g)
  have "pending_entry (deliver_view es v) (fst e)" if "e \<in> set es" using that g by (simp add: pending_entry_def deliver_view_def)
  then show "e \<in> set es \<Longrightarrow> delivered (deliver_view es v) (fst e)"
    using pending_delivered [OF deliver_waiting(1) [OF assms]] by blast
qed

context job_queue
begin

lemma Handle_step:
  assumes "queue_wired drv c view d" "rdb drv = r" "lib d = l" "sane l c (view w)" "in_stream (view w) m"
  shows "wp (Handle d m) (\<lambda>out w'. conserved l c (view w) [(m, out)] (view w')) w"
  by (rule wp_mono [OF Handle_conserves [OF assms(1-4) in_stream_from [OF assms(5)]]]) (auto simp: conserved_def advances_def)

lemma Fetch_spec:
  assumes "rdb drv = r" "queue_ok (view w)"
  shows "wp (Fetch drv n block) (\<lambda>res w'. kept (view w) (view w') \<and>
    (\<forall>ms. res = Inr ms \<longrightarrow> (\<forall>m \<in> set ms. in_stream (view w') m))) w"
  unfolding Fetch_def wp_bind wp_return assms(1)
proof (rule wp_mono [OF xread [OF assms(2)]], goal_cases)
  case (1 res w')
  then obtain es where es: "prefix es (undelivered (view w))" "view w' = (if es = [] then view w else deliver_view es (view w))"
      "\<And>ss. res = Inr ss \<Longrightarrow> map fromXMessage (concat (map snd ss)) = map entry_msg es"
    by blast
  have cons: "kept (view w) (view w') \<and> (\<forall>e \<in> set es. in_stream (view w') (entry_msg e))"
  proof (cases "es = []")
    case False
    note dl = deliver_waiting [OF assms(2) es(1) False] deliver_advances [OF assms(2) es(1) False]
    have "kept (view w) (view w')"
      unfolding kept_def using es(2) False dl(1,2,4) by (simp add: deliver_view_def)
    moreover have "in_stream (view w') (entry_msg e)" if "e \<in> set es" for e
      using that es(2) False dl by (intro entry_in_stream) (simp_all add: deliver_view_def)
    ultimately show ?thesis by blast
  qed (simp add: es(2) kept_refl assms(2))
  have flat: "concat (map (\<lambda>(_, ms). map fromXMessage ms) ss) = map fromXMessage (concat (map snd ss))" for ss :: "(string \<times> x_message list) list"
    by (induction ss) auto
  show ?case
  proof (cases res)
    case (Inr ss)
    then have "concat (map (\<lambda>(_, ms). map fromXMessage ms) ss) = map entry_msg es" using es(3) flat by metis
    with Inr cons show ?thesis by simp
  qed (use cons in simp)
qed

lemma Reclaim_spec:
  assumes "rdb drv = r" "queue_ok (view w)"
  shows "wp (Reclaim drv idle n) (\<lambda>res w'. kept (view w) (view w') \<and>
    (\<forall>ms. res = Inr ms \<longrightarrow> (\<forall>m \<in> set ms. in_stream (view w') m))) w"
  unfolding Reclaim_def wp_bind wp_return assms(1)
proof (rule wp_mono [OF xclaim], elim conjE exE, goal_cases)
  case (1 res w' gone)
  have ok: "queue_ok (view w')" using assms(2) 1(3) by simp
  have "kept (view w) (view w')"
    unfolding kept_def using ok 1(2,3) by (auto simp: waiting_def advances_def)
  moreover have "in_stream (view w') (fromXMessage m)" if "res = Inr ms" "m \<in> set ms" for ms m
  proof -
    obtain es where es: "map fromXMessage ms = map entry_msg es"
        "\<forall>e \<in> set es. e \<in> set (streams (view w) StreamMain) \<and> pending_entry (view w) (fst e)"
      using 1(1) \<open>res = Inr ms\<close> by blast
    obtain e where "e \<in> set es" "fromXMessage m = entry_msg e" using es(1) \<open>m \<in> set ms\<close> by (metis image_iff list.set_map)
    with es(2) 1(3) entry_in_stream [OF ok] pending_delivered [OF assms(2)] show ?thesis by simp
  qed
  ultimately show ?case by (cases res) auto
qed

end

section \<open>Dispatch and retention\<close>

text \<open>The dispatcher only appends to the main stream; trimming only removes from it.\<close>

definition grown :: "redis_view \<Rightarrow> redis_view \<Rightarrow> bool" where
  "grown v0 v \<longleftrightarrow> queue_ok v \<and> main_group v = main_group v0 \<and>
     (\<exists>zs. streams v StreamMain = streams v0 StreamMain @ zs \<and> (\<forall>e \<in> set zs. \<not> delivered v0 (fst e)))"

definition trimmed_to :: "redis_view \<Rightarrow> redis_view \<Rightarrow> bool" where
  "trimmed_to v0 v \<longleftrightarrow> queue_ok v \<and> main_group v = main_group v0 \<and> zsets v = zsets v0 \<and> hashes v = hashes v0 \<and>
     set (streams v StreamMain) \<subseteq> set (streams v0 StreamMain)"

lemma apply_cmd_frame: "main_group (apply_cmd cmd v) = main_group v" "streams (apply_cmd cmd v) = streams v"
  by (cases cmd; simp add: main_group_def)+

lemma grown_apply: "grown v0 v \<Longrightarrow> grown v0 (apply_cmd cmd v)"
  by (simp add: grown_def queue_ok_def ids_ok_def apply_cmd_frame group_ok_cong [OF apply_cmd_frame(1)])

lemma grown_fold: "grown v0 v \<Longrightarrow> grown v0 (fold apply_cmd cmds v)"
  by (induction cmds arbitrary: v) (simp_all add: grown_apply)

lemma trimmed_to_trim: "trimmed_to v0 v \<Longrightarrow> trimmed_to v0 (trim_view key i v)"
  by (auto simp: trimmed_to_def trim_view_def queue_ok_def group_ok_def ids_ok_def main_group_def sorted_wrt_map sorted_wrt_filter)

context job_queue
begin

lemma keeps_grown_write:
  "keeps (\<lambda>w. grown v0 (view w)) (TxPipeline_Exec r cmds)" "keeps (\<lambda>w. grown v0 (view w)) (Cmd_Err r cmd1)"
  unfolding keeps_def
  by (auto intro!: wp_mono [OF tx] wp_mono [OF cmd] simp: grown_fold grown_apply)

lemma keeps_grown_read:
  "0 < n \<Longrightarrow> keeps (\<lambda>w. grown v0 (view w)) (ZRangeByScore r key mx n)" "keeps (\<lambda>w. grown v0 (view w)) (HMGet r key fs)"
  "keeps (\<lambda>w. grown v0 (view w)) (ZRangeWithScores r key a b)"
  unfolding keeps_def by (auto intro!: wp_mono [OF zrange] wp_mono [OF hmget] wp_mono [OF zrange_scores])

text \<open>What is appended to the main stream is new: its ID was not delivered.\<close>

lemma append_effect:
  assumes ok: "queue_ok (view w)"
  shows "wp (XAdd r StreamMain vals) (\<lambda>res w'. queue_ok (view w') \<and>
    ((\<exists>i. view w' = (view w)\<lparr>streams := (streams (view w))(StreamMain := streams (view w) StreamMain @ [(i, vals)])\<rparr> \<and> \<not> delivered (view w) i) \<or>
     (\<exists>e. res = Inl e) \<and> view w' = view w)) w"
proof (rule wp_mono [OF wp_conj [OF xadd xadd_ids [OF ok]]], elim conjE disjE exE, goal_cases)
  case (1 res w' i)
  have new: "streams (view w') StreamMain = streams (view w) StreamMain @ [(i, vals)]" using 1(3) by simp
  have "distinct (map fst (streams (view w') StreamMain))" using 1(1) sorted_ids_distinct by (auto simp: queue_ok_def)
  then have "(i, vals) \<notin> set (streams (view w) StreamMain)" unfolding new by (auto simp: image_iff)
  then have "\<not> delivered (view w) i" using 1(2) new by force
  with 1 show ?case by blast
qed simp

lemma keeps_grown_publish:
  assumes "rdb drv = r"
  shows "keeps (\<lambda>w. grown v0 (view w)) (Publish drv m)"
  unfolding keeps_def Publish_def wp_bind wp_return assms
proof (intro allI impI)
  fix w
  assume g: "grown v0 (view w)"
  then have ok: "queue_ok (view w)" by (simp add: grown_def)
  show "wp (XAdd r StreamMain (publish_values m)) (\<lambda>a w. grown v0 (view w)) w"
    by (rule wp_mono [OF append_effect [OF ok]]) (use g in \<open>auto simp: grown_def delivered_def main_group_def\<close>)
qed

lemma keeps_grown_collect: "keeps (\<lambda>w. grown v0 (view w)) (due_collect r c xs)"
proof (induction xs)
  case (Cons x xs)
  then show ?case
    by (cases x) (auto intro!: keeps_intros keeps_grown_write)
qed (simp add: keeps_intros)

lemma keeps_grown_Due: "0 < n \<Longrightarrow> keeps (\<lambda>w. grown v0 (view w)) (Due r c now n)"
  unfolding Due_def by (intro keeps_intros keeps_grown_read keeps_grown_collect)

lemma keeps_grown_Run:
  assumes "rdb drv = r" "silent view clock" "\<And>g n. gauge = Some g \<Longrightarrow> silent view (g n)"
  shows "keeps (\<lambda>w. grown v0 (view w)) (Run (redis_dispatcher drv c gauge interval batch clock) ticks)"
proof -
  let ?d = "redis_dispatcher drv c gauge interval batch clock"
  have one: "keeps (\<lambda>w. grown v0 (view w)) (dispatch_one ?d env)" for env
    unfolding dispatch_one_def Remove_def redis_dispatcher_def
    by (simp add: assms(1)) (intro keeps_intros keeps_grown_write keeps_grown_publish assms(1))
  have fields: "RetryDispatchLagMs ?d = gauge" "time_Now ?d = clock" "rs_OldestDueLag (Store ?d) = OldestDueLag r"
    by (simp_all add: redis_dispatcher_def assms(1))
  have gauge: "keeps (\<lambda>w. grown v0 (view w)) (g n)" if "gauge = Some g" for g n
    by (rule silent_keeps) (rule assms(3) [OF that])
  have oldest: "keeps (\<lambda>w. grown v0 (view w)) (OldestDueLag r now)" for now
    unfolding OldestDueLag_def by (intro keeps_intros keeps_grown_read)
  have lag: "keeps (\<lambda>w. grown v0 (view w)) (report_lag ?d)"
    unfolding report_lag_def fields by (intro keeps_intros oldest silent_keeps [OF assms(2)] gauge)
  have "keeps (\<lambda>w. grown v0 (view w)) (Tick ?d now)" for now
    unfolding Tick_def Let_def
    by (intro keeps_intros keeps_for_each one lag) (simp_all add: redis_dispatcher_def assms(1) keeps_grown_Due)
  then show ?thesis by (induction ticks) (auto intro!: keeps_intros)
qed

lemma dispatch_conserves:
  assumes "rdb drv = r" "silent view clock" "\<And>g n. gauge = Some g \<Longrightarrow> silent view (g n)" "sane l c (view w)"
  shows "wp (Run (redis_dispatcher drv c gauge interval batch clock) ticks) (\<lambda>_ w'. conserved l c (view w) [] (view w')) w"
proof -
  have env: "redis_dispatch drv view c compact gauge clock"
    by (intro redis_dispatch.intro redis_dispatch_axioms.intro)
      (use redis_store_axioms assms in \<open>auto simp: silent_def\<close>)
  have ok: "redis_store_ok c (view w)" "queue_ok (view w)" using assms(4) by (simp_all add: sane_def)
  have grows: "wp (Run (redis_dispatcher drv c gauge interval batch clock) ticks) (\<lambda>_ w'. grown (view w) (view w')) w"
  proof -
    have "keeps (\<lambda>w'. grown (view w) (view w')) (Run (redis_dispatcher drv c gauge interval batch clock) ticks)"
      by (rule keeps_grown_Run [OF assms(1,2)]) (rule assms(3))
    with ok(2) show ?thesis unfolding keeps_def by (simp add: grown_def)
  qed
  show ?thesis
  proof (rule wp_mono [OF wp_conj [OF grows redis_dispatch.Run_on_redis [OF env ok(1)]]], elim conjE exE, goal_cases)
    case (1 _ w' new)
    note facts = 1
    let ?v = "view w" and ?v' = "view w'"
    from 1 obtain zs where zs: "streams ?v' StreamMain = streams ?v StreamMain @ zs" "\<forall>e \<in> set zs. \<not> delivered ?v (fst e)"
      and g: "queue_ok ?v'" "main_group ?v' = main_group ?v" by (auto simp: grown_def)
    have "map snd zs = new" using 1 zs(1) by simp
    have waits: "waiting ?v' e" if "waiting ?v e \<or> e \<in> set zs" for e
      using that zs g(2) by (auto simp: waiting_def delivered_def pending_entry_def)
    have sane: "sane l c ?v'"
      using assms(4) g(1) 1 unfolding sane_def store_keyed_def by blast
    have moved: "alive l c ?v' (job_of l (env_Payload env))" if pub: "publish_values (envelope_message env) \<in> set new" for env
    proof -
      have "publish_values (envelope_message env) \<in> snd ` set zs" using pub \<open>map snd zs = new\<close> by (metis list.set_map)
      then obtain e where e: "e \<in> set zs" "snd e = publish_values (envelope_message env)" by (metis imageE)
      then have "msg_Payload (entry_msg e) = env_Payload env"
        by (simp add: entry_msg_def fromXMessage_def publish_values_def envelope_message_def Let_def)
      with waits e(1) show ?thesis unfolding alive_def by metis
    qed
    have "alive l c ?v' dep" if "alive l c ?v dep" for dep
      using that unfolding alive_def [of l c ?v]
    proof (elim disjE exE conjE, goal_cases)
      case (1 e)
      then show ?case using waits unfolding alive_def by blast
    next
      case (2 i env)
      then have "redis_held c ?v' i = Some env \<or> publish_values (envelope_message env) \<in> set new"
        using facts by blast
      with moved 2(2) show ?case unfolding alive_def by blast
    qed
    moreover have "advances ?v ?v'" using zs g(2) by (auto simp: advances_def delivered_def)
    ultimately show ?case using sane by (simp add: conserved_def)
  qed
qed

lemma TrimMain_trims: "rdb drv = r \<Longrightarrow> keeps (\<lambda>w. trimmed_to v0 (view w)) (TrimMain drv horizon)"
proof -
  assume drv: "rdb drv = r"
  have pend: "keeps (\<lambda>w. trimmed_to v0 (view w)) (XPending r StreamMain ConsumerGroup)"
    unfolding keeps_def by (auto intro!: wp_mono [OF xpending_reply] simp: trimmed_to_def queue_ok_def)
  have info: "keeps (\<lambda>w. trimmed_to v0 (view w)) (XInfoGroups r StreamMain)"
    unfolding keeps_def by (auto intro!: wp_mono [OF xinfo_reply])
  have trim: "keeps (\<lambda>w. trimmed_to v0 (view w)) (XTrimMinID r StreamMain m)" for m
    unfolding keeps_def by (auto intro!: wp_mono [OF xtrim_effect] simp: trimmed_to_trim)
  have from_m: "keeps (\<lambda>w. trimmed_to v0 (view w)) (TrimMain_from drv m)" for m
    unfolding TrimMain_from_def drv by (intro keeps_intros info trim)
  show ?thesis
    unfolding TrimMain_def Let_def drv by (intro keeps_intros pend from_m)
qed

lemma TrimMain_keeps:
  assumes "rdb drv = r" "queue_ok (view w)"
  shows "wp (TrimMain drv horizon) (\<lambda>_ w'. kept (view w) (view w')) w"
proof -
  have ok: "ids_ok (view w)" using assms(2) by (simp add: queue_ok_def)
  have trims: "wp (TrimMain drv horizon) (\<lambda>_ w'. trimmed_to (view w) (view w')) w"
    using TrimMain_trims [OF assms(1), of "view w"] assms(2) unfolding keeps_def by (simp add: trimmed_to_def)
  show ?thesis
  proof (rule wp_mono [OF wp_conj [OF trims te.TrimMain_result [OF ok assms(1)]]], elim conjE, goal_cases)
    case (1 _ w')
    have same: "delivered (view w') = delivered (view w)" "pending_entry (view w') = pending_entry (view w)"
      using 1(1) by (simp_all add: trimmed_to_def delivered_def pending_entry_def fun_eq_iff)
    have "waiting (view w') e" if "waiting (view w) e" for e
      using that 1(2) unfolding waiting_def trim_result_def same by blast
    moreover have "advances (view w) (view w')" using 1(1) same(1) by (auto simp: trimmed_to_def advances_def)
    ultimately show ?case using 1(1) by (simp add: trimmed_to_def kept_def)
  qed
qed

lemma TrimStream_keeps:
  assumes "rdb drv = r" "queue_ok (view w)" "stream \<noteq> StreamMain"
  shows "wp (TrimStream drv stream horizon) (\<lambda>_ w'. kept (view w) (view w')) w"
  unfolding TrimStream_def wp_bind wp_return assms(1)
proof (rule wp_mono [OF xtrim_effect], goal_cases)
  case (1 res w')
  have "kept (view w) (trim_view stream i (view w))" for i
  proof -
    have "queue_ok (trim_view stream i (view w))"
      using assms(2) by (auto simp: queue_ok_def group_ok_def ids_ok_def trim_view_def main_group_def sorted_wrt_map sorted_wrt_filter)
    moreover have "advances (view w) (trim_view stream i (view w))"
      using assms(3) by (simp add: advances_def trim_view_def delivered_def main_group_def)
    moreover have "waiting (trim_view stream i (view w)) e" if "waiting (view w) e" for e
      using that assms(3) by (simp add: waiting_def trim_view_def delivered_def pending_entry_def main_group_def)
    ultimately show ?thesis by (simp add: kept_def) (simp add: trim_view_def)
  qed
  with 1 assms(2) kept_refl show ?case by auto
qed

end

section \<open>The wiring of a worker\<close>

text \<open>HTTP, object storage, clock, random source and metrics leave the Redis server alone.\<close>

definition quiet_services :: "('w \<Rightarrow> 'v) \<Rightarrow> 'w platform \<Rightarrow> bool" where
  "quiet_services view pf \<longleftrightarrow>
     (\<forall>t m url hs body. silent view (http_Do (pf_ds_http pf t) m url hs body)) \<and>
     (\<forall>t url hs. silent_response view (pf_render_Do pf t url hs)) \<and> (\<forall>t url. silent_response view (pf_external_Do pf t url)) \<and>
     silent view (pf_Inject pf) \<and> (\<forall>n. silent view (pf_rand_Read pf n)) \<and> (\<forall>h. silent view (pf_rand_Float64 pf h)) \<and>
     silent view (pf_time_Now pf) \<and> (\<forall>t. silent view (pf_schedule pf t)) \<and> (\<forall>t. silent view (pf_uploadExpired pf t))"

definition quiet_platform :: "('w \<Rightarrow> 'v) \<Rightarrow> 'w platform \<Rightarrow> bool" where
  "quiet_platform view pf \<longleftrightarrow> quiet_services view pf \<and>
     (\<forall>m. silent view (pf_metric pf m)) \<and> (\<forall>m. silent view (pf_export_metric pf m)) \<and>
     (\<forall>n. silent view (pf_RetryDispatchLagMs pf n)) \<and> (\<forall>n. silent view (pf_QueuePending pf n)) \<and>
     (\<forall>s n. silent view (pf_StreamTrimmedTotal pf s n))"

lemma calms_keeps: "calms view m \<longleftrightarrow> (\<forall>v0. keeps (\<lambda>w. calm v0 (view w)) m)"
proof
  assume m: "calms view m"
  show "\<forall>v0. keeps (\<lambda>w. calm v0 (view w)) m"
    unfolding keeps_def by (intro allI impI, rule wp_mono [OF m [unfolded calms_def, rule_format]]) (blast intro: calm_trans)
next
  assume "\<forall>v0. keeps (\<lambda>w. calm v0 (view w)) m"
  then show "calms view m" unfolding calms_def keeps_def by simp
qed

lemma silent_calms: "silent view m \<Longrightarrow> calms view m"
  unfolding calms_keeps by (simp add: silent_keeps)

lemma silent_ds [silent_intros]:
  assumes "\<And>m url hs body. silent view (http_Do (HTTPClient d) m url hs body)"
  shows "silent view (Load d dep)" "silent view (Transition d dep a b reason trace stage)" "silent view (SubmitArtifact d dep ptr)"
  unfolding Load_def GetDeployment_def Transition_def UpdateDeploymentStatus_def SubmitArtifact_def ds_SubmitArtifact_def ds_do_def Let_def
  by (intro silent_intros assms)+

lemma silent_deploy:
  assumes "quiet_services view pf"
  shows "silent view (Load (run_deploy pf cfg) dep)" "silent view (Transition (run_deploy pf cfg) dep a b reason trace stage)"
    "silent view (SubmitArtifact (run_deploy pf cfg) dep ptr)"
  using assms by (intro silent_ds; simp add: run_deploy_def deployment_New_def quiet_services_def)+

lemma run_pipeline_silent:
  assumes "quiet_services view pf" "quiet_store view store"
  shows "silent_pipeline view (run_pipeline pf cfg store drv)"
proof -
  let ?p = "run_pipeline pf cfg store drv"
  have "silent_render view (pl_Render ?p)"
    using assms(1) by (simp add: run_pipeline_def render_New_def Let_def silent_render_def quiet_services_def)
  moreover have "silent_response view (ext_Do http u)" if "pl_ExternalHTTP ?p = Some http" for http u
    using assms(1) that by (auto simp: run_pipeline_def Let_def externalHTTPClient_def quiet_services_def split: if_splits)
  moreover have "silent view (pl_Transition ?p dep a b reason trace stage)" "silent view (pl_SubmitArtifact ?p dep ptr)"
    for dep a b reason trace stage ptr
    using silent_deploy [OF assms(1)] by (simp_all add: run_pipeline_def Let_def)
  ultimately show ?thesis
    using assms by (simp add: silent_pipeline_def) (simp add: run_pipeline_def Let_def pl_now_def quiet_services_def)
qed

context job_queue
begin

lemma emit_calm:
  assumes "rdb drv = r" "stream \<noteq> StreamMain"
  shows "keeps (\<lambda>w. calm v0 (view w)) (emit (run_emitter pf drv) stream schema ev stage)"
proof -
  have append: "keeps (\<lambda>w. calm v0 (view w)) (AppendOutcome drv stream payload)" for payload
    unfolding keeps_def AppendOutcome_def wp_bind wp_return assms(1)
  proof (intro allI impI)
    fix w
    assume calm: "calm v0 (view w)"
    show "wp (XAdd r stream [(''payload'', payload)]) (\<lambda>a w. calm v0 (view w)) w"
    proof (cases "queue_ok (view w)")
      case True
      show ?thesis
        by (rule wp_mono [OF wp_conj [OF xadd xadd_ids [OF True]]])
          (use calm assms(2) in \<open>auto simp: calm_def main_group_def\<close>)
    next
      case False
      show ?thesis
        by (rule wp_mono [OF xadd]) (use calm assms(2) False in \<open>auto simp: calm_def main_group_def\<close>)
    qed
  qed
  show ?thesis
    unfolding emit_def run_emitter_def emitter.simps
    by (auto split: sum.split list.split intro!: keeps_intros append)
qed

lemma EmitReady_calm: "rdb drv = r \<Longrightarrow> keeps (\<lambda>w. calm v0 (view w)) (EmitReady (run_emitter pf drv) ev)"
  unfolding EmitReady_def by (rule emit_calm) (simp_all add: StreamArtifactReady_def StreamMain_def)

lemma EmitFailed_calm: "rdb drv = r \<Longrightarrow> keeps (\<lambda>w. calm v0 (view w)) (EmitFailed (run_emitter pf drv) ev)"
  unfolding EmitFailed_def by (rule emit_calm) (simp_all add: StreamExportFailed_def StreamMain_def)

lemma release_silent:
  assumes "lk_rdb (le_locker lease) = r"
  shows "silent view (Release lease)"
  unfolding Release_def releaseScript_def Let_def assms
  by (intro silent_intros eval_silent lock_silent)

lemma acquire_calm:
  "wp (redisLocks_Acquire (NewLocker r wid ttl) dep) (\<lambda>res w'. calm (view w) (view w') \<and> (\<forall>release. res = Inr release \<longrightarrow> calms view release)) w"
  unfolding redisLocks_Acquire_def Acquire_def wp_bind wp_return Let_def
  by (simp add: NewLocker_def, rule wp_mono [OF lock_silent(1) [unfolded silent_def, rule_format]])
    (auto split: sum.splits if_splits intro!: silent_calms release_silent)

lemma pipeline_calm:
  assumes "quiet_platform view pf" "quiet_store view store" "rdb drv = r" "p = run_pipeline pf cfg store drv"
  shows "keeps (\<lambda>w. calm v0 (view w)) (pipeline_Export p job)" "keeps (\<lambda>w. calm v0 (view w)) (pipeline_ReemitReady p rec trace)"
proof -
  have emit: "keeps (\<lambda>w. calm v0 (view w)) (pl_EmitReady p ev)" for ev
    using EmitReady_calm [OF assms(3)] by (simp add: assms(4) run_pipeline_def Let_def)
  have metric: "keeps (\<lambda>w. calm v0 (view w)) (f m)" if "pl_Metrics p = Some f" for f m
    by (rule silent_keeps) (use assms(1) that in \<open>auto simp: assms(4) run_pipeline_def Let_def quiet_platform_def\<close>)
  have "quiet_services view pf" using assms(1) by (simp add: quiet_platform_def)
  note quiet = run_pipeline_silent [OF this assms(2), of cfg drv, folded assms(4)]
  show "keeps (\<lambda>w. calm v0 (view w)) (pipeline_Export p job)" "keeps (\<lambda>w. calm v0 (view w)) (pipeline_ReemitReady p rec trace)"
    by (rule pipeline_keeps [where J = "calm v0", OF quiet]; rule emit metric; assumption)+
qed

end

text \<open>A worker whose client behaves like the queue under both contexts, and whose other collaborators leave Redis alone.\<close>

definition member_ok :: "('w \<Rightarrow> redis_view) \<Rightarrow> env_codec \<Rightarrow> (string \<Rightarrow> string) \<Rightarrow> event_lib \<Rightarrow> 'w member \<Rightarrow> bool" where
  "member_ok view c cmp l m \<longleftrightarrow> (\<forall>ctx_done. job_queue (mb_redis m ctx_done) view c cmp l) \<and>
     quiet_platform view (mb_platform m) \<and> quiet_store view (mb_store m) \<and>
     pf_env_codec (mb_platform m) = c \<and> pf_event_lib (mb_platform m) = l"

context job_queue
begin

lemma processor_wired:
  assumes "mb_redis m False = r" "quiet_platform view (mb_platform m)" "quiet_store view (mb_store m)"
    "pf_env_codec (mb_platform m) = c" "pf_event_lib (mb_platform m) = l"
  shows "queue_wired (mb_driver m False) c view (mb_processor m)" "lib (mb_processor m) = l"
proof -
  let ?pf = "mb_platform m" and ?cfg = "mb_config m" and ?store = "mb_store m" and ?drv = "mb_driver m False"
  have r: "rdb ?drv = r" using assms(1) by (simp add: mb_driver_def)
  have quiet: "silent view (pf_metric ?pf x)" "silent view (pf_rand_Read ?pf n)" "silent view (pf_rand_Float64 ?pf h)" "silent view (pf_time_Now ?pf)"
    for x n h using assms(2) by (simp_all add: quiet_platform_def quiet_services_def)
  have deploy: "silent view (Load (run_deploy ?pf ?cfg) dep)" "silent view (Transition (run_deploy ?pf ?cfg) dep a b reason trace stage)"
    for dep a b reason trace stage
    using assms(2) by (intro silent_deploy; simp add: quiet_platform_def)+
  have pipe: "calms view (pipeline_Export (run_pipeline ?pf ?cfg ?store ?drv) job)"
      "calms view (pipeline_ReemitReady (run_pipeline ?pf ?cfg ?store ?drv) rec trace)" for job rec trace
    using pipeline_calm [OF assms(2,3) r refl] by (simp_all add: calms_keeps)
  have failed: "calms view (EmitFailed (run_emitter ?pf ?drv) ev)" for ev
    using EmitFailed_calm [OF r] by (simp add: calms_keeps)
  have dry: "calms view (Unimplemented_Export job)" for job
    by (simp add: Unimplemented_Export_def calms_def)
  have "calm_deps view (mb_processor m)"
    unfolding calm_deps_def mb_processor_def run_processor_def Let_def New_def
    using acquire_calm quiet [THEN silent_calms] deploy [THEN silent_calms] pipe failed dry
    by (simp add: DefaultBackoff_def r)
  then show "queue_wired ?drv c view (mb_processor m)"
    using r assms(4) by (simp add: queue_wired_def mb_processor_def run_processor_def Let_def New_def)
  show "lib (mb_processor m) = l"
    using assms(5) by (simp add: mb_processor_def run_processor_def Let_def New_def)
qed

lemma trim_round_keeps:
  assumes "rdb drv = r" "quiet_platform view pf" "queue_ok (view w)"
  shows "wp (trim_round pf cfg drv) (\<lambda>_ w'. kept (view w) (view w')) w"
proof -
  have now: "silent view (pf_time_Now pf)" and count: "silent view (pf_StreamTrimmedTotal pf s n)" for s n
    using assms(2) by (simp_all add: quiet_platform_def quiet_services_def)
  have one: "wp (trim_one pf drv tgt) (\<lambda>_ w'. kept (view w) (view w')) w1"
    if cons: "kept (view w) (view w1)" and tgt: "tgt_main tgt \<or> tgt_stream tgt \<noteq> StreamMain" for tgt w1
  proof (cases "tgt_retention tgt \<le> 0")
    case False
    have trim: "wp (if tgt_main tgt then TrimMain drv hz else TrimStream drv (tgt_stream tgt) hz)
        (\<lambda>_ w'. kept (view w) (view w')) w2" if "view w2 = view w1" for hz w2
    proof -
      have ok: "queue_ok (view w2)" using cons that by (simp add: kept_def)
      have "wp (if tgt_main tgt then TrimMain drv hz else TrimStream drv (tgt_stream tgt) hz)
          (\<lambda>_ w'. kept (view w2) (view w')) w2"
        using TrimMain_keeps [OF assms(1) ok] TrimStream_keeps [OF assms(1) ok, of "tgt_stream tgt"] tgt by auto
      then show ?thesis
        by (rule wp_mono) (use kept_trans [OF cons] that in auto)
    qed
    have cnt: "wp (case res of Inl err \<Rightarrow> ret () | Inr k \<Rightarrow> if k > 0 then pf_StreamTrimmedTotal pf (tgt_stream tgt) k else ret ())
        (\<lambda>_ w'. kept (view w) (view w')) w2" if "kept (view w) (view w2)" for res :: "gerr + int" and w2
      using that silent_keeps [OF count] unfolding keeps_def by (auto split: sum.split)
    show ?thesis
      unfolding trim_one_def Let_def wp_bind using False
      by simp (rule wp_mono [OF silentD [OF now]], rule wp_mono [OF trim], simp, rule cnt)
  qed (simp add: trim_one_def cons)
  have targets: "tgt_main tgt \<or> tgt_stream tgt \<noteq> StreamMain" if "tgt \<in> set (trim_targets cfg)" for tgt
    using that by (auto simp: trim_targets_def StreamMain_def StreamDLQ_def StreamArtifactReady_def StreamExportFailed_def)
  show ?thesis
    unfolding trim_round_def
    by (rule wp_for_each) (use one targets assms(3) kept_refl in auto)
qed

lemma pending_round_keeps:
  assumes "rdb drv = r" "quiet_platform view pf" "queue_ok (view w)"
  shows "wp (pending_round pf drv) (\<lambda>_ w'. kept (view w) (view w')) w"
proof -
  have ids: "ids_ok (view w)" using assms(3) by (simp add: queue_ok_def)
  have "silent view (pf_QueuePending pf n)" for n using assms(2) by (simp add: quiet_platform_def)
  then have set_gauge: "wp (pf_QueuePending pf n) (\<lambda>_ w'. kept (view w) (view w')) w1" if "view w1 = view w" for n w1
    by (intro wp_mono [OF silentD]) (use that assms(3) kept_refl in auto)
  show ?thesis
    unfolding pending_round_def PendingCount_def wp_bind wp_return assms(1)
    by (rule wp_mono [OF xpending_reply [OF ids]]) (use set_gauge assms(3) kept_refl in \<open>auto split: sum.split\<close>)
qed

lemma append_keeps:
  assumes "queue_ok (view w)"
  shows "wp (XAdd r stream vals) (\<lambda>_ w'. kept (view w) (view w')) w"
proof (rule wp_mono [OF wp_conj [OF xadd xadd_ids [OF assms]]], goal_cases)
  case (1 res w')
  then show ?case
    by (auto simp: kept_def waiting_def advances_def delivered_def pending_entry_def main_group_def)
qed

text \<open>The end of a call: jobs are conserved, and what the goroutine is given is in the stream.\<close>

lemma routine_call_keeps:
  assumes "mb_redis m b = r" "quiet_platform view (mb_platform m)" "queue_ok (view w)" "role \<noteq> Dispatch"
  shows "wp (routine_call m root_done b role) (\<lambda>res w'. kept (view w) (view w') \<and>
    (\<forall>x \<in> set (queued (fst res)). in_stream (view w') x)) w"
proof -
  have drv: "rdb (mb_driver m b) = r" using assms(1) by (simp add: mb_driver_def)
  show ?thesis
  proof (cases role)
    case Recover
    show ?thesis
      unfolding Recover routine_call.simps wp_bind wp_return Let_def
      by (rule wp_mono [OF Reclaim_spec [OF drv assms(3)]]) (auto split: sum.split)
  next
    case Retention
    show ?thesis
      unfolding Retention routine_call.simps wp_bind by (rule wp_mono [OF trim_round_keeps [OF drv assms(2,3)]]) simp
  next
    case Gauge
    show ?thesis
      unfolding Gauge routine_call.simps wp_bind by (rule wp_mono [OF pending_round_keeps [OF drv assms(2,3)]]) simp
  next
    case Consume
    show ?thesis
      unfolding Consume routine_call.simps wp_bind wp_return
      by (rule wp_mono [OF Fetch_spec [OF drv assms(3)]]) (auto split: sum.split)
  qed (use assms(4) in simp)
qed

lemma routine_call_conserves:
  assumes "mb_redis m b = r" "quiet_platform view (mb_platform m)" "pf_env_codec (mb_platform m) = c" "sane l c (view w)"
  shows "wp (routine_call m root_done b role) (\<lambda>res w'. conserved l c (view w) [] (view w') \<and>
    (\<forall>x \<in> set (queued (fst res)). in_stream (view w') x)) w"
proof (cases "role = Dispatch")
  case True
  have drv: "rdb (mb_driver m b) = r" using assms(1) by (simp add: mb_driver_def)
  have quiet: "silent view (pf_time_Now (mb_platform m))" "silent view (pf_RetryDispatchLagMs (mb_platform m) n)" for n
    using assms(2) by (simp_all add: quiet_platform_def quiet_services_def)
  have tick: "wp (Tick (run_dispatcher (mb_platform m) (mb_driver m b)) now) (\<lambda>_ w'. conserved l c (view w) [] (view w')) w1"
    if "view w1 = view w" for now w1
  proof -
    have "wp (Run (run_dispatcher (mb_platform m) (mb_driver m b)) [now]) (\<lambda>_ w'. conserved l c (view w1) [] (view w')) w1"
      unfolding run_dispatcher_def assms(3) by (rule dispatch_conserves [OF drv quiet(1)]) (use quiet(2) assms(4) that in auto)
    then show ?thesis using that by (simp add: wp_bind)
  qed
  then show ?thesis
    unfolding True routine_call.simps wp_bind by (intro wp_mono [OF silentD [OF quiet(1)]]) simp
next
  case False
  have "queue_ok (view w)" using assms(4) by (simp add: sane_def)
  from routine_call_keeps [OF assms(1,2) this False] show ?thesis
    by (rule wp_mono) (use kept_conserved [OF assms(4)] in blast)
qed

end

section \<open>The moves of a process\<close>

lemma routine_step_conserves:
  assumes "member_ok view c cmp l m" "sane l c (view w)" "\<forall>x \<in> set (queued g). in_stream (view w) x"
    and "run_state (routine_step m root_done role g) w = (Some (g', ms, hs), w')"
  shows "conserved l c (view w) hs (view w') \<and> (\<forall>x \<in> set (queued g'). in_stream (view w') x)"
proof -
  have ok: "quiet_platform view (mb_platform m)" "quiet_store view (mb_store m)" "pf_env_codec (mb_platform m) = c" "pf_event_lib (mb_platform m) = l"
    and jq: "job_queue (mb_redis m b) view c cmp l" for b
    using assms(1) by (simp_all add: member_ok_def)
  show ?thesis
  proof (cases g)
    case (InCall b)
    obtain res w1 where res: "run_state (routine_call m root_done b role) w = (res, w1)" by fastforce
    from wp_run [OF job_queue.routine_call_conserves [OF jq refl ok(1,3) assms(2)] res] show ?thesis
      using assms(4) res InCall by (auto simp: run_state_bind)
  next
    case (Handling msgs)
    show ?thesis
    proof (cases msgs)
      case (Cons x xs)
      obtain out w1 where res: "run_state (Handle (mb_processor m) x) w = (out, w1)" by fastforce
      note wired = job_queue.processor_wired [OF jq refl ok]
      have "in_stream (view w) x" using assms(3) Handling Cons by simp
      from wp_run [OF job_queue.Handle_step [OF jq wired(1) _ wired(2) assms(2) this] res]
      have cons: "conserved l c (view w) [(x, out)] (view w1)" by (simp add: mb_driver_def)
      then have "in_stream (view w1) y" if "y \<in> set xs" for y
        using that assms(3) Handling Cons in_stream_advances by (auto simp: conserved_def)
      with cons assms(4) res Handling Cons show ?thesis by (auto simp: run_state_bind)
    qed (use assms(2,4) Handling conserved_refl in auto)
  qed (use assms(2,4) conserved_refl in \<open>auto split: if_splits\<close>)
qed

text \<open>A process all of whose messages in hand are in the stream.\<close>

definition proc_held :: "redis_view \<Rightarrow> proc \<Rightarrow> bool" where
  "proc_held v p \<longleftrightarrow> (\<forall>g \<in> set (pr_routines p). \<forall>x \<in> set (queued (snd g)). in_stream v x)"

lemma proc_held_advances: "proc_held v p \<Longrightarrow> advances v v' \<Longrightarrow> proc_held v' p"
  by (auto simp: proc_held_def intro: in_stream_advances)

lemma proc_step_conserves:
  assumes "member_ok view c cmp l m" "sane l c (view w)" "proc_held (view w) p" "run_state (proc_step m e p) w = (Some p', w')"
    and "pr_handled p' = pr_handled p @ hs"
  shows "conserved l c (view w) hs (view w') \<and> proc_held (view w') p'"
proof (cases e)
  case (Go i)
  then have "run_state (go_step m i p) w = (Some p', w')" using assms(4) by (auto split: if_splits)
  then obtain g' ms hs' where i: "i < length (pr_routines p)"
    and step: "run_state (routine_step m (pr_root_done p) (fst (pr_routines p ! i)) (snd (pr_routines p ! i))) w = (Some (g', ms, hs'), w')"
    and p': "p' = p\<lparr>pr_routines := (pr_routines p)[i := (fst (pr_routines p ! i), g')], pr_taken := pr_taken p @ ms,
       pr_handled := pr_handled p @ hs'\<rparr>"
    by (rule go_stepE)
  have "\<forall>x \<in> set (queued (snd (pr_routines p ! i))). in_stream (view w) x" using assms(3) i by (auto simp: proc_held_def)
  note cons = routine_step_conserves [OF assms(1,2) this step]
  then have "proc_held (view w') p" using proc_held_advances [OF assms(3)] by (simp add: conserved_def)
  with cons have "proc_held (view w') p'"
    by (auto simp: proc_held_def p' dest!: set_update_subset_insert [THEN subsetD])
  with cons assms(5) show ?thesis by (simp add: p')
qed (use assms conserved_refl in \<open>auto simp: server_returns_def main_step_def main_ops_step_def ticker_fires_def proc_held_def
      split: if_splits main_at.splits list.splits dest!: set_update_subset_insert [THEN subsetD]\<close>)

interpretation server_jobs: job_queue server_redis server_view line_codec id sample_lib
  by unfold_locales simp

text \<open>A client that refuses its commands behaves like the queue, too.\<close>

lemma refusing_simps [simp]:
  "XAdd (refusing r) key vals = ret (Inl (TextE ''context canceled''))" "XReadGroup (refusing r) grp cons key n block = ret (Inl (TextE ''context canceled''))"
  "XAck (refusing r) key grp ids = ret (Some (TextE ''context canceled''))" "XAutoClaim (refusing r) key grp cons idle start n = ret (Inl (TextE ''context canceled''))"
  "XPending (refusing r) key grp = ret (Inl (TextE ''context canceled''))" "XInfoGroups (refusing r) key = ret (Inl (TextE ''context canceled''))"
  "XTrimMinID (refusing r) key i = ret (Inl (TextE ''context canceled''))" "TxPipeline_Exec (refusing r) cmds = ret (Some (TextE ''context canceled''))"
  "Cmd_Err (refusing r) c1 = ret (Some (TextE ''context canceled''))" "ZRangeByScore (refusing r) key mx n = ret (Inl (TextE ''context canceled''))"
  "HMGet (refusing r) key fs = ret (Inl (TextE ''context canceled''))" "ZRangeWithScores (refusing r) key a b = ret (Inl (TextE ''context canceled''))"
  "SetNX (refusing r) key v ttl = ret (Inl (TextE ''context canceled''))" "Eval (refusing r) script = ret (Inl (TextE ''context canceled''))"
  "lua_get (refusing r) = lua_get r" "lua_pexpire (refusing r) = lua_pexpire r" "lua_del (refusing r) = lua_del r"
  by (simp_all add: refusing_def Let_def)

interpretation refused_jobs: job_queue "refusing server_redis" server_view line_codec id sample_lib
proof -
  have read: "\<exists>es. prefix es (undelivered v) \<and> v = (if es = [] then v else deliver_view es v)" for v
    by (rule exI [of _ "[]"]) simp
  have claim: "\<exists>gone. (\<forall>e \<in> set (streams v StreamMain). \<not> gone (fst e)) \<and> v = drop_view gone v" for v
    by (rule exI [of _ "\<lambda>_. False"]) (simp add: drop_nothing)
  show "job_queue (refusing server_redis) server_view line_codec id sample_lib"
    by unfold_locales (use read claim server.codec server_silent in \<open>simp_all add: errors_Is_def silent_def\<close>)
qed

section \<open>A worker on the reference server\<close>

text \<open>A worker whose deployment service does not answer, and a server with one request.\<close>

lemma server_member_ok: "member_ok server_view line_codec id sample_lib server_member"
  using server_jobs.job_queue_axioms refused_jobs.job_queue_axioms
  by (simp add: member_ok_def server_member_def quiet_platform_def quiet_services_def quiet_store_def server_platform_def closed_store_def
      silent_def silent_response_def) (simp add: wp_def)

lemma request_server_sane: "sane sample_lib line_codec (server_view request_server)"
proof -
  have "redis_held line_codec (server_view request_server) i = None" for i
    by (simp add: redis_held_def request_server_def empty_server_def server_view_def)
  then show ?thesis
    by (simp add: sane_def store_keyed_def redis_store_ok_def queue_ok_def group_ok_def ids_ok_def sid64_def main_group_server)
      (simp add: request_server_def empty_server_def server_view_def)
qed

lemma request_server_alive: "alive sample_lib line_codec (server_view request_server) ''d1''"
  unfolding alive_def
proof (rule disjI1, rule exI [of _ "((5, 0), [(''payload'', ''request''), (''attempt'', ''1'')])"], rule conjI)
  show "waiting (server_view request_server) ((5, 0), [(''payload'', ''request''), (''attempt'', ''1'')])"
    by (simp add: waiting_def delivered_def main_group_server sid_less.simps)
      (simp add: request_server_def empty_server_def server_view_def sid_less.simps)
  show "job_of sample_lib (msg_Payload (entry_msg ((5, 0), [(''payload'', ''request''), (''attempt'', ''1'')]))) = ''d1''"
    by (simp add: job_of_def entry_msg_def fromXMessage_def sample_accepted sample_event_def)
qed

end
