(* ===== verification/Metrics.thy ===== *)
theory Metrics
  imports Moves
begin

text \<open>
  The metric set, \<open>src/internal/obs/metrics.go\<close>: the collectors, their registration, and the updates that the processor, the pipeline, the dispatcher and the
  goroutines of \<open>run\<close> make. The Prometheus client panics on a bad collector, on a second registration and on a bad update, and a panic ends the
  process; the locale \<open>prometheus\<close> states when it does not. Help texts are left out.
\<close>

declare split_paired_All [simp del] split_paired_Ex [simp del]

section \<open>Collectors\<close>

datatype collector =
    CounterC string
  | GaugeC string
  | HistogramC string "int list"
  | CounterVecC string "string list"
  | GoCollector
  | ProcessCollector

record metrics =
  mt_JobsTotal :: collector
  mt_JobsSuccessTotal :: collector
  mt_JobsFailedTotal :: collector
  mt_JobDurationMs :: collector
  mt_RenderDurationMs :: collector
  mt_HarvestDurationMs :: collector
  mt_UploadDurationMs :: collector
  mt_ArtifactBytesTotal :: collector
  mt_ArtifactFilesTotal :: collector
  mt_RetryTotal :: collector
  mt_DLQTotal :: collector
  mt_UnparseableTotal :: collector
  mt_AuthFailuresTotal :: collector
  mt_LockConflictTotal :: collector
  mt_QueuePending :: collector
  mt_RetryDispatchLagMs :: collector
  mt_StreamTrimmedTotal :: collector

definition metric_handles :: metrics where
  "metric_handles =
     \<lparr>mt_JobsTotal = CounterC ''anvilkit_export_worker_jobs_total'',
      mt_JobsSuccessTotal = CounterC ''anvilkit_export_worker_jobs_success_total'',
      mt_JobsFailedTotal = CounterC ''anvilkit_export_worker_jobs_failed_total'',
      mt_JobDurationMs = HistogramC ''anvilkit_export_worker_job_duration_ms'' [50, 100, 250, 500, 1000, 2500, 5000, 10000, 20000, 40000, 90000],
      mt_RenderDurationMs = HistogramC ''anvilkit_export_worker_render_duration_ms'' [25, 50, 100, 250, 500, 1000, 2500, 5000, 10000, 15000],
      mt_HarvestDurationMs = HistogramC ''anvilkit_export_worker_dependency_harvest_duration_ms'' [10, 25, 50, 100, 250, 500, 1000, 2500, 5000, 10000],
      mt_UploadDurationMs = HistogramC ''anvilkit_export_worker_upload_duration_ms'' [25, 50, 100, 250, 500, 1000, 2500, 5000, 10000, 20000, 60000],
      mt_ArtifactBytesTotal = CounterC ''anvilkit_export_worker_artifact_bytes_total'',
      mt_ArtifactFilesTotal = CounterC ''anvilkit_export_worker_artifact_files_total'',
      mt_RetryTotal = CounterC ''anvilkit_export_worker_retry_total'',
      mt_DLQTotal = CounterC ''anvilkit_export_worker_dlq_total'',
      mt_UnparseableTotal = CounterC ''anvilkit_export_worker_unparseable_events_total'',
      mt_AuthFailuresTotal = CounterVecC ''anvilkit_export_worker_auth_failures_total'' [''code''],
      mt_LockConflictTotal = CounterC ''anvilkit_export_worker_lock_conflict_total'',
      mt_QueuePending = GaugeC ''anvilkit_export_worker_queue_pending'',
      mt_RetryDispatchLagMs = GaugeC ''anvilkit_export_worker_retry_dispatch_lag_ms'',
      mt_StreamTrimmedTotal = CounterVecC ''anvilkit_export_worker_stream_trimmed_total'' [''stream'']\<rparr>"

text \<open>The collectors in the order in which they are registered.\<close>

definition registered :: "metrics \<Rightarrow> collector list" where
  "registered m =
     [mt_JobsTotal m, mt_JobsSuccessTotal m, mt_JobsFailedTotal m, mt_JobDurationMs m, mt_RenderDurationMs m, mt_HarvestDurationMs m,
      mt_UploadDurationMs m, mt_ArtifactBytesTotal m, mt_ArtifactFilesTotal m, mt_UnparseableTotal m, mt_AuthFailuresTotal m,
      mt_RetryTotal m, mt_DLQTotal m, mt_LockConflictTotal m, mt_QueuePending m, mt_RetryDispatchLagMs m, mt_StreamTrimmedTotal m,
      GoCollector, ProcessCollector]"

text \<open>
  \<open>new_collector\<close> and \<open>register\<close> are the client's: the panic of a constructor, and \<open>Registry.Register\<close>. \<open>MustRegister\<close> panics at the first
  collector that is refused; a panic is \<open>Inl\<close>.
\<close>

fun MustRegister :: "('r \<Rightarrow> collector \<Rightarrow> gerr + 'r) \<Rightarrow> 'r \<Rightarrow> collector list \<Rightarrow> gerr + 'r" where
  "MustRegister register reg [] = Inr reg"
| "MustRegister register reg (c # cs) =
     (case register reg c of Inl err \<Rightarrow> Inl err | Inr reg' \<Rightarrow> MustRegister register reg' cs)"

definition NewMetrics :: "(collector \<Rightarrow> gerr option) \<Rightarrow> ('r \<Rightarrow> collector \<Rightarrow> gerr + 'r) \<Rightarrow> 'r \<Rightarrow> gerr + metrics \<times> 'r" where
  "NewMetrics new_collector register reg =
     (case List.map_filter new_collector (registered metric_handles) of
        err # _ \<Rightarrow> Inl err
      | [] \<Rightarrow>
          (case MustRegister register reg (registered metric_handles) of
             Inl err \<Rightarrow> Inl err
           | Inr reg' \<Rightarrow> Inr (metric_handles, reg')))"

section \<open>Updates\<close>

datatype metric_op = IncOp | AddOp int | ObserveOp int | SetOp int

record update =
  up_collector :: collector
  up_labels :: "string list"  \<comment> \<open>the arguments of \<open>WithLabelValues\<close>\<close>
  up_op :: metric_op

fun metric_update :: "metrics \<Rightarrow> metric \<Rightarrow> update" where
  "metric_update ms JobsTotal = \<lparr>up_collector = mt_JobsTotal ms, up_labels = [], up_op = IncOp\<rparr>"
| "metric_update ms JobsSuccessTotal = \<lparr>up_collector = mt_JobsSuccessTotal ms, up_labels = [], up_op = IncOp\<rparr>"
| "metric_update ms JobsFailedTotal = \<lparr>up_collector = mt_JobsFailedTotal ms, up_labels = [], up_op = IncOp\<rparr>"
| "metric_update ms (JobDurationMs d) = \<lparr>up_collector = mt_JobDurationMs ms, up_labels = [], up_op = ObserveOp d\<rparr>"
| "metric_update ms RetryTotal = \<lparr>up_collector = mt_RetryTotal ms, up_labels = [], up_op = IncOp\<rparr>"
| "metric_update ms DLQTotal = \<lparr>up_collector = mt_DLQTotal ms, up_labels = [], up_op = IncOp\<rparr>"
| "metric_update ms UnparseableTotal = \<lparr>up_collector = mt_UnparseableTotal ms, up_labels = [], up_op = IncOp\<rparr>"
| "metric_update ms (AuthFailuresTotal code) =
     \<lparr>up_collector = mt_AuthFailuresTotal ms, up_labels = [error_code_string code], up_op = IncOp\<rparr>"
| "metric_update ms LockConflictTotal = \<lparr>up_collector = mt_LockConflictTotal ms, up_labels = [], up_op = IncOp\<rparr>"

fun export_update :: "metrics \<Rightarrow> export_metric \<Rightarrow> update" where
  "export_update ms (RenderDurationMs d) = \<lparr>up_collector = mt_RenderDurationMs ms, up_labels = [], up_op = ObserveOp d\<rparr>"
| "export_update ms (HarvestDurationMs d) = \<lparr>up_collector = mt_HarvestDurationMs ms, up_labels = [], up_op = ObserveOp d\<rparr>"
| "export_update ms (UploadDurationMs d) = \<lparr>up_collector = mt_UploadDurationMs ms, up_labels = [], up_op = ObserveOp d\<rparr>"
| "export_update ms (ArtifactBytesTotal n) = \<lparr>up_collector = mt_ArtifactBytesTotal ms, up_labels = [], up_op = AddOp n\<rparr>"
| "export_update ms (ArtifactFilesTotal n) = \<lparr>up_collector = mt_ArtifactFilesTotal ms, up_labels = [], up_op = AddOp n\<rparr>"

text \<open>A platform whose metrics are these collectors, updated by the client's \<open>apply_update\<close>.\<close>

definition metered :: "(update \<Rightarrow> ('w, unit) state) \<Rightarrow> metrics \<Rightarrow> 'w platform \<Rightarrow> 'w platform" where
  "metered apply_update ms pf = pf
     \<lparr>pf_metric := (\<lambda>x. apply_update (metric_update ms x)),
      pf_export_metric := (\<lambda>x. apply_update (export_update ms x)),
      pf_RetryDispatchLagMs := (\<lambda>n. apply_update \<lparr>up_collector = mt_RetryDispatchLagMs ms, up_labels = [], up_op = SetOp n\<rparr>),
      pf_QueuePending := (\<lambda>n. apply_update \<lparr>up_collector = mt_QueuePending ms, up_labels = [], up_op = SetOp n\<rparr>),
      pf_StreamTrimmedTotal := (\<lambda>s n. apply_update \<lparr>up_collector = mt_StreamTrimmedTotal ms, up_labels = [s], up_op = AddOp n\<rparr>)\<rparr>"

section \<open>What the client promises\<close>

text \<open>Names and labels of the data model, and bytes that are surely valid UTF-8.\<close>

definition name_char :: "char \<Rightarrow> bool" where
  "name_char c \<longleftrightarrow> (let n = (of_char c :: nat) in 48 \<le> n \<and> n \<le> 57 \<or> 65 \<le> n \<and> n \<le> 90 \<or> 97 \<le> n \<and> n \<le> 122 \<or> c = CHR ''_'')"

definition valid_name :: "string \<Rightarrow> bool" where
  "valid_name s \<longleftrightarrow> s \<noteq> [] \<and> list_all name_char s \<and> \<not> is_digit (hd s)"

definition ascii :: "string \<Rightarrow> bool" where
  "ascii s \<longleftrightarrow> list_all (\<lambda>c. (of_char c :: nat) < 128) s"

text \<open>A collector that its constructor accepts: the buckets of a histogram increase, and no label repeats.\<close>

fun sound_collector :: "collector \<Rightarrow> bool" where
  "sound_collector (HistogramC n bs) = (valid_name n \<and> bs \<noteq> [] \<and> sorted_wrt (<) bs)"
| "sound_collector (CounterVecC n ls) = (valid_name n \<and> list_all valid_name ls \<and> distinct ls)"
| "sound_collector (CounterC n) = valid_name n"
| "sound_collector (GaugeC n) = valid_name n"
| "sound_collector _ = True"

text \<open>An update that does not panic: counters do not go down, and each label has one value.\<close>

fun sound_op :: "collector \<Rightarrow> string list \<Rightarrow> metric_op \<Rightarrow> bool" where
  "sound_op (CounterC n) [] IncOp = True"
| "sound_op (CounterC n) [] (AddOp k) = (k \<ge> 0)"
| "sound_op (GaugeC n) [] (SetOp k) = True"
| "sound_op (HistogramC n bs) [] (ObserveOp k) = True"
| "sound_op (CounterVecC n ls) vs IncOp = (length vs = length ls \<and> list_all ascii vs)"
| "sound_op (CounterVecC n ls) vs (AddOp k) = (length vs = length ls \<and> list_all ascii vs \<and> k \<ge> 0)"
| "sound_op _ _ _ = False"

definition sound_update :: "update \<Rightarrow> bool" where
  "sound_update u \<longleftrightarrow> sound_op (up_collector u) (up_labels u) (up_op u)"

text \<open>
  The registry holds the names of its collectors. It takes a sound collector none of whose names it holds; those of
  the runtime collectors begin with \<open>go_\<close> and \<open>process_\<close>. A sound update does not panic.
\<close>

locale prometheus =
  fixes new_collector :: "collector \<Rightarrow> gerr option"
    and register :: "'r \<Rightarrow> collector \<Rightarrow> gerr + 'r"
    and names :: "'r \<Rightarrow> string set"
    and described :: "collector \<Rightarrow> string set"
    and apply_update :: "update \<Rightarrow> ('w, unit) state"
    and panicked :: "'w \<Rightarrow> bool"
  assumes accepted: "sound_collector c \<Longrightarrow> new_collector c = None"
    and registers: "sound_collector c \<Longrightarrow> described c \<inter> names reg = {} \<Longrightarrow>
      \<exists>reg'. register reg c = Inr reg' \<and> names reg' = names reg \<union> described c"
    and described_name: "described (CounterC n) = {n}" "described (GaugeC n) = {n}" "described (HistogramC n bs) = {n}"
      "described (CounterVecC n ls) = {n}"
    and described_runtime: "s \<in> described GoCollector \<Longrightarrow> prefix ''go_'' s" "s \<in> described ProcessCollector \<Longrightarrow> prefix ''process_'' s"
    and updates: "sound_update u \<Longrightarrow> silent panicked (apply_update u)"
begin

lemma MustRegister_ok:
  assumes "list_all sound_collector cs" "distinct cs" "\<And>c d. c \<in> set cs \<Longrightarrow> d \<in> set cs \<Longrightarrow> c \<noteq> d \<Longrightarrow> described c \<inter> described d = {}"
    and "\<And>c. c \<in> set cs \<Longrightarrow> described c \<inter> names reg = {}"
  shows "\<exists>reg'. MustRegister register reg cs = Inr reg' \<and> names reg' = names reg \<union> \<Union> (described ` set cs)"
  using assms
proof (induction cs arbitrary: reg)
  case (Cons c cs)
  then obtain reg1 where reg1: "register reg c = Inr reg1" "names reg1 = names reg \<union> described c"
    using registers [of c reg] by auto
  have "described d \<inter> names reg1 = {}" if "d \<in> set cs" for d
    using that Cons.prems(2) Cons.prems(3) [of d c] Cons.prems(4) [of d] by (auto simp: reg1(2))
  with Cons.IH [of reg1] Cons.prems reg1 show ?case by auto
qed simp

end

section \<open>The set is sound\<close>

definition metric_names :: "string list" where
  "metric_names = map (\<lambda>s. ''anvilkit_export_worker_'' @ s)
     [''jobs_total'', ''jobs_success_total'', ''jobs_failed_total'', ''job_duration_ms'', ''render_duration_ms'', ''dependency_harvest_duration_ms'',
      ''upload_duration_ms'', ''artifact_bytes_total'', ''artifact_files_total'', ''unparseable_events_total'', ''auth_failures_total'',
      ''retry_total'', ''dlq_total'', ''lock_conflict_total'', ''queue_pending'', ''retry_dispatch_lag_ms'', ''stream_trimmed_total'']"

text \<open>The names of a collector of the worker, and the first letter of all names of a collector.\<close>

fun own_name :: "collector \<Rightarrow> string option" where
  "own_name (CounterC n) = Some n"
| "own_name (GaugeC n) = Some n"
| "own_name (HistogramC n bs) = Some n"
| "own_name (CounterVecC n ls) = Some n"
| "own_name _ = None"

fun first_letter :: "collector \<Rightarrow> char" where
  "first_letter GoCollector = CHR ''g''"
| "first_letter ProcessCollector = CHR ''p''"
| "first_letter _ = CHR ''a''"

lemma registered_sound: "list_all sound_collector (registered metric_handles)"
  by code_simp

lemma registered_names:
  "map own_name (registered metric_handles) = map Some metric_names @ [None, None]"
  "list_all (\<lambda>c. case own_name c of None \<Rightarrow> True | Some n \<Rightarrow> n \<noteq> [] \<and> hd n = CHR ''a'') (registered metric_handles)"
  "distinct metric_names" "distinct (registered metric_handles)"
  by code_simp+

lemma own_name_unique:
  assumes "c \<in> set (registered metric_handles)" "d \<in> set (registered metric_handles)" "own_name c = Some n" "own_name d = Some n"
  shows "c = d"
proof -
  have "distinct (filter (\<lambda>x. x \<noteq> None) (map own_name (registered metric_handles)))"
    unfolding registered_names(1) using registered_names(3) by (simp add: distinct_map)
  then have "distinct (map own_name (filter (\<lambda>c. own_name c \<noteq> None) (registered metric_handles)))" by (simp add: filter_map comp_def)
  moreover have "c \<in> set (filter (\<lambda>c. own_name c \<noteq> None) (registered metric_handles))"
      "d \<in> set (filter (\<lambda>c. own_name c \<noteq> None) (registered metric_handles))" using assms by simp_all
  ultimately show ?thesis using assms(3,4) unfolding distinct_map by (metis inj_onD)
qed

context prometheus
begin

lemma described_own: "own_name c = Some n \<Longrightarrow> described c = {n}"
  by (cases c) (auto simp: described_name)

lemma described_letter:
  assumes "c \<in> set (registered metric_handles)" "n \<in> described c"
  shows "hd n = first_letter c"
proof (cases "own_name c")
  case (Some m)
  with assms registered_names(2) have "n = m" "hd m = CHR ''a''" by (auto simp: described_own list_all_iff)
  with Some show ?thesis by (cases c) auto
next
  case None
  with assms(2) described_runtime [of n] show ?thesis by (cases c) (auto simp: prefix_def)
qed

lemma registered_disjoint:
  assumes "c \<in> set (registered metric_handles)" "d \<in> set (registered metric_handles)" "c \<noteq> d"
  shows "described c \<inter> described d = {}"
proof -
  have "False" if n: "n \<in> described c" "n \<in> described d" for n
  proof -
    have letters: "first_letter c = first_letter d" using described_letter assms(1,2) n by metis
    show False
    proof (cases "own_name c")
      case None
      with letters assms(3) show False by (cases c; cases d) simp_all
    next
      case (Some m)
      with letters obtain m' where m': "own_name d = Some m'" by (cases c; cases d) simp_all
      then have "m = m'" using n described_own Some by auto
      with own_name_unique assms Some m' show False by metis
    qed
  qed
  then show ?thesis by blast
qed

lemma NewMetrics_ok:
  assumes "names reg = {}"
  shows "\<exists>reg'. NewMetrics new_collector register reg = Inr (metric_handles, reg') \<and>
    names reg' = set metric_names \<union> described GoCollector \<union> described ProcessCollector"
proof -
  have none: "List.map_filter new_collector (registered metric_handles) = []"
    using registered_sound accepted by (auto simp: List.map_filter_def list_all_iff filter_empty_conv)
  have "\<exists>reg'. MustRegister register reg (registered metric_handles) = Inr reg' \<and>
      names reg' = names reg \<union> \<Union> (described ` set (registered metric_handles))"
    by (rule MustRegister_ok [OF registered_sound _ registered_disjoint])
      (use registered_names(4) assms in auto)
  moreover have "\<Union> (described ` set (registered metric_handles)) = set metric_names \<union> described GoCollector \<union> described ProcessCollector"
  proof -
    have "x \<in> \<Union> (described ` {c \<in> X. own_name c \<noteq> None}) \<longleftrightarrow> Some x \<in> own_name ` X" for x X
    proof
      assume "Some x \<in> own_name ` X"
      then obtain c where "c \<in> X" "own_name c = Some x" by auto
      then have "c \<in> {c \<in> X. own_name c \<noteq> None}" "x \<in> described c" using described_own by simp_all
      then show "x \<in> \<Union> (described ` {c \<in> X. own_name c \<noteq> None})" by blast
    qed (use described_own in \<open>auto intro: rev_image_eqI\<close>)
    then have "x \<in> \<Union> (described ` {c \<in> set (registered metric_handles). own_name c \<noteq> None}) \<longleftrightarrow> Some x \<in> set (map own_name (registered metric_handles))" for x
      unfolding set_map .
    then have own: "\<Union> (described ` {c \<in> set (registered metric_handles). own_name c \<noteq> None}) = set metric_names"
      unfolding registered_names(1) by auto
    have "filter (\<lambda>c. own_name c = None) (registered metric_handles) = [GoCollector, ProcessCollector]" by code_simp
    then have runtime: "{c \<in> set (registered metric_handles). own_name c = None} = {GoCollector, ProcessCollector}"
      by (simp flip: set_filter)
    have split: "\<Union> (described ` X) = \<Union> (described ` {c \<in> X. own_name c \<noteq> None}) \<union> \<Union> (described ` {c \<in> X. own_name c = None})" for X
      by blast
    show ?thesis unfolding split [of "set (registered metric_handles)"] own runtime by (simp add: Un_assoc)
  qed
  ultimately show ?thesis using none assms by (auto simp: NewMetrics_def)
qed

end

section \<open>The updates are sound\<close>

lemma error_code_ascii: "ascii (error_code_string c)"
  by (cases c) (simp_all add: ascii_def)

lemma metric_update_sound: "sound_update (metric_update metric_handles x)"
  by (cases x rule: metric.exhaust) (simp_all add: sound_update_def metric_handles_def error_code_ascii)

lemma export_update_sound: "fine_metric x \<Longrightarrow> sound_update (export_update metric_handles x)"
  by (cases x) (simp_all add: sound_update_def metric_handles_def)

text \<open>A Redis client whose commands do not touch a part of the world.\<close>

definition silent_redis :: "('w \<Rightarrow> 'v) \<Rightarrow> 'w redis \<Rightarrow> bool" where
  "silent_redis view r \<longleftrightarrow>
     (\<forall>key vals. silent view (XAdd r key vals)) \<and> (\<forall>grp cons key n block. silent view (XReadGroup r grp cons key n block)) \<and>
     (\<forall>key grp ids. silent view (XAck r key grp ids)) \<and> (\<forall>key grp cons idle start n. silent view (XAutoClaim r key grp cons idle start n)) \<and>
     (\<forall>key grp. silent view (XPending r key grp)) \<and> (\<forall>key. silent view (XInfoGroups r key)) \<and> (\<forall>key i. silent view (XTrimMinID r key i)) \<and>
     (\<forall>cmds. silent view (TxPipeline_Exec r cmds)) \<and> (\<forall>c. silent view (Cmd_Err r c)) \<and>
     (\<forall>key mx n. silent view (ZRangeByScore r key mx n)) \<and> (\<forall>key fs. silent view (HMGet r key fs)) \<and>
     (\<forall>key a b. silent view (ZRangeWithScores r key a b)) \<and> (\<forall>key v ttl. silent view (SetNX r key v ttl)) \<and>
     (\<forall>key. silent view (lua_get r key)) \<and> (\<forall>key ms. silent view (lua_pexpire r key ms)) \<and> (\<forall>key. silent view (lua_del r key)) \<and>
     (\<forall>script. silent view script \<longrightarrow> silent view (Eval r script))"

lemma silent_driver:
  assumes "silent_redis view (rdb drv)"
  shows "silent view (Ack drv ids)" "silent view (SendToDLQ drv e)" "silent view (Publish drv m)" "silent view (AppendOutcome drv stream payload)"
    "silent view (Fetch drv n block)" "silent view (Reclaim drv idle n)" "silent view (PendingCount drv)"
    "silent view (TrimMain drv horizon)" "silent view (TrimStream drv stream horizon)"
    "silent view (Schedule (rdb drv) c env)" "silent view (Retry.Remove (rdb drv) i)" "silent view (OldestDueLag (rdb drv) now)"
  using assms unfolding Ack_def SendToDLQ_def Publish_def AppendOutcome_def Fetch_def Reclaim_def PendingCount_def TrimMain_def TrimMain_from_def
    TrimStream_def Schedule_def Remove_def OldestDueLag_def Let_def silent_redis_def
  by (auto intro!: silent_intros)

lemma silent_Due:
  assumes "silent_redis view r"
  shows "silent view (Due r c now n)"
proof -
  have "silent view (due_collect r c xs)" for xs
  proof (induction xs)
    case (Cons x xs)
    then show ?case using assms by (cases x) (auto simp: silent_redis_def intro!: silent_intros)
  qed (simp add: silent_ret)
  then show ?thesis
    using assms unfolding Due_def silent_redis_def by (auto intro!: silent_intros)
qed

text \<open>A worker that meters into the client, and whose other collaborators do not touch it.\<close>

definition metered_member :: "(update \<Rightarrow> ('w, unit) state) \<Rightarrow> ('w \<Rightarrow> bool) \<Rightarrow> 'w member \<Rightarrow> bool" where
  "metered_member apply_update panicked m \<longleftrightarrow> (\<exists>pf. mb_platform m = metered apply_update metric_handles pf \<and> quiet_services panicked pf) \<and>
     quiet_store panicked (mb_store m) \<and> (\<forall>ctx_done. silent_redis panicked (mb_redis m ctx_done))"

lemma quiet_metered: "quiet_services view (metered f ms pf) = quiet_services view pf"
  by (simp add: quiet_services_def metered_def)

context prometheus
begin

lemma keeps_update: "sound_update u \<Longrightarrow> keeps (\<lambda>w. \<not> panicked w) (apply_update u)"
  by (rule silent_keeps [OF updates])

lemma keeps_processor:
  assumes "metered_member apply_update panicked m"
  shows "keeps_deps (\<lambda>w. \<not> panicked w) (mb_processor m)"
proof -
  let ?J = "\<lambda>w. \<not> panicked w" and ?drv = "mb_driver m False"
  obtain pf0 where pf0: "mb_platform m = metered apply_update metric_handles pf0" using assms by (auto simp: metered_member_def)
  let ?pf = "mb_platform m" and ?cfg = "mb_config m"
  have quiet: "quiet_services panicked ?pf" and store: "quiet_store panicked (mb_store m)" and redis: "silent_redis panicked (rdb ?drv)"
    using assms by (auto simp: metered_member_def quiet_metered mb_driver_def)
  note silent = silent_driver [OF redis, THEN silent_keeps] silent_deploy [OF quiet, THEN silent_keeps]
  have clock: "keeps ?J (pf_time_Now ?pf)" "keeps ?J (pf_rand_Read ?pf n)" "keeps ?J (pf_rand_Float64 ?pf h)" for n h
    using quiet by (simp_all add: quiet_services_def silent_keeps)
  have metric: "keeps ?J (pf_metric ?pf x)" for x
    by (simp add: pf0 metered_def keeps_update metric_update_sound)
  have emit: "keeps ?J (emit (run_emitter ?pf ?drv) stream schema ev stage)" for stream schema ev stage
    unfolding emit_def run_emitter_def emitter.simps by (auto split: sum.split list.split intro!: keeps_intros silent)
  let ?p = "run_pipeline ?pf ?cfg (mb_store m) ?drv"
  have ready: "keeps ?J (pl_EmitReady ?p ev)" for ev
    by (simp add: run_pipeline_def Let_def EmitReady_def emit)
  have export: "keeps ?J (f x)" if "pl_Metrics ?p = Some f" "fine_metric x" for f x
    using that by (auto simp: run_pipeline_def Let_def pf0 metered_def intro: keeps_update export_update_sound)
  have pipe: "keeps ?J (pipeline_Export ?p job)" "keeps ?J (pipeline_ReemitReady ?p rec trace)" for job rec trace
    by (rule pipeline_keeps [where J = Not, OF run_pipeline_silent [OF quiet store]]; rule ready export; assumption)+
  have lock: "wp (redisLocks_Acquire (NewLocker (rdb ?drv) wid ttl) dep) (\<lambda>res w'. ?J w' \<and> (\<forall>release. res = Inr release \<longrightarrow> keeps ?J release)) w"
    if "?J w" for wid ttl dep w
  proof -
    have release: "keeps ?J (Release lease)" if "lk_rdb (le_locker lease) = rdb ?drv" for lease
    proof -
      have "silent panicked (releaseScript (rdb ?drv) key owner)" for key owner
        unfolding releaseScript_def using redis by (intro silent_intros) (simp_all add: silent_redis_def)
      then have "silent panicked (Eval (rdb ?drv) (releaseScript (rdb ?drv) key owner))" for key owner
        using redis by (simp add: silent_redis_def)
      then have "silent panicked (Release lease)" unfolding Release_def Let_def that by (intro silent_intros)
      then show ?thesis by (rule silent_keeps)
    qed
    have "silent panicked (SetNX (rdb ?drv) key v t)" for key v t using redis by (simp add: silent_redis_def)
    then show ?thesis
      unfolding redisLocks_Acquire_def Acquire_def wp_bind wp_return Let_def
      using that by (simp add: NewLocker_def, intro wp_mono [OF silentD]) (auto split: sum.splits if_splits intro!: release)
  qed
  show ?thesis
    unfolding keeps_deps_def mb_processor_def run_processor_def Let_def New_def
    using silent clock metric pipe lock by (simp add: EmitFailed_def emit DefaultBackoff_def Unimplemented_Export_def keeps_ret)
qed

lemma keeps_call:
  assumes "metered_member apply_update panicked m"
  shows "keeps (\<lambda>w. \<not> panicked w) (routine_call m root_done b role)"
proof -
  let ?J = "\<lambda>w. \<not> panicked w" and ?drv = "mb_driver m b" and ?pf = "mb_platform m"
  obtain pf0 where pf0: "mb_platform m = metered apply_update metric_handles pf0" using assms by (auto simp: metered_member_def)
  have quiet: "quiet_services panicked ?pf" and redis: "silent_redis panicked (rdb ?drv)"
    using assms by (auto simp: metered_member_def quiet_metered mb_driver_def)
  note silent = silent_driver [OF redis, THEN silent_keeps] silent_Due [OF redis, THEN silent_keeps]
  have clock: "keeps ?J (pf_time_Now ?pf)" using quiet by (simp add: quiet_services_def silent_keeps)
  have gauges: "keeps ?J (pf_RetryDispatchLagMs ?pf n)" "keeps ?J (pf_QueuePending ?pf n)" for n
    by (simp_all add: pf0 metered_def keeps_update sound_update_def metric_handles_def)
  have trimmed: "keeps ?J (pf_StreamTrimmedTotal ?pf (tgt_stream tgt) n)" if "n > 0" "tgt \<in> set (trim_targets cfg)" for n tgt cfg
  proof -
    have "ascii (tgt_stream tgt)"
      using that(2) by (auto simp: trim_targets_def StreamMain_def StreamDLQ_def StreamArtifactReady_def StreamExportFailed_def ascii_def)
    then show ?thesis using that(1) by (simp add: pf0 metered_def keeps_update sound_update_def metric_handles_def)
  qed
  have tick: "keeps ?J (Tick (run_dispatcher ?pf ?drv) now)" for now
    unfolding Tick_def Let_def report_lag_def dispatch_one_def run_dispatcher_def redis_dispatcher_def
    by (simp, intro keeps_intros keeps_for_each silent clock gauges)
  have trim: "keeps ?J (trim_one ?pf ?drv tgt)" if "tgt \<in> set (trim_targets cfg)" for tgt cfg
    unfolding trim_one_def Let_def by (intro keeps_intros silent clock trimmed [OF _ that])
  have round: "keeps ?J (trim_round ?pf cfg ?drv)" for cfg
    unfolding trim_round_def keeps_def by (auto intro!: wp_for_each dest: trim [unfolded keeps_def])
  show ?thesis
    by (cases role) (auto simp: Let_def pending_round_def intro!: keeps_intros silent clock tick round gauges)
qed

lemma proc_step_sound:
  assumes "metered_member apply_update panicked m"
  shows "keeps (\<lambda>w. \<not> panicked w) (proc_step m e p)"
proof -
  have "keeps (\<lambda>w. \<not> panicked w) (routine_step m root_done role g)" for root_done role g
    by (cases "(m, root_done, role, g)" rule: routine_step.cases)
      (auto intro!: keeps_intros keeps_call [OF assms] keeps_Handle [OF keeps_processor [OF assms]])
  then show ?thesis
    by (cases e) (auto simp: go_step_def Let_def case_prod_unfold intro!: keeps_intros)
qed

end

section \<open>A registry\<close>

text \<open>A registry that keeps the names it has taken, and a world that remembers whether an update was refused.\<close>

fun list_described :: "collector \<Rightarrow> string list" where
  "list_described (CounterC n) = [n]"
| "list_described (GaugeC n) = [n]"
| "list_described (HistogramC n bs) = [n]"
| "list_described (CounterVecC n ls) = [n]"
| "list_described GoCollector = [''go_goroutines'', ''go_info'']"
| "list_described ProcessCollector = [''process_cpu_seconds_total'']"

definition list_register :: "string list \<Rightarrow> collector \<Rightarrow> gerr + string list" where
  "list_register reg c =
     (if \<not> sound_collector c \<or> list_ex (\<lambda>n. n \<in> set reg) (list_described c) then Inl (TextE ''refused'') else Inr (reg @ list_described c))"

definition list_construct :: "collector \<Rightarrow> gerr option" where
  "list_construct c = (if sound_collector c then None else Some (TextE ''panic''))"

definition flag_update :: "update \<Rightarrow> (bool, unit) state" where
  "flag_update u = State (\<lambda>panicked. ((), panicked \<or> \<not> sound_update u))"

interpretation list_registry: prometheus list_construct list_register set "\<lambda>c. set (list_described c)" flag_update id
proof (unfold_locales, goal_cases)
  case (2 c reg)
  then show ?case by (auto simp: list_register_def list_ex_iff)
qed (auto simp: list_construct_def flag_update_def silent_def wp_def)

section \<open>Properties\<close>

text \<open>
  C32. The metrics do not end the process. On a fresh registry \<open>NewMetrics\<close> registers the 17 collectors of the worker and the two runtime collectors
  without a panic: names and labels are valid and distinct, and the buckets of the histograms increase. And no move of the running process makes an update that
  panics: counters are only raised, and each label gets its one value, whatever the pipeline, Redis and the services answer.
\<close>

theorem metrics_never_panic:
  assumes "prometheus new_collector register names described apply_update panicked"
  shows "(names reg = {} \<longrightarrow> (\<exists>reg'. NewMetrics new_collector register reg = Inr (metric_handles, reg') \<and>
      names reg' = set metric_names \<union> described GoCollector \<union> described ProcessCollector)) \<and>
    (metered_member apply_update panicked m \<and> \<not> panicked w \<and> run_state (proc_step m e p) w = (res, w') \<longrightarrow> \<not> panicked w')"
proof (intro conjI impI)
  assume "metered_member apply_update panicked m \<and> \<not> panicked w \<and> run_state (proc_step m e p) w = (res, w')"
  then have "wp (proc_step m e p) (\<lambda>_ w. \<not> panicked w) w" "run_state (proc_step m e p) w = (res, w')"
    using prometheus.proc_step_sound [OF assms, of m e p] unfolding keeps_def by simp_all
  then show "\<not> panicked w'" by (rule wp_run)
qed (rule prometheus.NewMetrics_ok [OF assms])

text \<open>A worker whose clients do not answer, but for the summary of the pending entries.\<close>

definition idle_redis :: "bool redis" where
  "idle_redis = (let err = TextE ''none'' in
     \<lparr>XAdd = (\<lambda>_ _. ret (Inl err)), XReadGroup = (\<lambda>_ _ _ _ _. ret (Inl err)), XAck = (\<lambda>_ _ _. ret (Some err)),
      XAutoClaim = (\<lambda>_ _ _ _ _ _. ret (Inl err)), XPending = (\<lambda>_ _. ret (Inr \<lparr>xp_Count = 3, xp_Lower = ''1-0''\<rparr>)),
      XInfoGroups = (\<lambda>_. ret (Inl err)), XTrimMinID = (\<lambda>_ _. ret (Inl err)), XGroupCreateMkStream = (\<lambda>_ _ _. ret (Some err)),
      TxPipeline_Exec = (\<lambda>_. ret (Some err)), Cmd_Err = (\<lambda>_. ret (Some err)), ZRangeByScore = (\<lambda>_ _ _. ret (Inl err)),
      HMGet = (\<lambda>_ _. ret (Inl err)), ZRangeWithScores = (\<lambda>_ _ _. ret (Inl err)), SetNX = (\<lambda>_ _ _. ret (Inl err)),
      lua_get = (\<lambda>_. ret None), lua_pexpire = (\<lambda>_ _. ret 0), lua_del = (\<lambda>_. ret 0), Eval = (\<lambda>_. ret (Inl err))\<rparr>)"

definition idle_platform :: "bool platform" where
  "idle_platform =
     \<lparr>pf_redis_ParseURL = (\<lambda>_. Inr idle_redis), pf_Ping = (\<lambda>_. ret None), pf_S3_Parse = (\<lambda>s. Some (s, ''http'')),
      pf_minio_New = (\<lambda>_ _ _ _ _. Inl (TextE ''none'')), pf_ds_http = (\<lambda>_. \<lparr>http_Do = (\<lambda>_ _ _ _. ret (Inl (TextE ''none'')))\<rparr>),
      pf_ds_codec = pf_ds_codec server_platform, pf_render_Do = (\<lambda>_ _ _. ret (Inl (TextE ''none''))), pf_NewRequest = (\<lambda>_. None),
      pf_Inject = ret [], pf_MediaType = id, pf_external_Do = (\<lambda>_ _. ret (Inl (TextE ''none''))), pf_env_codec = line_codec,
      pf_event_lib = sample_lib, pf_hlib = sample_hlib, pf_mlib = world_lib, pf_rand_Read = (\<lambda>n. ret (replicate n CHR ''x'')),
      pf_rand_Float64 = (\<lambda>h. ret 0), pf_time_Now = ret 0, pf_schedule = (\<lambda>_. ret []), pf_uploadExpired = (\<lambda>_. ret False), pf_fuel = 0,
      pf_metric = (\<lambda>_. ret ()), pf_export_metric = (\<lambda>_. ret ()), pf_RetryDispatchLagMs = (\<lambda>_. ret ()), pf_QueuePending = (\<lambda>_. ret ()),
      pf_StreamTrimmedTotal = (\<lambda>_ _. ret ())\<rparr>"

definition idle_member :: "bool member" where
  "idle_member = \<lparr>mb_platform = metered flag_update metric_handles idle_platform, mb_config = config_fields deployed_env,
     mb_store = \<lparr>s3_client = \<lparr>BucketExists = (\<lambda>_. ret (Inr False)), StatObject = (\<lambda>_ _. ret (Inl (StorageE 403))),
       PutObject = (\<lambda>_ _ _ _. ret (Some (StorageE 403))), GetObject = (\<lambda>_ _. ret (Inl (StorageE 403)))\<rparr>, s3_bucket = ''b''\<rparr>,
     mb_redis = (\<lambda>_. idle_redis), mb_id = ''worker-1''\<rparr>"

lemma idle_metered: "metered_member flag_update id idle_member"
  by (simp add: metered_member_def idle_member_def quiet_store_def silent_redis_def idle_redis_def Let_def silent_ret)
    (rule exI [of _ idle_platform], simp add: quiet_services_def idle_platform_def silent_response_def silent_ret)

theorem metrics_never_panic_witness:
  "(\<exists>reg'. NewMetrics list_construct list_register [] = Inr (metric_handles, reg')) \<and>
   snd (run_state (proc_step idle_member (Go 0) (proc_start\<lparr>pr_main := Selecting, pr_routines := [(Gauge, InCall False)]\<rparr>)) False) = False"
proof -
  let ?step = "run_state (proc_step idle_member (Go 0) (proc_start\<lparr>pr_main := Selecting, pr_routines := [(Gauge, InCall False)]\<rparr>)) False"
  note sound = metrics_never_panic [OF list_registry.prometheus_axioms]
  have "\<exists>reg'. NewMetrics list_construct list_register [] = Inr (metric_handles, reg')" 
    using sound [of "[]" idle_member False "Go 0" proc_start undefined False] by (simp, blast)
  moreover have "\<not> id (snd ?step)"
    using sound [of "[]" idle_member False "Go 0" "proc_start\<lparr>pr_main := Selecting, pr_routines := [(Gauge, InCall False)]\<rparr>" "fst ?step" "snd ?step"]
      idle_metered by (simp del: proc_step.simps)
  ultimately show ?thesis by simp
qed

end
