(* ===== verification/Startup.thy ===== *)
theory Startup
  imports Metrics
begin

text \<open>
  From the command line to the running process: \<open>main\<close> and the first half of \<open>run\<close> in \<open>src/cmd/export-worker/main.go\<close>, the identity of the build
  (\<open>src/internal/buildinfo/buildinfo.go\<close>) and tracing (\<open>src/internal/obs/tracing.go\<close>). The OpenTelemetry SDK, the environment, the host name and the
  default registry are parameters.
\<close>

declare split_paired_All [simp del] split_paired_Ex [simp del]

section \<open>Build information\<close>

definition buildinfo_Name :: string where
  "buildinfo_Name = ''anvilkit-export-worker''"

text \<open>Stamped by the linker in a release.\<close>

definition buildinfo_Version :: string where
  "buildinfo_Version = ''dev''"

section \<open>Tracing\<close>

text \<open>What the process has set globally: the propagators, and the provider, if any, by the exporter and the resource.\<close>

record 'x tracing =
  tr_Propagators :: "string list"
  tr_Provider :: "('x \<times> (string \<times> string) list) option"

definition InitTracing :: "(string \<Rightarrow> gerr + 'x) \<Rightarrow> string \<Rightarrow> string \<Rightarrow> string \<Rightarrow> gerr + 'x tracing" where
  "InitTracing otlptracehttp_New endpoint serviceName version =
     (let propagators = [''tracecontext'', ''baggage'']
      in if endpoint = [] then Inr \<lparr>tr_Propagators = propagators, tr_Provider = None\<rparr>
         else (case otlptracehttp_New (TrimRight endpoint CHR ''/'' @ ''/v1/traces'') of
                 Inl err \<Rightarrow> Inl (WrapE err)
               | Inr exporter \<Rightarrow> Inr \<lparr>tr_Propagators = propagators,
                   tr_Provider = Some (exporter, [(''service.name'', serviceName), (''service.version'', version)])\<rparr>))"

text \<open>A span: its name and attributes, the errors recorded, its error status, and whether it has ended.\<close>

record span =
  sp_Tracer :: string
  sp_Name :: string
  sp_Attrs :: "(string \<times> string) list"
  sp_Errors :: "gerr list"
  sp_Status :: "string option"
  sp_Ended :: bool

definition StartSpan :: "string \<Rightarrow> (string \<times> string) list \<Rightarrow> span" where
  "StartSpan name attrs = \<lparr>sp_Tracer = ''anvilkit-export-worker'', sp_Name = name, sp_Attrs = attrs, sp_Errors = [], sp_Status = None, sp_Ended = False\<rparr>"

definition EndSpan :: "(gerr \<Rightarrow> string) \<Rightarrow> span \<Rightarrow> gerr option \<Rightarrow> span" where
  "EndSpan text_of sp err =
     (let sp' = (case err of None \<Rightarrow> sp | Some e \<Rightarrow> sp\<lparr>sp_Errors := sp_Errors sp @ [e], sp_Status := Some (text_of e)\<rparr>)
      in sp'\<lparr>sp_Ended := True\<rparr>)"

section \<open>The start of run\<close>

text \<open>What the process is given beside the platform.\<close>

record ('w, 'r, 'x) surroundings =
  su_LookupEnv :: environment
  su_url_Parse :: "string \<Rightarrow> url option"
  su_Hostname :: string  \<comment> \<open>empty when it cannot be read\<close>
  su_unicode_lower :: "string \<Rightarrow> string"
  su_otlptracehttp_New :: "string \<Rightarrow> gerr + 'x"
  su_new_collector :: "collector \<Rightarrow> gerr option"
  su_Register :: "'r \<Rightarrow> collector \<Rightarrow> gerr + 'r"
  su_NewRegistry :: 'r
  su_promhttp :: "'r \<Rightarrow> ops_handler"
  su_done_client :: "'w redis \<Rightarrow> 'w redis"  \<comment> \<open>the client in calls whose context is done\<close>
  su_apply_update :: "update \<Rightarrow> ('w, unit) state"

text \<open>What \<open>run\<close> has when it begins to start goroutines.\<close>

record ('w, 'x) started =
  st_member :: "'w member"
  st_logger :: redacting_handler
  st_tracing :: "'x tracing"
  st_ops :: ops_server

datatype run_error = ConfigError "problem list" | RunError gerr

datatype 'a run_result = RunFailed run_error | RunPanicked gerr | RunStarted 'a

definition FromEnv :: "('w, 'r, 'x) surroundings \<Rightarrow> problem list + config" where
  "FromEnv su = Load_config (su_url_Parse su) (su_LookupEnv su)"

definition run_start :: "('w, 'r, 'x) surroundings \<Rightarrow> 'w platform \<Rightarrow> ('w, ('w, 'x) started run_result) state" where
  "run_start su pf =
     (case FromEnv su of
        Inl problems \<Rightarrow> ret (RunFailed (ConfigError problems))
      | Inr cfg \<Rightarrow> do {
          sfx \<leftarrow> randomSuffix pf;
          let workerID = worker_id cfg (su_Hostname su) sfx;
          let logger = NewLogger (su_unicode_lower su) (cfg_LogLevel cfg) workerID
            [cfg_InternalServiceToken cfg, cfg_S3AccessKey cfg, cfg_S3SecretKey cfg];
          case InitTracing (su_otlptracehttp_New su) (cfg_OTELEndpoint cfg) (cfg_WorkerName cfg) buildinfo_Version of
            Inl err \<Rightarrow> ret (RunFailed (RunError err))
          | Inr tracing \<Rightarrow>
              (case NewMetrics (su_new_collector su) (su_Register su) (su_NewRegistry su) of
                 Inl err \<Rightarrow> ret (RunPanicked err)
               | Inr (ms, registry) \<Rightarrow> do {
                   let ops = NewOpsServer (cfg_HealthPort cfg) (cfg_MetricsPort cfg) (su_promhttp su registry);
                   let pf' = metered (su_apply_update su) ms pf;
                   res \<leftarrow> run_boot pf' cfg workerID;
                   ret (case res of
                          Inl err \<Rightarrow> RunFailed (RunError err)
                        | Inr (store, driver) \<Rightarrow> RunStarted
                            \<lparr>st_member = \<lparr>mb_platform = pf', mb_config = cfg, mb_store = store,
                               mb_redis = (\<lambda>ctx_done. if ctx_done then su_done_client su (rdb driver) else rdb driver), mb_id = workerID\<rparr>,
                             st_logger = logger, st_tracing = tracing, st_ops = ops\<rparr>)
                 })
        })"

section \<open>main\<close>

text \<open>The end of the process: standard output, standard error and the exit code. A panic is exit code 2.\<close>

record exit_state =
  ex_Stdout :: string
  ex_Stderr :: string
  ex_Code :: int

text \<open>\<open>run\<close> as a whole: the start, then a schedule of the running process up to its exit.\<close>

definition run_exit :: "('w, 'r, 'x) surroundings \<Rightarrow> 'w platform \<Rightarrow> event list \<Rightarrow> ('w, (run_error option) run_result) state" where
  "run_exit su pf es = do {
     res \<leftarrow> run_start su pf;
     case res of
       RunFailed err \<Rightarrow> ret (RunFailed err)
     | RunPanicked err \<Rightarrow> ret (RunPanicked err)
     | RunStarted st \<Rightarrow> do {
         p \<leftarrow> proc_exec (st_member st) es proc_start;
         ret (RunStarted (case p of None \<Rightarrow> None | Some p \<Rightarrow> (case pr_main p of Exited (Some err) \<Rightarrow> Some (RunError err) | _ \<Rightarrow> None)))
       }
   }"

definition main_exit :: "(run_error \<Rightarrow> string) \<Rightarrow> bool \<Rightarrow> (run_error option) run_result \<Rightarrow> exit_state" where
  "main_exit text_of showVersion res =
     (let failed = (\<lambda>err. \<lparr>ex_Stdout = [], ex_Stderr = buildinfo_Name @ '' '' @ buildinfo_Version @ '': startup failed: '' @ text_of err @ [CHR 0x0A],
            ex_Code = 1\<rparr>)
      in if showVersion then \<lparr>ex_Stdout = buildinfo_Name @ '' '' @ buildinfo_Version @ [CHR 0x0A], ex_Stderr = [], ex_Code = 0\<rparr>
         else (case res of
                 RunFailed err \<Rightarrow> failed err
               | RunStarted (Some err) \<Rightarrow> failed err
               | RunStarted None \<Rightarrow> \<lparr>ex_Stdout = [], ex_Stderr = [], ex_Code = 0\<rparr>
               | RunPanicked err \<Rightarrow> \<lparr>ex_Stdout = [], ex_Stderr = [], ex_Code = 2\<rparr>))"

section \<open>Facts\<close>

lemma run_boot_started:
  assumes "run_state (run_boot pf cfg workerID) w = (Inr (store, driver), w')"
  shows "pf_redis_ParseURL pf (cfg_RedisURL cfg) = Inr (rdb driver) \<and> consumer driver = workerID \<and>
    (\<exists>w1 w2. run_state (pf_Ping pf (rdb driver)) w = (None, w1) \<and> run_state (EnsureBucket store) w1 = (None, w2) \<and>
       run_state (EnsureGroup driver) w2 = (None, w'))"
  using assms unfolding run_boot_def
  by (auto simp: run_state_bind Let_def split: sum.splits prod.splits option.splits)

lemma randomSuffix_run: "run_state (randomSuffix pf) w = (hex_EncodeToString (fst (run_state (pf_rand_Read pf 4) w)), snd (run_state (pf_rand_Read pf 4) w))"
  by (simp add: randomSuffix_def run_state_bind case_prod_unfold)

section \<open>Properties\<close>

text \<open>What a started process has, once tracing, the metrics and the boot sequence have succeeded.\<close>

lemma run_start_started:
  assumes cfg: "FromEnv su = Inr cfg"
    and tracing: "InitTracing (su_otlptracehttp_New su) (cfg_OTELEndpoint cfg) (cfg_WorkerName cfg) buildinfo_Version = Inr tr"
    and reg: "NewMetrics (su_new_collector su) (su_Register su) (su_NewRegistry su) = Inr (metric_handles, reg)"
    and w0: "w0 = snd (run_state (pf_rand_Read pf 4) w)"
    and wid: "wid = worker_id cfg (su_Hostname su) (hex_EncodeToString (fst (run_state (pf_rand_Read pf 4) w)))"
    and out: "run_state (run_boot (metered (su_apply_update su) metric_handles pf) cfg wid) w0 = (Inr (store, driver), w1)"
    and run: "run_state (run_start su pf) w = (res, w')"
  obtains st where "res = RunStarted st" "w' = w1" "mb_config (st_member st) = cfg"
    "mb_redis (st_member st) False = rdb driver" "mb_store (st_member st) = store" "mb_driver (st_member st) False = driver"
    "HasPrefix (mb_id (st_member st)) (cfg_WorkerName cfg @ ''-'' @ su_Hostname su @ ''-'')"
    "rh_secrets (st_logger st) = filter (\<lambda>s. s \<noteq> []) [cfg_InternalServiceToken cfg, cfg_S3AccessKey cfg, cfg_S3SecretKey cfg]"
    "hs_Addr (os_health (st_ops st)) = '':'' @ FormatInt (cfg_HealthPort cfg)"
proof -
  have drv: "driver = \<lparr>rdb = rdb driver, consumer = wid\<rparr>" using run_boot_started [OF out] by (cases driver) simp
  obtain st where st: "res = RunStarted st" "w' = w1" "mb_config (st_member st) = cfg" "mb_redis (st_member st) False = rdb driver"
      "mb_store (st_member st) = store" "mb_id (st_member st) = wid"
      "st_logger st = NewLogger (su_unicode_lower su) (cfg_LogLevel cfg) wid [cfg_InternalServiceToken cfg, cfg_S3AccessKey cfg, cfg_S3SecretKey cfg]"
      "hs_Addr (os_health (st_ops st)) = '':'' @ FormatInt (cfg_HealthPort cfg)"
    using run cfg tracing reg out
    by (auto simp: run_start_def run_state_bind randomSuffix_run Let_def w0 wid NewOpsServer_def)
  have "HasPrefix wid (cfg_WorkerName cfg @ ''-'' @ su_Hostname su @ ''-'')" by (simp add: wid worker_id_def HasPrefix_def)
  moreover have "rh_secrets (st_logger st) = filter (\<lambda>s. s \<noteq> []) [cfg_InternalServiceToken cfg, cfg_S3AccessKey cfg, cfg_S3SecretKey cfg]"
    unfolding st(7) NewLogger_def Let_def WithAttrs_def add_attrs_def by simp
  moreover have "mb_driver (st_member st) False = driver" using drv st(4,6) by (simp add: mb_driver_def)
  ultimately show ?thesis using that st(1-6,8) by simp
qed

text \<open>
  C31. Fail fast. A process whose environment \<open>Load\<close> does not accept ends with exit code 1 before it touches anything. One that goes on to start its goroutines has an
  accepted configuration, has reached Redis, has found its bucket and has its consumer group, in this order; the goroutines run
  on that configuration, store and client; the logger redacts the token and both storage keys; and the probes listen on the
  configured ports. Registering the metrics never ends it.
\<close>

theorem startup_fails_fast:
  assumes "prometheus (su_new_collector su) (su_Register su) names described (su_apply_update su) panicked" "names (su_NewRegistry su) = {}"
    and "run_state (run_start su pf) w = (res, w')"
  shows "case res of
      RunPanicked err \<Rightarrow> False
    | RunFailed (ConfigError problems) \<Rightarrow> FromEnv su = Inl problems \<and> w' = w \<and>
        (\<forall>es text_of. ex_Code (main_exit text_of False (fst (run_state (run_exit su pf es) w))) = 1)
    | RunFailed (RunError err) \<Rightarrow> (\<exists>cfg. FromEnv su = Inr cfg)
    | RunStarted st \<Rightarrow>
        (\<exists>cfg w0 w1 w2. FromEnv su = Inr cfg \<and> mb_config (st_member st) = cfg \<and>
           pf_redis_ParseURL pf (cfg_RedisURL cfg) = Inr (mb_redis (st_member st) False) \<and>
           run_state (pf_Ping pf (mb_redis (st_member st) False)) w0 = (None, w1) \<and>
           run_state (EnsureBucket (mb_store (st_member st))) w1 = (None, w2) \<and>
           run_state (EnsureGroup (mb_driver (st_member st) False)) w2 = (None, w') \<and>
           HasPrefix (mb_id (st_member st)) (cfg_WorkerName cfg @ ''-'' @ su_Hostname su @ ''-'') \<and>
           rh_secrets (st_logger st) = filter (\<lambda>s. s \<noteq> []) [cfg_InternalServiceToken cfg, cfg_S3AccessKey cfg, cfg_S3SecretKey cfg] \<and>
           hs_Addr (os_health (st_ops st)) = '':'' @ FormatInt (cfg_HealthPort cfg))"
proof (cases "FromEnv su")
  case (Inl problems)
  with assms(3) show ?thesis
    by (auto simp: run_start_def run_exit_def run_state_bind main_exit_def Let_def)
next
  case (Inr cfg)
  obtain reg where reg: "NewMetrics (su_new_collector su) (su_Register su) (su_NewRegistry su) = Inr (metric_handles, reg)"
    using prometheus.NewMetrics_ok [OF assms(1,2)] by blast
  define w0 where "w0 = snd (run_state (pf_rand_Read pf 4) w)"
  define wid where "wid = worker_id cfg (su_Hostname su) (hex_EncodeToString (fst (run_state (pf_rand_Read pf 4) w)))"
  show ?thesis
  proof (cases "InitTracing (su_otlptracehttp_New su) (cfg_OTELEndpoint cfg) (cfg_WorkerName cfg) buildinfo_Version")
    case (Inl err)
    with assms(3) Inr show ?thesis by (auto simp: run_start_def run_state_bind randomSuffix_run Let_def)
  next
    case tracing: (Inr tr)
    let ?pf = "metered (su_apply_update su) metric_handles pf"
    obtain out w1 where out: "run_state (run_boot ?pf cfg wid) w0 = (out, w1)" by fastforce
    show ?thesis
    proof (cases out)
      case (Inl err)
      with assms(3) Inr tracing reg out show ?thesis
        by (auto simp: run_start_def run_state_bind randomSuffix_run Let_def w0_def wid_def)
    next
      case ok: (Inr sd)
      obtain store driver where sd: "sd = (store, driver)" by fastforce
      note boot = run_boot_started [OF out [unfolded ok sd]]
      then obtain w2 w3 where steps: "run_state (pf_Ping pf (rdb driver)) w0 = (None, w2)" "run_state (EnsureBucket store) w2 = (None, w3)"
          "run_state (EnsureGroup driver) w3 = (None, w1)"
        by (auto simp: metered_def)
      have url: "pf_redis_ParseURL pf (cfg_RedisURL cfg) = Inr (rdb driver)" using boot by (simp add: metered_def)
      from run_start_started [OF Inr tracing reg w0_def wid_def out [unfolded ok sd] assms(3)] obtain st
        where st: "res = RunStarted st" and facts: "w' = w1" "mb_config (st_member st) = cfg"
          "mb_redis (st_member st) False = rdb driver" "mb_store (st_member st) = store" "mb_driver (st_member st) False = driver"
          "HasPrefix (mb_id (st_member st)) (cfg_WorkerName cfg @ ''-'' @ su_Hostname su @ ''-'')"
          "rh_secrets (st_logger st) = filter (\<lambda>s. s \<noteq> []) [cfg_InternalServiceToken cfg, cfg_S3AccessKey cfg, cfg_S3SecretKey cfg]"
          "hs_Addr (os_health (st_ops st)) = '':'' @ FormatInt (cfg_HealthPort cfg)" .
      show ?thesis
        unfolding st run_result.case using Inr facts url steps
        by (intro exI [of _ cfg] exI [of _ w0] exI [of _ w2] exI [of _ w3] conjI) (simp_all only:)
    qed
  qed
qed

text \<open>The reference server with a store that has the bucket.\<close>

definition booting_platform :: "server platform" where
  "booting_platform = server_platform\<lparr>pf_minio_New := (\<lambda>_ _ _ _ _. Inr (s3_client closed_store\<lparr>BucketExists := (\<lambda>_. ret (Inr True))\<rparr>))\<rparr>"

definition booting_surroundings :: "(server, string list, unit) surroundings" where
  "booting_surroundings =
     \<lparr>su_LookupEnv = deployed_env, su_url_Parse = host_parse, su_Hostname = ''host'', su_unicode_lower = id, su_otlptracehttp_New = (\<lambda>_. Inr ()),
      su_new_collector = list_construct, su_Register = list_register, su_NewRegistry = [], su_promhttp = (\<lambda>_ _. json_response 200 ''ok''),
      su_done_client = refusing, su_apply_update = (\<lambda>_. ret ())\<rparr>"

lemma booting_registry: "prometheus list_construct list_register set (\<lambda>c. set (list_described c)) (\<lambda>_. ret ()) (\<lambda>_ :: server. False)"
  using list_registry.prometheus_axioms by (simp add: prometheus_def silent_def)

theorem startup_fails_fast_witness:
  "case fst (run_state (run_start booting_surroundings booting_platform) request_server) of
     RunStarted st \<Rightarrow> FromEnv booting_surroundings = Inr (mb_config (st_member st))
   | _ \<Rightarrow> False"
proof -
  let ?run = "run_state (run_start booting_surroundings booting_platform) request_server"
  have "(case fst ?run of RunStarted st \<Rightarrow> True | _ \<Rightarrow> False)" by code_simp
  then obtain st where st: "fst ?run = RunStarted st" by (cases "fst ?run") auto
  have run: "?run = (fst ?run, snd ?run)" by simp
  have su: "su_new_collector booting_surroundings = list_construct" "su_Register booting_surroundings = list_register"
      "su_apply_update booting_surroundings = (\<lambda>_. ret ())" "su_NewRegistry booting_surroundings = []"
    by (simp_all add: booting_surroundings_def)
  have fresh: "set (su_NewRegistry booting_surroundings) = {}" by (simp add: su)
  have "prometheus (su_new_collector booting_surroundings) (su_Register booting_surroundings) set (\<lambda>c. set (list_described c))
      (su_apply_update booting_surroundings) (\<lambda>_. False)"
    unfolding su by (rule booting_registry)
  from startup_fails_fast [OF this fresh run]
  have "\<exists>cfg. FromEnv booting_surroundings = Inr cfg \<and> mb_config (st_member st) = cfg"
    unfolding st run_result.case by blast
  then show ?thesis by (simp add: st)
qed

end
