(* ===== verification/Asset_Client.thy ===== *)
theory Asset_Client
  imports Emit Deployment
begin

text \<open>
  The generated client of the asset service, \<open>src/contracts/assetservice/client_gen.go\<close> and \<open>types_gen.go\<close>. As for the deployment service, the transport
  and the decoding of the response are parameters; the request is written out as a JSON value.
\<close>

section \<open>Types\<close>

record resolve_batch_request =
  rb_TeamID :: string
  rb_SiteID :: string
  rb_Refs :: "string list option"  \<comment> \<open>\<open>None\<close> is the nil slice\<close>

record resolved_asset =
  ra_Ref :: string
  ra_URL :: string
  ra_MimeType :: string
  ra_SizeBytes :: int
  ra_ContentHash :: string

record resolve_batch_response =
  rb_Assets :: "resolved_asset list"

definition resolve_batch_json :: "resolve_batch_request \<Rightarrow> json" where
  "resolve_batch_json r =
     JObj [(''teamId'', JStr (rb_TeamID r)), (''siteId'', JStr (rb_SiteID r)),
       (''refs'', case rb_Refs r of None \<Rightarrow> JNull | Some refs \<Rightarrow> JArr (map JStr refs))]"

section \<open>Client\<close>

datatype asset_error =
    AssetAPIError int string  \<comment> \<open>\<open>*assetservice.APIError\<close>: status and body\<close>
  | AssetOtherError gerr

text \<open>\<open>APIError.Error\<close> of the two generated clients: at most 512 bytes of the body.\<close>

definition api_error_text :: "string \<Rightarrow> int \<Rightarrow> string \<Rightarrow> string" where
  "api_error_text service status body =
     service @ '': unexpected status '' @ FormatInt status @ '': '' @ (if length body > 512 then take 512 body else body)"

definition ds_APIError_Error :: "int \<Rightarrow> string \<Rightarrow> string" where
  "ds_APIError_Error = api_error_text ''deploymentservice''"

record 'w asset_client =
  ac_BaseURL :: string
  ac_Token :: string
  ac_HTTPClient :: "'w http_client option"
  ac_Marshal :: "json \<Rightarrow> gerr + string"
  ac_Unmarshal :: "string \<Rightarrow> gerr + resolve_batch_response"

text \<open>\<open>do\<close> without the decoding of the response; \<open>default_client\<close> is \<open>http.DefaultClient\<close>.\<close>

definition asset_do :: "'w http_client \<Rightarrow> 'w asset_client \<Rightarrow> string \<Rightarrow> string \<Rightarrow> json option \<Rightarrow> (int \<rightharpoonup> (string \<Rightarrow> asset_error))
    \<Rightarrow> ('w, asset_error + string) state" where
  "asset_do default_client c method path in_body errHooks =
     (case (case in_body of None \<Rightarrow> Inr None | Some v \<Rightarrow> (case ac_Marshal c v of Inl err \<Rightarrow> Inl err | Inr buf \<Rightarrow> Inr (Some buf))) of
        Inl err \<Rightarrow> ret (Inl (AssetOtherError err))
      | Inr reqBody \<Rightarrow> do {
          let headers =
            (if in_body \<noteq> None then [(''Content-Type'', ''application/json'')] else [])
            @ (if ac_Token c \<noteq> [] then [(''Authorization'', ''Bearer '' @ ac_Token c)] else []);
          let hc = (case ac_HTTPClient c of None \<Rightarrow> default_client | Some hc \<Rightarrow> hc);
          resp \<leftarrow> http_Do hc method (TrimRight (ac_BaseURL c) CHR ''/'' @ path) headers reqBody;
          ret (case resp of
                 Inl err \<Rightarrow> Inl (AssetOtherError err)
               | Inr (status, body) \<Rightarrow>
                   if 200 \<le> status \<and> status < 300 then Inr body
                   else (case errHooks status of
                           Some hook \<Rightarrow> Inl (hook body)
                         | None \<Rightarrow> Inl (AssetAPIError status body)))
        })"

definition ResolveAssetsBatch :: "'w http_client \<Rightarrow> 'w asset_client \<Rightarrow> resolve_batch_request
    \<Rightarrow> ('w, asset_error + resolve_batch_response) state" where
  "ResolveAssetsBatch default_client c body = do {
     r \<leftarrow> asset_do default_client c ''POST'' ''/internal/assets/resolve-batch'' (Some (resolve_batch_json body)) Map.empty;
     ret (case r of
            Inl err \<Rightarrow> Inl err
          | Inr [] \<Rightarrow> Inr \<lparr>rb_Assets = []\<rparr>
          | Inr raw \<Rightarrow> (case ac_Unmarshal c raw of Inl err \<Rightarrow> Inl (AssetOtherError err) | Inr out \<Rightarrow> Inr out))
   }"

section \<open>Facts\<close>

lemma TrimRight_last: "TrimRight s x = [] \<or> last (TrimRight s x) \<noteq> x"
proof (cases "dropWhile (\<lambda>y. y = x) (rev s)")
  case (Cons y ys)
  then have "y \<noteq> x" using hd_dropWhile [of "\<lambda>y. y = x" "rev s"] by simp
  with Cons show ?thesis by (simp add: TrimRight_def)
qed (simp add: TrimRight_def)

lemma TrimRight_append: "\<exists>n. s = TrimRight s x @ replicate n x"
proof -
  have "s = TrimRight s x @ rev (takeWhile (\<lambda>y. y = x) (rev s))"
    unfolding TrimRight_def by (metis rev_append rev_rev_ident takeWhile_dropWhile_id)
  moreover have "\<forall>y \<in> set (rev (takeWhile (\<lambda>y. y = x) (rev s))). y = x" by (auto dest: set_takeWhileD)
  ultimately show ?thesis by (metis replicate_length_same)
qed

section \<open>Properties\<close>

text \<open>
  One request, and assets only from a good answer. A resolution that can be encoded sends exactly one request: a POST to the resolve path under the base URL, whatever
  slashes that ends with, with the encoded batch as its body and the token in no place but the authorization header, which is left
  out when there is no token. Assets come back only from an answer with a 2xx status, an empty one giving no assets; every other status is the error
  with that status, whose text has at most 512 bytes of the answer.
\<close>

theorem ResolveAssetsBatch_once:
  assumes "ac_HTTPClient c = Some \<lparr>http_Do = (\<lambda>method url hs body. State (\<lambda>sent. (answer, sent @ [(method, url, hs, body)])))\<rparr>"
    and "ac_Marshal c (resolve_batch_json req) = Inr buf"
    and "run_state (ResolveAssetsBatch def c req) [] = (res, sent)"
  shows "(\<exists>base. sent = [(''POST'', base @ ''/internal/assets/resolve-batch'',
        (''Content-Type'', ''application/json'') # (if ac_Token c = [] then [] else [(''Authorization'', ''Bearer '' @ ac_Token c)]), Some buf)] \<and>
      (base = [] \<or> last base \<noteq> CHR ''/'') \<and> (\<exists>n. ac_BaseURL c = base @ replicate n CHR ''/'')) \<and>
    (\<forall>out. res = Inr out \<longrightarrow> (\<exists>status body. answer = Inr (status, body) \<and> 200 \<le> status \<and> status < 300 \<and>
      (if body = [] then rb_Assets out = [] else ac_Unmarshal c body = Inr out))) \<and>
    (\<forall>status body. answer = Inr (status, body) \<longrightarrow> \<not> (200 \<le> status \<and> status < 300) \<longrightarrow> res = Inl (AssetAPIError status body) \<and>
      length (api_error_text ''assetservice'' status body) \<le> length (FormatInt status) + 546)"
proof (intro conjI allI impI)
  have result: "res = (case answer of
      Inl err \<Rightarrow> Inl (AssetOtherError err)
    | Inr (status, body) \<Rightarrow>
        if 200 \<le> status \<and> status < 300
        then (if body = [] then Inr \<lparr>rb_Assets = []\<rparr> else case ac_Unmarshal c body of Inl err \<Rightarrow> Inl (AssetOtherError err) | Inr out \<Rightarrow> Inr out)
        else Inl (AssetAPIError status body))"
    using assms by (cases answer) (auto simp: ResolveAssetsBatch_def asset_do_def run_state_bind Let_def split: list.splits)
  show "\<exists>base. sent = [(''POST'', base @ ''/internal/assets/resolve-batch'',
        (''Content-Type'', ''application/json'') # (if ac_Token c = [] then [] else [(''Authorization'', ''Bearer '' @ ac_Token c)]), Some buf)] \<and>
      (base = [] \<or> last base \<noteq> CHR ''/'') \<and> (\<exists>n. ac_BaseURL c = base @ replicate n CHR ''/'')"
    using assms TrimRight_last [of "ac_BaseURL c"] TrimRight_append [of "ac_BaseURL c"]
    by (intro exI [of _ "TrimRight (ac_BaseURL c) CHR ''/''"]) (auto simp: ResolveAssetsBatch_def asset_do_def run_state_bind Let_def)
  fix out
  assume out: "res = Inr out"
  then obtain status body where "answer = Inr (status, body)" using result by (cases answer) auto
  with out result show "\<exists>status body. answer = Inr (status, body) \<and> 200 \<le> status \<and> status < 300 \<and>
      (if body = [] then rb_Assets out = [] else ac_Unmarshal c body = Inr out)"
    by (cases "ac_Unmarshal c body") (auto split: if_splits)
next
  fix status body
  assume "answer = Inr (status, body)" "\<not> (200 \<le> status \<and> status < 300)"
  with assms show "res = Inl (AssetAPIError status body)"
    by (auto simp: ResolveAssetsBatch_def asset_do_def run_state_bind Let_def)
  show "length (api_error_text ''assetservice'' status body) \<le> length (FormatInt status) + 546"
    by (simp add: api_error_text_def)
qed

theorem ResolveAssetsBatch_once_witness:
  "fst (run_state (ResolveAssetsBatch \<lparr>http_Do = (\<lambda>_ _ _ _. ret (Inl (TextE ''none'')))\<rparr>
     \<lparr>ac_BaseURL = ''http://assets//'', ac_Token = ''t'',
      ac_HTTPClient = Some \<lparr>http_Do = (\<lambda>method url hs body. State (\<lambda>sent. (Inr (503, ''down''), sent @ [(method, url, hs, body)])))\<rparr>,
      ac_Marshal = (\<lambda>_. Inr ''{}''), ac_Unmarshal = (\<lambda>_. Inl (TextE ''none''))\<rparr>
     \<lparr>rb_TeamID = ''t1'', rb_SiteID = ''s1'', rb_Refs = Some [''asset://a'']\<rparr>) []) = Inl (AssetAPIError 503 ''down'')"
proof -
  let ?c = "\<lparr>ac_BaseURL = ''http://assets//'', ac_Token = ''t'',
      ac_HTTPClient = Some \<lparr>http_Do = (\<lambda>method url hs body. State (\<lambda>sent. (Inr (503, ''down''), sent @ [(method, url, hs, body)])))\<rparr>,
      ac_Marshal = (\<lambda>_. Inr ''{}''), ac_Unmarshal = (\<lambda>_. Inl (TextE ''none''))\<rparr>"
  let ?run = "run_state (ResolveAssetsBatch \<lparr>http_Do = (\<lambda>_ _ _ _. ret (Inl (TextE ''none'')))\<rparr> ?c
     \<lparr>rb_TeamID = ''t1'', rb_SiteID = ''s1'', rb_Refs = Some [''asset://a'']\<rparr>) []"
  have "?run = (fst ?run, snd ?run)" by simp
  from ResolveAssetsBatch_once [OF _ _ this, of "Inr (503, ''down'')" "''{}''"] show ?thesis by simp
qed

end
