(* ===== verification/Dispatch_Log.thy ===== *)
theory Dispatch_Log
  imports Dispatcher Worker_Rule
begin

text \<open>
  The Redis commands of one pass of the dispatcher (\<open>Tick\<close>, \<open>src/internal/queue/dispatcher.go\<close>, with \<open>Due\<close> and \<open>Remove\<close> of
  \<open>retry.go\<close>), seen from outside: the pass runs on a client that logs each command with its reply. Whatever the replies are, each
  command is justified by what the pass has been told before: it drops only what it could not read, publishes only what it has read, and
  removes only what it has published.
\<close>

declare split_paired_All [simp del] split_paired_Ex [simp del]

section \<open>Logged commands\<close>

datatype command =
    RangeD string int int "gerr + string list"
  | ReadD string "string list" "gerr + string option list"
  | DropD redis_cmd "gerr option"
  | TxD "redis_cmd list" "gerr option"
  | AddD string fields "gerr + string"
  | ScoresD string int int "gerr + (string \<times> int) list"

text \<open>
  A client that logs the commands of the dispatcher. Its state is a number: the answers can be any function of it, and so any sequence of
  answers is the sequence of some client.
\<close>

definition scripted :: "(nat \<times> command list) redis \<Rightarrow> bool" where
  "scripted r \<longleftrightarrow>
     (\<forall>key mx n. \<exists>m. ZRangeByScore r key mx n = logged (RangeD key mx n) m) \<and>
     (\<forall>key fs. \<exists>m. HMGet r key fs = logged (ReadD key fs) m) \<and>
     (\<forall>y. \<exists>m. Cmd_Err r y = logged (DropD y) m) \<and>
     (\<forall>ys. \<exists>m. TxPipeline_Exec r ys = logged (TxD ys) m) \<and>
     (\<forall>key vals. \<exists>m. XAdd r key vals = logged (AddD key vals) m) \<and>
     (\<forall>key a b. \<exists>m. ZRangeWithScores r key a b = logged (ScoresD key a b) m)"

lemma scripted_ops:
  assumes "scripted r"
  shows "\<exists>m. ZRangeByScore r key mx n = logged (RangeD key mx n) m" "\<exists>m. HMGet r key fs = logged (ReadD key fs) m"
    "\<exists>m. Cmd_Err r y = logged (DropD y) m" "\<exists>m. TxPipeline_Exec r ys = logged (TxD ys) m"
    "\<exists>m. XAdd r key vals = logged (AddD key vals) m" "\<exists>m. ZRangeWithScores r key a b = logged (ScoresD key a b) m"
  using assms unfolding scripted_def by blast+

text \<open>The commands of a whole pass of the dispatcher that \<open>run\<close> wires.\<close>

definition pass_log :: "env_codec \<Rightarrow> command list \<Rightarrow> bool" where
  "pass_log c cs \<longleftrightarrow> (\<exists>r name gauge clock now n n'. scripted r \<and>
     run_state (Tick (redis_dispatcher \<lparr>rdb = r, consumer = name\<rparr> c (Some (\<lambda>k. quiet (gauge k))) 0 0 (quiet clock)) now) (n, []) =
       ((), (n', cs)))"

section \<open>Why a command is sent\<close>

text \<open>What the pass has been told of the member \<open>i\<close> of the retry index.\<close>

definition read_of :: "command list \<Rightarrow> string \<Rightarrow> string option \<Rightarrow> bool" where
  "read_of tr i raw \<longleftrightarrow> (\<exists>ids raws. ReadD KeyRetryPayloads ids (Inr raws) \<in> set tr \<and> (i, raw) \<in> set (zip ids raws))"

definition read_env :: "env_codec \<Rightarrow> command list \<Rightarrow> retry_envelope \<Rightarrow> bool" where
  "read_env c tr env \<longleftrightarrow> (\<exists>i str. read_of tr i (Some str) \<and> dec_Envelope c str = Some env)"

fun allowed :: "env_codec \<Rightarrow> command list \<Rightarrow> command \<Rightarrow> bool" where
  "allowed c tr (RangeD key mx n res) \<longleftrightarrow> key = KeyRetryZSet \<and> 0 < n"
| "allowed c tr (ReadD key ids res) \<longleftrightarrow> key = KeyRetryPayloads \<and> (\<exists>mx n. RangeD KeyRetryZSet mx n (Inr ids) \<in> set tr)"
| "allowed c tr (DropD cmd res) \<longleftrightarrow>
     (\<exists>i. cmd = ZRem KeyRetryZSet i \<and> read_of tr i None) \<or>
     (\<exists>i str. cmd \<in> {ZRem KeyRetryZSet i, HDel KeyRetryPayloads i} \<and> read_of tr i (Some str) \<and> dec_Envelope c str = None)"
| "allowed c tr (TxD cmds res) \<longleftrightarrow>
     (\<exists>env x. cmds = [ZRem KeyRetryZSet (env_RetryEnvelopeID env), HDel KeyRetryPayloads (env_RetryEnvelopeID env)] \<and>
        read_env c tr env \<and> AddD StreamMain (publish_values (envelope_message env)) (Inr x) \<in> set tr)"
| "allowed c tr (AddD key vals res) \<longleftrightarrow>
     key = StreamMain \<and> (\<exists>env. vals = publish_values (envelope_message env) \<and> read_env c tr env)"
| "allowed c tr (ScoresD key a b res) \<longleftrightarrow> True"

definition justified_log :: "env_codec \<Rightarrow> command list \<Rightarrow> bool" where
  "justified_log c cs \<longleftrightarrow> (\<forall>pre y post. cs = pre @ y # post \<longrightarrow> allowed c pre y)"

lemma justified_log_Nil [simp]: "justified_log c []"
  by (simp add: justified_log_def)

lemma justified_log_snoc [simp]: "justified_log c (tr @ [y]) \<longleftrightarrow> justified_log c tr \<and> allowed c tr y"
proof
  assume a: "justified_log c (tr @ [y])"
  have "allowed c pre z" if "tr = pre @ z # post" for pre z post
    using a that by (simp add: justified_log_def)
  with a show "justified_log c tr \<and> allowed c tr y" by (simp add: justified_log_def)
next
  assume a: "justified_log c tr \<and> allowed c tr y"
  have "allowed c pre z" if "tr @ [y] = pre @ z # post" for pre z post
    using a that by (cases post rule: rev_cases) (auto simp: justified_log_def)
  then show "justified_log c (tr @ [y])" by (simp add: justified_log_def)
qed

lemma read_of_mono: "read_of tr i raw \<Longrightarrow> set tr \<subseteq> set tr' \<Longrightarrow> read_of tr' i raw"
  unfolding read_of_def by blast

lemma read_env_mono: "read_env c tr env \<Longrightarrow> set tr \<subseteq> set tr' \<Longrightarrow> read_env c tr' env"
  unfolding read_env_def using read_of_mono by blast

section \<open>The pass\<close>

text \<open>The log of a part of the pass: justified, and an extension of what it was.\<close>

definition extends :: "env_codec \<Rightarrow> command list \<Rightarrow> nat \<times> command list \<Rightarrow> bool" where
  "extends c tr s \<longleftrightarrow> justified_log c (snd s) \<and> set tr \<subseteq> set (snd s)"

lemma extends_trans: "extends c tr s \<Longrightarrow> extends c (snd s) s' \<Longrightarrow> extends c tr s'"
  by (auto simp: extends_def)

lemma extends_snoc: "extends c tr (w, tr') \<Longrightarrow> allowed c tr' y \<Longrightarrow> extends c tr (w', tr' @ [y])"
  by (auto simp: extends_def)

lemma wp_command:
  assumes "justified_log c tr" "op = logged y m" "\<And>a. allowed c tr (y a)"
    and "\<And>a n. extends c tr (n, tr @ [y a]) \<Longrightarrow> Q a (n, tr @ [y a])"
  shows "wp op Q (n, tr)"
  unfolding assms(2) wp_logged
  by (rule wp_mono [OF wp_True]) (rule assms(4), use assms(1,3) in \<open>simp add: extends_def subset_insertI2\<close>)

lemma keeps_extends_quiet: "extends c tr s \<Longrightarrow> wp (quiet m) (\<lambda>_. extends c tr) s"
  by (cases s) (simp add: wp_quiet, rule wp_mono [OF wp_True], simp add: extends_def)

lemma due_collect_log:
  assumes "scripted r" "justified_log c tr" "\<forall>(i, raw) \<in> set xs. read_of tr i raw"
  shows "wp (due_collect r c xs) (\<lambda>envs s. extends c tr s \<and> (\<forall>env \<in> set envs. read_env c (snd s) env)) (n, tr)"
  using assms(2,3)
proof (induction xs arbitrary: n tr)
  case Nil
  then show ?case by (simp add: extends_def)
next
  case (Cons x xs)
  obtain i raw where x: "x = (i, raw)" by (cases x)
  have read: "read_of tr i raw" "\<forall>(i, raw) \<in> set xs. read_of tr i raw" using Cons.prems(2) by (simp_all add: x)
  have drop: "\<exists>m. Cmd_Err r y = logged (DropD y) m" for y by (rule scripted_ops [OF assms(1)])
  have later: "wp (due_collect r c xs) (\<lambda>envs s. extends c tr s \<and> (\<forall>env \<in> set envs. read_env c (snd s) env)) (n, tr')"
    if "extends c tr (n, tr')" for n tr'
  proof -
    have "justified_log c tr'" "\<forall>(i, raw) \<in> set xs. read_of tr' i raw"
      using that read(2) read_of_mono [of tr _ _ tr'] by (auto simp: extends_def)
    from Cons.IH [OF this] show ?thesis
      by (rule wp_mono) (use extends_trans [OF that] in auto)
  qed
  show ?case
  proof (cases raw)
    case None
    obtain m where m: "Cmd_Err r (ZRem KeyRetryZSet i) = logged (DropD (ZRem KeyRetryZSet i)) m" using drop by blast
    show ?thesis
      unfolding x None due_collect.simps option.case wp_bind
      by (rule wp_command [OF Cons.prems(1) m]) (use read(1) None in simp, rule later)
  next
    case (Some str)
    show ?thesis
    proof (cases "dec_Envelope c str")
      case None
      obtain m1 where m1: "Cmd_Err r (ZRem KeyRetryZSet i) = logged (DropD (ZRem KeyRetryZSet i)) m1" using drop by blast
      obtain m2 where m2: "Cmd_Err r (HDel KeyRetryPayloads i) = logged (DropD (HDel KeyRetryPayloads i)) m2" using drop by blast
      have second: "wp (Cmd_Err r (HDel KeyRetryPayloads i)) (\<lambda>_. wp (due_collect r c xs)
          (\<lambda>envs s. extends c tr s \<and> (\<forall>env \<in> set envs. read_env c (snd s) env))) (n, tr')" if ext: "extends c tr (n, tr')" for n tr'
      proof (rule wp_command [OF _ m2])
        show "justified_log c tr'" using ext by (simp add: extends_def)
        show "allowed c tr' (DropD (HDel KeyRetryPayloads i) a)" for a
          using read_of_mono [OF read(1), of tr'] ext None Some by (auto simp: extends_def)
      qed (rule later, metis ext extends_trans snd_conv)
      show ?thesis
        unfolding x Some due_collect.simps option.case None wp_bind
        by (rule wp_command [OF Cons.prems(1) m1]) (use read(1) None Some in auto, rule second)
    next
      case (Some env)
      have "read_env c tr env" using read(1) \<open>raw = Some str\<close> Some by (auto simp: read_env_def)
      then show ?thesis
        unfolding x \<open>raw = Some str\<close> due_collect.simps option.case Some wp_bind wp_return
        by (intro wp_mono [OF later]) (use Cons.prems(1) read_env_mono in \<open>auto simp: extends_def\<close>)
    qed
  qed
qed

lemma Due_log:
  assumes "scripted r" "justified_log c tr" "0 < batch"
  shows "wp (Due r c now batch) (\<lambda>res s. extends c tr s \<and> (\<forall>envs. res = Inr envs \<longrightarrow> (\<forall>env \<in> set envs. read_env c (snd s) env))) (n, tr)"
proof -
  obtain m1 where m1: "ZRangeByScore r KeyRetryZSet (UnixMilli now) batch = logged (RangeD KeyRetryZSet (UnixMilli now) batch) m1"
    using scripted_ops [OF assms(1)] by blast
  have read: "wp (HMGet r KeyRetryPayloads ids) (\<lambda>raws. wp (case raws of Inl err \<Rightarrow> ret (Inl (WrapE err))
        | Inr raws \<Rightarrow> do { out \<leftarrow> due_collect r c (zip ids raws); ret (Inr out) })
      (\<lambda>res s. extends c tr s \<and> (\<forall>envs. res = Inr envs \<longrightarrow> (\<forall>env \<in> set envs. read_env c (snd s) env)))) (n, tr')"
    if ext: "extends c tr (n, tr')" and range: "RangeD KeyRetryZSet mx k (Inr ids) \<in> set tr'" for ids n tr' mx k
  proof -
    obtain m2 where m2: "HMGet r KeyRetryPayloads ids = logged (ReadD KeyRetryPayloads ids) m2"
      using scripted_ops [OF assms(1)] by blast
    show ?thesis
    proof (rule wp_command [where c = c, OF _ m2], goal_cases)
      case (3 raws n2)
      note ext2 = extends_trans [OF ext, of "(n2, tr' @ [ReadD KeyRetryPayloads ids raws])", unfolded snd_conv, OF 3]
      show ?case
      proof (cases raws)
        case (Inr rs)
        have "\<forall>(i, raw) \<in> set (zip ids rs). read_of (tr' @ [ReadD KeyRetryPayloads ids raws]) i raw"
          unfolding read_of_def using Inr by auto
        moreover have "justified_log c (tr' @ [ReadD KeyRetryPayloads ids raws])" using 3 by (simp add: extends_def)
        ultimately have "wp (due_collect r c (zip ids rs)) (\<lambda>envs s. extends c (tr' @ [ReadD KeyRetryPayloads ids raws]) s \<and>
            (\<forall>env \<in> set envs. read_env c (snd s) env)) (n2, tr' @ [ReadD KeyRetryPayloads ids raws])"
          by (intro due_collect_log assms(1))
        then have "wp (due_collect r c (zip ids rs)) (\<lambda>envs s. extends c tr s \<and>
            (\<forall>env \<in> set envs. read_env c (snd s) env)) (n2, tr' @ [ReadD KeyRetryPayloads ids raws])"
          by (rule wp_mono) (use extends_trans [OF ext2] in simp)
        then show ?thesis by (simp add: Inr wp_bind)
      qed (use ext2 in simp)
    qed (use ext range in \<open>auto simp: extends_def\<close>)
  qed
  show ?thesis
    unfolding Due_def wp_bind
  proof (rule wp_command [OF assms(2) m1], goal_cases)
    case (2 ids n2)
    show ?case
    proof (cases ids)
      case (Inr xs)
      have "RangeD KeyRetryZSet (UnixMilli now) batch (Inr xs) \<in> set (tr @ [RangeD KeyRetryZSet (UnixMilli now) batch ids])"
        by (simp add: Inr)
      from read [OF 2 this] 2 show ?thesis by (auto simp: Inr)
    qed (use 2 in simp)
  qed (use assms(3) in simp)
qed

lemma dispatch_one_log:
  assumes "scripted r" "read_env c tr env" "extends c tr s"
  shows "wp (dispatch_one (redis_dispatcher \<lparr>rdb = r, consumer = name\<rparr> c gauge a b clock) env) (\<lambda>_. extends c tr) s"
proof -
  obtain n tr1 where s: "s = (n, tr1)" by (cases s)
  let ?i = "env_RetryEnvelopeID env" and ?vals = "publish_values (envelope_message env)"
  obtain m1 where m1: "XAdd r StreamMain ?vals = logged (AddD StreamMain ?vals) m1"
    using scripted_ops [OF assms(1)] by blast
  obtain m2 where m2: "TxPipeline_Exec r [ZRem KeyRetryZSet ?i, HDel KeyRetryPayloads ?i] =
      logged (TxD [ZRem KeyRetryZSet ?i, HDel KeyRetryPayloads ?i]) m2"
    using scripted_ops [OF assms(1)] by blast
  have read1: "read_env c tr1 env" using assms(2,3) read_env_mono by (auto simp: s extends_def)
  have remove: "wp (TxPipeline_Exec r [ZRem KeyRetryZSet ?i, HDel KeyRetryPayloads ?i]) (\<lambda>_. extends c tr) (n2, tr2)"
    if ext: "extends c tr (n2, tr2)" and added: "AddD StreamMain ?vals (Inr x) \<in> set tr2" for n2 tr2 x
  proof (rule wp_command [OF _ m2])
    show "justified_log c tr2" using ext by (simp add: extends_def)
    have "read_env c tr2 env" using ext assms(2) read_env_mono by (auto simp: extends_def)
    with added show "allowed c tr2 (TxD [ZRem KeyRetryZSet ?i, HDel KeyRetryPayloads ?i] a)" for a by auto
  qed (metis ext extends_trans snd_conv)
  show ?thesis
    unfolding s dispatch_one_def redis_dispatcher_def dispatcher.simps retry_store_ops.simps Publish_def Remove_def wp_bind wp_return
      redis_driver.simps
  proof (rule wp_command [where c = c, OF _ m1], goal_cases)
    case (3 res n2)
    have ext2: "extends c tr (n2, tr1 @ [AddD StreamMain ?vals res])" using assms(3) 3 extends_trans by (fastforce simp: s)
    show ?case
    proof (cases res)
      case (Inr x)
      with remove [OF ext2, of x] show ?thesis by (simp add: wrap_res_def)
    qed (use ext2 in \<open>simp add: wrap_res_def\<close>)
  qed (use assms(3) read1 in \<open>auto simp: s extends_def\<close>)
qed

lemma report_lag_log:
  assumes "scripted r" "extends c tr s"
  shows "wp (report_lag (redis_dispatcher \<lparr>rdb = r, consumer = name\<rparr> c (Some (\<lambda>k. quiet (gauge k))) a b (quiet clock))) (\<lambda>_. extends c tr) s"
proof -
  obtain m where m: "ZRangeWithScores r KeyRetryZSet 0 0 = logged (ScoresD KeyRetryZSet 0 0) m"
    using scripted_ops [OF assms(1)] by blast
  have scores: "wp (ZRangeWithScores r KeyRetryZSet 0 0) (\<lambda>_. extends c tr) s" if "extends c tr s" for s
    using that by (cases s) (simp add: m wp_logged, rule wp_mono [OF wp_True], rule extends_snoc, simp_all)
  show ?thesis
    unfolding report_lag_def redis_dispatcher_def dispatcher.simps retry_store_ops.simps option.case OldestDueLag_def wp_bind wp_return
      redis_driver.simps
    by (rule wp_mono [OF keeps_extends_quiet [OF assms(2)]], rule wp_mono [OF scores])
      (auto split: sum.split list.split prod.split simp: Let_def intro: keeps_extends_quiet)
qed

lemma Tick_log:
  assumes "scripted r"
  shows "wp (Tick (redis_dispatcher \<lparr>rdb = r, consumer = name\<rparr> c (Some (\<lambda>k. quiet (gauge k))) 0 0 (quiet clock)) now)
    (\<lambda>_ s. justified_log c (snd s)) (n, [])"
proof -
  let ?d = "redis_dispatcher \<lparr>rdb = r, consumer = name\<rparr> c (Some (\<lambda>k. quiet (gauge k))) 0 0 (quiet clock)"
  have due: "rs_Due (Store ?d) = Due r c" "Batch ?d = 0" by (simp_all add: redis_dispatcher_def)
  have rest: "wp (for_each envs (dispatch_one ?d)) (\<lambda>_. wp (report_lag ?d) (\<lambda>_ s. justified_log c (snd s))) s"
    if "extends c [] s" "\<forall>env \<in> set envs. read_env c (snd s) env" for envs s
  proof (rule wp_mono [OF wp_for_each [where I = "extends c (snd s)"]])
    show "extends c (snd s) s" using that(1) by (simp add: extends_def)
  next
    fix env s'
    assume "env \<in> set envs" "extends c (snd s) s'"
    then show "wp (dispatch_one ?d env) (\<lambda>_. extends c (snd s)) s'" using that(2) by (intro dispatch_one_log assms) auto
  next
    fix s'
    assume "extends c (snd s) s'"
    from report_lag_log [OF assms this] show "wp (report_lag ?d) (\<lambda>_ s. justified_log c (snd s)) s'"
      by (rule wp_mono) (simp add: extends_def)
  qed
  show ?thesis
    unfolding Tick_def Let_def wp_bind due
  proof (rule wp_mono [OF Due_log [OF assms justified_log_Nil]], goal_cases)
    case (2 res s)
    with rest show ?case by (cases res) (auto simp: wp_bind extends_def)
  qed simp
qed

text \<open>The next command of a pass.\<close>

lemma pass_next: "pass_log c (cs @ y # post) \<Longrightarrow> allowed c cs y"
  unfolding pass_log_def by (auto simp: justified_log_def dest!: wp_run [OF Tick_log])

end
