(* ===== verification/Evidence.thy ===== *)
theory Evidence
  imports Moves Dispatch_Log
begin

text \<open>
  Where a job is while the calls of many handlers and dispatchers are interleaved. A job can be in several places: as entries of the stream that are
  handled more than once, and as an envelope that one dispatcher has published and not yet removed while a handler schedules it again under the same
  key. The invariant names one place that no running goroutine is about to clear: the entry is not one whose handler has already scheduled its
  retry, the envelope is not one that was published, and no envelope with a higher attempt was ever published. What each
  command of the processor and of the dispatcher does to this place is shown here; \<open>Interleaving\<close> puts the commands together.
\<close>

declare split_paired_All [simp del] split_paired_Ex [simp del]

section \<open>The invariant\<close>

text \<open>An envelope under its own key, and the attempt that a reader of its message sees.\<close>

definition keyed :: "event_lib \<Rightarrow> retry_envelope \<Rightarrow> bool" where
  "keyed l env \<longleftrightarrow> env_RetryEnvelopeID env = EnvelopeID (job_of l (env_Payload env)) (env_Attempt env) (env_LastErrorCode env)"

definition seen_attempt :: "int \<Rightarrow> int" where
  "seen_attempt n = (case ParseInt (FormatInt n) of Some k \<Rightarrow> k | None \<Rightarrow> 0)"

text \<open>
  \<open>P\<close> is the set of the keys that were published, \<open>S\<close> the IDs of the messages whose handler has scheduled a retry and goes on to acknowledge.
\<close>

definition evidence :: "event_lib \<Rightarrow> env_codec \<Rightarrow> string set \<Rightarrow> string set \<Rightarrow> redis_view \<Rightarrow> string \<Rightarrow> int \<Rightarrow> bool" where
  "evidence l c P S v dep n \<longleftrightarrow>
     (\<exists>e. waiting v e \<and> print_sid (fst e) \<notin> S \<and> job_of l (msg_Payload (entry_msg e)) = dep \<and> msg_Attempt (entry_msg e) = n) \<or>
     (\<exists>i env. redis_held c v i = Some env \<and> i \<notin> P \<and> job_of l (env_Payload env) = dep \<and> seen_attempt (env_Attempt env) = n)"

definition behind :: "string set \<Rightarrow> string \<Rightarrow> int \<Rightarrow> bool" where
  "behind P dep n \<longleftrightarrow> (\<forall>m code. EnvelopeID dep m code \<in> P \<longrightarrow> seen_attempt m = m \<longrightarrow> m \<le> n)"

definition tracked :: "event_lib \<Rightarrow> env_codec \<Rightarrow> string set \<Rightarrow> string set \<Rightarrow> redis_view \<Rightarrow> string \<Rightarrow> bool" where
  "tracked l c P S v dep \<longleftrightarrow> (\<exists>n. evidence l c P S v dep n \<and> behind P dep n)"

lemma tracked_alive: "tracked l c P S v dep \<Longrightarrow> alive l c v dep"
  by (auto simp: tracked_def evidence_def alive_def)

lemma alive_tracked: "alive l c v dep \<Longrightarrow> tracked l c {} {} v dep"
  by (auto simp: tracked_def evidence_def alive_def behind_def)

lemma tracked_mono: "tracked l c P S v dep \<Longrightarrow> S' \<subseteq> S \<Longrightarrow> tracked l c P S' v dep"
  unfolding tracked_def evidence_def by blast

lemma tracked_kept:
  assumes "sane l c v" "kept v v'" "tracked l c P S v dep"
  shows "tracked l c P S v' dep"
  using assms(2,3) kept_sane(1) [OF assms(1,2)] unfolding tracked_def evidence_def kept_def by metis

text \<open>What a dispatcher has been told of a member: nothing is there, and then it was published; or an envelope, under its key.\<close>

definition told :: "event_lib \<Rightarrow> env_codec \<Rightarrow> string set \<Rightarrow> string \<Rightarrow> string option \<Rightarrow> bool" where
  "told l c P i raw \<longleftrightarrow> (case raw of None \<Rightarrow> i \<in> P
     | Some str \<Rightarrow> (\<exists>env. dec_Envelope c str = Some env \<and> keyed l env \<and> env_RetryEnvelopeID env = i))"

definition pass_ok :: "event_lib \<Rightarrow> env_codec \<Rightarrow> string set \<Rightarrow> redis_view \<Rightarrow> command list \<Rightarrow> bool" where
  "pass_ok l c P v cs \<longleftrightarrow>
     (\<forall>mx n ids. RangeD KeyRetryZSet mx n (Inr ids) \<in> set cs \<longrightarrow> (\<forall>i \<in> set ids. told l c P i (hashes v KeyRetryPayloads i))) \<and>
     (\<forall>i raw. read_of cs i raw \<longrightarrow> told l c P i raw) \<and>
     (\<forall>env x. AddD StreamMain (publish_values (envelope_message env)) (Inr x) \<in> set cs \<longrightarrow> keyed l env \<longrightarrow> env_RetryEnvelopeID env \<in> P)"

text \<open>The payloads stay readable: what was told of any member can be told again.\<close>

definition readable :: "event_lib \<Rightarrow> env_codec \<Rightarrow> string set \<Rightarrow> redis_view \<Rightarrow> redis_view \<Rightarrow> bool" where
  "readable l c P v v' \<longleftrightarrow> (\<forall>i. told l c P i (hashes v KeyRetryPayloads i) \<longrightarrow> told l c P i (hashes v' KeyRetryPayloads i))"

lemma told_mono: "told l c P i raw \<Longrightarrow> P \<subseteq> P' \<Longrightarrow> told l c P' i raw"
  by (auto simp: told_def split: option.splits)

lemma readable_hashes: "hashes v' = hashes v \<Longrightarrow> readable l c P v v'"
  by (simp add: readable_def)

lemma pass_ok_mono:
  assumes "pass_ok l c P v cs" "P \<subseteq> P'" "readable l c P' v v'"
  shows "pass_ok l c P' v' cs"
  using assms told_mono [OF _ assms(2)] unfolding pass_ok_def readable_def by blast

lemma pass_ok_Nil: "pass_ok l c P v []"
  by (simp add: pass_ok_def read_of_def)

lemma read_of_snoc:
  "read_of (cs @ [y]) i raw \<longleftrightarrow> read_of cs i raw \<or> (\<exists>ids raws. y = ReadD KeyRetryPayloads ids (Inr raws) \<and> (i, raw) \<in> set (zip ids raws))"
  unfolding read_of_def by auto

lemma pass_ok_snoc:
  "pass_ok l c P v (cs @ [y]) \<longleftrightarrow> pass_ok l c P v cs \<and>
     (\<forall>mx n ids. y = RangeD KeyRetryZSet mx n (Inr ids) \<longrightarrow> (\<forall>i \<in> set ids. told l c P i (hashes v KeyRetryPayloads i))) \<and>
     (\<forall>ids raws i raw. y = ReadD KeyRetryPayloads ids (Inr raws) \<longrightarrow> (i, raw) \<in> set (zip ids raws) \<longrightarrow> told l c P i raw) \<and>
     (\<forall>env x. y = AddD StreamMain (publish_values (envelope_message env)) (Inr x) \<longrightarrow> keyed l env \<longrightarrow> env_RetryEnvelopeID env \<in> P)"
  unfolding pass_ok_def read_of_snoc by (simp, blast)

section \<open>Facts of the messages\<close>

lemma seen_attempt_id: "- (2 ^ 63) \<le> n \<Longrightarrow> n < 2 ^ 63 \<Longrightarrow> seen_attempt n = n"
  by (simp add: seen_attempt_def ParseInt_FormatInt)

lemma ParseInt_range: "ParseInt s = Some n \<Longrightarrow> - (2 ^ 63) \<le> n"
  by (auto simp: ParseInt_def Let_def split: list.splits option.splits if_splits)

lemma msg_Attempt_range: "- (2 ^ 63) \<le> msg_Attempt (entry_msg e)"
  by (auto simp: entry_msg_def fromXMessage_def Let_def split: option.split dest: ParseInt_range)

lemma entry_published:
  "msg_Payload (entry_msg (i, publish_values (envelope_message env))) = env_Payload env"
  "msg_Attempt (entry_msg (i, publish_values (envelope_message env))) = seen_attempt (env_Attempt env)"
  by (simp_all add: entry_msg_def fromXMessage_def publish_values_def envelope_message_def Let_def seen_attempt_def)

lemma publish_values_inject:
  assumes "publish_values m = publish_values m'"
  shows "m = m'"
proof -
  have "map_of (publish_values m) k = map_of (publish_values m') k" for k using assms by simp
  from this [of "''payload''"] this [of "''attempt''"] this [of "''lastErrorCode''"] this [of "''traceId''"]
  show ?thesis
    by (cases m; cases m') (simp add: publish_values_def split: if_splits)
qed

lemma published_key:
  assumes "publish_values (envelope_message env) = publish_values (envelope_message env')" "keyed l env" "keyed l env'"
  shows "env_RetryEnvelopeID env = env_RetryEnvelopeID env'"
proof -
  have "env_Payload env = env_Payload env'" "env_Attempt env = env_Attempt env'"
      "error_code_string (env_LastErrorCode env) = error_code_string (env_LastErrorCode env')"
    using publish_values_inject [OF assms(1)] by (simp_all add: envelope_message_def)
  with assms(2,3) show ?thesis by (simp add: keyed_def EnvelopeID_def)
qed

lemma held_keyed:
  assumes "sane l c v" "redis_held c v i = Some env"
  shows "keyed l env" "env_RetryEnvelopeID env = i"
proof -
  have "redis_store_ok c v" "store_keyed l c v" using assms(1) by (simp_all add: sane_def)
  with assms(2) redis_held_ok(1) show "keyed l env" "env_RetryEnvelopeID env = i"
    by (auto simp: keyed_def store_keyed_def)
qed

lemma listed_told:
  assumes "sane l c v" "zsets v KeyRetryZSet i = Some s"
  shows "told l c P i (hashes v KeyRetryPayloads i)"
proof -
  obtain env where env: "redis_held c v i = Some env" using assms by (auto simp: sane_def redis_store_ok_def)
  with held_keyed [OF assms(1) env] show ?thesis
    by (auto simp: told_def redis_held_def split: option.splits)
qed

section \<open>The commands of the processor\<close>

text \<open>An acknowledgement clears the entry with its ID and no other.\<close>

lemma tracked_ack:
  assumes "tracked l c P S v dep"
  shows "tracked l c P S (drop_view (\<lambda>i. print_sid i \<in> {x}) v) dep \<or>
    (x \<notin> S \<and> (\<exists>e \<in> set (streams v StreamMain). print_sid (fst e) = x \<and> job_of l (msg_Payload (entry_msg e)) = dep))"
proof -
  let ?v = "drop_view (\<lambda>i. print_sid i \<in> {x}) v"
  have held: "redis_held c ?v = redis_held c v" by (rule redis_held_cong) simp_all
  have "waiting ?v e" if "waiting v e" "print_sid (fst e) \<noteq> x" for e
    using that by (simp add: waiting_def)
  moreover obtain n where n: "evidence l c P S v dep n" "behind P dep n" using assms by (auto simp: tracked_def)
  ultimately have "evidence l c P S ?v dep n \<or>
      (x \<notin> S \<and> (\<exists>e \<in> set (streams v StreamMain). print_sid (fst e) = x \<and> job_of l (msg_Payload (entry_msg e)) = dep))"
    unfolding evidence_def held waiting_def by metis
  with n(2) show ?thesis by (auto simp: tracked_def)
qed

text \<open>
  A retry that is scheduled: the envelope replaces one of the same job, and if it succeeds it takes the place of the message that it was
  scheduled for.
\<close>

lemma tracked_schedule:
  assumes "sane l c v" "tracked l c P S v dep" "streams v' = streams v" "main_group v' = main_group v"
    and held: "redis_held c v' = (redis_held c v)(env_RetryEnvelopeID env \<mapsto> env)" and "keyed l env"
    and m: "in_stream v m" "job_of l (msg_Payload m) = job_of l (env_Payload env)" "env_Attempt env = msg_Attempt m + 1" "env_Attempt env < 2 ^ 63"
  shows "tracked l c P (insert (msg_ID m) S) v' dep"
proof -
  let ?K = "env_RetryEnvelopeID env"
  have same: "waiting v' e = waiting v e" for e
    using assms(3,4) by (simp add: waiting_def delivered_def pending_entry_def)
  obtain n where n: "evidence l c P S v dep n" "behind P dep n" using assms(2) by (auto simp: tracked_def)
  have kept: "tracked l c P (insert (msg_ID m) S) v' dep"
    if "redis_held c v i = Some env0" "i \<notin> P" "job_of l (env_Payload env0) = dep" "seen_attempt (env_Attempt env0) = n" for i env0
  proof (cases "i = ?K")
    case True
    with held_keyed [OF assms(1) that(1)] \<open>keyed l env\<close> have "job_of l (env_Payload env) = dep" "env_Attempt env = env_Attempt env0"
      using that(3) by (simp_all add: keyed_def)
    with True that n(2) show ?thesis unfolding tracked_def evidence_def held by (metis fun_upd_same)
  next
    case False
    with that n(2) show ?thesis unfolding tracked_def evidence_def held by (metis fun_upd_other)
  qed
  have moved: "tracked l c P (insert (msg_ID m) S) v' dep"
    if e: "waiting v e" "job_of l (msg_Payload (entry_msg e)) = dep" "msg_Attempt (entry_msg e) = n" and id: "print_sid (fst e) = msg_ID m" for e
  proof -
    have "entry_msg e = m" using m(1) e(1) id in_stream_from by (auto simp: from_stream_def waiting_def)
    then have env: "job_of l (env_Payload env) = dep" "env_Attempt env = n + 1" using m(2,3) e by simp_all
    then have "- (2 ^ 63) \<le> env_Attempt env" using msg_Attempt_range [of e] e(3) by simp
    then have seen: "seen_attempt (n + 1) = n + 1" using seen_attempt_id m(4) env(2) by simp
    have K: "?K = EnvelopeID dep (n + 1) (env_LastErrorCode env)" using \<open>keyed l env\<close> env by (simp add: keyed_def)
    have "?K \<notin> P"
    proof
      assume "?K \<in> P"
      with n(2) K seen have "n + 1 \<le> n" by (auto simp: behind_def)
      then show False by simp
    qed
    moreover have "redis_held c v' ?K = Some env" by (simp add: held)
    ultimately have "evidence l c P (insert (msg_ID m) S) v' dep (n + 1)"
      unfolding evidence_def using env seen by (intro disjI2 exI [of _ ?K] exI [of _ env]) simp
    moreover have "behind P dep (n + 1)" using n(2) by (force simp: behind_def)
    ultimately show ?thesis by (auto simp: tracked_def)
  qed
  have stays: "tracked l c P (insert (msg_ID m) S) v' dep"
    if "waiting v e" "print_sid (fst e) \<notin> S" "print_sid (fst e) \<noteq> msg_ID m" "job_of l (msg_Payload (entry_msg e)) = dep"
      "msg_Attempt (entry_msg e) = n" for e
    using that n(2) same unfolding tracked_def evidence_def by auto
  show ?thesis using n(1) kept moved stays unfolding evidence_def by blast
qed

text \<open>Whether or not it is reported.\<close>

lemma sane_schedule:
  assumes "sane l c v" "streams v' = streams v" "main_group v' = main_group v" "redis_store_ok c v'"
    and "redis_held c v' = (redis_held c v)(env_RetryEnvelopeID env \<mapsto> env)" "keyed l env"
  shows "sane l c v'"
proof -
  have "queue_ok v'" using assms(1-3) group_ok_cong [OF assms(3)] by (simp add: sane_def queue_ok_def ids_ok_def)
  moreover have "store_keyed l c v'"
    using assms(1,5,6) unfolding sane_def store_keyed_def keyed_def by (auto split: if_splits)
  ultimately show ?thesis using assms(4) by (simp add: sane_def)
qed

section \<open>The commands of the dispatcher\<close>

text \<open>A published envelope that is removed from the store, or from its index.\<close>

lemma tracked_remove:
  assumes "tracked l c P S v dep" "i \<in> P" "streams v' = streams v" "main_group v' = main_group v"
    and "redis_held c v' = (redis_held c v)(i := None)"
  shows "tracked l c P S v' dep"
proof -
  have same: "waiting v' e = waiting v e" for e
    using assms(3,4) by (simp add: waiting_def delivered_def pending_entry_def)
  have held: "redis_held c v' j = redis_held c v j" if "j \<notin> P" for j using that assms(2,5) by auto
  then have "evidence l c P S v' dep n = evidence l c P S v dep n" for n
    unfolding evidence_def same by (intro disj_cong [OF refl] ex_cong1) auto
  with assms(1) show ?thesis by (simp add: tracked_def)
qed

text \<open>A publication: the message takes the place of the envelope, and of any with a lower attempt.\<close>

lemma tracked_publish:
  assumes "sane l c v" "tracked l c P S v dep" "keyed l env"
    and v': "v' = v\<lparr>streams := (streams v)(StreamMain := streams v StreamMain @ [(i, publish_values (envelope_message env))])\<rparr>"
    and i: "\<not> delivered v i" "print_sid i \<notin> S"
  shows "tracked l c (insert (env_RetryEnvelopeID env) P) S v' dep"
proof -
  let ?K = "env_RetryEnvelopeID env" and ?m = "env_Attempt env" and ?e = "(i, publish_values (envelope_message env))"
  have K: "?K = EnvelopeID (job_of l (env_Payload env)) ?m (env_LastErrorCode env)" using \<open>keyed l env\<close> by (simp add: keyed_def)
  have waits: "waiting v' e" if "waiting v e" for e using that by (auto simp: v' waiting_def delivered_def pending_entry_def main_group_def)
  have held: "redis_held c v' = redis_held c v" by (rule redis_held_cong) (simp_all add: v')
  have new: "waiting v' ?e" using i(1) by (auto simp: v' waiting_def delivered_def main_group_def)
  obtain n where n: "evidence l c P S v dep n" "behind P dep n" using assms(2) by (auto simp: tracked_def)
  have fresh: "tracked l c (insert ?K P) S v' dep"
    if "job_of l (env_Payload env) = dep" "n \<le> seen_attempt ?m" "\<And>code. ?K = EnvelopeID dep ?m code \<Longrightarrow> seen_attempt ?m = ?m \<Longrightarrow> ?m \<le> seen_attempt ?m"
  proof -
    have "evidence l c (insert ?K P) S v' dep (seen_attempt ?m)"
      unfolding evidence_def using new i(2) that(1) entry_published by (intro disjI1 exI [of _ ?e]) simp
    moreover have "behind (insert ?K P) dep (seen_attempt ?m)"
      using n(2) that(2) K by (force simp: behind_def)
    ultimately show ?thesis by (auto simp: tracked_def)
  qed
  have "tracked l c (insert ?K P) S v' dep" if keeps: "evidence l c (insert ?K P) S v' dep n"
  proof (cases "job_of l (env_Payload env) = dep \<and> seen_attempt ?m = ?m \<and> n < ?m")
    case True
    then show ?thesis by (intro fresh) auto
  next
    case False
    then have "behind (insert ?K P) dep n" using n(2) K by (auto simp: behind_def)
    with keeps show ?thesis by (auto simp: tracked_def)
  qed
  moreover have "tracked l c (insert ?K P) S v' dep"
    if "redis_held c v ?K = Some env0" "job_of l (env_Payload env0) = dep" "seen_attempt (env_Attempt env0) = n" for env0
  proof -
    have "EnvelopeID (job_of l (env_Payload env0)) (env_Attempt env0) (env_LastErrorCode env0) = ?K"
      using held_keyed [OF assms(1) that(1)] by (simp add: keyed_def)
    then have "job_of l (env_Payload env) = dep" "env_Attempt env0 = ?m" using K that(2) by simp_all
    with that(3) show ?thesis by (intro fresh) auto
  qed
  ultimately show ?thesis
    using n(1) waits unfolding evidence_def held by (metis insertE)
qed

end
