(* ===== verification/Retention_Log.thy ===== *)
theory Retention_Log
  imports Trim Worker_Rule
begin

text \<open>
  The Redis commands of one call of \<open>TrimMain\<close> (\<open>src/internal/queue/trim.go\<close>), seen from outside: the call runs on a client that logs each command with its
  reply, so that other workers can act between any two of them. Whatever the replies are, the trim is sent last, with the bound that the two replies before
  it give. What the two reads still say of the stream when the trim is sent is the invariant \<open>trim_ok\<close>; an entry that waits and is cut is one that became
  pending after the first read.
\<close>

declare split_paired_All [simp del] split_paired_Ex [simp del]

section \<open>Logged commands\<close>

datatype trim_command =
    PendT string string "gerr + x_pending"
  | InfoT string "gerr + x_group list"
  | CutT string string "gerr + int"

text \<open>A client that logs these commands; its state is a number, so that any sequence of answers is the sequence of some client.\<close>

definition trim_scripted :: "(nat \<times> trim_command list) redis \<Rightarrow> bool" where
  "trim_scripted r \<longleftrightarrow>
     (\<forall>key g. \<exists>m. XPending r key g = logged (PendT key g) m) \<and>
     (\<forall>key. \<exists>m. XInfoGroups r key = logged (InfoT key) m) \<and>
     (\<forall>key i. \<exists>m. XTrimMinID r key i = logged (CutT key i) m)"

definition trim_log :: "trim_command list \<Rightarrow> bool" where
  "trim_log cs \<longleftrightarrow> (\<exists>r name horizon n res n'. trim_scripted r \<and>
     run_state (TrimMain \<lparr>rdb = r, consumer = name\<rparr> horizon) (n, []) = (res, (n', cs)))"

section \<open>Why a command is sent\<close>

text \<open>What the first read has said: a summary, or that there is none.\<close>

definition read_pending :: "trim_command list \<Rightarrow> x_pending option \<Rightarrow> bool" where
  "read_pending cs p \<longleftrightarrow> (\<exists>res. PendT StreamMain ConsumerGroup res \<in> set cs \<and>
     (case res of Inr q \<Rightarrow> p = Some q | Inl err \<Rightarrow> errors_Is (Some err) RedisNilE \<and> p = None))"

fun trim_allowed :: "trim_command list \<Rightarrow> trim_command \<Rightarrow> bool" where
  "trim_allowed cs (PendT key g res) \<longleftrightarrow> key = StreamMain \<and> g = ConsumerGroup"
| "trim_allowed cs (InfoT key res) \<longleftrightarrow> key = StreamMain"
| "trim_allowed cs (CutT key i res) \<longleftrightarrow> key = StreamMain \<and> (\<exists>horizon p gs. read_pending cs p \<and>
     InfoT StreamMain (Inr gs) \<in> set cs \<and> group_bound (pending_bound (minIDAt horizon) p) gs = (i, True))"

definition allowed_log :: "trim_command list \<Rightarrow> bool" where
  "allowed_log cs \<longleftrightarrow> (\<forall>pre y post. cs = pre @ y # post \<longrightarrow> trim_allowed pre y)"

lemma allowed_log_Nil: "allowed_log []"
  by (simp add: allowed_log_def)

lemma allowed_log_snoc: "allowed_log cs \<Longrightarrow> trim_allowed cs y \<Longrightarrow> allowed_log (cs @ [y])"
  unfolding allowed_log_def by (auto simp: append_eq_append_conv2 append_eq_Cons_conv Cons_eq_append_conv)

lemma TrimMain_from_log:
  assumes "trim_scripted r" "allowed_log cs" "read_pending cs p"
  shows "wp (TrimMain_from \<lparr>rdb = r, consumer = name\<rparr> (pending_bound (minIDAt horizon) p)) (\<lambda>_ s. allowed_log (snd s)) (n, cs)"
proof -
  obtain m where m: "XInfoGroups r StreamMain = logged (InfoT StreamMain) m" using assms(1) unfolding trim_scripted_def by blast
  have cut: "\<exists>m. XTrimMinID r StreamMain i = logged (CutT StreamMain i) m" for i using assms(1) unfolding trim_scripted_def by blast
  have read: "read_pending (cs @ [y]) p" for y using assms(3) by (auto simp: read_pending_def)
  show ?thesis
    unfolding TrimMain_from_def wp_bind redis_driver.simps m wp_logged
  proof (rule wp_mono [OF wp_True], goal_cases)
    case (1 gs n1)
    have log: "allowed_log (cs @ [InfoT StreamMain gs])" by (rule allowed_log_snoc [OF assms(2)]) simp
    show ?case
    proof (cases gs)
      case (Inr xs)
      obtain i found where b: "group_bound (pending_bound (minIDAt horizon) p) xs = (i, found)" by fastforce
      obtain m2 where m2: "XTrimMinID r StreamMain i = logged (CutT StreamMain i) m2" using cut by blast
      have "trim_allowed (cs @ [InfoT StreamMain gs]) (CutT StreamMain i res)" if found for res
        using read [of "InfoT StreamMain gs"] that b Inr by auto
      with allowed_log_snoc [OF log] log show ?thesis
        by (simp add: Inr b m2 wp_logged wp_mono [OF wp_True])
    qed (use log in simp)
  qed
qed

lemma TrimMain_log:
  assumes "trim_scripted r"
  shows "wp (TrimMain \<lparr>rdb = r, consumer = name\<rparr> horizon) (\<lambda>_ s. allowed_log (snd s)) (n, [])"
proof -
  obtain m where m: "XPending r StreamMain ConsumerGroup = logged (PendT StreamMain ConsumerGroup) m"
    using assms unfolding trim_scripted_def by blast
  show ?thesis
    unfolding TrimMain_def Let_def wp_bind redis_driver.simps m wp_logged
  proof (rule wp_mono [OF wp_True], goal_cases)
    case (1 res n1)
    have log: "allowed_log [PendT StreamMain ConsumerGroup res]"
      using allowed_log_snoc [OF allowed_log_Nil, of "PendT StreamMain ConsumerGroup res"] by simp
    note go = TrimMain_from_log [OF assms log, of _ name horizon n1]
    show ?case
    proof (cases res)
      case (Inl err)
      then show ?thesis using log go [of None] by (auto simp: read_pending_def)
    next
      case (Inr q)
      then show ?thesis using go [of "Some q"] by (auto simp: read_pending_def)
    qed
  qed
qed

text \<open>The next command of a call.\<close>

lemma trim_next: "trim_log (cs @ y # post) \<Longrightarrow> trim_allowed cs y"
  unfolding trim_log_def by (auto simp: allowed_log_def dest!: wp_run [OF TrimMain_log])

section \<open>What the reads still say\<close>

text \<open>
  \<open>X\<close> are the entries that were delivered since the first read. Everything that is pending now was pending at some earlier state \<open>v1\<close>, of which the first
  reply is true, or is one of \<open>X\<close>; everything that had been delivered when the second reply was given still is.
\<close>

definition pending_reply :: "redis_view \<Rightarrow> x_pending option \<Rightarrow> bool" where
  "pending_reply v p \<longleftrightarrow> (case p of
       None \<Rightarrow> \<forall>i. \<not> pending_entry v i
     | Some p \<Rightarrow> (xp_Count p \<le> 0 \<or> xp_Lower p = []) \<and> (\<forall>i. \<not> pending_entry v i) \<or>
         (\<exists>lo. xp_Count p > 0 \<and> xp_Lower p = print_sid lo \<and> sid64 lo \<and> (\<forall>i. pending_entry v i \<longrightarrow> \<not> sid_less i lo)))"

definition group_reply :: "redis_view \<Rightarrow> x_group list \<Rightarrow> bool" where
  "group_reply v gs \<longleftrightarrow> ids_ok v \<and> (\<forall>x \<in> set gs. xg_Name x = ConsumerGroup \<longrightarrow>
     (\<exists>g. main_group v = Some g \<and> xg_LastDeliveredID x = print_sid (last_delivered g)))"

definition trim_ok :: "redis_view \<Rightarrow> (stream_id \<times> fields) set \<Rightarrow> trim_command list \<Rightarrow> bool" where
  "trim_ok v X cs \<longleftrightarrow>
     (\<forall>p. read_pending cs p \<longrightarrow> (\<exists>v1. pending_reply v1 p \<and>
        (\<forall>e \<in> set (streams v StreamMain). pending_entry v (fst e) \<longrightarrow> pending_entry v1 (fst e) \<or> e \<in> X))) \<and>
     (\<forall>gs. InfoT StreamMain (Inr gs) \<in> set cs \<longrightarrow> (\<exists>v2. group_reply v2 gs \<and> (\<forall>i. delivered v2 i \<longrightarrow> delivered v i)))"

lemma trim_ok_Nil: "trim_ok v X []"
  by (simp add: trim_ok_def read_pending_def)

text \<open>What becomes pending is one of \<open>X\<close>.\<close>

definition unclaimed :: "(stream_id \<times> fields) set \<Rightarrow> redis_view \<Rightarrow> redis_view \<Rightarrow> bool" where
  "unclaimed X v v' \<longleftrightarrow> (\<forall>e \<in> set (streams v' StreamMain). pending_entry v' (fst e) \<longrightarrow>
     pending_entry v (fst e) \<and> e \<in> set (streams v StreamMain) \<or> e \<in> X)"

lemma trim_ok_step:
  assumes "trim_ok v X cs" "X \<subseteq> X'" "unclaimed X' v v'" "\<forall>i. delivered v i \<longrightarrow> delivered v' i"
  shows "trim_ok v' X' cs"
  unfolding trim_ok_def
proof (intro conjI allI impI)
  fix p
  assume "read_pending cs p"
  then obtain v1 where "pending_reply v1 p"
      "\<forall>e \<in> set (streams v StreamMain). pending_entry v (fst e) \<longrightarrow> pending_entry v1 (fst e) \<or> e \<in> X"
    using assms(1) unfolding trim_ok_def by blast
  with assms(2,3) show "\<exists>v1. pending_reply v1 p \<and>
      (\<forall>e \<in> set (streams v' StreamMain). pending_entry v' (fst e) \<longrightarrow> pending_entry v1 (fst e) \<or> e \<in> X')"
    unfolding unclaimed_def by (intro exI [of _ v1]) blast
qed (use assms(1,4) in \<open>unfold trim_ok_def, blast\<close>)

text \<open>The two reads, and the cut: an entry that waits and is below the bound is one of \<open>X\<close>.\<close>

lemma trim_ok_pend:
  assumes "trim_ok v X cs" "\<And>p. read_pending [PendT StreamMain ConsumerGroup res] p \<Longrightarrow> pending_reply v p"
  shows "trim_ok v X (cs @ [PendT StreamMain ConsumerGroup res])"
proof -
  have "read_pending (cs @ [PendT StreamMain ConsumerGroup res]) p \<longleftrightarrow> read_pending cs p \<or> read_pending [PendT StreamMain ConsumerGroup res] p" for p
    by (auto simp: read_pending_def)
  with assms show ?thesis unfolding trim_ok_def by auto
qed

lemma trim_ok_info:
  assumes "trim_ok v X cs" "\<And>gs. res = Inr gs \<Longrightarrow> group_reply v gs"
  shows "trim_ok v X (cs @ [InfoT StreamMain res])"
proof -
  have "read_pending (cs @ [InfoT StreamMain res]) p \<longleftrightarrow> read_pending cs p" for p by (auto simp: read_pending_def)
  with assms show ?thesis unfolding trim_ok_def by auto
qed

lemma trim_ok_cut: "trim_ok v X cs \<Longrightarrow> trim_ok v X (cs @ [CutT key i res])"
  unfolding trim_ok_def read_pending_def by simp

lemma cut_exposed:
  assumes ok: "ids_ok v" and trim: "trim_ok v X cs" and allowed: "trim_allowed cs (CutT StreamMain i res)"
    and k: "parseStreamID i = Some k" and e: "e \<in> set (streams v StreamMain)" "delivered v (fst e) \<longrightarrow> pending_entry v (fst e)" "sid_less (fst e) k"
  shows "e \<in> X"
proof -
  from allowed obtain horizon p gs where read: "read_pending cs p" "InfoT StreamMain (Inr gs) \<in> set cs"
      and bound: "group_bound (pending_bound (minIDAt horizon) p) gs = (i, True)" by auto
  from trim read(1) obtain v1 where v1: "pending_reply v1 p"
      "\<And>e. e \<in> set (streams v StreamMain) \<Longrightarrow> pending_entry v (fst e) \<Longrightarrow> pending_entry v1 (fst e) \<or> e \<in> X"
    unfolding trim_ok_def by blast
  from trim read(2) obtain v2 where v2: "group_reply v2 gs" "\<And>i. delivered v2 i \<Longrightarrow> delivered v i" unfolding trim_ok_def by blast
  obtain x where x: "x \<in> set gs" "xg_Name x = ConsumerGroup" using bound group_bound_found [of "pending_bound (minIDAt horizon) p" gs] by auto
  with v2(1) obtain g where g: "main_group v2 = Some g" by (auto simp: group_reply_def)
  with v2(1) have ld: "sid64 (last_delivered g)" "\<forall>x \<in> set gs. xg_Name x = ConsumerGroup \<longrightarrow> xg_LastDeliveredID x = print_sid (last_delivered g)"
    by (auto simp: group_reply_def ids_ok_def)
  obtain B where B: "denotes (pending_bound (minIDAt horizon) p) B" "\<forall>i. (\<forall>b. B = Some b \<longrightarrow> sid_less i b) \<longrightarrow> \<not> pending_entry v1 i"
    using pending_bound_sound [OF v1(1) [unfolded pending_reply_def], of horizon] by (elim exE conjE) (rule that, assumption, metis)
  obtain k' where k': "i = print_sid k'" "sid64 k'"
      "\<And>j. sid_less j k' \<Longrightarrow> sid_less j (sid_next (last_delivered g)) \<and> (\<forall>b. B = Some b \<longrightarrow> sid_less j b)"
    using group_bound_sound [OF B(1) ld bound] by blast
  have "k' = k" using k k'(1,2) by simp
  with e(3) k'(3) have below: "sid_less (fst e) (sid_next (last_delivered g))" "\<forall>b. B = Some b \<longrightarrow> sid_less (fst e) b" by auto
  have "sid64 (fst e)" using ok e(1) by (auto simp: ids_ok_def)
  with below(1) ld(1) have "\<not> sid_less (last_delivered g) (fst e)" by (rule sid_less_next)
  then have "delivered v (fst e)" using g v2(2) by (simp add: delivered_def)
  with e(2) v1(2) [OF e(1)] B(2) below(2) show ?thesis by blast
qed

end
