(* ===== verification/Interleaving.thy ===== *)
theory Interleaving
  imports Evidence Retention_Log
begin

text \<open>
  The workers together, command by command. In \<open>Moves\<close> the handling of a message, a pass of the dispatcher and a round of trimming are one move each; here
  other goroutines and other workers move between any two calls of \<open>Handle\<close>, between any two Redis commands of \<open>Tick\<close> and between the three Redis
  commands of \<open>TrimMain\<close>, and a worker can be killed there. The calls of a handler are those of \<open>Handle\<close> on collaborators that give the answers it
  got; the answers are those of the wired collaborators in the shared world at that moment. The theorem is that no job is lost, for the jobs that are at rest at some
  moment, except by a trim that cuts an entry delivered between its reads. \<open>Late_Remove\<close> shows that the code can lose a job that is not at rest, and
  \<open>TrimMain_race\<close> in \<open>Trim\<close> that it can lose one by such a trim.
\<close>

declare split_paired_All [simp del] split_paired_Ex [simp del]

section \<open>Handlers\<close>

text \<open>
  The calls of a whole run of \<open>Handle\<close> with the settings of \<open>p\<close>. The collaborators' state is a number: the answers can be any function of it, and
  so any sequence of answers is that of some collaborators.
\<close>

definition handle_log :: "'w deps \<Rightarrow> message \<Rightarrow> outcome \<Rightarrow> call list \<Rightarrow> bool" where
  "handle_log p m out cs \<longleftrightarrow> (\<exists>(d :: nat deps) n n'.
     lib d = lib p \<and> MaxRetries d = MaxRetries p \<and> DryRun d = DryRun p \<and> (ReadyRedeliver d = None \<longleftrightarrow> ReadyRedeliver p = None) \<and>
     run_state (Handle (traced d) m) (n, []) = (out, (n', cs)))"

lemma handle_log_run:
  "handle_log p m out cs \<Longrightarrow> handle_run (lib p) (MaxRetries p) (DryRun p) (reemits_wired p) m out cs"
  unfolding handle_log_def reemits_wired_def by (auto dest!: Handle_logged simp: reemits_wired_def)

text \<open>One call: the collaborator that is wired gives the answer.\<close>

fun makes :: "'w deps \<Rightarrow> call \<Rightarrow> 'w \<Rightarrow> 'w \<Rightarrow> bool" where
  "makes d (LoadC dep res) w w' \<longleftrightarrow> run_state (Deploy_Load d dep) w = (res, w')"
| "makes d (ReemitC rec trace res) w w' \<longleftrightarrow> (\<exists>f. ReadyRedeliver d = Some f \<and> run_state (f rec trace) w = (res, w'))"
| "makes d (AcquireC dep err) w w' \<longleftrightarrow> (\<exists>res. run_state (Locker_Acquire d dep) w = (res, w') \<and> err = lease_error res)"
| "makes d (ReleaseC dep err) w w' \<longleftrightarrow>
     (\<exists>w0 w1 release. run_state (Locker_Acquire d dep) w0 = (Inr release, w1) \<and> run_state release w = (err, w'))"
| "makes d (TransitionC dep a b reason trace stage err) w w' \<longleftrightarrow> run_state (Deploy_Transition d dep a b reason trace stage) w = (err, w')"
| "makes d (ExportC job err) w w' \<longleftrightarrow> run_state (Exporter_Export d job) w = (err, w')"
| "makes d (ScheduleC env err) w w' \<longleftrightarrow> run_state (Retries_Schedule d env) w = (err, w')"
| "makes d (DLQC e err) w w' \<longleftrightarrow> run_state (DLQ_SendToDLQ d e) w = (err, w')"
| "makes d (EmitC ev err) w w' \<longleftrightarrow> (\<exists>f. FailedEmit d = Some f \<and> run_state (f ev) w = (err, w'))"
| "makes d (AckC ids err) w w' \<longleftrightarrow> run_state (Consumer_Ack d ids) w = (err, w')"

fun is_ack :: "call \<Rightarrow> bool" where
  "is_ack (AckC ids err) = True"
| "is_ack _ = False"

section \<open>Dispatchers\<close>

fun runs :: "'w redis \<Rightarrow> command \<Rightarrow> 'w \<Rightarrow> 'w \<Rightarrow> bool" where
  "runs r (RangeD key mx n res) w w' \<longleftrightarrow> run_state (ZRangeByScore r key mx n) w = (res, w')"
| "runs r (ReadD key fs res) w w' \<longleftrightarrow> run_state (HMGet r key fs) w = (res, w')"
| "runs r (DropD cmd err) w w' \<longleftrightarrow> run_state (Cmd_Err r cmd) w = (err, w')"
| "runs r (TxD cmds err) w w' \<longleftrightarrow> run_state (TxPipeline_Exec r cmds) w = (err, w')"
| "runs r (AddD key vals res) w w' \<longleftrightarrow> run_state (XAdd r key vals) w = (res, w')"
| "runs r (ScoresD key a b res) w w' \<longleftrightarrow> run_state (ZRangeWithScores r key a b) w = (res, w')"

section \<open>Trims\<close>

fun asks :: "'w redis \<Rightarrow> trim_command \<Rightarrow> 'w \<Rightarrow> 'w \<Rightarrow> bool" where
  "asks r (PendT key g res) w w' \<longleftrightarrow> run_state (XPending r key g) w = (res, w')"
| "asks r (InfoT key res) w w' \<longleftrightarrow> run_state (XInfoGroups r key) w = (res, w')"
| "asks r (CutT key i res) w w' \<longleftrightarrow> run_state (XTrimMinID r key i) w = (res, w')"

text \<open>The entries of the main stream that are delivered between two states, and those of a list that are cut between them.\<close>

definition handed_out :: "redis_view \<Rightarrow> redis_view \<Rightarrow> (stream_id \<times> fields) list" where
  "handed_out v v' = filter (\<lambda>e. \<not> delivered v (fst e) \<and> delivered v' (fst e)) (streams v' StreamMain)"

definition cut_from :: "(stream_id \<times> fields) list \<Rightarrow> redis_view \<Rightarrow> redis_view \<Rightarrow> (stream_id \<times> fields) list" where
  "cut_from X v v' = filter (\<lambda>e. e \<in> set (streams v StreamMain) \<and> e \<notin> set (streams v' StreamMain)) X"

text \<open>What a call of \<open>TrimMain\<close> that has read the pending entries does not know of: the entries that are handed out after it.\<close>

fun unaware :: "(stream_id \<times> fields) list \<Rightarrow> nat \<times> trim_command list \<times> (stream_id \<times> fields) list \<Rightarrow>
    nat \<times> trim_command list \<times> (stream_id \<times> fields) list" where
  "unaware new (i, cs, X) = (i, cs, if cs = [] then X else X @ new)"

section \<open>The crew\<close>

text \<open>
  Messages in hand, and handlers, passes and trims under way, each with the number of its worker. A handler is given by its message and the calls it has
  made, a pass by the commands it has sent, a call of \<open>TrimMain\<close> by the commands it has sent and the entries that were first delivered since its first
  command. \<open>cr_cut\<close> are the entries that such a call has cut although they were delivered after its first command.
\<close>

record crew =
  cr_hand :: "(nat \<times> message) list"
  cr_handlers :: "(nat \<times> message \<times> call list) list"
  cr_passes :: "(nat \<times> command list) list"
  cr_trims :: "(nat \<times> trim_command list \<times> (stream_id \<times> fields) list) list"
  cr_cut :: "(stream_id \<times> fields) list"

definition idle_crew :: crew where
  "idle_crew = \<lparr>cr_hand = [], cr_handlers = [], cr_passes = [], cr_trims = [], cr_cut = []\<rparr>"

text \<open>
  The steps: a fetch, a reclaim or a reading of the gauge, each of them one Redis command; a handler begins, makes its next call, or is done; a pass
  begins, sends its next command, or is done; a call of \<open>TrimMain\<close> begins, sends its next command, or is done; one of the other streams is trimmed, by
  one command; a worker is killed; a request arrives. The list holds the handler that has just acknowledged.
\<close>

inductive crew_step :: "'w redis \<Rightarrow> ('w \<Rightarrow> redis_view) \<Rightarrow> (nat \<Rightarrow> 'w member) \<Rightarrow> crew \<Rightarrow> 'w \<Rightarrow> (nat \<times> message \<times> call list) list \<Rightarrow> crew \<Rightarrow> 'w \<Rightarrow> bool"
  for r view M where
  takes: "run_state (routine_call (M i) root_done b role) w = ((g, ms), w') \<Longrightarrow> role \<notin> {Dispatch, Retention} \<Longrightarrow>
    crew_step r view M s w [] (s\<lparr>cr_hand := cr_hand s @ map (Pair i) (queued g),
      cr_trims := map (unaware (handed_out (view w) (view w'))) (cr_trims s)\<rparr>) w'"
| begins: "(i, m) \<in> set (cr_hand s) \<Longrightarrow>
    crew_step r view M s w [] (s\<lparr>cr_hand := remove1 (i, m) (cr_hand s), cr_handlers := cr_handlers s @ [(i, m, [])]\<rparr>) w"
| calls: "cr_handlers s = hs1 @ (i, m, cs) # hs2 \<Longrightarrow> handle_log (mb_processor (M i)) m out (cs @ y # rest) \<Longrightarrow>
    makes (mb_processor (M i)) y w w' \<Longrightarrow>
    crew_step r view M s w (if is_ack y then [(i, m, cs @ [y])] else []) (s\<lparr>cr_handlers := hs1 @ (i, m, cs @ [y]) # hs2\<rparr>) w'"
| done_handler: "cr_handlers s = hs1 @ (i, m, cs) # hs2 \<Longrightarrow> handle_log (mb_processor (M i)) m out cs \<Longrightarrow>
    crew_step r view M s w [] (s\<lparr>cr_handlers := hs1 @ hs2\<rparr>) w"
| ticks: "crew_step r view M s w [] (s\<lparr>cr_passes := cr_passes s @ [(i, [])]\<rparr>) w"
| sends: "cr_passes s = ps1 @ (i, cs) # ps2 \<Longrightarrow> pass_log (pf_env_codec (mb_platform (M i))) (cs @ y # rest) \<Longrightarrow>
    runs (mb_redis (M i) ctx_done) y w w' \<Longrightarrow>
    crew_step r view M s w [] (s\<lparr>cr_passes := ps1 @ (i, cs @ [y]) # ps2\<rparr>) w'"
| done_pass: "cr_passes s = ps1 @ (i, cs) # ps2 \<Longrightarrow> crew_step r view M s w [] (s\<lparr>cr_passes := ps1 @ ps2\<rparr>) w"
| trims: "crew_step r view M s w [] (s\<lparr>cr_trims := cr_trims s @ [(i, [], [])]\<rparr>) w"
| cuts: "cr_trims s = ts1 @ (i, cs, X) # ts2 \<Longrightarrow> trim_log (cs @ y # rest) \<Longrightarrow> asks (mb_redis (M i) ctx_done) y w w' \<Longrightarrow>
    crew_step r view M s w []
      (s\<lparr>cr_trims := ts1 @ (i, cs @ [y], X) # ts2, cr_cut := cr_cut s @ cut_from X (view w) (view w')\<rparr>) w'"
| done_trim: "cr_trims s = ts1 @ (i, cs, X) # ts2 \<Longrightarrow> crew_step r view M s w [] (s\<lparr>cr_trims := ts1 @ ts2\<rparr>) w"
| trims_other: "tgt \<in> set (trim_targets (mb_config (M i))) \<Longrightarrow> \<not> tgt_main tgt \<Longrightarrow>
    run_state (TrimStream (mb_driver (M i) ctx_done) (tgt_stream tgt) horizon) w = (res, w') \<Longrightarrow> crew_step r view M s w [] s w'"
| killed: "crew_step r view M s w [] \<lparr>cr_hand = filter (\<lambda>x. fst x \<noteq> i) (cr_hand s), cr_handlers = filter (\<lambda>x. fst x \<noteq> i) (cr_handlers s),
    cr_passes = filter (\<lambda>x. fst x \<noteq> i) (cr_passes s), cr_trims = filter (\<lambda>x. fst x \<noteq> i) (cr_trims s), cr_cut = cr_cut s\<rparr> w"
| request: "run_state (XAdd r StreamMain vals) w = (res, w') \<Longrightarrow> crew_step r view M s w [] s w'"

inductive crew_run :: "'w redis \<Rightarrow> ('w \<Rightarrow> redis_view) \<Rightarrow> (nat \<Rightarrow> 'w member) \<Rightarrow> crew \<Rightarrow> 'w \<Rightarrow> (nat \<times> message \<times> call list) list \<Rightarrow> crew \<Rightarrow> 'w \<Rightarrow> bool"
  for r view M s w where
  nothing: "crew_run r view M s w [] s w"
| further: "crew_run r view M s w hs s1 w1 \<Longrightarrow> crew_step r view M s1 w1 hs' s2 w2 \<Longrightarrow> crew_run r view M s w (hs @ hs') s2 w2"

text \<open>
  An acknowledgement that ends the job \<open>dep\<close>: the handler is one of its messages, and with the calls made so far \<open>Handle\<close> can only return
  an outcome that ends the job.
\<close>

definition ends_job :: "(nat \<Rightarrow> 'w member) \<Rightarrow> event_lib \<Rightarrow> string \<Rightarrow> nat \<times> message \<times> call list \<Rightarrow> bool" where
  "ends_job M l dep = (\<lambda>(i, m, cs). job_of l (msg_Payload m) = dep \<and>
     (\<exists>out rest. handle_log (mb_processor (M i)) m out (cs @ rest)) \<and>
     (\<forall>out rest. handle_log (mb_processor (M i)) m out (cs @ rest) \<longrightarrow> out \<in> finished))"

section \<open>Schedule, then acknowledge\<close>

definition schedule_first :: "call list \<Rightarrow> bool" where
  "schedule_first cs \<longleftrightarrow> (\<forall>pre ids r post. cs = pre @ AckC ids r # post \<longrightarrow> (\<exists>env. ScheduleC env None \<in> set pre))"

lemma schedule_first_intros:
  "schedule_first [ScheduleC env None, AckC ids r]"
  "schedule_first cs \<Longrightarrow> \<not> is_ack y \<Longrightarrow> schedule_first (y # cs)"
  "schedule_first cs \<Longrightarrow> schedule_first (cs @ [ReleaseC dep x])"
  unfolding schedule_first_def
  by (auto simp: Cons_eq_append_conv append_eq_append_conv2 append_eq_Cons_conv) blast+

lemma failure_schedule_first: "failure_run b msg ev dep rec trace ce OutcomeRetryScheduled cs \<Longrightarrow> schedule_first cs"
  by (erule failure_run.cases) (auto intro: schedule_first_intros(1))

lemma export_schedule_first: "export_run b msg ev rec trace OutcomeRetryScheduled cs \<Longrightarrow> schedule_first cs"
  by (erule export_run.cases) (auto intro: schedule_first_intros(2) failure_schedule_first)

lemma locked_schedule_first: "locked_run b dry msg ev rec trace OutcomeRetryScheduled cs \<Longrightarrow> schedule_first cs"
  by (erule locked_run.cases) (auto simp: start_call_def intro: schedule_first_intros(2) failure_schedule_first export_schedule_first)

lemma retry_schedule_first: "handle_run l b dry reemits msg OutcomeRetryScheduled cs \<Longrightarrow> schedule_first cs"
  by (erule handle_run.cases) (auto intro!: schedule_first_intros(2,3) dest!: failure_schedule_first locked_schedule_first)

text \<open>An acknowledgement with no scheduled retry before it ends the job of its message.\<close>

lemma ack_ends:
  assumes "handle_log (mb_processor (M i)) m out (cs @ AckC ids r # rest)" "\<And>env. ScheduleC env None \<notin> set cs"
  shows "ends_job M l (job_of l (msg_Payload m)) (i, m, cs @ [AckC ids r])"
proof -
  have "out' \<in> finished" if log: "handle_log (mb_processor (M i)) m out' (cs @ AckC ids r # rest')" for out' rest'
  proof -
    note run = handle_log_run [OF log]
    have "acks (cs @ AckC ids r # rest') \<noteq> []" by simp
    with acked_outcome [OF run] consider "out' \<in> finished" | "out' = OutcomeRetryScheduled" by blast
    then show ?thesis
    proof cases
      case 2
      with run have "schedule_first (cs @ AckC ids r # rest')" by (auto intro: retry_schedule_first)
      with assms(2) show ?thesis unfolding schedule_first_def by blast
    qed
  qed
  with assms(1) show ?thesis by (auto simp: ends_job_def)
qed

section \<open>The invariant of the crew\<close>

definition has_scheduled :: "call list \<Rightarrow> bool" where
  "has_scheduled cs \<longleftrightarrow> (\<exists>env. ScheduleC env None \<in> set cs)"

definition scheduled_ids :: "crew \<Rightarrow> string set" where
  "scheduled_ids s = (\<lambda>(i, m, cs). msg_ID m) ` set (filter (\<lambda>(i, m, cs). has_scheduled cs) (cr_handlers s))"

lemma has_scheduled_simps [simp]: "\<not> has_scheduled []" "has_scheduled (cs @ [y]) \<longleftrightarrow> has_scheduled cs \<or> (\<exists>env. y = ScheduleC env None)"
  by (auto simp: has_scheduled_def)

lemma scheduled_idsI: "(i, m, cs) \<in> set (cr_handlers s) \<Longrightarrow> has_scheduled cs \<Longrightarrow> msg_ID m \<in> scheduled_ids s"
  by (force simp: scheduled_ids_def)

lemma scheduled_ids_mono: "\<forall>x \<in> set (cr_handlers s'). x \<in> set (cr_handlers s) \<or> snd (snd x) = [] \<Longrightarrow> scheduled_ids s' \<subseteq> scheduled_ids s"
  unfolding scheduled_ids_def by (rule image_mono) (auto dest!: bspec)

definition crew_ok :: "event_lib \<Rightarrow> env_codec \<Rightarrow> string set \<Rightarrow> redis_view \<Rightarrow> crew \<Rightarrow> bool" where
  "crew_ok l c P v s \<longleftrightarrow> sane l c v \<and> (\<forall>x \<in> set (cr_hand s). in_stream v (snd x)) \<and>
     (\<forall>x \<in> set (cr_handlers s). in_stream v (fst (snd x))) \<and> (\<forall>x \<in> set (cr_passes s). pass_ok l c P v (snd x)) \<and>
     (\<forall>(i, cs, X) \<in> set (cr_trims s). trim_ok v (set X) cs)"

text \<open>A step that keeps what the others know, and the place of every job.\<close>

definition steady :: "event_lib \<Rightarrow> env_codec \<Rightarrow> string set \<Rightarrow> redis_view \<Rightarrow> redis_view \<Rightarrow> bool" where
  "steady l c P v v' \<longleftrightarrow> sane l c v' \<and> advances v v' \<and> readable l c P v v'"

definition claims_none :: "redis_view \<Rightarrow> redis_view \<Rightarrow> bool" where
  "claims_none v v' \<longleftrightarrow> (\<forall>i. pending_entry v' i \<longrightarrow> pending_entry v i)"

definition carries :: "event_lib \<Rightarrow> env_codec \<Rightarrow> string set \<Rightarrow> string set \<Rightarrow> redis_view \<Rightarrow> string set \<Rightarrow> string set \<Rightarrow> redis_view \<Rightarrow> bool" where
  "carries l c P S v P' S' v' \<longleftrightarrow> steady l c P' v v' \<and> claims_none v v' \<and> P \<subseteq> P' \<and> (\<forall>dep. tracked l c P S v dep \<longrightarrow> tracked l c P' S' v' dep)"

lemma steady_same: "sane l c v \<Longrightarrow> steady l c P v v"
  by (simp add: steady_def advances_refl readable_hashes)

lemma steady_kept: "sane l c v \<Longrightarrow> kept v v' \<Longrightarrow> steady l c P v v'"
  by (simp add: steady_def kept_sane(2) readable_hashes kept_def)

lemma claims_none_same: "main_group v' = main_group v \<Longrightarrow> claims_none v v'"
  by (simp add: claims_none_def pending_entry_def)

lemma carries_kept: "sane l c v \<Longrightarrow> kept v v' \<Longrightarrow> main_group v' = main_group v \<Longrightarrow> carries l c P S v P S v'"
  by (simp add: carries_def steady_kept tracked_kept claims_none_same)

lemma carries_same: "sane l c v \<Longrightarrow> S' \<subseteq> S \<Longrightarrow> carries l c P S v P S' v"
  by (auto simp: carries_def steady_same claims_none_same intro: tracked_mono)

text \<open>What the trims under way know stays true when nothing becomes pending, and when what becomes pending is added to what they do not know of.\<close>

lemma unclaimed_handed:
  assumes "queue_ok v" "queue_ok v'" "advances v v'" "\<And>i. pending_entry v' i \<Longrightarrow> pending_entry v i \<or> \<not> delivered v i"
  shows "unclaimed (set (handed_out v v')) v v'"
  unfolding unclaimed_def
proof (intro ballI impI)
  fix e
  assume e: "e \<in> set (streams v' StreamMain)" "pending_entry v' (fst e)"
  have "delivered v' (fst e)" using pending_delivered [OF assms(2) e(2)] .
  with assms(1,3) assms(4) [OF e(2)] e(1) show "pending_entry v (fst e) \<and> e \<in> set (streams v StreamMain) \<or> e \<in> set (handed_out v v')"
    by (auto simp: handed_out_def advances_def dest: pending_delivered)
qed

lemma unclaimed_none: "queue_ok v \<Longrightarrow> advances v v' \<Longrightarrow> claims_none v v' \<Longrightarrow> unclaimed X v v'"
  unfolding unclaimed_def advances_def claims_none_def using pending_delivered by blast

lemma crew_ok_steady:
  assumes "crew_ok l c P v s" "steady l c P' v v'" "claims_none v v'" "P \<subseteq> P'"
  shows "crew_ok l c P' v' s"
proof -
  have "trim_ok v' (set X) cs" if "(i, cs, X) \<in> set (cr_trims s)" for i cs X
  proof (rule trim_ok_step [OF _ order_refl unclaimed_none])
    show "trim_ok v (set X) cs" "queue_ok v" using assms(1) that by (auto simp: crew_ok_def sane_def)
  qed (use assms(2,3) in \<open>auto simp: steady_def advances_def\<close>)
  with assms show ?thesis by (auto simp: crew_ok_def steady_def intro: in_stream_advances pass_ok_mono)
qed

lemma scheduled_delivered: "crew_ok l c P v s \<Longrightarrow> x \<in> scheduled_ids s \<Longrightarrow> \<exists>j. print_sid j = x \<and> delivered v j"
  by (force simp: crew_ok_def scheduled_ids_def in_stream_def)

lemma calm_kept: "queue_ok v \<Longrightarrow> calm v v' \<Longrightarrow> kept v v' \<and> main_group v' = main_group v"
  by (auto simp: calm_def kept_def advances_def waiting_def delivered_def pending_entry_def)

lemma calms_kept: "queue_ok (view w) \<Longrightarrow> calms view m \<Longrightarrow> run_state m w = (a, w') \<Longrightarrow>
    kept (view w) (view w') \<and> main_group (view w') = main_group (view w)"
  unfolding calms_def by (rule calm_kept) (auto dest: wp_run)

section \<open>One call\<close>

context job_queue
begin

lemma append_group:
  assumes "queue_ok (view w)"
  shows "wp (XAdd r stream vals) (\<lambda>_ w'. kept (view w) (view w') \<and> main_group (view w') = main_group (view w)) w"
  by (rule wp_mono [OF wp_conj [OF append_keeps [OF assms] xadd]]) (auto simp: main_group_def)

lemma TrimStream_group:
  assumes "rdb drv = r" "queue_ok (view w)" "stream \<noteq> StreamMain"
  shows "wp (TrimStream drv stream horizon) (\<lambda>_ w'. kept (view w) (view w') \<and> main_group (view w') = main_group (view w)) w"
proof -
  have "wp (TrimStream drv stream horizon) (\<lambda>_ w'. main_group (view w') = main_group (view w)) w"
    unfolding TrimStream_def wp_bind wp_return assms(1) by (rule wp_mono [OF xtrim_effect]) (auto simp: trim_view_def main_group_def)
  from wp_conj [OF TrimStream_keeps [OF assms] this] show ?thesis .
qed

text \<open>The calls that are neither an acknowledgement nor a scheduled retry leave every job where it is.\<close>

lemma call_kept:
  assumes "queue_wired drv c view d" "rdb drv = r" "queue_ok (view w)" "makes d y w w'" "\<not> is_ack y" "\<And>env err. y \<noteq> ScheduleC env err"
  shows "kept (view w) (view w') \<and> main_group (view w') = main_group (view w)"
proof -
  note quiet = calms_kept [of view, OF assms(3)]
  have deps: "calm_deps view d" "DLQ_SendToDLQ d = SendToDLQ drv" using assms(1) by (simp_all add: queue_wired_def)
  show ?thesis
  proof (cases y)
    case (AcquireC dep err)
    then obtain res where "run_state (Locker_Acquire d dep) w = (res, w')" using assms(4) by auto
    with deps(1) have "calm (view w) (view w')" unfolding calm_deps_def by (auto dest!: spec [of _ dep] spec [of _ w] simp: wp_def)
    then show ?thesis by (rule calm_kept [OF assms(3)])
  next
    case (ReleaseC dep err)
    then obtain w0 w1 release where "run_state (Locker_Acquire d dep) w0 = (Inr release, w1)" and run: "run_state release w = (err, w')"
      using assms(4) by auto
    with deps(1) have "calms view release" unfolding calm_deps_def by (auto dest!: spec [of _ dep] spec [of _ w0] simp: wp_def)
    then show ?thesis using run by (rule quiet)
  next
    case (DLQC e err)
    then have "run_state (SendToDLQ drv e) w = (err, w')" using assms(4) deps(2) by simp
    moreover have "wp (SendToDLQ drv e) (\<lambda>_ w'. kept (view w) (view w') \<and> main_group (view w') = main_group (view w)) w"
      unfolding SendToDLQ_def wp_bind wp_return assms(2) by (rule append_group [OF assms(3)])
    ultimately show ?thesis by (simp add: wp_def)
  qed (use assms(4-6) deps(1) in \<open>auto simp: calm_deps_def elim!: calms_kept [where view = view, OF assms(3), rotated]\<close>)
qed

lemma Ack_effect:
  assumes "rdb drv = r" "run_state (Ack drv [x]) w = (err, w')"
  shows "view w' = drop_view (\<lambda>i. print_sid i \<in> {x}) (view w) \<or> view w' = view w"
proof -
  have "wp (Ack drv [x]) (\<lambda>_ w'. view w' = drop_view (\<lambda>i. print_sid i \<in> {x}) (view w) \<or> view w' = view w) w"
    unfolding Ack_def assms(1) by simp (rule wp_mono [OF xack], auto)
  with assms(2) show ?thesis by (simp add: wp_def)
qed

lemma ack_steady:
  assumes "sane l c (view w)" "view w' = drop_view gone (view w) \<or> view w' = view w"
  shows "steady l c P (view w) (view w')"
proof -
  have held: "redis_held c (view w') = redis_held c (view w)" "redis_store_ok c (view w') = redis_store_ok c (view w)"
    using redis_held_cong [of "view w'" "view w" c] assms(2) by auto
  then have "sane l c (view w')" using assms by (auto simp: sane_def store_keyed_def)
  moreover have "advances (view w) (view w')" using assms(2) by (auto simp: advances_def)
  ultimately show ?thesis using assms(2) by (auto simp: steady_def readable_def)
qed

lemma Schedule_effect:
  assumes "run_state (Schedule r c env) w = (err, w')"
  shows "(\<exists>raw. enc_Envelope c env = Inr raw \<and> view w' = fold apply_cmd
      [HSet KeyRetryPayloads (env_RetryEnvelopeID env) raw, ZAdd KeyRetryZSet (env_NextAttemptAt env) (env_RetryEnvelopeID env)] (view w)) \<or>
    err \<noteq> None \<and> view w' = view w"
proof (cases "enc_Envelope c env")
  case (Inr raw)
  let ?cmds = "[HSet KeyRetryPayloads (env_RetryEnvelopeID env) raw, ZAdd KeyRetryZSet (env_NextAttemptAt env) (env_RetryEnvelopeID env)]"
  have "wp (Schedule r c env) (\<lambda>err w'. view w' = fold apply_cmd ?cmds (view w) \<or> err \<noteq> None \<and> view w' = view w) w"
    unfolding Schedule_def Inr sum.case wp_bind wp_return by (rule tx_cases) (simp_all add: wrap_err_def)
  with assms Inr show ?thesis by (auto simp: wp_def)
qed (use assms in \<open>auto simp: Schedule_def\<close>)

lemma schedule_carries:
  assumes sane: "sane l c (view w)" and run: "run_state (Schedule r c env) w = (err, w')"
    and log: "handle_run l b dry reemits m out cs" "ScheduleC env err \<in> set cs" and m: "in_stream (view w) m" "b < 2 ^ 63"
  shows "carries l c P S (view w) P (if err = None then insert (msg_ID m) S else S) (view w')"
proof -
  let ?env = "env\<lparr>env_Payload := compact (env_Payload env)\<rparr>" and ?v = "view w" and ?v' = "view w'"
  have env: "env_Attempt env = msg_Attempt m + 1" "env_Attempt env < 2 ^ 63" "env_Payload env = msg_Payload m" "keyed l ?env"
    using scheduled_envelope [OF log] scheduled_job [OF log] m(2) by (simp_all add: keyed_def compact_job)
  consider raw where "enc_Envelope c env = Inr raw" "?v' = fold apply_cmd
      [HSet KeyRetryPayloads (env_RetryEnvelopeID env) raw, ZAdd KeyRetryZSet (env_NextAttemptAt env) (env_RetryEnvelopeID env)] ?v"
    | "err \<noteq> None" "?v' = ?v" using Schedule_effect [OF run] by blast
  then show ?thesis
  proof cases
    case 1
    note dec = codec [OF 1(1)]
    have frame: "streams ?v' = streams ?v" "main_group ?v' = main_group ?v" by (simp_all add: 1(2) main_group_def)
    have held: "redis_held c ?v' = (redis_held c ?v)(env_RetryEnvelopeID ?env \<mapsto> ?env)"
      unfolding 1(2) by (subst redis_held_schedule [OF dec]) simp
    have "redis_store_ok c ?v'"
      unfolding 1(2) by (rule redis_store_ok_schedule [OF _ dec]) (use sane in \<open>simp_all add: sane_def\<close>)
    then have "sane l c ?v'" by (rule sane_schedule [OF sane frame _ held env(4)])
    moreover have "readable l c P ?v ?v'" using dec env(4) by (simp add: readable_def told_def 1(2))
    moreover have "advances ?v ?v'" using frame by (simp add: advances_def delivered_def)
    moreover have "tracked l c P (insert (msg_ID m) S) ?v' dep" if "tracked l c P S ?v dep" for dep
      by (rule tracked_schedule [OF sane that frame held env(4) m(1)]) (use env in \<open>simp_all add: compact_job\<close>)
    ultimately show ?thesis using claims_none_same [OF frame(2)] by (auto simp: carries_def steady_def intro: tracked_mono)
  next
    case 2
    with carries_same [OF sane, of S S P] show ?thesis by auto
  qed
qed

section \<open>One command\<close>

lemma command_carries:
  assumes sane: "sane l c (view w)" and pass: "pass_ok l c P (view w) cs" "allowed c cs y" and run: "runs r y w w'"
    and S: "\<And>x. x \<in> S \<Longrightarrow> \<exists>j. print_sid j = x \<and> delivered (view w) j"
  shows "\<exists>P'. carries l c P S (view w) P' S (view w') \<and> pass_ok l c P' (view w') (cs @ [y])"
proof -
  let ?v = "view w" and ?v' = "view w'"
  have ok: "queue_ok ?v" using sane by (simp add: sane_def)
  have told: "told l c P i raw" if "read_of cs i raw" for i raw using pass(1) that by (simp add: pass_ok_def)
  have read: "keyed l env" if e: "read_env c cs env" for env
  proof -
    obtain i str where "read_of cs i (Some str)" "dec_Envelope c str = Some env" using e unfolding read_env_def by blast
    with told show ?thesis by (fastforce simp: told_def)
  qed
  have still: ?thesis if "?v' = ?v" "pass_ok l c P ?v (cs @ [y])"
    using that carries_same [OF sane] by (intro exI [of _ P]) simp
  have removed: "carries l c P S ?v P S ?v'"
    if "i \<in> P" "streams ?v' = streams ?v" "main_group ?v' = main_group ?v" "redis_store_ok c ?v'" "redis_held c ?v' = (redis_held c ?v)(i := None)"
      "readable l c P ?v ?v'" for i
  proof -
    have "queue_ok ?v'" using ok that(2,3) group_ok_cong [OF that(3)] by (simp add: queue_ok_def ids_ok_def)
    moreover have "store_keyed l c ?v'" using sane that(5) by (auto simp: sane_def store_keyed_def split: if_splits)
    ultimately have "sane l c ?v'" using that(4) by (simp add: sane_def)
    moreover have "advances ?v ?v'" using that(2,3) by (simp add: advances_def delivered_def)
    ultimately show ?thesis using tracked_remove [OF _ that(1-3,5)] that(6) claims_none_same [OF that(3)] by (simp add: carries_def steady_def)
  qed
  show ?thesis
  proof (cases y)
    case (RangeD key mx n res)
    then have a: "key = KeyRetryZSet" "0 < n" using pass(2) by simp_all
    have "run_state (ZRangeByScore r KeyRetryZSet mx n) w = (res, w')" using run RangeD a by simp
    note eff = wp_run [OF zrange [OF a(2)] this]
    have "told l c P i (hashes ?v KeyRetryPayloads i)" if "res = Inr ids" "i \<in> set ids" for ids i
      using eff that listed_told [OF sane] by auto
    with pass(1) RangeD eff show ?thesis by (intro still) (auto simp: pass_ok_snoc)
  next
    case (ReadD key ids res)
    then obtain mx n where a: "key = KeyRetryPayloads" "RangeD KeyRetryZSet mx n (Inr ids) \<in> set cs" using pass(2) by auto
    have "run_state (HMGet r KeyRetryPayloads ids) w = (res, w')" using run ReadD a by simp
    from wp_run [OF hmget this] have eff: "?v' = ?v" "\<And>raws. res = Inr raws \<Longrightarrow> raws = map (hashes ?v KeyRetryPayloads) ids" by blast+
    have "told l c P i (hashes ?v KeyRetryPayloads i)" if "i \<in> set ids" for i using pass(1) a(2) that unfolding pass_ok_def by blast
    with eff pass(1) ReadD show ?thesis by (intro still) (auto simp: pass_ok_snoc set_zip)
  next
    case (DropD cmd err)
    have "run_state (Cmd_Err r cmd) w = (err, w')" using run DropD by simp
    from wp_run [OF local.cmd this] have eff: "?v' = apply_cmd cmd ?v \<or> ?v' = ?v" by blast
    have readable: "dec_Envelope c str \<noteq> None" if "read_of cs i (Some str)" for i str using told [OF that] by (auto simp: told_def)
    moreover have "allowed c cs (DropD cmd err)" using pass(2) DropD by simp
    ultimately obtain i where i: "cmd = ZRem KeyRetryZSet i" "read_of cs i None" unfolding allowed.simps by blast
    then have P: "i \<in> P" using told [OF i(2)] by (simp add: told_def)
    have same: "pass_ok l c P ?v (cs @ [y])" using pass(1) DropD by (simp add: pass_ok_snoc)
    show ?thesis
    proof (cases "?v' = ?v")
      case True
      then show ?thesis by (rule still [OF _ same])
    next
      case False
      with eff i(1) have v': "?v' = apply_cmd (ZRem KeyRetryZSet i) ?v" by simp
      have held: "redis_held c ?v' = (redis_held c ?v)(i := None)"
        by (auto simp: redis_held_def v' fun_eq_iff split: option.splits)
      moreover have "redis_store_ok c ?v'" using sane unfolding sane_def redis_store_ok_def held by (auto simp: v')
      ultimately have "carries l c P S ?v P S ?v'"
        by (intro removed [OF P]) (simp_all add: v' main_group_def readable_def)
      moreover have "pass_ok l c P ?v' (cs @ [y])" by (rule pass_ok_mono [OF same order_refl]) (simp add: readable_def v')
      ultimately show ?thesis by blast
    qed
  next
    case (TxD cmds err)
    then obtain env x where env: "cmds = [ZRem KeyRetryZSet (env_RetryEnvelopeID env), HDel KeyRetryPayloads (env_RetryEnvelopeID env)]"
        "read_env c cs env" "AddD StreamMain (publish_values (envelope_message env)) (Inr x) \<in> set cs" using pass(2) by auto
    let ?i = "env_RetryEnvelopeID env"
    have P: "?i \<in> P" using pass(1) env(3) read [OF env(2)] unfolding pass_ok_def by blast
    have "run_state (TxPipeline_Exec r cmds) w = (err, w')" using run TxD by simp
    from wp_run [OF tx this] have eff: "?v' = fold apply_cmd cmds ?v \<or> ?v' = ?v" by blast
    have same: "pass_ok l c P ?v (cs @ [y])" using pass(1) TxD by (simp add: pass_ok_snoc)
    show ?thesis
    proof (cases "?v' = ?v")
      case True
      then show ?thesis by (rule still [OF _ same])
    next
      case False
      with eff env(1) have v': "?v' = fold apply_cmd [ZRem KeyRetryZSet ?i, HDel KeyRetryPayloads ?i] ?v" by simp
      have read: "readable l c P ?v ?v'" using P by (simp add: readable_def v' told_def)
      have "carries l c P S ?v P S ?v'"
      proof (rule removed [OF P])
        show "redis_held c ?v' = (redis_held c ?v)(?i := None)" unfolding v' by (rule redis_held_remove)
        show "redis_store_ok c ?v'" unfolding v' by (rule redis_store_ok_remove) (use sane in \<open>simp add: sane_def\<close>)
      qed (use read in \<open>simp_all add: v' main_group_def\<close>)
      moreover have "pass_ok l c P ?v' (cs @ [y])" by (rule pass_ok_mono [OF same order_refl read])
      ultimately show ?thesis by blast
    qed
  next
    case (AddD key vals res)
    then obtain env where env: "key = StreamMain" "vals = publish_values (envelope_message env)" "read_env c cs env" using pass(2) by auto
    let ?P = "insert (env_RetryEnvelopeID env) P"
    note k = read [OF env(3)]
    have "run_state (XAdd r StreamMain vals) w = (res, w')" using run AddD env(1) by simp
    note wp_run [OF append_effect [OF ok] this] wp_run [OF append_keeps [OF ok] this]
    then have kept: "kept ?v ?v'" and cases: "(\<exists>i. ?v' = ?v\<lparr>streams := (streams ?v)(StreamMain := streams ?v StreamMain @ [(i, vals)])\<rparr> \<and>
        \<not> delivered ?v i) \<or> (\<exists>e. res = Inl e) \<and> ?v' = ?v" by blast+
    from cases show ?thesis
    proof (elim disjE exE conjE)
      fix i
      assume i: "?v' = ?v\<lparr>streams := (streams ?v)(StreamMain := streams ?v StreamMain @ [(i, vals)])\<rparr>" "\<not> delivered ?v i"
      then have "print_sid i \<notin> S" using S by force
      with tracked_publish [OF sane _ k i(1) [unfolded env(2)] i(2)] have "carries l c P S ?v ?P S ?v'"
        using steady_kept [OF sane kept] claims_none_same [of ?v' ?v] by (auto simp: carries_def i(1) main_group_def)
      moreover have "pass_ok l c ?P ?v' cs"
        by (rule pass_ok_mono [OF pass(1)]) (auto simp: i(1) intro: readable_hashes)
      then have "pass_ok l c ?P ?v' (cs @ [y])"
        using published_key [OF _ _ k] env(2) AddD by (auto simp: pass_ok_snoc)
      ultimately show ?thesis by blast
    next
      fix e
      assume "res = Inl e" "?v' = ?v"
      then show ?thesis using pass(1) AddD by (intro still) (simp_all add: pass_ok_snoc)
    qed
  next
    case (ScoresD key a b res)
    then have "run_state (ZRangeWithScores r key a b) w = (res, w')" using run by simp
    from wp_run [OF zrange_scores this] pass(1) ScoresD show ?thesis by (intro still) (simp_all add: pass_ok_snoc)
  qed
qed

text \<open>A command of a trim: the reads change nothing; the cut takes no entry that waits, except one that was delivered since the first read.\<close>

lemma trimmed_steady: "sane l c v \<Longrightarrow> trimmed_to v v' \<Longrightarrow> steady l c P v v'"
  using redis_held_cong [of v' v c] by (auto simp: steady_def sane_def store_keyed_def trimmed_to_def advances_def delivered_def readable_def)

lemma trimmed_tracked:
  assumes "trimmed_to v v'" "tracked l c P S v dep"
  shows "tracked l c P S v' dep \<or>
    (\<exists>e. waiting v e \<and> e \<notin> set (streams v' StreamMain) \<and> job_of l (msg_Payload (entry_msg e)) = dep)"
proof -
  have held: "redis_held c v' = redis_held c v" using redis_held_cong [of v' v c] assms(1) by (simp add: trimmed_to_def)
  have "waiting v' e" if "waiting v e" "e \<in> set (streams v' StreamMain)" for e
    using that assms(1) by (simp add: waiting_def trimmed_to_def delivered_def pending_entry_def)
  with assms(2) show ?thesis unfolding tracked_def evidence_def held by blast
qed

lemma trim_carries:
  assumes sane: "sane l c (view w)" and trim: "trim_ok (view w) (set X) cs" "trim_allowed cs y" and run: "asks r y w w'"
  shows "steady l c P (view w) (view w') \<and> claims_none (view w) (view w') \<and> trim_ok (view w') (set X) (cs @ [y]) \<and>
    (\<forall>dep. tracked l c P S (view w) dep \<longrightarrow> tracked l c P S (view w') dep \<or>
      (\<exists>e \<in> set (cut_from X (view w) (view w')). job_of l (msg_Payload (entry_msg e)) = dep))"
proof -
  let ?v = "view w" and ?v' = "view w'"
  have ok: "queue_ok ?v" "ids_ok ?v" using sane by (simp_all add: sane_def queue_ok_def)
  have still: ?thesis if "?v' = ?v" "trim_ok ?v (set X) (cs @ [y])"
    using that steady_same [OF sane] by (simp add: claims_none_def)
  show ?thesis
  proof (cases y)
    case (PendT key g res)
    with trim(2) run have "run_state (XPending r StreamMain ConsumerGroup) w = (res, w')" by simp
    note eff = wp_run [OF xpending_reply [OF ok(2)] this]
    have "pending_reply ?v p" if "read_pending [PendT StreamMain ConsumerGroup res] p" for p
      using that eff by (auto simp: read_pending_def pending_reply_def split: sum.splits)
    with eff trim PendT show ?thesis by (intro still) (auto intro: trim_ok_pend)
  next
    case (InfoT key res)
    with trim(2) run have "run_state (XInfoGroups r StreamMain) w = (res, w')" by simp
    note eff = wp_run [OF xinfo_reply this]
    have "group_reply ?v gs" if "res = Inr gs" for gs using that eff ok(2) by (auto simp: group_reply_def)
    with eff trim InfoT show ?thesis by (intro still) (auto intro: trim_ok_info)
  next
    case (CutT key i res)
    with trim(2) run have key: "key = StreamMain" and "run_state (XTrimMinID r StreamMain i) w = (res, w')" by simp_all
    from wp_run [OF xtrim_effect this(2)] consider "?v' = ?v" | k where "parseStreamID i = Some k" "?v' = trim_view StreamMain k ?v" by blast
    then show ?thesis
    proof cases
      case 1
      then show ?thesis by (rule still) (use trim(1) CutT trim_ok_cut in simp)
    next
      case (2 k)
      have "trimmed_to ?v ?v" using ok(1) by (simp add: trimmed_to_def)
      then have to: "trimmed_to ?v ?v'" unfolding 2(2) by (rule trimmed_to_trim)
      then have none: "claims_none ?v ?v'" by (intro claims_none_same) (simp add: trimmed_to_def)
      have st: "steady l c P ?v ?v'" by (rule trimmed_steady [OF sane to])
      have "trim_ok ?v' (set X) (cs @ [y])"
        unfolding CutT by (rule trim_ok_cut, rule trim_ok_step [OF trim(1) order_refl unclaimed_none [OF ok(1) _ none]])
          (use st in \<open>auto simp: steady_def advances_def\<close>)
      moreover have "e \<in> set (cut_from X ?v ?v')" if "waiting ?v e" "e \<notin> set (streams ?v' StreamMain)" for e
      proof -
        have "e \<in> set (streams ?v StreamMain)" "delivered ?v (fst e) \<longrightarrow> pending_entry ?v (fst e)" using that(1) by (auto simp: waiting_def)
        moreover from this that(2) have "sid_less (fst e) k" by (simp add: 2(2) trim_view_def)
        ultimately have "e \<in> set X" using cut_exposed [OF ok(2) trim(1) _ 2(1)] trim(2) CutT key by blast
        with that(2) \<open>e \<in> set (streams ?v StreamMain)\<close> show ?thesis by (simp add: cut_from_def)
      qed
      ultimately show ?thesis using st none trimmed_tracked [OF to] by blast
    qed
  qed
qed

text \<open>What a fetch makes pending had not been delivered; a reclaim and the gauge make nothing pending.\<close>

lemma routine_call_claims:
  assumes "mb_redis m b = r" "quiet_platform view (mb_platform m)" "queue_ok (view w)" "role \<notin> {Dispatch, Retention}"
  shows "wp (routine_call m root_done b role) (\<lambda>res w'. \<forall>i. pending_entry (view w') i \<longrightarrow> pending_entry (view w) i \<or> \<not> delivered (view w) i) w"
proof -
  have drv: "rdb (mb_driver m b) = r" using assms(1) by (simp add: mb_driver_def)
  show ?thesis
  proof (cases role)
    case Recover
    show ?thesis
      unfolding Recover routine_call.simps Reclaim_def drv wp_bind wp_return Let_def by (rule wp_mono [OF xclaim]) auto
  next
    case Gauge
    have ids: "ids_ok (view w)" using assms(3) by (simp add: queue_ok_def)
    have "silent view (pf_QueuePending (mb_platform m) n)" for n using assms(2) by (simp add: quiet_platform_def)
    then have gauge: "wp (pf_QueuePending (mb_platform m) n) (\<lambda>_ w'. pending_entry (view w') = pending_entry (view w)) w1" if "view w1 = view w" for n w1
      by (intro wp_mono [OF silentD]) (use that in auto)
    have "wp (pending_round (mb_platform m) (mb_driver m b)) (\<lambda>_ w'. pending_entry (view w') = pending_entry (view w)) w"
      unfolding pending_round_def PendingCount_def drv wp_bind wp_return
      by (rule wp_mono [OF xpending_reply [OF ids]]) (use gauge in \<open>auto split: sum.split\<close>)
    then show ?thesis unfolding Gauge routine_call.simps wp_bind by (rule wp_mono) simp
  next
    case Consume
    have "\<not> delivered (view w) i" if "prefix es (undelivered (view w))" "es \<noteq> []" "pending_entry (deliver_view es (view w)) i" "\<not> pending_entry (view w) i" for es i
    proof -
      have "i \<in> fst ` set es" using that(3,4) by (cases "main_group (view w)") (auto simp: pending_entry_def deliver_view_def)
      moreover have "set es \<subseteq> set (undelivered (view w))" using that(1) by (auto simp: prefix_def)
      ultimately show ?thesis by (auto simp: undelivered_def)
    qed
    then show ?thesis
      unfolding Consume routine_call.simps Fetch_def drv wp_bind wp_return
      by (intro wp_mono [OF xread [OF assms(3)]]) (auto split: if_splits)
  qed (use assms(4) in simp_all)
qed

end

section \<open>One step of the crew\<close>

text \<open>What a step keeps, with the jobs that end in it.\<close>

definition crew_keeps :: "(nat \<Rightarrow> 'w member) \<Rightarrow> event_lib \<Rightarrow> env_codec \<Rightarrow> string set \<Rightarrow> redis_view \<Rightarrow> crew \<Rightarrow>
    (nat \<times> message \<times> call list) list \<Rightarrow> string set \<Rightarrow> redis_view \<Rightarrow> crew \<Rightarrow> bool" where
  "crew_keeps M l c P v s hs P' v' s' \<longleftrightarrow> crew_ok l c P' v' s' \<and> (\<exists>zs. cr_cut s' = cr_cut s @ zs \<and>
     (\<forall>dep. tracked l c P (scheduled_ids s) v dep \<longrightarrow> tracked l c P' (scheduled_ids s') v' dep \<or>
        (\<exists>h \<in> set hs. ends_job M l dep h) \<or> (\<exists>e \<in> set zs. job_of l (msg_Payload (entry_msg e)) = dep)))"

lemma carries_crew:
  assumes "crew_ok l c P v s" "carries l c P (scheduled_ids s) v P' S v'" "scheduled_ids s' \<subseteq> S" "cr_cut s' = cr_cut s"
    and "crew_ok l c P' v' s \<Longrightarrow> crew_ok l c P' v' s'"
  shows "crew_keeps M l c P v s hs P' v' s'"
proof -
  have "crew_ok l c P' v' s'" using assms(2,5) crew_ok_steady [OF assms(1)] by (simp add: carries_def)
  with assms(2,4) tracked_mono [OF _ assms(3)] show ?thesis
    unfolding crew_keeps_def carries_def by (intro conjI exI [of _ "[]"]) auto
qed

text \<open>The budget of a wired worker is the default of \<open>worker.New\<close>, so that no attempt leaves the range of an integer.\<close>

lemma mb_budget: "MaxRetries (mb_processor m) < 2 ^ 63"
  by (simp add: mb_processor_def run_processor_def New_def Let_def)

lemma call_keeps:
  assumes "member_ok view c cmp l (M i)" and ok: "crew_ok l c P (view w) s"
    and s: "cr_handlers s = hs1 @ (i, m, cs) # hs2" and s': "s' = s\<lparr>cr_handlers := hs1 @ (i, m, cs @ [y]) # hs2\<rparr>"
    and log: "handle_log (mb_processor (M i)) m out (cs @ y # rest)" and makes: "makes (mb_processor (M i)) y w w'"
  shows "crew_keeps M l c P (view w) s (if is_ack y then [(i, m, cs @ [y])] else []) P (view w') s'"
proof -
  let ?r = "mb_redis (M i) False" and ?drv = "mb_driver (M i) False" and ?p = "mb_processor (M i)" and ?S = "scheduled_ids s"
  have jq: "job_queue ?r view c cmp l" and drv: "rdb ?drv = ?r" using assms(1) by (simp_all add: member_ok_def mb_driver_def)
  have wired: "queue_wired ?drv c view ?p" "lib ?p = l"
    using job_queue.processor_wired [OF jq refl] assms(1) by (simp_all add: member_ok_def)
  have queue: "Consumer_Ack ?p = Ack ?drv" "Retries_Schedule ?p = Schedule ?r c" using wired(1) drv by (simp_all add: queue_wired_def)
  have sane: "sane l c (view w)" and m: "in_stream (view w) m" using ok s by (auto simp: crew_ok_def)
  note run = handle_log_run [OF log, unfolded wired(2)]
  have same: "crew_ok l c P v s' = crew_ok l c P v s" for v using s s' by (auto simp: crew_ok_def)
  have cut: "cr_cut s' = cr_cut s" by (simp add: s')
  have ids: "scheduled_ids s' = ?S \<union> (if \<exists>env. y = ScheduleC env None then {msg_ID m} else {})"
    by (auto simp: scheduled_ids_def s s')
  consider x err where "y = AckC x err" | env err where "y = ScheduleC env err" | "\<not> is_ack y" "\<And>env err. y \<noteq> ScheduleC env err"
    by (cases y) auto
  then show ?thesis
  proof cases
    case (1 x err)
    have "x = [msg_ID m]" by (rule acked_ids [OF run]) (simp add: 1)
    then have eff: "view w' = drop_view (\<lambda>i. print_sid i \<in> {msg_ID m}) (view w) \<or> view w' = view w"
      using job_queue.Ack_effect [OF jq drv] makes 1 queue(1) by simp
    have "ends_job M l dep (i, m, cs @ [y])"
      if "msg_ID m \<notin> ?S" "e \<in> set (streams (view w) StreamMain)" "print_sid (fst e) = msg_ID m" "job_of l (msg_Payload (entry_msg e)) = dep" for e dep
    proof -
      have "entry_msg e = m" using in_stream_from [OF m] that(2,3) by (simp add: from_stream_def)
      moreover have "ScheduleC env None \<notin> set cs" for env
        using that(1) s scheduled_idsI [of i m cs s] by (auto simp: has_scheduled_def)
      ultimately show ?thesis using ack_ends [of M i m out cs x err rest l] log that(4) 1 by auto
    qed
    then have "tracked l c P ?S (view w') dep \<or> ends_job M l dep (i, m, cs @ [y])" if "tracked l c P ?S (view w) dep" for dep
      using eff that tracked_ack [OF that, of "msg_ID m"] by auto
    moreover have "crew_ok l c P (view w') s"
      by (rule crew_ok_steady [OF ok job_queue.ack_steady [OF jq sane eff]]) (use eff in \<open>auto simp: claims_none_def\<close>)
    moreover have "scheduled_ids s' = ?S" using 1 ids by simp
    ultimately show ?thesis unfolding crew_keeps_def same using 1 cut by (intro conjI exI [of _ "[]"]) simp_all
  next
    case (2 env err)
    from makes have "run_state (Schedule ?r c env) w = (err, w')" by (simp add: 2 queue(2))
    from job_queue.schedule_carries [OF jq sane this run _ m mb_budget, of P ?S] 2
    have "carries l c P ?S (view w) P (scheduled_ids s') (view w')" by (cases err) (simp_all add: ids)
    then show ?thesis by (rule carries_crew [OF ok]) (simp_all add: same cut)
  next
    case 3
    have "queue_ok (view w)" using sane by (simp add: sane_def)
    from job_queue.call_kept [OF jq wired(1) drv this makes 3] have "carries l c P ?S (view w) P ?S (view w')"
      using carries_kept [OF sane] by blast
    moreover have "scheduled_ids s' = ?S" using 3(2) by (simp add: ids)
    ultimately show ?thesis by (intro carries_crew [OF ok _ eq_refl]) (simp_all add: same cut)
  qed
qed

text \<open>A fetch: what it hands out is added to what the trims under way do not know of.\<close>

lemma takes_keeps:
  assumes "member_ok view c cmp l m" and ok: "crew_ok l c P (view w) s"
    and run: "run_state (routine_call m root_done b role) w = ((g, ms), w')" "role \<notin> {Dispatch, Retention}"
    and s': "s' = s\<lparr>cr_hand := cr_hand s @ map (Pair i) (queued g), cr_trims := map (unaware (handed_out (view w) (view w'))) (cr_trims s)\<rparr>"
  shows "crew_keeps M l c P (view w) s hs P (view w') s'"
proof -
  let ?v = "view w" and ?v' = "view w'"
  have sane: "sane l c ?v" and q: "queue_ok ?v" using ok by (simp_all add: crew_ok_def sane_def)
  have jq: "job_queue (mb_redis m b) view c cmp l" and pf: "quiet_platform view (mb_platform m)" using assms(1) by (simp_all add: member_ok_def)
  have k: "kept ?v ?v'" "\<forall>x \<in> set (queued g). in_stream ?v' x"
    using wp_run [OF job_queue.routine_call_keeps [OF jq refl pf q] run(1)] run(2) by simp_all
  have "unclaimed (set (handed_out ?v ?v')) ?v ?v'"
    using wp_run [OF job_queue.routine_call_claims [OF jq refl pf q run(2)] run(1)] k(1) by (intro unclaimed_handed [OF q]) (auto simp: kept_def)
  then have new: "trim_ok ?v' (set X \<union> set (handed_out ?v ?v')) cs" if "trim_ok ?v (set X) cs" for X cs
    by (intro trim_ok_step [OF that Un_upper1]) (use k(1) in \<open>auto simp: unclaimed_def kept_def advances_def\<close>)
  have "trim_ok ?v' (set X) cs" if trim: "(j, cs, X) \<in> set (cr_trims s')" for j cs X
  proof -
    obtain Y where Y: "(j, cs, Y) \<in> set (cr_trims s)" "X = (if cs = [] then Y else Y @ handed_out ?v ?v')" using trim by (auto simp: s')
    have "trim_ok ?v (set Y) cs" using ok Y(1) by (auto simp: crew_ok_def)
    with new Y(2) trim_ok_Nil show ?thesis by (cases "cs = []") simp_all
  qed
  moreover have "sane l c ?v'" by (rule kept_sane(2) [OF sane k(1)])
  moreover have "advances ?v ?v'" "readable l c P ?v ?v'" using k(1) by (simp_all add: kept_def readable_hashes)
  moreover have "cr_hand s' = cr_hand s @ map (Pair i) (queued g)" "cr_handlers s' = cr_handlers s" "cr_passes s' = cr_passes s"
    by (simp_all add: s')
  ultimately have "crew_ok l c P ?v' s'" using ok k(2) by (auto simp: crew_ok_def intro: in_stream_advances pass_ok_mono)
  moreover have "scheduled_ids s' = scheduled_ids s" by (simp add: s' scheduled_ids_def)
  ultimately show ?thesis
    using tracked_kept [OF sane k(1)] by (auto simp: crew_keeps_def s' intro!: exI [of _ "[]"])
qed

lemma cuts_keeps:
  assumes "member_ok view c cmp l m" and ok: "crew_ok l c P (view w) s"
    and s: "cr_trims s = ts1 @ (i, cs, X) # ts2" and log: "trim_log (cs @ y # rest)" and run: "asks (mb_redis m b) y w w'"
    and s': "s' = s\<lparr>cr_trims := ts1 @ (i, cs @ [y], X) # ts2, cr_cut := cr_cut s @ cut_from X (view w) (view w')\<rparr>"
  shows "crew_keeps M l c P (view w) s hs P (view w') s'"
proof -
  have jq: "job_queue (mb_redis m b) view c cmp l" using assms(1) by (simp add: member_ok_def)
  have "sane l c (view w)" "trim_ok (view w) (set X) cs" using ok s by (simp_all add: crew_ok_def)
  note eff = job_queue.trim_carries [OF jq this trim_next [OF log] run]
  have "crew_ok l c P (view w') s" using crew_ok_steady [OF ok _ _ order_refl] eff by blast
  then have "crew_ok l c P (view w') s'" using eff s by (auto simp: crew_ok_def s')
  moreover have "scheduled_ids s' = scheduled_ids s" by (simp add: s' scheduled_ids_def)
  ultimately show ?thesis
    unfolding crew_keeps_def using eff by (intro conjI exI [of _ "cut_from X (view w) (view w')"]) (simp_all add: s', blast)
qed

lemma other_target: "tgt \<in> set (trim_targets cfg) \<Longrightarrow> \<not> tgt_main tgt \<Longrightarrow> tgt_stream tgt \<noteq> StreamMain"
  by (auto simp: trim_targets_def StreamMain_def StreamDLQ_def StreamArtifactReady_def StreamExportFailed_def)

lemma crew_step_keeps:
  assumes "job_queue r view c cmp l" "\<And>i. member_ok view c cmp l (M i)"
    and "crew_step r view M s w hs s' w'" "crew_ok l c P (view w) s"
  shows "\<exists>P'. crew_keeps M l c P (view w) s hs P' (view w') s'"
proof -
  have sane: "sane l c (view w)" and ok: "queue_ok (view w)" using assms(4) by (simp_all add: crew_ok_def sane_def)
  have jq: "job_queue (mb_redis (M i) b) view c cmp l" for i b using assms(2) [of i] by (simp add: member_ok_def)
  have idle: ?thesis if "w' = w" "scheduled_ids s' \<subseteq> scheduled_ids s" "cr_cut s' = cr_cut s" "crew_ok l c P (view w) s'"
    using carries_crew [OF assms(4) carries_same [OF sane that(2)], of s'] that by auto
  have outside: ?thesis if "kept (view w) (view w')" "main_group (view w') = main_group (view w)" "s' = s"
    using carries_crew [OF assms(4) carries_kept [OF sane that(1,2)], of s'] that(3) by auto
  show ?thesis
    using assms(3)
  proof cases
    case (takes i root_done b role g ms)
    from takes_keeps [OF assms(2,4) takes(3,4,2)] show ?thesis by blast
  next
    case (begins i m)
    show ?thesis by (rule idle [OF _ scheduled_ids_mono]) (use begins assms(4) notin_set_remove1 in \<open>auto simp: crew_ok_def\<close>)
  next
    case (calls hs1 i m cs hs2 out y rest)
    from call_keeps [where M = M and i = i and view = view, OF assms(2,4) calls(3) calls(2) calls(4,5)] calls(1) show ?thesis by auto
  next
    case (done_handler hs1 i m cs hs2 out)
    show ?thesis by (rule idle [OF _ scheduled_ids_mono]) (use done_handler assms(4) in \<open>auto simp: crew_ok_def\<close>)
  next
    case (ticks i)
    show ?thesis by (rule idle [OF _ scheduled_ids_mono]) (use ticks assms(4) pass_ok_Nil in \<open>auto simp: crew_ok_def\<close>)
  next
    case (sends ps1 i cs ps2 y rest ctx_done)
    have pass: "pass_ok l c P (view w) cs" "allowed c cs y"
      using assms(4) sends(3,4) pass_next assms(2) [of i] by (auto simp: crew_ok_def member_ok_def)
    from job_queue.command_carries [OF jq sane pass sends(5), of "scheduled_ids s"] scheduled_delivered [OF assms(4)]
    obtain P' where P': "carries l c P (scheduled_ids s) (view w) P' (scheduled_ids s) (view w')" "pass_ok l c P' (view w') (cs @ [y])"
      by blast
    have "crew_keeps M l c P (view w) s hs P' (view w') s'"
      by (rule carries_crew [OF assms(4) P'(1) scheduled_ids_mono]) (use P'(2) sends(2,3) in \<open>auto simp: crew_ok_def\<close>)
    then show ?thesis ..
  next
    case (done_pass ps1 i cs ps2)
    show ?thesis by (rule idle [OF _ scheduled_ids_mono]) (use done_pass assms(4) in \<open>auto simp: crew_ok_def\<close>)
  next
    case (trims i)
    show ?thesis by (rule idle [OF _ scheduled_ids_mono]) (use trims assms(4) trim_ok_Nil in \<open>auto simp: crew_ok_def\<close>)
  next
    case (cuts ts1 i cs X ts2 y rest ctx_done)
    from cuts_keeps [OF assms(2,4) cuts(3-5,2)] show ?thesis by blast
  next
    case (done_trim ts1 i cs X ts2)
    show ?thesis by (rule idle [OF _ scheduled_ids_mono]) (use done_trim assms(4) in \<open>auto simp: crew_ok_def\<close>)
  next
    case (trims_other tgt i ctx_done horizon res)
    have "rdb (mb_driver (M i) ctx_done) = mb_redis (M i) ctx_done" by (simp add: mb_driver_def)
    from wp_run [OF job_queue.TrimStream_group [OF jq this ok other_target [OF trims_other(3,4)]] trims_other(5)] trims_other(2)
    show ?thesis by (intro outside) simp_all
  next
    case (killed i)
    show ?thesis by (rule idle [OF _ scheduled_ids_mono]) (use killed assms(4) in \<open>auto simp: crew_ok_def\<close>)
  next
    case (request vals res)
    with wp_run [OF job_queue.append_group [OF assms(1) ok] request(3)] show ?thesis by (intro outside) simp_all
  qed
qed

lemma crew_keeps_trans:
  assumes "crew_keeps M l c P v s hs P1 v1 s1" "crew_keeps M l c P1 v1 s1 hs' P2 v2 s2"
  shows "crew_keeps M l c P v s (hs @ hs') P2 v2 s2"
proof -
  from assms(1) obtain zs where zs: "cr_cut s1 = cr_cut s @ zs"
    "\<forall>dep. tracked l c P (scheduled_ids s) v dep \<longrightarrow> tracked l c P1 (scheduled_ids s1) v1 dep \<or>
        (\<exists>h \<in> set hs. ends_job M l dep h) \<or> (\<exists>e \<in> set zs. job_of l (msg_Payload (entry_msg e)) = dep)" unfolding crew_keeps_def by blast
  from assms(2) obtain zs' where zs': "cr_cut s2 = cr_cut s1 @ zs'"
    "\<forall>dep. tracked l c P1 (scheduled_ids s1) v1 dep \<longrightarrow> tracked l c P2 (scheduled_ids s2) v2 dep \<or>
        (\<exists>h \<in> set hs'. ends_job M l dep h) \<or> (\<exists>e \<in> set zs'. job_of l (msg_Payload (entry_msg e)) = dep)" unfolding crew_keeps_def by blast
  have "crew_ok l c P2 v2 s2" using assms(2) by (simp add: crew_keeps_def)
  with zs zs' show ?thesis unfolding crew_keeps_def set_append by (intro conjI exI [of _ "zs @ zs'"]) (simp_all only: append_assoc set_append, blast)
qed

lemma crew_run_keeps:
  assumes "job_queue r view c cmp l" "\<And>i. member_ok view c cmp l (M i)"
    and "crew_run r view M s w hs s' w'" "crew_ok l c P (view w) s"
  shows "\<exists>P'. crew_keeps M l c P (view w) s hs P' (view w') s'"
  using assms(3)
proof induction
  case nothing
  show ?case using assms(4) by (auto simp: crew_keeps_def)
next
  case (further hs s1 w1 hs' s2 w2)
  then obtain P1 where P1: "crew_keeps M l c P (view w) s hs P1 (view w1) s1" by blast
  then have "crew_ok l c P1 (view w1) s1" by (simp add: crew_keeps_def)
  from crew_step_keeps [OF assms(1,2) further(2) this] crew_keeps_trans [OF P1] show ?case by blast
qed

section \<open>Properties\<close>

text \<open>
  A job at rest: no pass of a dispatcher is under way, and an entry for it waits that no handler under way has scheduled a retry for, or the retry
  store holds it.
\<close>

definition at_rest :: "event_lib \<Rightarrow> env_codec \<Rightarrow> crew \<Rightarrow> redis_view \<Rightarrow> string \<Rightarrow> bool" where
  "at_rest l c s v dep \<longleftrightarrow> cr_passes s = [] \<and>
     ((\<exists>e. waiting v e \<and> print_sid (fst e) \<notin> scheduled_ids s \<and> job_of l (msg_Payload (entry_msg e)) = dep) \<or>
      (\<exists>i env. redis_held c v i = Some env \<and> job_of l (env_Payload env) = dep))"

lemma at_rest_tracked: "at_rest l c s v dep \<Longrightarrow> tracked l c {} (scheduled_ids s) v dep"
  by (auto simp: at_rest_def tracked_def evidence_def behind_def)

lemma crew_ok_idle: "sane l c v \<Longrightarrow> crew_ok l c {} v idle_crew"
  by (simp add: crew_ok_def idle_crew_def)

text \<open>
  C2. Between two calls or commands no request is lost, but by a trim that races a delivery. Any number of workers, wired by \<open>run\<close>, on one Redis with
  the documented behaviour; the calls of their handlers (load, lock, transitions, export, retry, dead letter, event, acknowledgement), the Redis
  commands of their dispatchers (list, read, drop, publish, remove) and of their trims of the main stream (pending entries, groups, trim), their fetches, reclaims, the trims of
  the other streams and new requests come in any order, several handlers can have the same message, several passes the same envelope, and a
  worker can be killed between any two of them. Take a moment at which no dispatcher pass is under way, and a deployment with a request that waits
  in the main stream and for which no handler under way has already scheduled a retry, or with a stored retry. The deployment stays alive in Redis
  until a handler of one of its messages acknowledges with calls after which \<open>Handle\<close> can only return an outcome that ends the job, or until a call of
  \<open>TrimMain\<close> cuts an entry of the deployment that was first delivered after that call had asked for the pending entries.
\<close>

theorem crew_loses_no_job:
  assumes "job_queue r view c cmp l" "\<And>i. member_ok view c cmp l (M i)" "sane l c (view w0)"
    and "crew_run r view M idle_crew w0 hs0 s w" "at_rest l c s (view w) dep" "crew_run r view M s w hs s' w'"
  shows "alive l c (view w') dep \<or> (\<exists>h \<in> set hs. ends_job M l dep h) \<or>
    (\<exists>e \<in> set (drop (length (cr_cut s)) (cr_cut s')). job_of l (msg_Payload (entry_msg e)) = dep)"
proof -
  obtain P where "crew_keeps M l c {} (view w0) idle_crew hs0 P (view w) s"
    using crew_run_keeps [where M = M and view = view, OF assms(1,2,4) crew_ok_idle [OF assms(3)]] by blast
  then have "crew_ok l c {} (view w) s" using assms(5) by (simp add: crew_keeps_def crew_ok_def at_rest_def)
  then obtain P' where "crew_keeps M l c {} (view w) s hs P' (view w') s'"
    using crew_run_keeps [where M = M and view = view, OF assms(1,2,6)] by blast
  with at_rest_tracked [OF assms(5)] tracked_alive show ?thesis unfolding crew_keeps_def by fastforce
qed

text \<open>Whole stretches of calls and of commands, for the examples.\<close>

fun makes_all :: "'w deps \<Rightarrow> call list \<Rightarrow> 'w \<Rightarrow> 'w \<Rightarrow> bool" where
  "makes_all d [] w w' \<longleftrightarrow> w' = w"
| "makes_all d (y # ys) w w' \<longleftrightarrow> (\<exists>w1. makes d y w w1 \<and> makes_all d ys w1 w')"

fun acked_at :: "nat \<Rightarrow> message \<Rightarrow> call list \<Rightarrow> call list \<Rightarrow> (nat \<times> message \<times> call list) list" where
  "acked_at i m cs [] = []"
| "acked_at i m cs (y # ys) = (if is_ack y then [(i, m, cs @ [y])] else []) @ acked_at i m (cs @ [y]) ys"

lemma calls_run:
  assumes "crew_run r view M s0 w0 hs s w" "cr_handlers s = [(i, m, cs)]" "handle_log (mb_processor (M i)) m out (cs @ ys)"
    and "makes_all (mb_processor (M i)) ys w w'"
  shows "crew_run r view M s0 w0 (hs @ acked_at i m cs ys) (s\<lparr>cr_handlers := [(i, m, cs @ ys)]\<rparr>) w'"
  using assms
proof (induction ys arbitrary: hs s cs w)
  case Nil
  then have eq: "s\<lparr>cr_handlers := [(i, m, cs)]\<rparr> = s" by (cases s) simp
  with Nil show ?case by (simp only: append_Nil2 acked_at.simps makes_all.simps eq)
next
  case (Cons y ys)
  from Cons.prems(4) obtain w1 where w1: "makes (mb_processor (M i)) y w w1" "makes_all (mb_processor (M i)) ys w1 w'" by auto
  from crew_step.calls [where M = M and view = view, of s "[]" i m cs "[]", unfolded append_Nil, OF Cons.prems(2,3) w1(1)]
  have "crew_run r view M s0 w0 (hs @ (if is_ack y then [(i, m, cs @ [y])] else [])) (s\<lparr>cr_handlers := [(i, m, cs @ [y])]\<rparr>) w1"
    by (rule crew_run.further [OF Cons.prems(1)])
  from Cons.IH [OF this _ _ w1(2), of "cs @ [y]"] Cons.prems(3) show ?case by simp
qed

text \<open>Collaborators whose deployment service does not answer and whose failure event is refused, and the calls of \<open>Handle\<close> on them.\<close>

definition script_deps :: "nat deps" where
  "script_deps =
     \<lparr>Consumer_Ack = (\<lambda>_. ret None), DLQ_SendToDLQ = (\<lambda>_. ret None), Retries_Schedule = (\<lambda>_. ret None),
      Locker_Acquire = (\<lambda>_. ret (Inr (ret None))),
      Deploy_Load = (\<lambda>_. ret (Inl (ClassifiedE ErrorCodeDeploymentServiceTimeout FailedStageLoadDeployment (Some (TextE ''none''))))),
      Deploy_Transition = (\<lambda>_ _ _ _ _ _. ret None), Exporter_Export = (\<lambda>_. ret None),
      FailedEmit = Some (\<lambda>_. ret (Some (ClassifiedE ErrorCodeValidationFailed FailedStageEmitReady
        (Some (TextE ''outbound event failed schema self-validation''))))),
      ReadyRedeliver = Some (\<lambda>_ _. ret (Inr True)), Metrics = None, Backoff = DefaultBackoff,
      WorkerID = ''w1'', DryRun = False, MaxRetries = 3, JobTimeout = 90 * Second, Now = Some (ret 0),
      lib = sample_lib, deps_rand_Read = (\<lambda>n. ret (replicate n CHR ''x'')), deps_rand_Float64 = (\<lambda>h. ret 0),
      deps_time_Now = ret 0\<rparr>"

lemma script_handles:
  assumes "run_state (Handle (traced script_deps) m) (0, []) = (out, (n, cs))"
  shows "handle_log (mb_processor server_member) m out cs"
  unfolding handle_log_def
proof (rule exI [of _ script_deps], rule exI [of _ 0], rule exI [of _ n], intro conjI)
  have "\<not> cfg_WorkerDryRun (config_fields deployed_env)" by code_simp
  then show "DryRun script_deps = DryRun (mb_processor server_member)"
      "(ReadyRedeliver script_deps = None) = (ReadyRedeliver (mb_processor server_member) = None)"
    by (simp_all add: script_deps_def mb_processor_def run_processor_def New_def Let_def server_member_def)
qed (use assms in \<open>simp_all add: script_deps_def mb_processor_def run_processor_def New_def Let_def server_member_def server_platform_def\<close>)

text \<open>The answers of the wired collaborators, computed: the world after a call that is answered as in the log.\<close>

definition answers :: "('w, 'a) state \<Rightarrow> 'a \<Rightarrow> 'w \<Rightarrow> 'w option" where
  "answers m a w = (case run_state m w of (b, w') \<Rightarrow> if b = a then Some w' else None)"

fun after_call :: "'w deps \<Rightarrow> call \<Rightarrow> 'w \<Rightarrow> 'w option" where
  "after_call d (LoadC dep res) w = answers (Deploy_Load d dep) res w"
| "after_call d (ScheduleC env err) w = answers (Retries_Schedule d env) err w"
| "after_call d (DLQC e err) w = answers (DLQ_SendToDLQ d e) err w"
| "after_call d (EmitC ev err) w = (case FailedEmit d of None \<Rightarrow> None | Some f \<Rightarrow> answers (f ev) err w)"
| "after_call d (AckC ids err) w = answers (Consumer_Ack d ids) err w"
| "after_call d _ w = None"

fun after_calls :: "'w deps \<Rightarrow> call list \<Rightarrow> 'w \<Rightarrow> 'w option" where
  "after_calls d [] w = Some w"
| "after_calls d (y # ys) w = Option.bind (after_call d y w) (after_calls d ys)"

lemma answers_run: "answers m a w = Some w' \<longleftrightarrow> run_state m w = (a, w')"
  by (auto simp: answers_def split: prod.splits)

lemma after_call_makes: "after_call d y w = Some w' \<Longrightarrow> makes d y w w'"
  by (cases y) (auto simp: answers_run split: option.splits)

lemma after_calls_makes: "after_calls d ys w = Some w' \<Longrightarrow> makes_all d ys w w'"
  by (induction ys arbitrary: w) (auto simp: bind_eq_Some_conv dest: after_call_makes)

definition fetch_one :: "server \<Rightarrow> (goroutine \<times> message list) \<times> server" where
  "fetch_one = run_state (routine_call server_member False False Consume)"

text \<open>A message is fetched by an otherwise idle worker and handled on those collaborators.\<close>

lemma fetch_and_handle:
  assumes "crew_run r view (\<lambda>_. server_member) s0 w0 hs s w" "cr_hand s = []" "cr_handlers s = []" "cr_trims s = []"
    and "fst (fetch_one w) = (Handling [m], [m])" and run: "run_state (Handle (traced script_deps) m) (0, []) = (out, (n, cs))"
    and answers: "makes_all (mb_processor server_member) cs (snd (fetch_one w)) w'"
  shows "crew_run r view (\<lambda>_. server_member) s0 w0 (hs @ acked_at i m [] cs) (s\<lparr>cr_handlers := [(i, m, cs)]\<rparr>) w'"
proof -
  let ?M = "\<lambda>_ :: nat. server_member"
  have fetch: "run_state (routine_call (?M i) False False Consume) w = ((Handling [m], [m]), snd (fetch_one w))"
    using assms(5) by (simp add: fetch_one_def prod_eq_iff)
  have eq: "s\<lparr>cr_hand := x, cr_trims := []\<rparr> = s\<lparr>cr_hand := x\<rparr>" for x using assms(4) by (cases s) simp
  have "crew_run r view ?M s0 w0 hs (s\<lparr>cr_hand := [(i, m)], cr_trims := []\<rparr>) (snd (fetch_one w))"
    using crew_run.further [OF assms(1) crew_step.takes [where M = ?M, OF fetch]] assms(2,4) by simp
  then have "crew_run r view ?M s0 w0 hs (s\<lparr>cr_hand := [(i, m)]\<rparr>) (snd (fetch_one w))" by (simp only: eq)
  from crew_run.further [OF this crew_step.begins [of i m]]
  have "crew_run r view ?M s0 w0 hs (s\<lparr>cr_hand := [], cr_handlers := [(i, m, [])]\<rparr>) (snd (fetch_one w))" using assms(3) by simp
  from calls_run [where M = ?M, OF this _ _ answers, of i m "[]" out] script_handles [OF run]
  have "crew_run r view ?M s0 w0 (hs @ acked_at i m [] cs) (s\<lparr>cr_hand := [], cr_handlers := [(i, m, cs)]\<rparr>) w'" by simp
  moreover have "s\<lparr>cr_hand := []\<rparr> = s" using assms(2) by (cases s) simp
  ultimately show ?thesis by (metis crew.surjective crew.update_convs(1))
qed

text \<open>A request whose load fails: the retry is scheduled, then the message is acknowledged, and the job is alive.\<close>

definition unanswered :: gerr where
  "unanswered = ClassifiedE ErrorCodeDeploymentServiceTimeout FailedStageLoadDeployment (Some (TextE ''none''))"

definition retried_message :: "nat \<Rightarrow> nat \<Rightarrow> int \<Rightarrow> message" where
  "retried_message a b attempt = entry_msg ((a, b), [(''payload'', ''request''), (''attempt'', FormatInt attempt)])"

definition retry_calls :: "message \<Rightarrow> int \<Rightarrow> call list" where
  "retry_calls m due =
     [LoadC ''d1'' (Inl unanswered),
      ScheduleC \<lparr>env_RetryEnvelopeID = EnvelopeID ''d1'' (msg_Attempt m + 1) ErrorCodeDeploymentServiceTimeout, env_DeploymentID = ''d1'',
        env_Attempt = msg_Attempt m + 1, env_NextAttemptAt = due, env_LastErrorCode = ErrorCodeDeploymentServiceTimeout,
        env_TraceID = ''78787878787878787878787878787878'', env_Payload = ''request''\<rparr> None,
      AckC [msg_ID m] None]"

lemma retried_run: "run_state (Handle (traced script_deps) (retried_message 5 0 1)) (0, []) =
    (OutcomeRetryScheduled, (0, retry_calls (retried_message 5 0 1) 10000))"
  by code_simp

lemma retried_fetch: "fst (fetch_one request_server) = (Handling [retried_message 5 0 1], [retried_message 5 0 1])"
  by code_simp

lemma retried_answers:
  "after_calls (mb_processor server_member) (retry_calls (retried_message 5 0 1) 10000) (snd (fetch_one request_server)) \<noteq> None"
  by code_simp

text \<open>A retry that was scheduled before the acknowledgement: the job goes on.\<close>

lemma retry_goes_on:
  assumes "run_state (Handle (traced script_deps) m) (0, []) = (OutcomeRetryScheduled, (n, cs))"
  shows "\<not> ends_job (\<lambda>_. server_member) l dep (i, m, cs)"
proof
  assume "ends_job (\<lambda>_. server_member) l dep (i, m, cs)"
  moreover have "handle_log (mb_processor server_member) m OutcomeRetryScheduled (cs @ [])" using script_handles [OF assms] by simp
  ultimately have "OutcomeRetryScheduled \<in> finished" unfolding ends_job_def by blast
  then show False by (simp add: finished_def)
qed

theorem crew_loses_no_job_witness:
  "\<exists>s w. crew_run server_redis server_view (\<lambda>_. server_member) idle_crew request_server
      [(0, retried_message 5 0 1, retry_calls (retried_message 5 0 1) 10000)] s w \<and> alive sample_lib line_codec (server_view w) ''d1''"
proof -
  let ?M = "\<lambda>_ :: nat. server_member" and ?m = "retried_message 5 0 1"
  obtain w where w: "after_calls (mb_processor server_member) (retry_calls ?m 10000) (snd (fetch_one request_server)) = Some w"
    using retried_answers by blast
  have acked: "acked_at 0 ?m [] (retry_calls ?m 10000) = [(0, ?m, retry_calls ?m 10000)]" by (simp add: retry_calls_def)
  have run: "crew_run server_redis server_view ?M idle_crew request_server [(0, ?m, retry_calls ?m 10000)]
      (idle_crew\<lparr>cr_handlers := [(0, ?m, retry_calls ?m 10000)]\<rparr>) w"
    using fetch_and_handle [OF crew_run.nothing _ _ _ retried_fetch retried_run after_calls_makes [OF w], of idle_crew server_redis server_view 0] acked
    by (simp add: idle_crew_def)
  have rest: "at_rest sample_lib line_codec idle_crew (server_view request_server) ''d1''"
    using request_server_alive by (simp add: at_rest_def alive_def idle_crew_def scheduled_ids_def)
  have "alive sample_lib line_codec (server_view w) ''d1'' \<or>
      (\<exists>h \<in> set [(0, ?m, retry_calls ?m 10000)]. ends_job ?M sample_lib ''d1'' h) \<or>
      (\<exists>e \<in> set (drop (length (cr_cut idle_crew)) (cr_cut (idle_crew\<lparr>cr_handlers := [(0, ?m, retry_calls ?m 10000)]\<rparr>))).
         job_of sample_lib (msg_Payload (entry_msg e)) = ''d1'')"
    by (rule crew_loses_no_job [OF server_jobs.job_queue_axioms server_member_ok request_server_sane crew_run.nothing rest run])
  with run retry_goes_on [OF retried_run] show ?thesis by (auto simp: idle_crew_def)
qed

end
