(* ===== verification/Late_Remove.thy ===== *)
theory Late_Remove
  imports Interleaving
begin

text \<open>
  Why \<open>Interleaving\<close> speaks of jobs that are at rest when no pass of a dispatcher is under way. The key of an envelope is the
  deployment, the attempt and the error code, so a later request of the same deployment can come to the same key; a dispatcher that has published the earlier
  envelope and is slow to remove it then removes the later one. A run of the code is shown that loses a request in this way.
\<close>

declare split_paired_All [simp del] split_paired_Ex [simp del]

section \<open>The dispatcher\<close>

text \<open>An envelope for the third and last attempt, due at once.\<close>

definition last_envelope :: retry_envelope where
  "last_envelope =
     \<lparr>env_RetryEnvelopeID = EnvelopeID ''d1'' 3 ErrorCodeDeploymentServiceTimeout, env_DeploymentID = ''d1'', env_Attempt = 3,
      env_NextAttemptAt = 0, env_LastErrorCode = ErrorCodeDeploymentServiceTimeout, env_TraceID = ''tr'', env_Payload = ''request''\<rparr>"

definition last_raw :: string where
  "last_raw = (case enc_Envelope line_codec last_envelope of Inr raw \<Rightarrow> raw | Inl _ \<Rightarrow> [])"

text \<open>A server with these entries of the main stream, delivered ID, pending IDs, retry index, payloads and dead letters.\<close>

definition race_world :: "(stream_id \<times> fields) list \<Rightarrow> stream_id \<Rightarrow> stream_id list \<Rightarrow> (string \<times> int) list \<Rightarrow> (string \<rightharpoonup> string) \<Rightarrow>
    (stream_id \<times> fields) list \<Rightarrow> server" where
  "race_world ms ld pl zs hs dq = empty_server
     \<lparr>srv_streams := (\<lambda>_. [])(StreamMain := ms, StreamDLQ := dq),
      srv_groups := (\<lambda>_. [])(StreamMain := [(ConsumerGroup, \<lparr>last_delivered = ld, pel = pl\<rparr>)]),
      srv_hashes := (\<lambda>_. Map.empty)(KeyRetryPayloads := hs), srv_zsets := (\<lambda>_. [])(KeyRetryZSet := zs)\<rparr>"

abbreviation last_key :: string where
  "last_key \<equiv> env_RetryEnvelopeID last_envelope"

definition race_server :: server where
  "race_server = race_world [] (0, 0) [] [(last_key, 0)] [last_key \<mapsto> last_raw] []"

text \<open>A client that answers as the server does in this run.\<close>

definition script_redis :: "(nat \<times> command list) redis" where
  "script_redis =
     \<lparr>XAdd = (\<lambda>key vals. logged (AddD key vals) (ret (Inr (print_sid (0, 1))))),
      XReadGroup = (\<lambda>_ _ _ _ _. ret (Inl RedisNilE)), XAck = (\<lambda>_ _ _. ret None), XAutoClaim = (\<lambda>_ _ _ _ _ _. ret (Inr [])),
      XPending = (\<lambda>_ _. ret (Inl RedisNilE)), XInfoGroups = (\<lambda>_. ret (Inr [])), XTrimMinID = (\<lambda>_ _. ret (Inr 0)),
      XGroupCreateMkStream = (\<lambda>_ _ _. ret None),
      TxPipeline_Exec = (\<lambda>cmds. logged (TxD cmds) (ret None)), Cmd_Err = (\<lambda>cmd. logged (DropD cmd) (ret None)),
      ZRangeByScore = (\<lambda>key mx n. logged (RangeD key mx n) (ret (Inr [last_key]))),
      HMGet = (\<lambda>key fs. logged (ReadD key fs) (ret (Inr [Some last_raw]))),
      ZRangeWithScores = (\<lambda>key a b. logged (ScoresD key a b) (ret (Inr []))),
      SetNX = (\<lambda>_ _ _. ret (Inr True)), lua_get = (\<lambda>_. ret None), lua_pexpire = (\<lambda>_ _. ret 0), lua_del = (\<lambda>_. ret 0),
      Eval = (\<lambda>_. ret (Inr 0))\<rparr>"

definition list_command :: command where
  "list_command = RangeD KeyRetryZSet 0 100 (Inr [last_key])"

definition read_command :: command where
  "read_command = ReadD KeyRetryPayloads [last_key] (Inr [Some last_raw])"

definition publish_command :: command where
  "publish_command = AddD StreamMain (publish_values (envelope_message last_envelope)) (Inr (print_sid (0, 1)))"

definition remove_command :: command where
  "remove_command = TxD [ZRem KeyRetryZSet (last_key), HDel KeyRetryPayloads (last_key)] None"

lemma race_pass: "pass_log line_codec [list_command, read_command, publish_command, remove_command, ScoresD KeyRetryZSet 0 0 (Inr [])]"
  unfolding pass_log_def
proof (intro exI conjI)
  show "scripted script_redis" by (auto simp: scripted_def script_redis_def)
  show "run_state (Tick (redis_dispatcher \<lparr>rdb = script_redis, consumer = ''w''\<rparr> line_codec (Some (\<lambda>k. quiet ((\<lambda>_. ret ()) k))) 0 0 (quiet (ret 0))) 0) (0, []) =
      ((), (0, [list_command, read_command, publish_command, remove_command, ScoresD KeyRetryZSet 0 0 (Inr [])]))"
    by code_simp
qed

lemma send_run:
  assumes "crew_run r view (\<lambda>_. server_member) s0 w0 hs s w" "cr_passes s = [(0, cs)]" "pass_log line_codec (cs @ y # rest)"
    and "runs server_redis y w w'"
  shows "crew_run r view (\<lambda>_. server_member) s0 w0 hs (s\<lparr>cr_passes := [(0, cs @ [y])]\<rparr>) w'"
proof -
  let ?M = "\<lambda>_ :: nat. server_member"
  have log: "pass_log (pf_env_codec (mb_platform (?M 0))) (cs @ y # rest)" using assms(3) by (simp add: server_member_def server_platform_def)
  have "runs (mb_redis (?M 0) False) y w w'" using assms(4) by (simp add: server_member_def)
  from crew_run.further [OF assms(1) crew_step.sends [where M = ?M and view = view, of s "[]" 0 cs "[]", unfolded append_Nil, OF assms(2) log this]]
  show ?thesis by simp
qed

section \<open>The commands on these servers\<close>

lemma keys_apart [simp]: "StreamMain \<noteq> StreamDLQ" "StreamDLQ \<noteq> StreamMain"
  by (simp_all add: StreamMain_def StreamDLQ_def)

lemma race_fields [simp]:
  "srv_faults (race_world ms ld pl zs hs dq) = []" "srv_time (race_world ms ld pl zs hs dq) = 0"
  "srv_streams (race_world ms ld pl zs hs dq) StreamMain = ms" "srv_streams (race_world ms ld pl zs hs dq) StreamDLQ = dq"
  "srv_groups (race_world ms ld pl zs hs dq) StreamMain = [(ConsumerGroup, \<lparr>last_delivered = ld, pel = pl\<rparr>)]"
  "srv_groups (race_world ms ld pl zs hs dq) StreamDLQ = []"
  "srv_hashes (race_world ms ld pl zs hs dq) KeyRetryPayloads = hs" "srv_zsets (race_world ms ld pl zs hs dq) KeyRetryZSet = zs"
  by (simp_all add: race_world_def empty_server_def)

lemma race_updates:
  "(race_world ms ld pl zs hs dq)\<lparr>srv_streams := (srv_streams (race_world ms ld pl zs hs dq))(StreamMain := ms')\<rparr> = race_world ms' ld pl zs hs dq"
  "(race_world ms ld pl zs hs dq)\<lparr>srv_streams := (srv_streams (race_world ms ld pl zs hs dq))(StreamDLQ := dq')\<rparr> = race_world ms ld pl zs hs dq'"
  "(race_world ms ld pl zs hs dq)\<lparr>srv_groups := (srv_groups (race_world ms ld pl zs hs dq))
     (StreamMain := [(ConsumerGroup, \<lparr>last_delivered = ld', pel = pl'\<rparr>)])\<rparr> = race_world ms ld' pl' zs hs dq"
  "(race_world ms ld pl zs hs dq)\<lparr>srv_hashes := (srv_hashes (race_world ms ld pl zs hs dq))(KeyRetryPayloads := hs')\<rparr> = race_world ms ld pl zs hs' dq"
  "(race_world ms ld pl zs hs dq)\<lparr>srv_zsets := (srv_zsets (race_world ms ld pl zs hs dq))(KeyRetryZSet := zs')\<rparr> = race_world ms ld pl zs' hs dq"
  by (simp_all add: race_world_def empty_server_def fun_upd_twist)

lemma faulty_fine: "srv_faults s = [] \<Longrightarrow> run_state (faulty op) s = op s"
  by (simp add: faulty_def)

lemma race_add:
  assumes "top_sid (race_world ms ld pl zs hs dq) key = (0, n)" "n < 10"
  shows "run_state (XAdd server_redis key vals) (race_world ms ld pl zs hs dq) = (Inr (print_sid (0, Suc n)),
    (race_world ms ld pl zs hs dq)\<lparr>srv_streams := (srv_streams (race_world ms ld pl zs hs dq))
       (key := srv_streams (race_world ms ld pl zs hs dq) key @ [((0, Suc n), vals)])\<rparr>)"
  using assms by (simp add: server_redis_def faulty_fine srv_XAdd_def next_sid_def Let_def UnixMilli_def)

lemma race_fetch:
  assumes "filter (\<lambda>e. sid_less ld (fst e)) ms = e # rest"
  shows "fetch_one (race_world ms ld pl zs hs dq) =
    ((Handling [entry_msg e], [entry_msg e]), race_world ms (fst e) (pl @ [fst e]) zs hs dq)"
  using assms by (simp add: fetch_one_def Fetch_def mb_driver_def server_member_def server_redis_def faulty_fine srv_XReadGroup_def Let_def
      srv_group_update_def race_updates)

lemma race_ack:
  "run_state (Ack (mb_driver server_member False) [print_sid i]) (race_world ms ld pl zs hs dq) =
     (None, race_world ms ld (filter (\<lambda>j. j \<noteq> i) pl) zs hs dq)"
  by (simp add: Ack_def mb_driver_def server_member_def server_redis_def err_only_def faulty_fine srv_XAck_def srv_group_update_def race_updates
      wrap_err_def)

lemma race_schedule:
  assumes "enc_Envelope line_codec env = Inr raw"
  shows "run_state (Schedule server_redis line_codec env) (race_world ms ld pl zs hs dq) =
     (None, race_world ms ld pl ((env_RetryEnvelopeID env, env_NextAttemptAt env) # filter (\<lambda>e. fst e \<noteq> env_RetryEnvelopeID env) zs)
        (hs(env_RetryEnvelopeID env \<mapsto> raw)) dq)"
  using assms by (simp add: Schedule_def server_redis_def err_only_def faulty_fine wrap_err_def) (simp add: race_world_def empty_server_def)

lemma race_remove:
  "run_state (TxPipeline_Exec server_redis [ZRem KeyRetryZSet i, HDel KeyRetryPayloads i]) (race_world ms ld pl zs hs dq) =
     (None, race_world ms ld pl (filter (\<lambda>e. fst e \<noteq> i) zs) (hs(i := None)) dq)"
  by (simp add: server_redis_def err_only_def faulty_fine) (simp add: race_world_def empty_server_def)

text \<open>The message of the last attempt is handled to the dead letters.\<close>

definition last_message :: message where
  "last_message = entry_msg ((0, 1), publish_values (envelope_message last_envelope))"

definition refused_event :: gerr where
  "refused_event = ClassifiedE ErrorCodeValidationFailed FailedStageEmitReady (Some (TextE ''outbound event failed schema self-validation''))"

definition last_event :: export_failed where
  "last_event =
     \<lparr>fld_SchemaVersion = 1, fld_EventID = ''evt_787878787878787878787878'', fld_EventType = ''deployment.export.failed'',
      fld_DeploymentID = ''d1'', fld_TeamID = ''t1'', fld_SiteID = ''s1'', fld_PageID = ''p1'', fld_Slug = ''/home'', fld_Version = ''v1'',
      fld_Environment = ''production'', fld_RenderMode = ''fetch_route'', fld_ErrorCode = ErrorCodeDeploymentServiceTimeout,
      fld_ErrorClassification = ErrorClassificationRetryable, fld_FailedStage = FailedStageLoadDeployment, fld_Attempt = 3,
      fld_RetryExhausted = True, fld_TraceID = ''tr'', fld_CreatedAt = format_RFC3339 0\<rparr>"

definition last_letter :: dlq_entry where
  "last_letter =
     \<lparr>dlq_Payload = ''request'', dlq_ErrorCode = ErrorCodeDeploymentServiceTimeout, dlq_FailedStage = FailedStageLoadDeployment,
      dlq_Attempt = 3, dlq_TraceID = ''tr'', dlq_WorkerID = ''w1'', dlq_EnqueuedAt = 0, dlq_FailedAt = 0\<rparr>"

definition last_log :: "call list" where
  "last_log = [LoadC ''d1'' (Inl unanswered), DLQC last_letter None, EmitC last_event (Some refused_event), AckC [print_sid (0, 1)] None]"

lemma last_run: "run_state (Handle (traced script_deps) last_message) (0, []) = (OutcomeDLQ, (0, last_log))"
  by code_simp

lemma second_run: "run_state (Handle (traced script_deps) (retried_message 0 2 2)) (0, []) =
    (OutcomeRetryScheduled, (0, retry_calls (retried_message 0 2 2) 20000))"
  by code_simp

text \<open>Their deployment service does not answer, and their failure event is refused.\<close>

lemma race_load: "run_state (Deploy_Load (mb_processor server_member) ''d1'') w = (Inl unanswered, w)"
proof -
  have "ds_classify (TextE ''none'') FailedStageLoadDeployment = unanswered" by code_simp
  then show ?thesis
    by (simp add: mb_processor_def run_processor_def New_def Let_def server_member_def server_platform_def run_deploy_def deployment_New_def
        Load_def GetDeployment_def ds_do_def)
qed

lemma last_event_refused:
  "(case json_Marshal (ml_json world_lib) (export_failed_json last_event) of
      Inl err \<Rightarrow> False | Inr payload \<Rightarrow> ValidateBytes (ml_json world_lib) (ml_regexp world_lib) SchemaExportFailed payload \<noteq> [])"
  by code_simp

lemma race_emit: "makes (mb_processor server_member) (EmitC last_event (Some refused_event)) w w"
proof -
  have "\<not> cfg_WorkerDryRun (config_fields deployed_env)" by code_simp
  then have "FailedEmit (mb_processor server_member) = Some (EmitFailed (run_emitter server_platform (mb_driver server_member False)))"
    by (simp add: mb_processor_def run_processor_def New_def Let_def server_member_def)
  then show ?thesis
    using last_event_refused
    by (auto simp: EmitFailed_def emit_def run_emitter_def server_platform_def refused_event_def as_error_def errclass_New_def
        split: sum.splits list.splits)
qed

section \<open>The run\<close>

definition second_request :: fields where
  "second_request = [(''payload'', ''request''), (''attempt'', ''2'')]"

definition last_values :: fields where
  "last_values = publish_values (envelope_message last_envelope)"

lemma second_message: "entry_msg ((0, 2), second_request) = retried_message 0 2 2"
  by code_simp

text \<open>After the publication, after the end of the published message, after the second request, and after its retry.\<close>

definition ended_world :: server where
  "ended_world = race_world [((0, 1), last_values)] (0, 1) [] [(last_key, 0)] [last_key \<mapsto> last_raw] [((0, 1), dlq_values last_letter)]"

definition requested_world :: server where
  "requested_world = race_world [((0, 1), last_values), ((0, 2), second_request)] (0, 1) [] [(last_key, 0)] [last_key \<mapsto> last_raw]
     [((0, 1), dlq_values last_letter)]"

definition lost_world :: server where
  "lost_world = race_world [((0, 1), last_values), ((0, 2), second_request)] (0, 2) [] [] ([last_key \<mapsto> last_raw](last_key := None))
     [((0, 1), dlq_values last_letter)]"

definition stalled_crew :: crew where
  "stalled_crew = \<lparr>cr_hand = [], cr_handlers = [], cr_passes = [(0, [list_command, read_command, publish_command])],
     cr_trims = [], cr_cut = []\<rparr>"

lemma race_listed: "runs server_redis list_command race_server race_server" "runs server_redis read_command race_server race_server"
  by (simp_all add: list_command_def read_command_def race_server_def server_redis_def faulty_fine srv_ZRangeByScore_def Let_def)

lemma race_published: "runs server_redis publish_command race_server (race_world [((0, 1), last_values)] (0, 0) [] [(last_key, 0)] [last_key \<mapsto> last_raw] [])"
proof -
  have "top_sid (race_world [] (0, 0) [] [(last_key, 0)] [last_key \<mapsto> last_raw] []) StreamMain = (0, 0)" by (simp add: top_sid_def)
  from race_add [OF this, of last_values] show ?thesis by (simp add: publish_command_def race_server_def last_values_def race_updates)
qed

lemma race_wired:
  "Consumer_Ack (mb_processor server_member) = Ack (mb_driver server_member False)"
  "DLQ_SendToDLQ (mb_processor server_member) = SendToDLQ (mb_driver server_member False)"
  "Retries_Schedule (mb_processor server_member) = Schedule server_redis line_codec"
  "rdb (mb_driver server_member False) = server_redis"
  by (simp_all add: mb_processor_def run_processor_def New_def Let_def server_member_def server_platform_def mb_driver_def)

lemma race_ended:
  "makes_all (mb_processor server_member) last_log
     (race_world [((0, 1), last_values)] (0, 1) [(0, 1)] [(last_key, 0)] [last_key \<mapsto> last_raw] []) ended_world"
proof -
  let ?p = "mb_processor server_member" and ?w = "race_world [((0, 1), last_values)] (0, 1) [(0, 1)] [(last_key, 0)] [last_key \<mapsto> last_raw]"
  have "top_sid (?w []) StreamDLQ = (0, 0)" by (simp add: top_sid_def)
  from race_add [OF this, of "dlq_values last_letter"]
  have "makes ?p (DLQC last_letter None) (?w []) (?w [((0, 1), dlq_values last_letter)])"
    by (simp add: race_wired SendToDLQ_def race_updates)
  moreover have "makes ?p (AckC [print_sid (0, 1)] None) (?w [((0, 1), dlq_values last_letter)]) ended_world"
    by (simp add: race_wired race_ack ended_world_def)
  ultimately show ?thesis
    unfolding last_log_def makes_all.simps using race_load race_emit by (metis makes.simps(1))
qed

lemma race_scheduled:
  "\<exists>raw. makes_all (mb_processor server_member) (retry_calls (retried_message 0 2 2) 20000)
     (race_world [((0, 1), last_values), ((0, 2), second_request)] (0, 2) [(0, 2)] [(last_key, 0)] [last_key \<mapsto> last_raw] [((0, 1), dlq_values last_letter)])
     (race_world [((0, 1), last_values), ((0, 2), second_request)] (0, 2) [] [(last_key, 20000)] ([last_key \<mapsto> last_raw](last_key \<mapsto> raw)) [((0, 1), dlq_values last_letter)])"
proof -
  define env where "env = \<lparr>env_RetryEnvelopeID = EnvelopeID ''d1'' (msg_Attempt (retried_message 0 2 2) + 1) ErrorCodeDeploymentServiceTimeout,
      env_DeploymentID = ''d1'', env_Attempt = msg_Attempt (retried_message 0 2 2) + 1, env_NextAttemptAt = 20000,
      env_LastErrorCode = ErrorCodeDeploymentServiceTimeout, env_TraceID = ''78787878787878787878787878787878'', env_Payload = ''request''\<rparr>"
  have m: "msg_Attempt (retried_message 0 2 2) = 2" "msg_ID (retried_message 0 2 2) = print_sid (0, 2)" by code_simp+
  then have key: "env_RetryEnvelopeID env = last_key" "env_NextAttemptAt env = 20000" by (simp_all add: env_def last_envelope_def)
  have "case enc_Envelope line_codec env of Inr raw \<Rightarrow> True | Inl e \<Rightarrow> False" unfolding env_def m by code_simp
  then obtain raw where raw: "enc_Envelope line_codec env = Inr raw" by (auto split: sum.splits)
  note schedule = race_schedule [OF raw, unfolded key]
  show ?thesis
    unfolding retry_calls_def makes_all.simps env_def [symmetric] m(2)
    by (rule exI [of _ raw]) (simp add: race_wired race_load schedule race_ack)
qed

text \<open>Up to the second request: the envelope is published, its message ends in the dead letters, the dispatcher has not yet removed it.\<close>

lemma stalled_run:
  "crew_run server_redis server_view (\<lambda>_. server_member) idle_crew race_server (acked_at 1 last_message [] last_log) stalled_crew ended_world"
proof -
  let ?M = "\<lambda>_ :: nat. server_member" and ?s = "\<lambda>cs. \<lparr>cr_hand = [], cr_handlers = [], cr_passes = [(0 :: nat, cs)], cr_trims = [], cr_cut = []\<rparr>"
  let ?w = "race_world [((0, 1), last_values)] (0, 0) [] [(last_key, 0)] [last_key \<mapsto> last_raw] []"
  have "crew_run server_redis server_view ?M idle_crew race_server [] (?s []) race_server"
    using crew_run.further [OF crew_run.nothing crew_step.ticks [of server_redis server_view ?M idle_crew race_server 0]] by (simp add: idle_crew_def)
  from send_run [OF this _ _ race_listed(1), of "[]"] race_pass
  have "crew_run server_redis server_view ?M idle_crew race_server [] (?s [list_command]) race_server" by simp
  from send_run [OF this _ _ race_listed(2), of "[list_command]"] race_pass
  have "crew_run server_redis server_view ?M idle_crew race_server [] (?s [list_command, read_command]) race_server" by simp
  from send_run [OF this _ _ race_published, of "[list_command, read_command]"] race_pass
  have published: "crew_run server_redis server_view ?M idle_crew race_server [] stalled_crew ?w" by (simp add: stalled_crew_def)
  have "fetch_one ?w = ((Handling [last_message], [last_message]),
      race_world [((0, 1), last_values)] (0, 1) [(0, 1)] [(last_key, 0)] [last_key \<mapsto> last_raw] [])"
    using race_fetch [of "(0, 0)" "[((0, 1), last_values)]" "((0, 1), last_values)" "[]"] by (simp add: last_message_def last_values_def)
  with fetch_and_handle [OF published _ _ _ _ last_run, of ended_world 1] race_ended
  have "crew_run server_redis server_view ?M idle_crew race_server (acked_at 1 last_message [] last_log)
      (stalled_crew\<lparr>cr_handlers := [(1, last_message, last_log)]\<rparr>) ended_world" by (simp add: stalled_crew_def)
  from crew_run.further [OF this crew_step.done_handler [where M = ?M, of _ "[]" 1 last_message last_log "[]"]]
    script_handles [OF last_run]
  show ?thesis by (simp add: stalled_crew_def)
qed

lemma second_requested: "run_state (XAdd server_redis StreamMain second_request) ended_world = (Inr (print_sid (0, 2)), requested_world)"
proof -
  have "top_sid ended_world StreamMain = (0, 1)" by (simp add: top_sid_def ended_world_def)
  from race_add [OF this [unfolded ended_world_def], of second_request] show ?thesis
    by (simp add: ended_world_def requested_world_def race_updates numeral_2_eq_2)
qed

text \<open>From the second request on: it fails, its retry is scheduled under the same key and removed by the dispatcher.\<close>

lemma removed_run:
  "\<exists>s. crew_run server_redis server_view (\<lambda>_. server_member) stalled_crew requested_world
     [(1, retried_message 0 2 2, retry_calls (retried_message 0 2 2) 20000)] s lost_world"
proof -
  let ?M = "\<lambda>_ :: nat. server_member" and ?m = "retried_message 0 2 2"
  obtain raw where raw: "makes_all (mb_processor server_member) (retry_calls ?m 20000)
     (race_world [((0, 1), last_values), ((0, 2), second_request)] (0, 2) [(0, 2)] [(last_key, 0)] [last_key \<mapsto> last_raw] [((0, 1), dlq_values last_letter)])
     (race_world [((0, 1), last_values), ((0, 2), second_request)] (0, 2) [] [(last_key, 20000)] ([last_key \<mapsto> last_raw](last_key \<mapsto> raw))
        [((0, 1), dlq_values last_letter)])" (is "makes_all _ _ _ ?w") using race_scheduled by blast
  have fetch: "fetch_one requested_world = ((Handling [?m], [?m]),
      race_world [((0, 1), last_values), ((0, 2), second_request)] (0, 2) [(0, 2)] [(last_key, 0)] [last_key \<mapsto> last_raw] [((0, 1), dlq_values last_letter)])"
    using race_fetch [of "(0, 1)" "[((0, 1), last_values), ((0, 2), second_request)]" "((0, 2), second_request)" "[]"]
    by (simp add: requested_world_def second_message)
  have "acked_at 1 ?m [] (retry_calls ?m 20000) = [(1, ?m, retry_calls ?m 20000)]" by (simp add: retry_calls_def)
  with fetch fetch_and_handle [OF crew_run.nothing _ _ _ _ second_run, of stalled_crew requested_world ?w server_redis server_view 1] raw
  have "crew_run server_redis server_view ?M stalled_crew requested_world [(1, ?m, retry_calls ?m 20000)]
      (stalled_crew\<lparr>cr_handlers := [(1, ?m, retry_calls ?m 20000)]\<rparr>) ?w" by (simp add: stalled_crew_def)
  moreover have "runs server_redis remove_command ?w lost_world" by (simp add: remove_command_def race_remove lost_world_def)
  ultimately show ?thesis
    using send_run [of server_redis server_view stalled_crew requested_world _ _ ?w "[list_command, read_command, publish_command]" remove_command] race_pass
    by (fastforce simp: stalled_crew_def)
qed

lemma lost_dead: "\<not> alive sample_lib line_codec (server_view lost_world) ''d1''"
proof -
  have "redis_held line_codec (server_view lost_world) i = None" for i
    by (simp add: redis_held_def lost_world_def server_view_def)
  moreover have "\<not> waiting (server_view lost_world) e" for e
    by (auto simp: waiting_def delivered_def pending_entry_def main_group_server lost_world_def) (auto simp: server_view_def)
  ultimately show ?thesis by (simp add: alive_def)
qed

lemma requested_alive: "alive sample_lib line_codec (server_view requested_world) ''d1''"
  unfolding alive_def
proof (rule disjI1, rule exI [of _ "((0, 2), second_request)"], rule conjI)
  show "waiting (server_view requested_world) ((0, 2), second_request)"
    by (simp add: waiting_def delivered_def main_group_server requested_world_def sid_less.simps) (simp add: server_view_def)
  show "job_of sample_lib (msg_Payload (entry_msg ((0, 2), second_request))) = ''d1''"
    by (simp add: job_of_def entry_msg_def fromXMessage_def second_request_def sample_accepted sample_event_def)
qed

text \<open>
  C38. A late removal loses a request. A dispatcher has published the envelope of a deployment's last attempt and not yet removed it; the message is handled and ends in
  the dead letters. Now a second request of the deployment arrives. Its load fails, too, with the same error; the retry is scheduled, under the key that the
  envelope before it had, and the message is acknowledged. Then the dispatcher sends its removal: the stream and the retry store hold nothing
  of the request, no handler has ended its job, and no dead letter was written for it.
\<close>

theorem late_remove_loses_request:
  "\<exists>hs0 s hs s'. crew_run server_redis server_view (\<lambda>_. server_member) idle_crew race_server hs0 s ended_world \<and>
     run_state (XAdd server_redis StreamMain second_request) ended_world = (Inr (print_sid (0, 2)), requested_world) \<and>
     alive sample_lib line_codec (server_view requested_world) ''d1'' \<and>
     crew_run server_redis server_view (\<lambda>_. server_member) s requested_world hs s' lost_world \<and>
     \<not> alive sample_lib line_codec (server_view lost_world) ''d1'' \<and>
     \<not> (\<exists>h \<in> set hs. ends_job (\<lambda>_. server_member) sample_lib ''d1'' h) \<and>
     srv_streams lost_world StreamDLQ = srv_streams ended_world StreamDLQ"
proof -
  obtain s' where run: "crew_run server_redis server_view (\<lambda>_. server_member) stalled_crew requested_world
      [(1, retried_message 0 2 2, retry_calls (retried_message 0 2 2) 20000)] s' lost_world"
    using removed_run by blast
  have "\<not> (\<exists>h \<in> set [(1, retried_message 0 2 2, retry_calls (retried_message 0 2 2) 20000)]. ends_job (\<lambda>_. server_member) sample_lib ''d1'' h)"
    using retry_goes_on [OF second_run] by simp
  moreover have "srv_streams lost_world StreamDLQ = srv_streams ended_world StreamDLQ" by (simp add: lost_world_def ended_world_def)
  ultimately show ?thesis using stalled_run second_requested requested_alive run lost_dead by blast
qed

end
