(* ===== verification/Spec2Isabelle.thy ===== *)
theory Spec2Isabelle
  imports Startup Asset_Client Late_Remove
begin

text \<open>
  Verification of the export worker (\<open>src/\<close>): a Go service that takes export requests from a Redis stream, renders a
  published page through the render origin, uploads the result to object storage and moves the deployment
  record from EXPORT_QUEUED over EXPORTING to ARTIFACT_READY or EXPORT_FAILED.

  \<^bold>\<open>Parts and theories.\<close>
  \<^item> \<open>Prelude\<close>, \<open>Go_URL\<close>, \<open>Go_Time\<close>: the functions of Go's standard library that the code calls, on byte strings;
    effects as a state monad over an unknown world with weakest preconditions.
  \<^item> \<open>Contracts\<close> (\<open>src/contracts/\<close>): enums, events and records. \<open>Schemas\<close>: the JSON schemas of the contracts.
  \<^item> \<open>Errclass\<close> (\<open>src/internal/errclass\<close>): errors, error chains, classification.
  \<^item> \<open>Jsonschema\<close> (\<open>src/internal/jsonschema\<close>): the validator and the audit of schemas.
  \<^item> \<open>Paths\<close> (\<open>src/internal/harvest/paths.go\<close>): path normalisation and storage keys.
  \<^item> \<open>Deployment\<close> (\<open>src/internal/deployment\<close>, \<open>src/contracts/deploymentservice\<close>): the client of the deployment service.
  \<^item> \<open>Redis\<close>: the commands of the server as a record of operations, and the state the commands speak about;
    \<open>Redis_Server\<close>: an executable server with faults, on which the interfaces are interpreted.
  \<^item> \<open>Queue\<close>, \<open>Retry\<close>, \<open>Dispatcher\<close>, \<open>Trim\<close> (\<open>src/internal/queue\<close>): stream driver, retry store and backoff, dispatcher,
    retention.
  \<^item> \<open>Lock\<close> (\<open>src/internal/lock\<close>): the per-deployment lock with heartbeat.
  \<^item> \<open>Emit\<close> (\<open>src/internal/emit\<close>, \<open>src/internal/queue/validate.go\<close>): outbound events and the parsing of requests.
  \<^item> \<open>Processor\<close> (\<open>src/internal/worker\<close>): the processing of one message. \<open>Protocol\<close>: its abstract specification, a
    relation between the outcome and the calls to the collaborators, with the refinement proof. \<open>Ack_Rule\<close>: what follows
    from it for acknowledgements, retries, the lock and the status.
  \<^item> \<open>Storage\<close>, \<open>Manifest\<close> (\<open>src/internal/storage\<close>): the object-storage adapter with its upload pool; cache classes and the
    artifact manifest. \<open>Go_Path\<close>: package \<open>path\<close> and some of \<open>strings\<close>.
  \<^item> \<open>Harvest\<close> (\<open>src/internal/harvest\<close>): references of pages and stylesheets, allowlists, the walk. \<open>Harvest_Walk\<close>: its
    invariant, that it ends, and what it collects.
  \<^item> \<open>Render\<close> (\<open>src/internal/render\<close>): the client of the render origin.
  \<^item> \<open>Export\<close> (\<open>src/internal/export\<close>): the pipeline from the page to the ready event. \<open>Export_Rule\<close>: its abstract
    specification (what is stored when which call is made) and the proof, \<open>Export_World\<close>: an executable world and the
    properties.
  \<^item> \<open>Config\<close> (\<open>src/internal/config\<close>): reading and checking the environment. \<open>Obs\<close>, \<open>Ops\<close>, \<open>Metrics\<close> (\<open>src/internal/obs\<close>): redaction of
    secrets and the lifecycle; the routes of the probes and the server around them; the metric set, its registration and its updates.
  \<^item> \<open>Worker_Rule\<close>: the processor with the pipeline as its exporter. \<open>Export_Frame\<close>: what the pipeline leaves alone. \<open>Observed\<close>: logging the
    calls of the processor does not change what it does.
  \<^item> \<open>Worker_Main\<close>, \<open>Startup\<close>, \<open>Process\<close> (\<open>src/cmd/export-worker\<close>): boot and wiring; \<open>main\<close> and the start of \<open>run\<close>, with tracing and the identity of the
    build; the running process as a step function: its state has the place of \<open>run\<close>, the root context, the lifecycle and the place of every goroutine, and an
    event moves one of them.
  \<^item> \<open>Delivery\<close>: what handling one message does to the jobs in Redis. \<open>Moves\<close>: what a whole move of a worker process does to them when no other client
    disturbs it, and that the wiring of \<open>run\<close> satisfies the interfaces.
  \<^item> \<open>Dispatch_Log\<close>, \<open>Retention_Log\<close>: the Redis commands of a pass of the dispatcher and of a call of \<open>TrimMain\<close>, and why each is sent.
    \<open>Evidence\<close>: where a job is while handlers and dispatchers are interleaved, and what each command does to this place. \<open>Interleaving\<close>: any number of
    workers, call by call and command by command.
    \<open>Late_Remove\<close>: the run in which a dispatcher removes the retry of a later request.
  \<^item> \<open>Asset_Client\<close> (\<open>src/contracts/assetservice\<close>): the generated client of the asset service.

  \<^bold>\<open>Interfaces.\<close> The server, the services and the libraries that are not in the repository are parameters. What a
  component relies on is a locale over them: \<open>redis_store\<close> and \<open>retry_store\<close> (the retry store), \<open>dispatch_env\<close> and
  \<open>redis_dispatch\<close> (the dispatcher), \<open>trim_env\<close> (retention among other clients), \<open>lock_env\<close> (the lock), \<open>s3_env\<close> (the
  storage adapter) and, extending it, \<open>export_env\<close> (the pipeline), \<open>queue_redis\<close> and \<open>job_queue\<close> (the whole queue), \<open>prometheus\<close> (the metrics
  client). Each is interpreted on the operations of the model over the executable servers.

  \<^bold>\<open>Effects.\<close> An effectful call is a value of \<open>('w, 'a) state\<close>. A theorem about \<open>Handle\<close> holds for every world and every
  answer of every collaborator; deadlines and a lost lease show as errors of the calls. In the running process (\<open>Process\<close>), whose properties are
  about its life cycle, a fetch, a reclaim, the handling of a message and a round of the other goroutines are one step each; a Redis client is given whether the context of a
  call is done when it begins. In \<open>Interleaving\<close> a step is one call of \<open>Handle\<close> or one Redis command of \<open>Tick\<close>, of \<open>TrimMain\<close> or of a fetch, a reclaim, the
  gauge or another trim: the calls and commands are those of \<open>Handle\<close>, \<open>Tick\<close> and \<open>TrimMain\<close> themselves, run on collaborators that give the answers which the
  shared world gave.

  \<^bold>\<open>Bounds.\<close> \<open>int64\<close> arithmetic that can leave its range is written out (\<open>TTLFor\<close>, \<open>backoff_ceiling\<close>, stream IDs).
  The loops are over lists; the decoding rounds of \<open>NormalizePath\<close> are bounded as in the code. The walk of the harvest
  has fuel: \<open>harvest_returns\<close> shows that the number of references of the page plus two for each byte that the limit
  leaves is enough. The pool of \<open>UploadAll\<close> follows a schedule and then drains, in at most two steps for each object.

  \<^bold>\<open>What is shown.\<close> The processor refines an abstract protocol, from which follow the acknowledgement rule, the retry
  budget and the lock discipline. For any number of workers whose calls and Redis commands are interleaved one by one,
  with kills between any two, no request is lost before a message of it is acknowledged with a final outcome, with two provisos. The request is one that is
  there at a moment when no pass of a dispatcher is under way, and no handler of its entry has already scheduled its retry; a run shows that the code can lose
  one otherwise. And no trim of the main stream cuts an entry of it that was first delivered after this trim had asked for the pending entries; that the code does
  so is shown in general. No retry is lost or published early, and retries end; the lock is exclusive; trimming keeps what is not
  acknowledged, with the one race that the code leaves. The drain of a process is complete, ends and takes no new work; the probes say when it is
  ready; it starts only on a checked configuration and with its dependencies, and its metrics never end it. Paths stay inside their prefix; a harvest ends, is complete and
  stays within its allowlists; uploads are complete and idempotent; nothing is announced before it is stored and a success means
  that everything is delivered; events and manifests conform to their contracts; the configuration is checked completely and secrets
  are not logged. Further theorems show where the code does less than its comments say.

  \<^bold>\<open>Not modelled.\<close> Interleaving inside one call of the export, attribute values that compute themselves when they are logged (\<open>slog.LogValuer\<close>, of which
  the repository has none), the passage of time between ticks, sockets, the JSON output of log records and
  the exposition format, the contents of spans, the help texts of metrics, the texts of log lines and of most error messages, and the test helpers.
\<close>

section \<open>Retries, from the processor through the dispatcher and back\<close>






end
